(* ===== verification/Prelude.thy ===== *)
theory Prelude
  imports Complex_Main
begin

text \<open>
  Shared vocabulary of the development: the identifiers and clocks of the code, the result
  type in which every raise of the Python source is a value, and the generic lemmas on
  results, lists and key-updated tables that the component theories use.
\<close>

section \<open>Collections of facts\<close>

named_theorems result_simps \<open>unfolding of results (sum types) into their success and error cases\<close>
named_theorems table_simps \<open>reads of a table after an insert or a keyed update\<close>

section \<open>Identifiers and clocks\<close>

text \<open>
  A UUID is a natural number; \<open>uuid4()\<close> is modelled in the state as a counter, since the code
  uses nothing of it but freshness. A timestamp (Python \<open>datetime\<close>, time-zone aware) is the
  number of microseconds since the epoch in UTC; a \<open>date\<close> is a day number.
\<close>

type_synonym uuid = nat
type_synonym timestamp = int
type_synonym day = int

section \<open>Results\<close>

text \<open>
  A computation that may raise has type \<open>'e + 'a\<close>: \<open>Inl\<close> of the exception, \<open>Inr\<close> of the
  value. \<open>rbind\<close> is sequencing: the first exception ends the computation, as in Python.
\<close>

fun rbind :: "'e + 'a \<Rightarrow> ('a \<Rightarrow> 'e + 'b) \<Rightarrow> 'e + 'b" where
  "rbind (Inl e) f = Inl e"
| "rbind (Inr x) f = f x"

definition check :: "bool \<Rightarrow> 'e \<Rightarrow> 'e + unit" where
  "check b e = (if b then Inr () else Inl e)"

lemma rbind_cong [fundef_cong]:
  "m = m' \<Longrightarrow> (\<And>x. m' = Inr x \<Longrightarrow> f x = f' x) \<Longrightarrow> rbind m f = rbind m' f'"
  by (cases m') auto

text \<open>For evaluation: a case expression, so that only the branch taken is evaluated.\<close>

lemma rbind_code [code_unfold]: "rbind m f = (case m of Inl e \<Rightarrow> Inl e | Inr x \<Rightarrow> f x)"
  by (cases m) auto

lemma rbind_eq_Inr [result_simps]: "rbind m f = Inr y \<longleftrightarrow> (\<exists>x. m = Inr x \<and> f x = Inr y)"
  by (cases m) auto

lemma rbind_eq_Inl [result_simps]:
  "rbind m f = Inl e \<longleftrightarrow> m = Inl e \<or> (\<exists>x. m = Inr x \<and> f x = Inl e)"
  by (cases m) auto

lemma check_eq_Inr [result_simps]: "check b e = Inr u \<longleftrightarrow> b"
  by (simp add: check_def)

lemma check_eq_Inl [result_simps]: "check b e = Inl x \<longleftrightarrow> \<not> b \<and> x = e"
  by (auto simp: check_def)

text \<open>A loop whose body may raise, over a list (a Python \<open>for\<close> with the state passed on).\<close>

fun rfold :: "('x \<Rightarrow> 's \<Rightarrow> 'e + 's) \<Rightarrow> 'x list \<Rightarrow> 's \<Rightarrow> 'e + 's" where
  "rfold f [] s = Inr s"
| "rfold f (x # xs) s = rbind (f x s) (rfold f xs)"

lemma rfold_append: "rfold f (xs @ ys) s = rbind (rfold f xs s) (rfold f ys)"
proof (induction xs arbitrary: s)
  case Nil
  then show ?case by simp
next
  case (Cons x xs)
  then show ?case by (cases "f x s") auto
qed

text \<open>The invariant rule of such a loop.\<close>

lemma rfold_invariant:
  assumes "rfold f xs s = Inr t" and "P s"
    and "\<And>x u v. x \<in> set xs \<Longrightarrow> P u \<Longrightarrow> f x u = Inr v \<Longrightarrow> P v"
  shows "P t"
  using assms
proof (induction xs arbitrary: s)
  case Nil
  then show ?case by simp
next
  case (Cons x xs)
  from Cons.prems(1) obtain u where u: "f x s = Inr u" "rfold f xs u = Inr t"
    by (auto simp: result_simps)
  show ?case
  proof (rule Cons.IH [OF u(2)])
    show "P u" using Cons.prems(2) u(1) by (intro Cons.prems(3) [of x s u]) auto
    show "\<And>y v w. y \<in> set xs \<Longrightarrow> P v \<Longrightarrow> f y v = Inr w \<Longrightarrow> P w"
      using Cons.prems(3) by auto
  qed
qed

text \<open>The same rule with the remaining list in the invariant.\<close>

lemma rfold_invariant_rest:
  assumes "rfold f xs s = Inr t" and "P xs s"
    and "\<And>x ys u v. P (x # ys) u \<Longrightarrow> f x u = Inr v \<Longrightarrow> P ys v"
  shows "P [] t"
  using assms(1,2)
proof (induction xs arbitrary: s)
  case Nil
  then show ?case by simp
next
  case (Cons x xs)
  from Cons.prems(1) obtain u where "f x s = Inr u" "rfold f xs u = Inr t"
    by (auto simp: result_simps)
  with Cons.IH Cons.prems(2) assms(3) show ?case by blast
qed

section \<open>Tables\<close>

text \<open>
  A table is the list of its rows in insertion order. \<open>update_where p f\<close> is SQL's
  \<open>UPDATE ... SET f WHERE p\<close>. \<open>scalar_one_or_none\<close> is SQLAlchemy's: no row is None, one row
  is that row, more than one raises \<open>MultipleResultsFound\<close>.
\<close>

definition update_where :: "('r \<Rightarrow> bool) \<Rightarrow> ('r \<Rightarrow> 'r) \<Rightarrow> 'r list \<Rightarrow> 'r list" where
  "update_where p f rs = map (\<lambda>r. if p r then f r else r) rs"

fun scalar_one_or_none :: "'e \<Rightarrow> 'r list \<Rightarrow> 'e + 'r option" where
  "scalar_one_or_none multiple [] = Inr None"
| "scalar_one_or_none multiple [r] = Inr (Some r)"
| "scalar_one_or_none multiple (r # r' # rs) = Inl multiple"

definition first_row :: "'r list \<Rightarrow> 'r option" where
  "first_row rs = (case rs of [] \<Rightarrow> None | r # _ \<Rightarrow> Some r)"

lemma scalar_one_or_none_Some [result_simps]:
  "scalar_one_or_none m rs = Inr (Some r) \<longleftrightarrow> rs = [r]"
  by (cases "(m, rs)" rule: scalar_one_or_none.cases) auto

lemma scalar_one_or_none_None [result_simps]:
  "scalar_one_or_none m rs = Inr None \<longleftrightarrow> rs = []"
  by (cases "(m, rs)" rule: scalar_one_or_none.cases) auto

lemma update_where_Nil [simp]: "update_where p f [] = []"
  by (simp add: update_where_def)

lemma update_where_Cons [simp]:
  "update_where p f (r # rs) = (if p r then f r else r) # update_where p f rs"
  by (simp add: update_where_def)

lemma update_where_append [simp]:
  "update_where p f (rs @ ss) = update_where p f rs @ update_where p f ss"
  by (simp add: update_where_def)

lemma length_update_where [simp]: "length (update_where p f rs) = length rs"
  by (simp add: update_where_def)

lemma update_where_none: "(\<And>r. r \<in> set rs \<Longrightarrow> \<not> p r) \<Longrightarrow> update_where p f rs = rs"
  by (induction rs) auto

lemma map_key_update_where [table_simps]:
  "(\<And>r. k (f r) = k r) \<Longrightarrow> map k (update_where p f rs) = map k rs"
  by (induction rs) auto

lemma filter_update_where_disjoint [table_simps]:
  "(\<And>r. r \<in> set rs \<Longrightarrow> p r \<Longrightarrow> \<not> q r \<and> \<not> q (f r)) \<Longrightarrow>
   filter q (update_where p f rs) = filter q rs"
  by (induction rs) auto

lemma set_update_where:
  "set (update_where p f rs) = {f r | r. r \<in> set rs \<and> p r} \<union> {r \<in> set rs. \<not> p r}"
  by (induction rs) auto

lemma first_row_Some: "first_row rs = Some r \<Longrightarrow> r \<in> set rs"
  by (auto simp: first_row_def split: list.splits)

lemma first_row_None [simp]: "first_row rs = None \<longleftrightarrow> rs = []"
  by (auto simp: first_row_def split: list.splits)

section \<open>ORDER BY\<close>

text \<open>
  \<open>order_by le\<close> is a stable sort. Rows that \<open>le\<close> does not separate keep the table's order, which
  SQL leaves open; the engine rejects the case where that would matter.
\<close>

fun insort_by :: "('a \<Rightarrow> 'a \<Rightarrow> bool) \<Rightarrow> 'a \<Rightarrow> 'a list \<Rightarrow> 'a list" where
  "insort_by le x [] = [x]"
| "insort_by le x (y # ys) = (if le x y then x # y # ys else y # insort_by le x ys)"

definition order_by :: "('a \<Rightarrow> 'a \<Rightarrow> bool) \<Rightarrow> 'a list \<Rightarrow> 'a list" where
  "order_by le xs = foldr (insort_by le) xs []"

lemma set_insort_by [simp]: "set (insort_by le x xs) = insert x (set xs)"
  by (induction xs) auto

lemma set_order_by [simp]: "set (order_by le xs) = set xs"
  by (induction xs) (auto simp: order_by_def)

lemma distinct_insort_by: "distinct (insort_by le x xs) \<longleftrightarrow> x \<notin> set xs \<and> distinct xs"
  by (induction xs) auto

lemma distinct_order_by: "distinct (order_by le xs) \<longleftrightarrow> distinct xs"
proof (induction xs)
  case (Cons x xs)
  then show ?case
    using set_order_by [of le xs] by (simp add: order_by_def distinct_insort_by)
qed (simp add: order_by_def)

lemma distinct_map_insort_by: "distinct (map f (insort_by le x xs)) \<longleftrightarrow> distinct (map f (x # xs))"
  by (induction xs) auto

lemma distinct_map_order_by: "distinct (map f (order_by le xs)) \<longleftrightarrow> distinct (map f xs)"
proof (induction xs)
  case (Cons x xs)
  have "order_by le (x # xs) = insort_by le x (order_by le xs)" by (simp add: order_by_def)
  then have "distinct (map f (order_by le (x # xs))) \<longleftrightarrow> distinct (map f (x # order_by le xs))"
    by (simp only: distinct_map_insort_by)
  then show ?case using Cons.IH by simp
qed (simp add: order_by_def)

lemma order_by_eq_Nil [simp]: "order_by le xs = [] \<longleftrightarrow> xs = []"
  using set_order_by [of le xs] by (metis set_empty)

lemma sorted_insort_by:
  assumes "\<And>x y. le x y \<or> le y x" and "\<And>x y z. le x y \<Longrightarrow> le y z \<Longrightarrow> le x z"
    and "sorted_wrt le xs"
  shows "sorted_wrt le (insort_by le x xs)"
  using assms(3)
proof (induction xs)
  case (Cons y ys)
  show ?case
  proof (cases "le x y")
    case True
    have "le x z" if "z \<in> set ys" for z
      using Cons.prems that by (intro assms(2) [OF True]) simp
    with True Cons.prems show ?thesis by simp
  next
    case False
    then have "le y x" using assms(1) [of x y] by simp
    with False Cons show ?thesis by simp
  qed
qed simp

lemma sorted_order_by:
  assumes "\<And>x y. le x y \<or> le y x" and "\<And>x y z. le x y \<Longrightarrow> le y z \<Longrightarrow> le x z"
  shows "sorted_wrt le (order_by le xs)"
proof (induction xs)
  case (Cons x xs)
  have "sorted_wrt le (insort_by le x (order_by le xs))"
    by (rule sorted_insort_by) (fact assms(1), fact assms(2), fact Cons)
  then show ?case by (simp add: order_by_def)
qed (simp add: order_by_def)

text \<open>Order of strings, by code point.\<close>

fun str_less :: "string \<Rightarrow> string \<Rightarrow> bool" where
  "str_less [] [] = False"
| "str_less [] (y # ys) = True"
| "str_less (x # xs) [] = False"
| "str_less (x # xs) (y # ys) =
     ((of_char x :: nat) < of_char y \<or> x = y \<and> str_less xs ys)"

lemma str_less_irrefl [simp]: "\<not> str_less xs xs"
  by (induction xs) auto

lemma str_less_linear: "str_less xs ys \<or> xs = ys \<or> str_less ys xs"
proof (induction xs ys rule: str_less.induct)
  case (4 x xs y ys)
  then show ?case
    by (cases "(of_char x :: nat)" "(of_char y :: nat)" rule: linorder_cases) auto
qed auto

lemma str_less_trans: "str_less xs ys \<Longrightarrow> str_less ys zs \<Longrightarrow> str_less xs zs"
proof (induction xs ys arbitrary: zs rule: str_less.induct)
  case (2 y ys)
  then show ?case by (cases zs) auto
next
  case (4 x xs y ys)
  then show ?case by (cases zs) (auto dest: order_less_trans)
qed auto

end
