(* ===== verification/Errors.thy ===== *)
theory Errors
  imports Prelude
begin

text \<open>
  The exceptions of the program as values. One datatype per error module of the domain layer,
  with the source's classes as constructors, and \<open>exn\<close> for all that can leave an operation.
  Messages are kept as the data they are built from.
\<close>

section \<open>Exceptions of Python and of the database layer\<close>

datatype py_error =
    InvalidOperation
  | DivisionByZero
  | ValueError string
  | AssertionError
  | RuntimeError
  | IndexError
  | KeyError
  | AttributeError
  | OverflowError
  | CsvError
  | MultipleResultsFound
  | IntegrityError
  | DataError
  | UnmappedInstanceError

section \<open>domain/trade/errors.py\<close>

datatype data_reason =
    UnknownProductType string
  | UnknownInstrumentType string
  | InvalidDirectionSide string string
  | UnknownFillSide string
  | UnknownTradeType string
  | FamilyMismatch uuid

datatype consistency_reason =
    NoLotOnScaleIn uuid
  | NoOpenLotOnExit uuid
  | LotWouldBeNegative uuid rat uuid
  | LotNotClosed uuid uuid rat string

datatype reconstruction_error =
    PositionCrossingZeroError uuid
  | ReconstructionDataError data_reason
  | ReconstructionAmbiguityError uuid uuid
  | ReconstructionConsistencyError consistency_reason

section \<open>domain/pnl/errors.py\<close>

datatype pnl_error =
    ChargeScheduleNotFoundError string string string day
  | LotSizeNotFoundError uuid day

section \<open>domain/import_domain/errors.py\<close>

datatype import_error =
    AccountNotFoundError uuid
  | AccountInactiveError uuid
  | DuplicateImportError string uuid
  | InvalidFillError nat string string string
  | MissingProductTypeError
  | AdapterNotFoundError string
  | UnrecognizedFileError
  | EmptyFileError
  | InstrumentNotFoundError string string string

section \<open>domain/journal/errors.py\<close>

datatype journal_error =
    JournalTradeNotFoundError uuid
  | JournalEntryNotFoundError uuid
  | AttachmentNotFoundError uuid
  | AttachmentExpiredError uuid
  | AttachmentContentTypeNotAllowedError string
  | AttachmentSizeLimitExceededError int int
  | AttachmentStorageQuotaExceededError string
  | AttachmentFilenameExtensionMismatchError string string

section \<open>domain/auth/errors.py\<close>

datatype auth_error =
    InvalidCredentialsError
  | AccountLockedError
  | RateLimitedError
  | InvalidTokenError
  | EmailNotVerifiedError
  | PasswordPolicyViolationError string
  | RedisUnavailableError
  | EmailDeliveryError

section \<open>Errors of application/trade_service.py\<close>

datatype trade_service_error =
    TradeNotFoundError uuid
  | TradeNotOwnedError uuid
  | TradeAlreadyClosedError uuid
  | TradeNotManualError uuid
  | FillTimestampBeforeTradeOpenError timestamp timestamp
  | ReconstructionFailedError "reconstruction_error option"
  | PlannedStopWrongSideError string

section \<open>All of them\<close>

datatype exn =
    Py py_error
  | Recon reconstruction_error
  | Pnl pnl_error
  | Imp import_error
  | Journal journal_error
  | Auth auth_error
  | Svc trade_service_error

end
