(* ===== verification/Decimals.thy ===== *)
theory Decimals
  imports Errors
begin

text \<open>
  Python's \<open>decimal\<close> arithmetic as the code uses it, and \<open>domain/decimal_config.py\<close>.

  A finite Decimal is modelled by its value, a rational. Every arithmetic operation returns the
  exact result rounded by the default context: 28 significant digits, \<open>ROUND_HALF_EVEN\<close>
  (\<open>ctx\<close>). \<open>quantize\<close> rounds to a number of decimal places in the mode of the bundle and raises
  \<open>InvalidOperation\<close> when the result needs more than 28 digits. Not modelled: the exponent of a
  result (equal values compare equal in Python), signed zeros, and the exponent range of
  plus or minus 999999.
\<close>

section \<open>Rounding modes\<close>

datatype rounding = ROUND_DOWN | ROUND_HALF_UP | ROUND_HALF_EVEN

definition round_half_up :: "rat \<Rightarrow> int" where
  "round_half_up x = (if 0 \<le> x then \<lfloor>x + 1/2\<rfloor> else - \<lfloor>- x + 1/2\<rfloor>)"

definition round_down :: "rat \<Rightarrow> int" where
  "round_down x = (if 0 \<le> x then \<lfloor>x\<rfloor> else - \<lfloor>- x\<rfloor>)"

definition round_half_even :: "rat \<Rightarrow> int" where
  "round_half_even x =
     (let f = \<lfloor>x\<rfloor>; r = x - of_int f
      in if r < 1/2 then f else if 1/2 < r then f + 1 else if even f then f else f + 1)"

fun rnd :: "rounding \<Rightarrow> rat \<Rightarrow> int" where
  "rnd ROUND_DOWN x = round_down x"
| "rnd ROUND_HALF_UP x = round_half_up x"
| "rnd ROUND_HALF_EVEN x = round_half_even x"

text \<open>What the users of a rounding mode rely on.\<close>

locale rounding_mode =
  fixes r :: "rat \<Rightarrow> int"
  assumes r_of_int: "r (of_int n) = n"
    and r_mono: "x \<le> y \<Longrightarrow> r x \<le> r y"
    and r_minus: "r (- x) = - r x"
begin

lemma r_zero: "r 0 = 0"
  using r_of_int [of 0] by simp

lemma r_ge: "of_int n \<le> x \<Longrightarrow> n \<le> r x"
  using r_mono [of "of_int n" x] by (simp add: r_of_int)

lemma r_le: "x \<le> of_int n \<Longrightarrow> r x \<le> n"
  using r_mono [of x "of_int n"] by (simp add: r_of_int)

lemma r_nonneg: "0 \<le> x \<Longrightarrow> 0 \<le> r x"
  using r_ge [of 0 x] by simp

lemma r_abs_le: "\<bar>x\<bar> \<le> of_int n \<Longrightarrow> \<bar>r x\<bar> \<le> n"
  using r_le [of x n] r_ge [of "- n" x] by (simp add: abs_le_iff minus_le_iff)

lemma r_bracket: "\<lfloor>x\<rfloor> \<le> r x \<and> r x \<le> \<lceil>x\<rceil>"
  using r_ge [of "\<lfloor>x\<rfloor>" x] r_le [of x "\<lceil>x\<rceil>"] by simp

lemma r_error: "\<bar>of_int (r x) - x\<bar> < 1"
proof -
  have "of_int \<lfloor>x\<rfloor> \<le> (of_int (r x) :: rat)" "of_int (r x) \<le> (of_int \<lceil>x\<rceil> :: rat)"
    using r_bracket [of x] by auto
  moreover have "x < of_int \<lfloor>x\<rfloor> + 1" "of_int \<lceil>x\<rceil> < x + 1"
    by linarith+
  ultimately show ?thesis by linarith
qed

end

locale nearest_rounding = rounding_mode +
  assumes r_half: "\<bar>of_int (r x) - x\<bar> \<le> 1/2"

interpretation half_up: nearest_rounding round_half_up
proof
  fix x y :: rat and n :: int
  show "round_half_up (of_int n) = n"
    unfolding round_half_up_def by (simp; linarith)
  show "round_half_up (- x) = - round_half_up x"
    unfolding round_half_up_def by (cases "x = 0") (auto, linarith)
  show "\<bar>of_int (round_half_up x) - x\<bar> \<le> 1/2"
  proof (cases "0 \<le> x")
    case True
    note f = floor_correct [of "x + 1/2"]
    have "\<bar>of_int \<lfloor>x + 1/2\<rfloor> - x\<bar> \<le> 1/2"
      unfolding abs_le_iff using f [THEN conjunct1] f [THEN conjunct2] by linarith
    with True show ?thesis by (simp add: round_half_up_def)
  next
    case False
    note f = floor_correct [of "- x + 1/2"]
    have "\<bar>- of_int \<lfloor>- x + 1/2\<rfloor> - x\<bar> \<le> 1/2"
      unfolding abs_le_iff using f [THEN conjunct1] f [THEN conjunct2] by linarith
    with False show ?thesis by (simp add: round_half_up_def)
  qed
  assume "x \<le> y"
  then show "round_half_up x \<le> round_half_up y"
    unfolding round_half_up_def by (simp; linarith)
qed

interpretation down: rounding_mode round_down
proof
  fix x y :: rat and n :: int
  show "round_down (of_int n) = n"
    unfolding round_down_def by (simp; linarith)
  show "round_down (- x) = - round_down x"
    unfolding round_down_def by (cases "x = 0") auto
  assume "x \<le> y"
  then show "round_down x \<le> round_down y"
    unfolding round_down_def
    using order_trans [of "- \<lfloor>- x\<rfloor>" 0 "\<lfloor>y\<rfloor>"] by (auto simp: floor_mono)
qed

lemma round_half_even_minus: "round_half_even (- x) = - round_half_even x"
proof (cases "x = of_int \<lfloor>x\<rfloor>")
  case True
  then obtain n where "x = of_int n" by blast
  then show ?thesis by (simp add: round_half_even_def)
next
  case False
  then have "\<lfloor>- x\<rfloor> = - \<lfloor>x\<rfloor> - 1" by linarith
  with False show ?thesis
    unfolding round_half_even_def Let_def
    by (simp; linarith?)
qed

interpretation half_even: nearest_rounding round_half_even
proof
  fix x y :: rat and n :: int
  show "round_half_even (of_int n) = n"
    by (simp add: round_half_even_def)
  show "round_half_even (- x) = - round_half_even x"
    by (rule round_half_even_minus)
  show "\<bar>of_int (round_half_even x) - x\<bar> \<le> 1/2"
    using floor_correct [of x]
    by (auto simp: round_half_even_def Let_def abs_le_iff)
  assume "x \<le> y"
  show "round_half_even x \<le> round_half_even y"
  proof (cases "\<lfloor>x\<rfloor> = \<lfloor>y\<rfloor>")
    case True
    with \<open>x \<le> y\<close> show ?thesis
      unfolding round_half_even_def Let_def by auto
  next
    case False
    with \<open>x \<le> y\<close> have "\<lfloor>x\<rfloor> + 1 \<le> \<lfloor>y\<rfloor>" using floor_mono [of x y] by linarith
    then show ?thesis unfolding round_half_even_def Let_def by auto
  qed
qed

lemma rnd_mode: "rounding_mode (rnd m)"
proof (cases m)
  case ROUND_DOWN
  then have "rnd m = round_down" by auto
  then show ?thesis using down.rounding_mode_axioms by simp
next
  case ROUND_HALF_UP
  then have "rnd m = round_half_up" by auto
  then show ?thesis using half_up.rounding_mode_axioms by simp
next
  case ROUND_HALF_EVEN
  then have "rnd m = round_half_even" by auto
  then show ?thesis using half_even.rounding_mode_axioms by simp
qed

interpretation rmode: rounding_mode "rnd m" for m
  by (rule rnd_mode)

section \<open>The arithmetic context: 28 significant digits\<close>

function ndigits :: "int \<Rightarrow> nat" where
  "ndigits n = (if n < 10 then 1 else Suc (ndigits (n div 10)))"
  by auto
termination
  by (relation "measure nat") auto

declare ndigits.simps [simp del]

lemma ndigits_bounds: "0 < n \<Longrightarrow> 10 ^ (ndigits n - 1) \<le> n \<and> n < 10 ^ ndigits n"
proof (induction n rule: ndigits.induct)
  case (1 n)
  show ?case
  proof (cases "n < 10")
    case True
    with 1 show ?thesis by (simp add: ndigits.simps)
  next
    case False
    then have "0 < n div 10" by simp
    with 1 False have IH: "10 ^ (ndigits (n div 10) - 1) \<le> n div 10"
      "n div 10 < 10 ^ ndigits (n div 10)" by auto
    have pos: "0 < ndigits (n div 10)" by (subst ndigits.simps) simp
    have "10 ^ ndigits (n div 10) = 10 * (10::int) ^ (ndigits (n div 10) - 1)"
      using pos by (cases "ndigits (n div 10)") auto
    with IH have "10 ^ ndigits (n div 10) \<le> n" "n < 10 * 10 ^ ndigits (n div 10)"
      by linarith+
    moreover have "ndigits n = Suc (ndigits (n div 10))"
      using False by (subst ndigits.simps) simp
    ultimately show ?thesis by simp
  qed
qed

text \<open>The adjusted exponent of a value: \<open>10 ^ e \<le> \<bar>x\<bar> < 10 ^ (e + 1)\<close>.\<close>

definition adjusted :: "rat \<Rightarrow> int" where
  "adjusted x =
     (let (n, d) = quotient_of x;
          e = int (ndigits \<bar>n\<bar>) - int (ndigits d)
      in if 10 powi e \<le> \<bar>x\<bar> then e else e - 1)"

definition ctx :: "rat \<Rightarrow> rat" where
  "ctx x =
     (if x = 0 then 0
      else let u = 10 powi (adjusted x - 27) in of_int (round_half_even (x / u)) * u)"

lemma powi_10_strict: "a < b \<longleftrightarrow> (10::rat) powi a < 10 powi b"
  by (metis linorder_neqE_linordered_idom order_less_asym power_int_strict_increasing
      one_less_numeral_iff semiring_norm(76) order_less_irrefl)

lemma adjusted_bounds:
  assumes "x \<noteq> 0"
  shows "10 powi adjusted x \<le> \<bar>x\<bar> \<and> \<bar>x\<bar> < 10 powi (adjusted x + 1)"
proof -
  obtain n d where q: "quotient_of x = (n, d)" by fastforce
  then have x: "x = of_int n / of_int d" and d: "0 < d"
    using quotient_of_div quotient_of_denom_pos by blast+
  with assms have n: "0 < \<bar>n\<bar>" by auto
  let ?a = "ndigits \<bar>n\<bar>" and ?b = "ndigits d"
  have bpos: "0 < ?a" "0 < ?b" by (subst ndigits.simps, simp)+
  have "rat_of_int (10 ^ (?a - 1)) \<le> of_int \<bar>n\<bar>" "rat_of_int \<bar>n\<bar> < of_int (10 ^ ?a)"
    "rat_of_int (10 ^ (?b - 1)) \<le> of_int d" "rat_of_int d < of_int (10 ^ ?b)"
    using ndigits_bounds [OF n] ndigits_bounds [OF d] by (simp_all only: of_int_le_iff of_int_less_iff)
  then have A': "(10::rat) ^ (?a - 1) \<le> \<bar>of_int n\<bar>" "\<bar>of_int n\<bar> < (10::rat) ^ ?a"
    and B': "(10::rat) ^ (?b - 1) \<le> of_int d" "of_int d < (10::rat) ^ ?b"
    by simp_all
  have absx: "\<bar>x\<bar> = \<bar>of_int n\<bar> / of_int d" using x d by (simp add: abs_divide)
  have up: "\<bar>x\<bar> < 10 powi (int ?a - int ?b + 1)"
  proof -
    have "\<bar>x\<bar> < 10 ^ ?a / 10 ^ (?b - 1)"
      unfolding absx using A' B' d by (intro frac_less) auto
    also have "\<dots> = 10 powi (int ?a - int ?b + 1)"
      using bpos by (simp add: power_int_diff power_int_add of_nat_diff power_diff field_simps)
    finally show ?thesis .
  qed
  have lo: "10 powi (int ?a - int ?b - 1) \<le> \<bar>x\<bar>"
  proof -
    have "10 powi (int ?a - int ?b - 1) = (10::rat) ^ (?a - 1) / 10 ^ ?b"
      using bpos by (simp add: power_int_diff power_diff)
    also have "\<dots> \<le> \<bar>x\<bar>"
      unfolding absx using A' B' d by (intro frac_le) auto
    finally show ?thesis .
  qed
  show ?thesis using up lo by (auto simp: adjusted_def q Let_def)
qed

lemma adjusted_unique:
  assumes "10 powi e \<le> \<bar>x\<bar>" and "\<bar>x\<bar> < 10 powi (e + 1)"
  shows "adjusted x = e"
proof -
  have "0 < (10::rat) powi e" by (simp add: zero_less_power_int)
  with assms(1) have "0 < \<bar>x\<bar>" by linarith
  then have "x \<noteq> 0" by simp
  note b = adjusted_bounds [OF this]
  have "10 powi adjusted x < (10::rat) powi (e + 1)" "10 powi e < (10::rat) powi (adjusted x + 1)"
    using b assms by linarith+
  then have "adjusted x < e + 1" "e < adjusted x + 1" by (simp_all only: powi_10_strict)
  then show ?thesis by linarith
qed

lemma ctx_zero [simp]: "ctx 0 = 0"
  by (simp add: ctx_def)

lemma adjusted_minus: "adjusted (- x) = adjusted x"
proof (cases "x = 0")
  case False
  then show ?thesis using adjusted_bounds [of x] by (intro adjusted_unique) auto
qed simp

lemma ctx_minus [simp]: "ctx (- x) = - ctx x"
  using half_even.r_minus [of "x / 10 powi (adjusted x - 27)"]
  by (simp add: ctx_def adjusted_minus Let_def)

text \<open>A result that fits in 28 digits is exact.\<close>

lemma ctx_exact:
  assumes x: "x = of_int n / 10 ^ k" and n: "\<bar>n\<bar> < 10 ^ 28"
  shows "ctx x = x"
proof (cases "x = 0")
  case False
  let ?e = "adjusted x"
  have "\<bar>x\<bar> = of_int \<bar>n\<bar> / 10 ^ k" using x by (simp add: abs_divide)
  also have "\<dots> < 10 ^ 28 / 10 ^ k"
    using n by (intro divide_strict_right_mono) (auto simp flip: of_int_abs of_int_less_iff)
  also have "\<dots> = 10 powi (28 - int k)" by (simp add: power_int_diff)
  finally have "10 powi ?e < (10::rat) powi (28 - int k)"
    using adjusted_bounds [OF False] by linarith
  then have le: "0 \<le> 27 - int k - ?e" by (simp only: flip: powi_10_strict)
  have "x / 10 powi (?e - 27) = of_int n / 10 powi int k * (10 powi 27 / 10 powi ?e)"
    by (simp add: x power_int_diff)
  also have "\<dots> = of_int n * 10 powi (27 - int k - ?e)"
    by (simp add: power_int_diff power_int_add field_simps)
  also have "\<dots> = of_int (n * 10 ^ nat (27 - int k - ?e))"
    using le by (simp add: power_int_def)
  finally have q: "x / 10 powi (?e - 27) = of_int (n * 10 ^ nat (27 - int k - ?e))" .
  have "ctx x = of_int (n * 10 ^ nat (27 - int k - ?e)) * 10 powi (?e - 27)"
    using False by (simp only: ctx_def q half_even.r_of_int Let_def if_False)
  also have "\<dots> = x" unfolding q [symmetric] by simp
  finally show ?thesis .
qed simp

text \<open>For evaluation: a value with at most eight places and 28 digits is returned at once.\<close>

lemma ctx_code [code]:
  "ctx x =
     (let (n, d) = quotient_of (x * 100000000)
      in if d = 1 \<and> \<bar>n\<bar> < 10 ^ 28 then x
         else let u = 10 powi (adjusted x - 27) in of_int (round_half_even (x / u)) * u)"
proof -
  obtain n d where q: "quotient_of (x * 100000000) = (n, d)" by fastforce
  show ?thesis
  proof (cases "d = 1 \<and> \<bar>n\<bar> < 10 ^ 28")
    case True
    with quotient_of_div [OF q] have "x = of_int n / 10 ^ 8" by simp
    from ctx_exact [OF this] True show ?thesis by (simp add: q)
  next
    case False
    have "x \<noteq> 0"
    proof
      assume "x = 0"
      with q have "n = 0" "d = 1" by simp_all
      with False show False by simp
    qed
    with False show ?thesis by (auto simp: q ctx_def)
  qed
qed

text \<open>The context keeps order and sign: it is monotone and odd.\<close>

lemma ctx_unit:
  assumes "10 powi e \<le> x" and "x < 10 powi (e + 1)"
  shows "ctx x = of_int (round_half_even (x / 10 powi (e - 27))) * 10 powi (e - 27)"
    and "10 powi e \<le> ctx x" and "ctx x \<le> 10 powi (e + 1)"
proof -
  let ?u = "10 powi (e - 27) :: rat"
  have u: "0 < ?u" by simp
  have "0 < (10::rat) powi e" by simp
  then have pos: "0 < x" using assms(1) by linarith
  then have "adjusted x = e" using assms by (intro adjusted_unique) auto
  then show eq: "ctx x = of_int (round_half_even (x / ?u)) * ?u"
    using pos by (simp add: ctx_def Let_def)
  have lo: "10 powi e = of_int (10 ^ 27) * ?u" by (simp add: power_int_diff)
  have hi: "10 powi (e + 1) = of_int (10 ^ 28) * ?u"
    by (simp add: power_int_diff power_int_add)
  have "of_int (10 ^ 27) \<le> x / ?u"
    using assms(1) u unfolding lo by (simp only: pos_le_divide_eq)
  then have "10 ^ 27 \<le> round_half_even (x / ?u)" by (rule half_even.r_ge)
  then show "10 powi e \<le> ctx x"
    unfolding eq lo using u by (intro mult_right_mono) (simp_all only: of_int_le_iff less_imp_le)
  have "x / ?u \<le> of_int (10 ^ 28)"
    using assms(2) u unfolding hi by (simp only: pos_divide_le_eq less_imp_le)
  then have "round_half_even (x / ?u) \<le> 10 ^ 28" by (rule half_even.r_le)
  then show "ctx x \<le> 10 powi (e + 1)"
    unfolding eq hi using u by (intro mult_right_mono) (simp_all only: of_int_le_iff less_imp_le)
qed

lemma ctx_pos:
  assumes "0 < x"
  shows "0 < ctx x"
proof -
  have "10 powi adjusted x \<le> ctx x"
    using assms ctx_unit(2) [of "adjusted x" x] adjusted_bounds [of x] by auto
  moreover have "0 < (10::rat) powi adjusted x" by simp
  ultimately show ?thesis by linarith
qed

lemma ctx_neg: "x < 0 \<Longrightarrow> ctx x < 0"
  using ctx_pos [of "- x"] by simp

lemma ctx_mono_pos:
  assumes "0 < x" and "x \<le> y"
  shows "ctx x \<le> ctx y"
proof -
  let ?ex = "adjusted x" and ?ey = "adjusted y"
  have bx: "10 powi ?ex \<le> x" "x < 10 powi (?ex + 1)"
    and by': "10 powi ?ey \<le> y" "y < 10 powi (?ey + 1)"
    using adjusted_bounds [of x] adjusted_bounds [of y] assms by auto
  have "10 powi ?ex < (10::rat) powi (?ey + 1)" using bx by' assms by linarith
  then have le: "?ex \<le> ?ey" by (simp flip: powi_10_strict)
  show ?thesis
  proof (cases "?ex = ?ey")
    case True
    have "x / 10 powi (?ey - 27) \<le> y / 10 powi (?ey - 27)"
      using assms(2) by (intro divide_right_mono) auto
    then show ?thesis
      using ctx_unit(1) [OF bx] ctx_unit(1) [OF by'] True
      by (auto intro!: mult_right_mono half_even.r_mono)
  next
    case False
    with le have "(10::rat) powi (?ex + 1) \<le> 10 powi ?ey"
      by (intro power_int_increasing) auto
    then show ?thesis
      using ctx_unit(3) [OF bx] ctx_unit(2) [OF by'] by linarith
  qed
qed

lemma ctx_mono: "x \<le> y \<Longrightarrow> ctx x \<le> ctx y"
proof -
  assume le: "x \<le> y"
  consider "0 < x" | "x = 0" | "x < 0" "y < 0" | "x < 0" "0 \<le> y" by linarith
  then show "ctx x \<le> ctx y"
  proof cases
    case 1
    then show ?thesis using le by (rule ctx_mono_pos)
  next
    case 2
    with le show ?thesis using ctx_pos [of y] by (cases "y = 0") auto
  next
    case 3
    with le show ?thesis using ctx_mono_pos [of "- y" "- x"] by simp
  next
    case 4
    then show ?thesis using ctx_neg [of x] ctx_pos [of y] by (cases "y = 0") auto
  qed
qed

lemma ctx_nonneg: "0 \<le> x \<Longrightarrow> 0 \<le> ctx x"
  using ctx_mono [of 0 x] by simp

lemma ctx_eq_0_iff [simp]: "ctx x = 0 \<longleftrightarrow> x = 0"
  using ctx_pos [of x] ctx_neg [of x] by (cases x "0::rat" rule: linorder_cases) auto

lemma ctx_pos_iff [simp]: "0 < ctx x \<longleftrightarrow> 0 < x"
  using ctx_pos [of x] ctx_neg [of x] by (cases x "0::rat" rule: linorder_cases) auto

lemma ctx_neg_iff [simp]: "ctx x < 0 \<longleftrightarrow> x < 0"
  using ctx_pos_iff [of "- x"] by simp

section \<open>Operations\<close>

definition dadd :: "rat \<Rightarrow> rat \<Rightarrow> rat" where "dadd a b = ctx (a + b)"
definition dsub :: "rat \<Rightarrow> rat \<Rightarrow> rat" where "dsub a b = ctx (a - b)"
definition dmul :: "rat \<Rightarrow> rat \<Rightarrow> rat" where "dmul a b = ctx (a * b)"
definition dneg :: "rat \<Rightarrow> rat" where "dneg a = ctx (- a)"
definition dabs :: "rat \<Rightarrow> rat" where "dabs a = ctx \<bar>a\<bar>"

definition ddiv :: "rat \<Rightarrow> rat \<Rightarrow> exn + rat" where
  "ddiv a b =
     (if b = 0 then Inl (Py (if a = 0 then InvalidOperation else DivisionByZero))
      else Inr (ctx (a / b)))"

text \<open>\<open>sum(values)\<close>: from the left, starting at 0.\<close>

definition dsum :: "rat list \<Rightarrow> rat" where
  "dsum xs = foldl dadd 0 xs"

definition quantize :: "nat \<times> rounding \<Rightarrow> rat \<Rightarrow> exn + rat" where
  "quantize q x =
     (let n = rnd (snd q) (x * 10 ^ fst q)
      in if \<bar>n\<bar> < 10 ^ 28 then Inr (of_int n / 10 ^ fst q) else Inl (Py InvalidOperation))"

section \<open>domain/decimal_config.py\<close>

definition MONETARY :: "nat \<times> rounding" where "MONETARY = (2, ROUND_HALF_UP)"
definition PRICE :: "nat \<times> rounding" where "PRICE = (4, ROUND_HALF_UP)"
definition CHARGE_STORED :: "nat \<times> rounding" where "CHARGE_STORED = (4, ROUND_HALF_UP)"
definition RATE :: "nat \<times> rounding" where "RATE = (8, ROUND_HALF_UP)"
definition R_MULTIPLE :: "nat \<times> rounding" where "R_MULTIPLE = (6, ROUND_HALF_UP)"
definition QUANTITY :: "nat \<times> rounding" where "QUANTITY = (4, ROUND_DOWN)"
definition PERCENTAGE :: "nat \<times> rounding" where "PERCENTAGE = (4, ROUND_HALF_UP)"

lemmas bundle_defs =
  MONETARY_def PRICE_def CHARGE_STORED_def RATE_def R_MULTIPLE_def QUANTITY_def PERCENTAGE_def

section \<open>Values with a fixed number of decimal places\<close>

text \<open>
  \<open>dp k x\<close>: \<open>x\<close> has at most \<open>k\<close> decimal places, as the values of a \<open>NUMERIC(18, k)\<close> column
  have. On such values of moderate size the 28 digits of the context lose nothing.
\<close>

definition dp :: "nat \<Rightarrow> rat \<Rightarrow> bool" where
  "dp k x \<longleftrightarrow> x * 10 ^ k \<in> \<int>"

lemma dpE:
  assumes "dp k x"
  obtains n where "x = of_int n / 10 ^ k"
  using assms by (auto simp: dp_def Ints_def field_simps)

lemma dpI: "x = of_int n / 10 ^ k \<Longrightarrow> dp k x"
  by (simp add: dp_def)

lemma dp_simps [simp]:
  "dp k 0" "dp k (- x) = dp k x"
  by (simp_all add: dp_def)

lemma dp_of_int [simp]: "dp k (of_int n)"
  by (simp add: dp_def)

lemma dp_of_nat [simp]: "dp k (of_nat n)"
  by (simp add: dp_def)

lemma dp_numeral [simp]: "dp k 1" "dp k (numeral w)"
  by (simp_all add: dp_def)

lemma dp_add [intro]: "dp k x \<Longrightarrow> dp k y \<Longrightarrow> dp k (x + y)"
  by (simp add: dp_def ring_distribs)

lemma dp_diff [intro]: "dp k x \<Longrightarrow> dp k y \<Longrightarrow> dp k (x - y)"
  by (simp add: dp_def ring_distribs)

lemma dp_abs [intro]: "dp k x \<Longrightarrow> dp k \<bar>x\<bar>"
  by (auto simp: abs_if)

lemma dp_mult [intro]: "dp j x \<Longrightarrow> dp k y \<Longrightarrow> dp (j + k) (x * y)"
  using Ints_mult [of "x * 10 ^ j" "y * 10 ^ k"] by (simp add: dp_def power_add mult_ac)

lemma dp_mono: "dp j x \<Longrightarrow> j \<le> k \<Longrightarrow> dp k x"
proof -
  assume "dp j x" "j \<le> k"
  then have "x * 10 ^ k = x * 10 ^ j * of_int (10 ^ (k - j))"
    by (simp flip: power_add)
  with \<open>dp j x\<close> show "dp k x" unfolding dp_def by (metis Ints_mult Ints_of_int)
qed

lemma dp_sum_list [intro]: "(\<And>x. x \<in> set xs \<Longrightarrow> dp k x) \<Longrightarrow> dp k (sum_list xs)"
  by (induction xs) auto

lemma dp_less_one: "dp k x \<Longrightarrow> \<bar>x\<bar> < 1 / 10 ^ k \<Longrightarrow> x = 0"
proof -
  assume "dp k x" "\<bar>x\<bar> < 1 / 10 ^ k"
  then obtain n where "x = of_int n / 10 ^ k" "\<bar>rat_of_int n\<bar> < 1"
    by (elim dpE) (auto simp: abs_divide divide_less_cancel)
  then show "x = 0" by (simp flip: of_int_abs)
qed

lemma dp_ge_unit: "dp k x \<Longrightarrow> 0 < x \<Longrightarrow> 1 / 10 ^ k \<le> x"
  using dp_less_one [of k x] by (cases "x < 1 / 10 ^ k") auto

lemma ctx_dp:
  assumes "dp k x" and "\<bar>x\<bar> * 10 ^ k < 10 ^ 28"
  shows "ctx x = x"
proof -
  obtain n where n: "x = of_int n / 10 ^ k" using assms(1) by (rule dpE)
  have "rat_of_int \<bar>n\<bar> < of_int (10 ^ 28)"
    using assms(2) by (simp add: n abs_divide)
  then have "\<bar>n\<bar> < 10 ^ 28" by (simp only: of_int_less_iff)
  with n show ?thesis by (rule ctx_exact)
qed

text \<open>Four places, the precision of quantities, prices and money in the database.\<close>

lemma ctx_dp4: "dp 4 x \<Longrightarrow> \<bar>x\<bar> < 10 ^ 24 \<Longrightarrow> ctx x = x"
  by (rule ctx_dp [of 4]) simp_all

lemma ctx_dp8: "dp 8 x \<Longrightarrow> \<bar>x\<bar> < 10 ^ 20 \<Longrightarrow> ctx x = x"
  by (rule ctx_dp [of 8]) simp_all

lemma dadd_exact: "dp 4 a \<Longrightarrow> dp 4 b \<Longrightarrow> \<bar>a + b\<bar> < 10 ^ 24 \<Longrightarrow> dadd a b = a + b"
  unfolding dadd_def by (intro ctx_dp4 dp_add)

lemma dsub_exact: "dp 4 a \<Longrightarrow> dp 4 b \<Longrightarrow> \<bar>a - b\<bar> < 10 ^ 24 \<Longrightarrow> dsub a b = a - b"
  unfolding dsub_def by (intro ctx_dp4 dp_diff)

lemma dneg_exact: "dp 4 a \<Longrightarrow> \<bar>a\<bar> < 10 ^ 24 \<Longrightarrow> dneg a = - a"
  unfolding dneg_def by (simp add: ctx_dp4)

lemma dmul_exact: "dp 4 a \<Longrightarrow> dp 4 b \<Longrightarrow> \<bar>a * b\<bar> < 10 ^ 20 \<Longrightarrow> dmul a b = a * b"
  using dp_mult [of 4 a 4 b] unfolding dmul_def by (intro ctx_dp8) simp_all

lemma dadd_exact8: "dp 8 a \<Longrightarrow> dp 8 b \<Longrightarrow> \<bar>a + b\<bar> < 10 ^ 20 \<Longrightarrow> dadd a b = a + b"
  unfolding dadd_def by (intro ctx_dp8 dp_add)

lemma dadd_zero [simp]: "dadd 0 a = ctx a" "dadd a 0 = ctx a"
  by (simp_all add: dadd_def)

lemma dneg_zero [simp]: "dneg 0 = 0"
  by (simp add: dneg_def)

text \<open>What a successful \<open>quantize\<close> returns.\<close>

lemma quantize_Inr:
  "quantize q x = Inr y \<longleftrightarrow>
   y = of_int (rnd (snd q) (x * 10 ^ fst q)) / 10 ^ fst q \<and>
   \<bar>rnd (snd q) (x * 10 ^ fst q)\<bar> < 10 ^ 28"
  by (auto simp: quantize_def Let_def)

lemma quantize_dp: "quantize q x = Inr y \<Longrightarrow> dp (fst q) y"
  by (auto simp: quantize_Inr intro: dpI)

lemma quantize_exact:
  assumes "dp (fst q) x" and "\<bar>x\<bar> * 10 ^ fst q < 10 ^ 28"
  shows "quantize q x = Inr x"
proof -
  obtain n where n: "x = of_int n / 10 ^ fst q" using assms(1) by (rule dpE)
  have "rat_of_int \<bar>n\<bar> < of_int (10 ^ 28)"
    using assms(2) by (simp add: n abs_divide)
  then have "\<bar>n\<bar> < 10 ^ 28" by (simp only: of_int_less_iff)
  then show ?thesis by (simp add: quantize_def n rmode.r_of_int)
qed

lemma quantize_total:
  assumes "\<bar>x\<bar> * 10 ^ fst q \<le> of_int (10 ^ 28 - 1)"
  shows "\<exists>y. quantize q x = Inr y"
proof -
  have "\<bar>x * 10 ^ fst q\<bar> \<le> of_int (10 ^ 28 - 1)"
    using assms by (simp add: abs_mult)
  then have "\<bar>rnd (snd q) (x * 10 ^ fst q)\<bar> \<le> 10 ^ 28 - 1" by (rule rmode.r_abs_le)
  then show ?thesis by (simp add: quantize_def)
qed

lemma quantize_mono: "quantize q x = Inr a \<Longrightarrow> quantize q y = Inr b \<Longrightarrow> x \<le> y \<Longrightarrow> a \<le> b"
  by (auto simp: quantize_Inr intro!: divide_right_mono rmode.r_mono mult_right_mono)

lemma quantize_nonneg: "quantize q x = Inr y \<Longrightarrow> 0 \<le> x \<Longrightarrow> 0 \<le> y"
  by (auto simp: quantize_Inr intro!: divide_nonneg_nonneg rmode.r_nonneg)

lemma quantize_minus: "quantize q x = Inr y \<Longrightarrow> quantize q (- x) = Inr (- y)"
  by (simp add: quantize_Inr rmode.r_minus)

lemma quantize_half_up_error:
  assumes "quantize (k, ROUND_HALF_UP) x = Inr y"
  shows "\<bar>y - x\<bar> \<le> 1 / (2 * 10 ^ k)"
proof -
  have "y - x = (of_int (round_half_up (x * 10 ^ k)) - x * 10 ^ k) / 10 ^ k"
    using assms by (simp add: quantize_Inr diff_divide_distrib)
  then have "\<bar>y - x\<bar> = \<bar>of_int (round_half_up (x * 10 ^ k)) - x * 10 ^ k\<bar> / 10 ^ k"
    by (simp add: abs_divide)
  also have "\<dots> \<le> (1 / 2) / 10 ^ k"
    by (intro divide_right_mono half_up.r_half) simp
  finally show ?thesis by simp
qed

lemma quantize_down_le:
  assumes "quantize (k, ROUND_DOWN) x = Inr y" and "0 \<le> x"
  shows "y \<le> x"
proof -
  have "of_int \<lfloor>x * 10 ^ k\<rfloor> / 10 ^ k \<le> x * 10 ^ k / 10 ^ k"
    by (intro divide_right_mono) auto
  then show ?thesis using assms by (simp add: quantize_Inr round_down_def)
qed

end
