(* ===== verification/Trade_Types.thy ===== *)
theory Trade_Types
  imports Decimals
begin

text \<open>
  \<open>domain/trade/types.py\<close>: product families, the derivations of trade type, fill role and
  direction, and the records the reconstruction engine reads and returns. Enumerated values are
  strings, as in the code, so an unknown value takes the code's error branch.
\<close>

section \<open>Product type families\<close>

datatype product_type_family = INTRADAY | DELIVERY | FO

definition PRODUCT_TYPE_TO_FAMILY :: "string \<rightharpoonup> product_type_family" where
  "PRODUCT_TYPE_TO_FAMILY = [''MIS'' \<mapsto> INTRADAY, ''CNC'' \<mapsto> DELIVERY, ''NRML'' \<mapsto> FO]"

fun TRADE_TYPES_FOR_FAMILY :: "product_type_family \<Rightarrow> string list" where
  "TRADE_TYPES_FOR_FAMILY INTRADAY = [''MIS'']"
| "TRADE_TYPES_FOR_FAMILY DELIVERY = [''CNC'', ''CNC_SAME_DAY'']"
| "TRADE_TYPES_FOR_FAMILY FO = [''NRML_FUT'', ''NRML_OPT'']"

definition product_type_family_for :: "string \<Rightarrow> exn + product_type_family" where
  "product_type_family_for product_type =
     (case PRODUCT_TYPE_TO_FAMILY product_type of
        Some f \<Rightarrow> Inr f
      | None \<Rightarrow> Inl (Recon (ReconstructionDataError (UnknownProductType product_type))))"

section \<open>Trade type\<close>

definition provisional_trade_type :: "product_type_family \<Rightarrow> string \<Rightarrow> exn + string" where
  "provisional_trade_type family instrument_type =
     (case family of
        INTRADAY \<Rightarrow> Inr ''MIS''
      | DELIVERY \<Rightarrow> Inr ''CNC''
      | FO \<Rightarrow>
          if instrument_type = ''FUT'' then Inr ''NRML_FUT''
          else if instrument_type \<in> {''CE'', ''PE''} then Inr ''NRML_OPT''
          else Inl (Recon (ReconstructionDataError (UnknownInstrumentType instrument_type))))"

definition finalize_trade_type :: "string \<Rightarrow> day \<Rightarrow> day \<Rightarrow> string" where
  "finalize_trade_type provisional open_date close_date =
     (if provisional = ''CNC'' \<and> open_date = close_date then ''CNC_SAME_DAY'' else provisional)"

definition product_type_from_trade_type :: "string \<Rightarrow> exn + string" where
  "product_type_from_trade_type trade_type =
     (if trade_type = ''MIS'' then Inr ''MIS''
      else if trade_type \<in> {''CNC'', ''CNC_SAME_DAY''} then Inr ''CNC''
      else if trade_type \<in> {''NRML_FUT'', ''NRML_OPT''} then Inr ''NRML''
      else Inl (Recon (ReconstructionDataError (UnknownTradeType trade_type))))"

section \<open>Fill role and direction\<close>

definition FILL_ROLE_TABLE :: "string \<times> string \<rightharpoonup> string" where
  "FILL_ROLE_TABLE =
     [(''LONG'', ''BUY'') \<mapsto> ''ENTRY'', (''LONG'', ''SELL'') \<mapsto> ''EXIT'',
      (''SHORT'', ''SELL'') \<mapsto> ''ENTRY'', (''SHORT'', ''BUY'') \<mapsto> ''EXIT'']"

definition fill_role_for :: "string \<Rightarrow> string \<Rightarrow> exn + string" where
  "fill_role_for direction side =
     (case FILL_ROLE_TABLE (direction, side) of
        Some r \<Rightarrow> Inr r
      | None \<Rightarrow> Inl (Recon (ReconstructionDataError (InvalidDirectionSide direction side))))"

definition direction_for_first_fill :: "string \<Rightarrow> exn + string" where
  "direction_for_first_fill side =
     (if side = ''BUY'' then Inr ''LONG''
      else if side = ''SELL'' then Inr ''SHORT''
      else Inl (Recon (ReconstructionDataError (UnknownFillSide side))))"

section \<open>Engine input and output records\<close>

record fill_record =
  fr_id :: uuid
  fr_user_id :: uuid
  fr_instrument_id :: uuid
  fr_trade_id :: "uuid option"
  fr_fill_timestamp :: timestamp
  fr_trade_date :: day
  fr_side :: string
  fr_quantity :: rat
  fr_price :: rat
  fr_product_type :: string
  fr_fill_id_str :: "string option"
  fr_created_at :: timestamp
  fr_import_source :: string
  fr_account_id :: "uuid option"

record open_trade_snapshot =
  ot_id :: uuid
  ot_direction :: string
  ot_status :: string
  ot_trade_date :: day
  ot_first_fill_at :: timestamp
  ot_total_entry_quantity :: rat
  ot_total_exit_quantity :: rat
  ot_net_position :: rat
  ot_average_entry :: rat
  ot_trade_type :: string

record reconstruction_result =
  fills_processed :: nat
  fills_skipped_no_unprocessed :: nat
  trades_opened :: nat
  trades_closed :: nat
  tax_lots_created :: nat
  tax_lots_updated :: nat
  halted_at_fill_id :: "uuid option"
  error_detail :: "string option"
  affected_trade_id :: "uuid option"

definition empty_result :: reconstruction_result where
  "empty_result = \<lparr>fills_processed = 0, fills_skipped_no_unprocessed = 0, trades_opened = 0,
     trades_closed = 0, tax_lots_created = 0, tax_lots_updated = 0,
     halted_at_fill_id = None, error_detail = None, affected_trade_id = None\<rparr>"

section \<open>Facts about the derivations\<close>

lemma product_type_family_for_Inr [result_simps]:
  "product_type_family_for p = Inr f \<longleftrightarrow>
   (p = ''MIS'' \<and> f = INTRADAY) \<or> (p = ''CNC'' \<and> f = DELIVERY) \<or> (p = ''NRML'' \<and> f = FO)"
  by (auto simp: product_type_family_for_def PRODUCT_TYPE_TO_FAMILY_def)

lemma direction_for_first_fill_Inr [result_simps]:
  "direction_for_first_fill s = Inr d \<longleftrightarrow>
   (s = ''BUY'' \<and> d = ''LONG'') \<or> (s = ''SELL'' \<and> d = ''SHORT'')"
  by (auto simp: direction_for_first_fill_def)

lemma fill_role_for_Inr [result_simps]:
  "fill_role_for d s = Inr r \<longleftrightarrow>
   (r = ''ENTRY'' \<and> ((d = ''LONG'' \<and> s = ''BUY'') \<or> (d = ''SHORT'' \<and> s = ''SELL''))) \<or>
   (r = ''EXIT'' \<and> ((d = ''LONG'' \<and> s = ''SELL'') \<or> (d = ''SHORT'' \<and> s = ''BUY'')))"
  by (auto simp: fill_role_for_def FILL_ROLE_TABLE_def)

lemma fill_role_for_first:
  "direction_for_first_fill s = Inr d \<Longrightarrow> fill_role_for d s = Inr ''ENTRY''"
  by (auto simp: result_simps)

lemma provisional_trade_type_in_family:
  "provisional_trade_type f i = Inr t \<Longrightarrow> t \<in> set (TRADE_TYPES_FOR_FAMILY f)"
  by (cases f) (auto simp: provisional_trade_type_def split: if_splits)

lemma finalize_trade_type_in_family:
  "t \<in> set (TRADE_TYPES_FOR_FAMILY f) \<Longrightarrow>
   finalize_trade_type t d e \<in> set (TRADE_TYPES_FOR_FAMILY f)"
  by (cases f) (auto simp: finalize_trade_type_def)

lemma product_type_from_family:
  "product_type_family_for p = Inr f \<Longrightarrow> t \<in> set (TRADE_TYPES_FOR_FAMILY f) \<Longrightarrow>
   product_type_from_trade_type t = Inr p"
  by (cases f) (auto simp: result_simps product_type_from_trade_type_def)

end
