(* ===== verification/Tables.thy ===== *)
theory Tables
  imports Trade_Types
begin

text \<open>
  The relational state: one record per ORM class of \<open>infrastructure/models\<close> with the columns
  the modelled code reads or writes (the bookkeeping columns \<open>created_at\<close> and \<open>updated_at\<close> are
  kept only where they are read), and the database as one record of tables. The CHECK
  constraints of a table are a predicate on its rows.
\<close>

section \<open>Rows\<close>

record instrument_row =
  i_id :: uuid
  i_symbol :: string
  i_exchange_segment :: string
  i_instrument_type :: string
  i_expiry_date :: "day option"
  i_strike_price :: "rat option"
  i_name :: string

record trade_row =
  t_id :: uuid
  t_user_id :: uuid
  t_account_id :: "uuid option"
  t_instrument_id :: uuid
  t_trade_type :: string
  t_direction :: string
  t_status :: string
  t_trade_date :: day
  t_first_fill_at :: timestamp
  t_last_fill_at :: "timestamp option"
  t_total_entry_quantity :: rat
  t_total_exit_quantity :: rat
  t_net_position :: rat
  t_average_entry :: "rat option"
  t_average_exit :: "rat option"
  t_planned_stop :: "rat option"
  t_planned_target :: "rat option"
  t_planned_risk_amount :: "rat option"
  t_is_deleted :: bool
  t_setup_name :: "string option"

record execution_fill_row =
  x_id :: uuid
  x_user_id :: uuid
  x_account_id :: "uuid option"
  x_instrument_id :: uuid
  x_trade_id :: "uuid option"
  x_fill_role :: "string option"
  x_fill_timestamp :: timestamp
  x_trade_date :: day
  x_session :: string
  x_side :: string
  x_quantity :: rat
  x_price :: rat
  x_product_type :: string
  x_exit_type :: "string option"
  x_order_id :: "string option"
  x_fill_id :: "string option"
  x_broker :: string
  x_import_source :: string
  x_created_at :: timestamp

record tax_lot_row =
  l_id :: uuid
  l_trade_id :: uuid
  l_user_id :: uuid
  l_instrument_id :: uuid
  l_purchase_date :: day
  l_quantity_original :: rat
  l_quantity_remaining :: rat
  l_cost_per_share :: rat
  l_status :: string

record fill_exclusion_row =
  fe_id :: uuid
  fe_fill_id :: uuid
  fe_reason :: string
  fe_replacement_fill_ids :: "uuid list"
  fe_excluded_by :: uuid

record trading_account_row =
  a_id :: uuid
  a_user_id :: uuid
  a_broker :: string
  a_display_name :: string
  a_account_type :: string
  a_base_currency :: string
  a_status :: string
  a_starting_capital :: "rat option"
  a_created_at :: timestamp
  a_updated_at :: timestamp

record journal_entry_row =
  j_id :: uuid
  j_trade_id :: uuid
  j_user_id :: uuid
  j_planned_entry :: "rat option"
  j_planned_stop :: "rat option"
  j_planned_target :: "rat option"
  j_planned_risk_amount :: "rat option"
  j_setup_name :: "string option"
  j_notes :: "string option"
  j_discipline_score :: "int option"
  j_mistakes :: "string list option"
  j_emotion_before :: "string option"
  j_emotion_during :: "string option"
  j_emotion_after :: "string option"
  j_deleted_at :: "timestamp option"
  j_created_at :: timestamp
  j_updated_at :: timestamp

record journal_attachment_row =
  ja_id :: uuid
  ja_journal_entry_id :: uuid
  ja_user_id :: uuid
  ja_trade_id :: uuid
  ja_s3_key :: string
  ja_filename :: string
  ja_content_type :: string
  ja_byte_size :: int
  ja_capture_moment :: string
  ja_caption :: "string option"
  ja_status :: string
  ja_confirmed_at :: "timestamp option"
  ja_deleted_at :: "timestamp option"
  ja_created_at :: timestamp

record journal_audit_row =
  jl_id :: uuid
  jl_journal_entry_id :: uuid
  jl_user_id :: uuid
  jl_field_name :: string
  jl_previous_value :: "string option"
  jl_new_value :: "string option"
  jl_change_reason :: "string option"
  jl_changed_at :: timestamp

text \<open>A JSON value of an audit event, and the row of \<open>SecurityAuditLog\<close> (\<open>infrastructure/models/auth.py\<close>).\<close>

datatype json = JString string | JInt int | JBool bool

record security_audit_row =
  sa_id :: uuid
  sa_event_type :: string
  sa_user_id :: "uuid option"
  sa_ip_address :: "string option"
  sa_event_data :: "(string \<times> json) list"
  sa_occurred_at :: timestamp

record import_record_row =
  ir_id :: uuid
  ir_account_id :: uuid
  ir_broker :: string
  ir_file_hash :: string
  ir_file_name :: "string option"
  ir_row_count :: nat
  ir_error_count :: nat
  ir_status :: string
  ir_imported_at :: timestamp

text \<open>\<open>ChargeScheduleRow\<close> of \<open>domain/pnl/types.py\<close>, which mirrors the table.\<close>

record charge_schedule_row =
  cs_id :: uuid
  cs_broker :: string
  cs_trade_type :: string
  cs_exchange_segment :: string
  cs_effective_from :: day
  cs_brokerage_type :: string
  cs_brokerage_flat_per_order :: "rat option"
  cs_brokerage_pct :: "rat option"
  cs_brokerage_cap_per_order :: "rat option"
  cs_stt_buy_rate :: rat
  cs_stt_sell_rate :: rat
  cs_stt_base :: string
  cs_exchange_charge_rate :: rat
  cs_exchange_charge_base :: string
  cs_sebi_charge_rate :: rat
  cs_stamp_duty_rate :: rat
  cs_stamp_duty_base :: string
  cs_gst_rate :: rat
  cs_ipft_rate :: rat
  cs_ipft_base :: string

record trade_pnl_row =
  p_trade_id :: uuid
  p_user_id :: uuid
  p_account_id :: "uuid option"
  p_gross_pnl :: rat
  p_net_pnl :: rat
  p_total_charges :: rat
  p_r_multiple :: "rat option"
  p_brokerage :: rat
  p_stt :: rat
  p_exchange_charges :: rat
  p_sebi_charges :: rat
  p_stamp_duty :: rat
  p_gst :: rat
  p_ipft :: rat
  p_broker :: string
  p_charge_schedule_version :: "string \<times> string \<times> string \<times> day"
  p_engine_version :: string

section \<open>The database\<close>

text \<open>
  \<open>next_uuid\<close> is the source of \<open>uuid4()\<close>: every identifier in the tables is below it.
\<close>

record db =
  instruments :: "instrument_row list"
  trades :: "trade_row list"
  execution_fills :: "execution_fill_row list"
  tax_lots :: "tax_lot_row list"
  fill_exclusions :: "fill_exclusion_row list"
  trading_accounts :: "trading_account_row list"
  journal_entries :: "journal_entry_row list"
  charge_schedules :: "charge_schedule_row list"
  trade_pnls :: "trade_pnl_row list"
  import_records :: "import_record_row list"
  journal_attachments :: "journal_attachment_row list"
  journal_audit_log :: "journal_audit_row list"
  security_audit_log :: "security_audit_row list"
  next_uuid :: uuid

definition uuid4 :: "db \<Rightarrow> uuid \<times> db" where
  "uuid4 d = (next_uuid d, d\<lparr>next_uuid := Suc (next_uuid d)\<rparr>)"

section \<open>CHECK constraints\<close>

definition trade_check :: "trade_row \<Rightarrow> bool" where
  "trade_check t \<longleftrightarrow>
     t_trade_type t \<in> {''MIS'', ''CNC'', ''CNC_SAME_DAY'', ''NRML_FUT'', ''NRML_OPT''} \<and>
     t_direction t \<in> {''LONG'', ''SHORT''} \<and>
     t_status t \<in> {''OPEN'', ''PARTIAL'', ''CLOSED''} \<and>
     0 \<le> t_net_position t \<and>
     0 \<le> t_total_entry_quantity t \<and>
     0 \<le> t_total_exit_quantity t \<and>
     t_total_exit_quantity t \<le> t_total_entry_quantity t"

definition fill_check :: "execution_fill_row \<Rightarrow> bool" where
  "fill_check x \<longleftrightarrow>
     x_session x \<in> {''PRE_OPEN'', ''REGULAR'', ''POST_CLOSE''} \<and>
     x_side x \<in> {''BUY'', ''SELL''} \<and>
     x_fill_role x \<in> {Some ''ENTRY'', Some ''EXIT'', None} \<and>
     x_product_type x \<in> {''MIS'', ''CNC'', ''NRML''} \<and>
     0 < x_quantity x \<and>
     0 < x_price x \<and>
     x_broker x \<in> {''ZERODHA'', ''UPSTOX'', ''ANGEL_ONE'', ''MANUAL''} \<and>
     (x_trade_id x = None \<longrightarrow> x_fill_role x = None) \<and>
     (x_exit_type x = None \<or> x_fill_role x = Some ''EXIT'' \<or> x_fill_role x = None)"

definition tax_lot_check :: "tax_lot_row \<Rightarrow> bool" where
  "tax_lot_check l \<longleftrightarrow>
     l_status l \<in> {''OPEN'', ''PARTIALLY_CLOSED'', ''CLOSED''} \<and>
     0 \<le> l_quantity_remaining l \<and>
     l_quantity_remaining l \<le> l_quantity_original l \<and>
     0 < l_quantity_original l \<and>
     0 < l_cost_per_share l"

definition trade_pnl_check :: "trade_pnl_row \<Rightarrow> bool" where
  "trade_pnl_check p \<longleftrightarrow>
     p_total_charges p = p_brokerage p + p_stt p + p_exchange_charges p + p_sebi_charges p
       + p_stamp_duty p + p_gst p + p_ipft p \<and>
     0 \<le> p_brokerage p \<and> 0 \<le> p_stt p \<and> 0 \<le> p_exchange_charges p \<and> 0 \<le> p_sebi_charges p \<and>
     0 \<le> p_stamp_duty p \<and> 0 \<le> p_gst p \<and> 0 \<le> p_ipft p"

section \<open>Keyed tables\<close>

text \<open>
  What the repositories rely on of a table with a primary key: a lookup by key, an insert of a
  fresh key and an update by key that does not change the key.
\<close>

locale keyed_table =
  fixes key :: "'r \<Rightarrow> uuid"
  fixes lookup :: "'r list \<Rightarrow> uuid \<Rightarrow> 'r option"
  fixes insert_row :: "'r list \<Rightarrow> 'r \<Rightarrow> 'r list"
  fixes update_key :: "uuid \<Rightarrow> ('r \<Rightarrow> 'r) \<Rightarrow> 'r list \<Rightarrow> 'r list"
  assumes lookup_insert: "key r \<notin> key ` set rs \<Longrightarrow>
      lookup (insert_row rs r) k = (if k = key r then Some r else lookup rs k)"
    and lookup_update: "(\<And>r. key (f r) = key r) \<Longrightarrow>
      lookup (update_key k f rs) k' = (if k' = k then map_option f (lookup rs k') else lookup rs k')"
    and keys_insert: "key ` set (insert_row rs r) = insert (key r) (key ` set rs)"
    and keys_update: "(\<And>r. key (f r) = key r) \<Longrightarrow> key ` set (update_key k f rs) = key ` set rs"
    and lookup_None: "lookup rs k = None \<longleftrightarrow> k \<notin> key ` set rs"
begin

lemma lookup_insert_new: "key r \<notin> key ` set rs \<Longrightarrow> lookup (insert_row rs r) (key r) = Some r"
  by (simp add: lookup_insert)

lemma lookup_insert_old:
  "key r \<notin> key ` set rs \<Longrightarrow> lookup rs k = Some r' \<Longrightarrow> lookup (insert_row rs r) k = Some r'"
  using lookup_None [of rs "key r"] by (auto simp: lookup_insert)

lemma lookup_update_same:
  "(\<And>r. key (f r) = key r) \<Longrightarrow> lookup rs k = Some r \<Longrightarrow> lookup (update_key k f rs) k = Some (f r)"
  by (simp add: lookup_update)

lemma lookup_update_other:
  "(\<And>r. key (f r) = key r) \<Longrightarrow> k' \<noteq> k \<Longrightarrow> lookup (update_key k f rs) k' = lookup rs k'"
  by (simp add: lookup_update)

lemma lookup_insert_update:
  assumes "key r \<notin> key ` set rs" and "\<And>r. key (f r) = key r"
  shows "lookup (update_key (key r) f (insert_row rs r)) (key r) = Some (f r)"
  by (rule lookup_update_same) (simp_all add: assms lookup_insert_new)

end

definition get_by :: "('r \<Rightarrow> uuid) \<Rightarrow> 'r list \<Rightarrow> uuid \<Rightarrow> 'r option" where
  "get_by key rs k = first_row (filter (\<lambda>r. key r = k) rs)"

definition append_row :: "'r list \<Rightarrow> 'r \<Rightarrow> 'r list" where
  "append_row rs r = rs @ [r]"

definition update_by :: "('r \<Rightarrow> uuid) \<Rightarrow> uuid \<Rightarrow> ('r \<Rightarrow> 'r) \<Rightarrow> 'r list \<Rightarrow> 'r list" where
  "update_by key k f rs = update_where (\<lambda>r. key r = k) f rs"

lemma get_by_Cons: "get_by key (r # rs) k = (if key r = k then Some r else get_by key rs k)"
  by (simp add: get_by_def first_row_def)

lemma get_by_Nil: "get_by key [] k = None"
  by (simp add: get_by_def first_row_def)

lemma get_by_append: "get_by key (rs @ ss) k =
    (case get_by key rs k of None \<Rightarrow> get_by key ss k | Some r \<Rightarrow> Some r)"
  by (induction rs) (auto simp: get_by_Cons get_by_Nil)

lemma get_by_None: "get_by key rs k = None \<longleftrightarrow> k \<notin> key ` set rs"
  by (induction rs) (auto simp: get_by_Cons get_by_Nil)

lemma get_by_Some: "get_by key rs k = Some r \<Longrightarrow> r \<in> set rs \<and> key r = k"
  by (induction rs) (auto simp: get_by_Cons get_by_Nil split: if_splits)

lemma get_by_update_by:
  assumes "\<And>r. key (f r) = key r"
  shows "get_by key (update_by key k f rs) k' =
    (if k' = k then map_option f (get_by key rs k') else get_by key rs k')"
  by (induction rs) (auto simp: update_by_def get_by_Cons get_by_Nil assms)

lemma keys_update_by: "(\<And>r. key (f r) = key r) \<Longrightarrow> key ` set (update_by key k f rs) = key ` set rs"
  by (induction rs) (auto simp: update_by_def)

interpretation tbl: keyed_table key "get_by key" append_row "update_by key" for key
proof
  fix r :: 'a and rs :: "'a list" and k k' :: uuid and f :: "'a \<Rightarrow> 'a"
  show "get_by key rs k = None \<longleftrightarrow> k \<notin> key ` set rs" by (rule get_by_None)
  show "key ` set (append_row rs r) = insert (key r) (key ` set rs)"
    by (auto simp: append_row_def)
  show "get_by key (append_row rs r) k = (if k = key r then Some r else get_by key rs k)"
    if "key r \<notin> key ` set rs"
    using that get_by_None [of key rs "key r"]
    by (auto simp: append_row_def get_by_append get_by_Cons get_by_Nil split: option.splits)
  assume "\<And>r. key (f r) = key r"
  then show "get_by key (update_by key k f rs) k' =
      (if k' = k then map_option f (get_by key rs k') else get_by key rs k')"
    and "key ` set (update_by key k f rs) = key ` set rs"
    by (rule get_by_update_by, rule keys_update_by)
qed

text \<open>Membership after an update and an insert.\<close>

lemma in_update_by:
  "r \<in> set (update_by key k f rs) \<longleftrightarrow>
   (\<exists>r0\<in>set rs. r = (if key r0 = k then f r0 else r0))"
  by (induction rs) (auto simp: update_by_def)

lemma in_append_row [simp]: "r \<in> set (append_row rs s) \<longleftrightarrow> r \<in> set rs \<or> r = s"
  by (auto simp: append_row_def)

lemma map_update_by [simp]:
  "(\<And>r. g (f r) = g r) \<Longrightarrow> map g (update_by key k f rs) = map g rs"
  by (simp add: update_by_def map_key_update_where)

lemma distinct_get_by:
  "distinct (map key rs) \<Longrightarrow> r \<in> set rs \<Longrightarrow> get_by key rs (key r) = Some r"
  by (induction rs) (auto simp: get_by_Cons image_iff)

end
