(* ===== verification/Repositories.thy ===== *)
theory Repositories
  imports Tables
begin

text \<open>
  The repositories the reconstruction engine uses: trade, fill, tax-lot and fill-exclusion
  repositories of \<open>infrastructure/repositories\<close>, each query as a filter of its table and each
  mutation as the new database, and the \<open>NormalizedFill\<close> value object. Its insertion, with the
  types and constraints of the table, is in \<open>Fill_Store\<close>.
  The row lock of \<open>SELECT FOR UPDATE\<close> has no counterpart: a run is one transaction here.
\<close>

section \<open>trade_repo.py\<close>

definition to_snapshot :: "trade_row \<Rightarrow> exn + open_trade_snapshot" where
  "to_snapshot row =
     (case t_average_entry row of
        None \<Rightarrow> Inl (Py InvalidOperation)  \<comment> \<open>Decimal('None')\<close>
      | Some avg \<Rightarrow> Inr \<lparr>
          ot_id = t_id row,
          ot_direction = t_direction row,
          ot_status = t_status row,
          ot_trade_date = t_trade_date row,
          ot_first_fill_at = t_first_fill_at row,
          ot_total_entry_quantity = t_total_entry_quantity row,
          ot_total_exit_quantity = t_total_exit_quantity row,
          ot_net_position = t_net_position row,
          ot_average_entry = avg,
          ot_trade_type = t_trade_type row\<rparr>)"

definition is_open_trade ::
  "uuid \<Rightarrow> uuid \<Rightarrow> uuid \<Rightarrow> product_type_family \<Rightarrow> trade_row \<Rightarrow> bool" where
  "is_open_trade user_id account_id instrument_id family t \<longleftrightarrow>
     t_user_id t = user_id \<and>
     t_account_id t = Some account_id \<and>
     t_instrument_id t = instrument_id \<and>
     t_status t \<in> {''OPEN'', ''PARTIAL''} \<and>
     t_trade_type t \<in> set (TRADE_TYPES_FOR_FAMILY family) \<and>
     \<not> t_is_deleted t"

definition get_open_trade_with_lock ::
  "uuid \<Rightarrow> uuid \<Rightarrow> uuid \<Rightarrow> product_type_family \<Rightarrow> db \<Rightarrow> exn + open_trade_snapshot option" where
  "get_open_trade_with_lock user_id account_id instrument_id family d =
     rbind (scalar_one_or_none (Py MultipleResultsFound)
              (filter (is_open_trade user_id account_id instrument_id family) (trades d)))
       (\<lambda>row. case row of
          None \<Rightarrow> Inr None
        | Some r \<Rightarrow> rbind (to_snapshot r) (\<lambda>s. Inr (Some s)))"

definition create_trade_row :: "trade_row \<Rightarrow> db \<Rightarrow> db" where
  "create_trade_row t d = d\<lparr>trades := append_row (trades d) t\<rparr>"

definition new_trade_row ::
  "uuid \<Rightarrow> uuid \<Rightarrow> uuid option \<Rightarrow> uuid \<Rightarrow> string \<Rightarrow> string \<Rightarrow> string \<Rightarrow> day \<Rightarrow> timestamp \<Rightarrow>
   rat \<Rightarrow> rat \<Rightarrow> rat \<Rightarrow> rat \<Rightarrow> trade_row" where
  "new_trade_row pk user_id account_id instrument_id trade_type direction status trade_date
     first_fill_at total_entry_quantity total_exit_quantity net_position average_entry = \<lparr>
     t_id = pk, t_user_id = user_id, t_account_id = account_id, t_instrument_id = instrument_id,
     t_trade_type = trade_type, t_direction = direction, t_status = status,
     t_trade_date = trade_date, t_first_fill_at = first_fill_at, t_last_fill_at = None,
     t_total_entry_quantity = total_entry_quantity,
     t_total_exit_quantity = total_exit_quantity,
     t_net_position = net_position,
     t_average_entry = Some average_entry, t_average_exit = None,
     t_planned_stop = None, t_planned_target = None, t_planned_risk_amount = None,
     t_is_deleted = False, t_setup_name = None\<rparr>"

definition update_trade :: "uuid \<Rightarrow> (trade_row \<Rightarrow> trade_row) \<Rightarrow> db \<Rightarrow> db" where
  "update_trade trade_id upd d = d\<lparr>trades := update_by t_id trade_id upd (trades d)\<rparr>"

section \<open>NormalizedFill (domain/import_domain/types.py)\<close>

record normalized_fill =
  nf_broker_trade_id :: string
  nf_broker_order_id :: string
  nf_broker :: string
  nf_import_source :: string
  nf_symbol_raw :: string
  nf_exchange :: string
  nf_exchange_segment :: string
  nf_instrument_type :: string
  nf_expiry_date :: "day option"
  nf_strike_price :: "rat option"
  nf_trade_date :: day
  nf_fill_timestamp :: timestamp
  nf_session :: string
  nf_side :: string
  nf_quantity :: rat
  nf_price :: rat
  nf_product_type :: string
  nf_is_auction :: bool
  nf_is_expiry_squareoff :: bool

section \<open>fill_repo.py\<close>

definition to_record :: "execution_fill_row \<Rightarrow> fill_record" where
  "to_record row = \<lparr>
     fr_id = x_id row, fr_user_id = x_user_id row, fr_instrument_id = x_instrument_id row,
     fr_trade_id = x_trade_id row, fr_fill_timestamp = x_fill_timestamp row,
     fr_trade_date = x_trade_date row, fr_side = x_side row, fr_quantity = x_quantity row,
     fr_price = x_price row, fr_product_type = x_product_type row,
     fr_fill_id_str = x_fill_id row, fr_created_at = x_created_at row,
     fr_import_source = x_import_source row, fr_account_id = x_account_id row\<rparr>"

text \<open>\<open>ORDER BY fill_timestamp ASC, fill_id ASC NULLS LAST, created_at ASC\<close>\<close>

fun nulls_last_less :: "string option \<Rightarrow> string option \<Rightarrow> bool" where
  "nulls_last_less None _ = False"
| "nulls_last_less (Some a) None = True"
| "nulls_last_less (Some a) (Some b) = str_less a b"

definition fill_before :: "execution_fill_row \<Rightarrow> execution_fill_row \<Rightarrow> bool" where
  "fill_before a b \<longleftrightarrow>
     x_fill_timestamp a < x_fill_timestamp b \<or>
     x_fill_timestamp a = x_fill_timestamp b \<and>
       (nulls_last_less (x_fill_id a) (x_fill_id b) \<or>
        x_fill_id a = x_fill_id b \<and> x_created_at a \<le> x_created_at b)"

definition is_unprocessed ::
  "uuid \<Rightarrow> uuid \<Rightarrow> uuid \<Rightarrow> string \<Rightarrow> db \<Rightarrow> execution_fill_row \<Rightarrow> bool" where
  "is_unprocessed user_id account_id instrument_id product_type d x \<longleftrightarrow>
     x_user_id x = user_id \<and>
     x_account_id x = Some account_id \<and>
     x_instrument_id x = instrument_id \<and>
     x_product_type x = product_type \<and>
     x_trade_id x = None \<and>
     x_id x \<notin> set (map fe_fill_id (fill_exclusions d))"

definition get_unprocessed_fills ::
  "uuid \<Rightarrow> uuid \<Rightarrow> uuid \<Rightarrow> string \<Rightarrow> db \<Rightarrow> fill_record list" where
  "get_unprocessed_fills user_id account_id instrument_id product_type d =
     map to_record (order_by fill_before
       (filter (is_unprocessed user_id account_id instrument_id product_type d)
         (execution_fills d)))"

definition get_exit_fills :: "uuid \<Rightarrow> db \<Rightarrow> fill_record list" where
  "get_exit_fills trade_id d =
     map to_record (order_by (\<lambda>a b. x_fill_timestamp a \<le> x_fill_timestamp b)
       (filter (\<lambda>x. x_trade_id x = Some trade_id \<and> x_fill_role x = Some ''EXIT'')
         (execution_fills d)))"

definition fill_exists :: "string \<Rightarrow> uuid \<Rightarrow> db \<Rightarrow> bool" where
  "fill_exists broker_trade_id account_id d \<longleftrightarrow>
     filter (\<lambda>x. x_fill_id x = Some broker_trade_id \<and> x_account_id x = Some account_id)
       (execution_fills d) \<noteq> []"

definition assign_trade :: "uuid \<Rightarrow> uuid \<Rightarrow> string \<Rightarrow> db \<Rightarrow> db" where
  "assign_trade fill_id trade_id fill_role d =
     d\<lparr>execution_fills := update_by x_id fill_id
         (\<lambda>x. x\<lparr>x_trade_id := Some trade_id, x_fill_role := Some fill_role\<rparr>)
         (execution_fills d)\<rparr>"

section \<open>tax_lot_repo.py\<close>

definition create_lot ::
  "uuid \<Rightarrow> uuid \<Rightarrow> uuid \<Rightarrow> uuid \<Rightarrow> day \<Rightarrow> rat \<Rightarrow> rat \<Rightarrow> rat \<Rightarrow> db \<Rightarrow> db" where
  "create_lot pk trade_id user_id instrument_id purchase_date quantity_original
     quantity_remaining cost_per_share d =
     d\<lparr>tax_lots := append_row (tax_lots d) \<lparr>
         l_id = pk, l_trade_id = trade_id, l_user_id = user_id,
         l_instrument_id = instrument_id, l_purchase_date = purchase_date,
         l_quantity_original = quantity_original,
         l_quantity_remaining = quantity_remaining,
         l_cost_per_share = cost_per_share, l_status = ''OPEN''\<rparr>\<rparr>"

definition get_lot_for_trade :: "uuid \<Rightarrow> db \<Rightarrow> exn + tax_lot_row option" where
  "get_lot_for_trade trade_id d =
     scalar_one_or_none (Py MultipleResultsFound)
       (filter (\<lambda>l. l_trade_id l = trade_id) (tax_lots d))"

definition get_open_lot :: "uuid \<Rightarrow> uuid \<Rightarrow> db \<Rightarrow> tax_lot_row option" where
  "get_open_lot user_id instrument_id d =
     first_row (order_by (\<lambda>a b. l_purchase_date a \<le> l_purchase_date b)
       (filter (\<lambda>l. l_user_id l = user_id \<and> l_instrument_id l = instrument_id \<and>
                    l_status l \<noteq> ''CLOSED'') (tax_lots d)))"

definition update_lot :: "uuid \<Rightarrow> (tax_lot_row \<Rightarrow> tax_lot_row) \<Rightarrow> db \<Rightarrow> db" where
  "update_lot lot_id upd d = d\<lparr>tax_lots := update_by l_id lot_id upd (tax_lots d)\<rparr>"

section \<open>fill_exclusion_repo.py\<close>

definition exists_by_fill_id :: "uuid \<Rightarrow> db \<Rightarrow> bool" where
  "exists_by_fill_id fill_id d \<longleftrightarrow>
     filter (\<lambda>e. fe_fill_id e = fill_id) (fill_exclusions d) \<noteq> []"

definition get_excluded_fill_ids_for_trade :: "uuid \<Rightarrow> db \<Rightarrow> uuid list" where
  "get_excluded_fill_ids_for_trade trade_id d =
     [fe_fill_id e. e \<leftarrow> fill_exclusions d, x \<leftarrow> execution_fills d,
        x_id x = fe_fill_id e \<and> x_trade_id x = Some trade_id]"

definition create_exclusion ::
  "uuid \<Rightarrow> string \<Rightarrow> uuid list \<Rightarrow> uuid \<Rightarrow> db \<Rightarrow> uuid \<times> db" where
  "create_exclusion fill_id reason replacement_fill_ids excluded_by d =
     (let (exclusion_id, d1) = uuid4 d
      in (exclusion_id, d1\<lparr>fill_exclusions := append_row (fill_exclusions d1) \<lparr>
            fe_id = exclusion_id, fe_fill_id = fill_id, fe_reason = reason,
            fe_replacement_fill_ids = replacement_fill_ids,
            fe_excluded_by = excluded_by\<rparr>\<rparr>))"

end
