(* ===== verification/Pnl_Calculator.thy ===== *)
theory Pnl_Calculator
  imports Tables
begin

text \<open>
  \<open>domain/pnl/types.py\<close> and \<open>domain/pnl/calculator.py\<close>: gross P and L, the seven charge
  components, the R-multiple and the full result of a closed trade. Arithmetic is the Decimal
  arithmetic of \<open>Decimals\<close>, in the order of the source; an \<open>assert\<close> that fails and a
  \<open>quantize\<close> that overflows are errors of the result.
\<close>

section \<open>Types\<close>

definition PNL_ENGINE_VERSION :: string where
  "PNL_ENGINE_VERSION = ''1.0.0''"

record trade_snapshot =
  ts_trade_id :: uuid
  ts_user_id :: uuid
  ts_trade_type :: string
  ts_trade_date :: day
  ts_direction :: string
  ts_average_entry :: rat
  ts_average_exit :: rat
  ts_total_entry_quantity :: rat
  ts_exchange_segment :: string
  ts_broker :: string
  ts_planned_risk_amount :: "rat option"
  ts_account_id :: "uuid option"

record charge_breakdown =
  cb_brokerage :: rat
  cb_stt :: rat
  cb_exchange_charges :: rat
  cb_sebi_charges :: rat
  cb_stamp_duty :: rat
  cb_gst :: rat
  cb_ipft :: rat
  cb_total_charges :: rat

record pnl_result =
  pr_trade_id :: uuid
  pr_user_id :: uuid
  pr_gross_pnl :: rat
  pr_net_pnl :: rat
  pr_r_multiple :: "rat option"
  pr_brokerage :: rat
  pr_stt :: rat
  pr_exchange_charges :: rat
  pr_sebi_charges :: rat
  pr_stamp_duty :: rat
  pr_gst :: rat
  pr_ipft :: rat
  pr_total_charges :: rat
  pr_broker :: string
  pr_charge_schedule_version :: "string \<times> string \<times> string \<times> day"
  pr_engine_version :: string
  pr_account_id :: "uuid option"

section \<open>Calculator\<close>

definition brokerage_per_side :: "rat \<Rightarrow> charge_schedule_row \<Rightarrow> exn + rat" where
  "brokerage_per_side turnover cs =
     (if cs_brokerage_type cs = ''ZERO'' then Inr 0
      else if cs_brokerage_type cs = ''FLAT'' then
        (case cs_brokerage_flat_per_order cs of
           None \<Rightarrow> Inl (Py AssertionError)
         | Some flat \<Rightarrow> Inr flat)
      else
        (case (cs_brokerage_pct cs, cs_brokerage_cap_per_order cs) of
           (Some pct, Some cap) \<Rightarrow> Inr (min (dmul pct turnover) cap)
         | _ \<Rightarrow> Inl (Py AssertionError)))"

definition compute_gross_pnl :: "trade_snapshot \<Rightarrow> rat" where
  "compute_gross_pnl trade =
     (if ts_direction trade = ''LONG''
      then dmul (dsub (ts_average_exit trade) (ts_average_entry trade))
             (ts_total_entry_quantity trade)
      else dmul (dsub (ts_average_entry trade) (ts_average_exit trade))
             (ts_total_entry_quantity trade))"

definition compute_charges ::
  "trade_snapshot \<Rightarrow> charge_schedule_row \<Rightarrow> exn + charge_breakdown" where
  "compute_charges trade cs =
     (let entry_turnover = dmul (ts_average_entry trade) (ts_total_entry_quantity trade);
          exit_turnover = dmul (ts_average_exit trade) (ts_total_entry_quantity trade)
      in
      rbind (brokerage_per_side entry_turnover cs) (\<lambda>b_entry.
      rbind (brokerage_per_side exit_turnover cs) (\<lambda>b_exit.
      let brokerage = dadd b_entry b_exit;
          stt = dadd (dmul (cs_stt_buy_rate cs) entry_turnover)
                     (dmul (cs_stt_sell_rate cs) exit_turnover);
          total_base = dadd entry_turnover exit_turnover;
          exchange_charges = dmul (cs_exchange_charge_rate cs) total_base;
          sebi_charges = dmul (cs_sebi_charge_rate cs) total_base;
          stamp_duty = dmul (cs_stamp_duty_rate cs) entry_turnover;
          gst = dmul (cs_gst_rate cs) (dadd (dadd brokerage exchange_charges) sebi_charges);
          ipft = dmul (cs_ipft_rate cs) total_base
      in
      rbind (quantize CHARGE_STORED brokerage) (\<lambda>q_brokerage.
      rbind (quantize CHARGE_STORED stt) (\<lambda>q_stt.
      rbind (quantize CHARGE_STORED exchange_charges) (\<lambda>q_exchange_charges.
      rbind (quantize CHARGE_STORED sebi_charges) (\<lambda>q_sebi_charges.
      rbind (quantize CHARGE_STORED stamp_duty) (\<lambda>q_stamp_duty.
      rbind (quantize CHARGE_STORED gst) (\<lambda>q_gst.
      rbind (quantize CHARGE_STORED ipft) (\<lambda>q_ipft.
      Inr \<lparr>cb_brokerage = q_brokerage, cb_stt = q_stt,
           cb_exchange_charges = q_exchange_charges, cb_sebi_charges = q_sebi_charges,
           cb_stamp_duty = q_stamp_duty, cb_gst = q_gst, cb_ipft = q_ipft,
           cb_total_charges =
             dadd (dadd (dadd (dadd (dadd (dadd q_brokerage q_stt) q_exchange_charges)
               q_sebi_charges) q_stamp_duty) q_gst) q_ipft\<rparr>))))))))))"

definition compute_r_multiple :: "rat \<Rightarrow> rat option \<Rightarrow> exn + rat option" where
  "compute_r_multiple net_pnl planned_risk_amount =
     (case planned_risk_amount of
        None \<Rightarrow> Inr None
      | Some risk \<Rightarrow>
          if risk = 0 then Inr None
          else rbind (ddiv net_pnl risk) (\<lambda>r.
               rbind (quantize R_MULTIPLE r) (\<lambda>q. Inr (Some q))))"

definition compute_pnl :: "trade_snapshot \<Rightarrow> charge_schedule_row \<Rightarrow> exn + pnl_result" where
  "compute_pnl trade cs =
     rbind (quantize CHARGE_STORED (compute_gross_pnl trade)) (\<lambda>gross_pnl.
     rbind (compute_charges trade cs) (\<lambda>charges.
     rbind (quantize CHARGE_STORED (dsub gross_pnl (cb_total_charges charges))) (\<lambda>net_pnl.
     rbind (compute_r_multiple net_pnl (ts_planned_risk_amount trade)) (\<lambda>r_multiple.
     Inr \<lparr>pr_trade_id = ts_trade_id trade, pr_user_id = ts_user_id trade,
          pr_gross_pnl = gross_pnl, pr_net_pnl = net_pnl, pr_r_multiple = r_multiple,
          pr_brokerage = cb_brokerage charges, pr_stt = cb_stt charges,
          pr_exchange_charges = cb_exchange_charges charges,
          pr_sebi_charges = cb_sebi_charges charges, pr_stamp_duty = cb_stamp_duty charges,
          pr_gst = cb_gst charges, pr_ipft = cb_ipft charges,
          pr_total_charges = cb_total_charges charges, pr_broker = ts_broker trade,
          pr_charge_schedule_version =
            (cs_broker cs, cs_trade_type cs, cs_exchange_segment cs, cs_effective_from cs),
          pr_engine_version = PNL_ENGINE_VERSION,
          pr_account_id = ts_account_id trade\<rparr>))))"

end
