(* ===== verification/Pnl_Service.thy ===== *)
theory Pnl_Service
  imports Pnl_Calculator
begin

text \<open>
  \<open>infrastructure/repositories/pnl_repo.py\<close>, \<open>charge_schedule_repo.py\<close> and
  \<open>application/pnl_service.py\<close>: assembling a closed trade, choosing its charge schedule,
  storing the result, and the backfill of all closed trades of a user.
\<close>

section \<open>charge_schedule_repo.py\<close>

definition get_for_date ::
  "string \<Rightarrow> string \<Rightarrow> string \<Rightarrow> day \<Rightarrow> db \<Rightarrow> charge_schedule_row option" where
  "get_for_date broker trade_type exchange_segment trade_date d =
     first_row (order_by (\<lambda>a b. cs_effective_from b \<le> cs_effective_from a)
       (filter (\<lambda>c. cs_broker c = broker \<and> cs_trade_type c = trade_type \<and>
                    cs_exchange_segment c = exchange_segment \<and>
                    cs_effective_from c \<le> trade_date) (charge_schedules d)))"

section \<open>pnl_repo.py\<close>

definition get_broker_for_trade :: "uuid \<Rightarrow> db \<Rightarrow> string option" where
  "get_broker_for_trade trade_id d =
     map_option x_broker (first_row
       (order_by (\<lambda>a b. x_fill_timestamp a \<le> x_fill_timestamp b)
         (filter (\<lambda>x. x_trade_id x = Some trade_id \<and> x_fill_role x = Some ''ENTRY'')
           (execution_fills d))))"

definition get_planned_risk :: "uuid \<Rightarrow> db \<Rightarrow> exn + rat option" where
  "get_planned_risk trade_id d =
     rbind (scalar_one_or_none (Py MultipleResultsFound)
              (filter (\<lambda>j. j_trade_id j = trade_id \<and> j_deleted_at j = None)
                (journal_entries d)))
       (\<lambda>entry. case Option.bind entry j_planned_risk_amount of
          Some value \<Rightarrow> Inr (Some value)
        | None \<Rightarrow> Inr (Option.bind (get_by t_id (trades d) trade_id) t_planned_risk_amount))"

definition get_trade_snapshot :: "uuid \<Rightarrow> db \<Rightarrow> exn + trade_snapshot option" where
  "get_trade_snapshot trade_id d =
     (case get_by t_id (filter (\<lambda>t. t_status t = ''CLOSED'') (trades d)) trade_id of
        None \<Rightarrow> Inr None
      | Some trade \<Rightarrow>
     (case get_by i_id (instruments d) (t_instrument_id trade) of
        None \<Rightarrow> Inr None
      | Some instrument \<Rightarrow>
     (case get_broker_for_trade trade_id d of
        None \<Rightarrow> Inr None
      | Some broker \<Rightarrow>
     rbind (get_planned_risk trade_id d) (\<lambda>planned_risk.
     case (t_average_entry trade, t_average_exit trade) of
        (Some average_entry, Some average_exit) \<Rightarrow>
          Inr (Some \<lparr>
            ts_trade_id = t_id trade, ts_user_id = t_user_id trade,
            ts_trade_type = t_trade_type trade, ts_trade_date = t_trade_date trade,
            ts_direction = t_direction trade, ts_average_entry = average_entry,
            ts_average_exit = average_exit,
            ts_total_entry_quantity = t_total_entry_quantity trade,
            ts_exchange_segment = i_exchange_segment instrument, ts_broker = broker,
            ts_planned_risk_amount = planned_risk, ts_account_id = t_account_id trade\<rparr>)
      | _ \<Rightarrow> Inr None))))"

text \<open>
  \<open>INSERT ... ON CONFLICT (trade_id) DO UPDATE\<close>: an existing row keeps its \<open>trade_id\<close> and
  \<open>user_id\<close>, everything else is replaced. The time of the calculation, \<open>calculated_at\<close>, which nothing
  reads, is not a column of the model.
\<close>

definition pnl_values :: "pnl_result \<Rightarrow> trade_pnl_row" where
  "pnl_values r = \<lparr>
     p_trade_id = pr_trade_id r, p_user_id = pr_user_id r, p_account_id = pr_account_id r,
     p_gross_pnl = pr_gross_pnl r, p_net_pnl = pr_net_pnl r,
     p_total_charges = pr_total_charges r, p_r_multiple = pr_r_multiple r,
     p_brokerage = pr_brokerage r, p_stt = pr_stt r,
     p_exchange_charges = pr_exchange_charges r, p_sebi_charges = pr_sebi_charges r,
     p_stamp_duty = pr_stamp_duty r, p_gst = pr_gst r, p_ipft = pr_ipft r,
     p_broker = pr_broker r, p_charge_schedule_version = pr_charge_schedule_version r,
     p_engine_version = pr_engine_version r\<rparr>"

definition upsert :: "pnl_result \<Rightarrow> db \<Rightarrow> db" where
  "upsert r d =
     (case get_by p_trade_id (trade_pnls d) (pr_trade_id r) of
        None \<Rightarrow> d\<lparr>trade_pnls := append_row (trade_pnls d) (pnl_values r)\<rparr>
      | Some _ \<Rightarrow> d\<lparr>trade_pnls := update_by p_trade_id (pr_trade_id r)
           (\<lambda>p. (pnl_values r)\<lparr>p_trade_id := p_trade_id p, p_user_id := p_user_id p\<rparr>)
           (trade_pnls d)\<rparr>)"

definition get_for_trade :: "uuid \<Rightarrow> db \<Rightarrow> trade_pnl_row option" where
  "get_for_trade trade_id d = get_by p_trade_id (trade_pnls d) trade_id"

definition update_r_multiple :: "uuid \<Rightarrow> rat option \<Rightarrow> db \<Rightarrow> db" where
  "update_r_multiple trade_id r_multiple d =
     d\<lparr>trade_pnls := update_by p_trade_id trade_id
         (\<lambda>p. p\<lparr>p_r_multiple := r_multiple\<rparr>) (trade_pnls d)\<rparr>"

section \<open>pnl_service.py\<close>

definition calculate_and_store :: "uuid \<Rightarrow> uuid \<Rightarrow> db \<Rightarrow> exn + db" where
  "calculate_and_store trade_id user_id d =
     rbind (get_trade_snapshot trade_id d) (\<lambda>snapshot.
     case snapshot of
        None \<Rightarrow> Inr d
      | Some trade \<Rightarrow>
          (case get_for_date (ts_broker trade) (ts_trade_type trade)
                  (ts_exchange_segment trade) (ts_trade_date trade) d of
             None \<Rightarrow> Inl (Pnl (ChargeScheduleNotFoundError (ts_broker trade)
                       (ts_trade_type trade) (ts_exchange_segment trade) (ts_trade_date trade)))
           | Some cs \<Rightarrow> rbind (compute_pnl trade cs) (\<lambda>result. Inr (upsert result d))))"

definition recalculate_r_multiple :: "uuid \<Rightarrow> uuid \<Rightarrow> db \<Rightarrow> exn + db" where
  "recalculate_r_multiple trade_id user_id d =
     (case get_for_trade trade_id d of
        None \<Rightarrow> Inr d
      | Some existing \<Rightarrow>
          rbind (get_planned_risk trade_id d) (\<lambda>planned_risk.
          rbind (compute_r_multiple (p_net_pnl existing) planned_risk) (\<lambda>r_multiple.
          Inr (update_r_multiple trade_id r_multiple d))))"

text \<open>The trades the backfill query selects: closed, not deleted, without a P and L row.\<close>

definition backfill_pending :: "uuid \<Rightarrow> db \<Rightarrow> uuid list" where
  "backfill_pending user_id d =
     map t_id (filter (\<lambda>t. t_user_id t = user_id \<and> t_status t = ''CLOSED'' \<and>
                          \<not> t_is_deleted t \<and> get_for_trade (t_id t) d = None) (trades d))"

fun backfill_loop :: "uuid \<Rightarrow> uuid list \<Rightarrow> db \<times> nat \<times> nat \<Rightarrow> db \<times> nat \<times> nat" where
  "backfill_loop user_id [] s = s"
| "backfill_loop user_id (tid # tids) (d, succeeded, failed) =
     backfill_loop user_id tids
       (case calculate_and_store tid user_id d of
          Inr d' \<Rightarrow> (d', Suc succeeded, failed)
        | Inl e \<Rightarrow> (d, succeeded, Suc failed))"

definition backfill_all_closed :: "uuid \<Rightarrow> db \<Rightarrow> db \<times> nat \<times> nat" where
  "backfill_all_closed user_id d = backfill_loop user_id (backfill_pending user_id d) (d, 0, 0)"

end
