(* ===== verification/Reconstruction.thy ===== *)
theory Reconstruction
  imports Repositories Pnl_Service
begin

text \<open>
  \<open>application/trade/reconstruction.py\<close>: the engine that turns the unprocessed fills of one
  processing unit into trades, fill roles and tax lots. \<open>run\<close> reads the open trade and the
  fills, then folds \<open>process_fill\<close> over them; an error ends the run and the caller rolls back,
  so the error value carries no database.
\<close>

section \<open>Local state of a run\<close>

text \<open>The local variables of \<open>run\<close>, with the database they are read from and written to.\<close>

record run_state =
  rs_db :: db
  rs_result :: reconstruction_result
  rs_position :: rat
  rs_current :: "open_trade_snapshot option"
  rs_entry_qty :: rat
  rs_entry_value :: rat
  rs_exit_fills :: "fill_record list"

section \<open>Helpers\<close>

definition update_lot_on_scale_in ::
  "uuid \<Rightarrow> rat \<Rightarrow> rat \<Rightarrow> db \<Rightarrow> reconstruction_result \<Rightarrow> exn + db \<times> reconstruction_result" where
  "update_lot_on_scale_in trade_id scale_in_qty new_avg_entry d result =
     rbind (get_lot_for_trade trade_id d) (\<lambda>found.
     case found of
        None \<Rightarrow> Inl (Recon (ReconstructionConsistencyError (NoLotOnScaleIn trade_id)))
      | Some lot \<Rightarrow>
          (let qty_already_exited = dsub (l_quantity_original lot) (l_quantity_remaining lot) in
           rbind (quantize QUANTITY (dadd (l_quantity_original lot) scale_in_qty))
             (\<lambda>new_qty_original.
           rbind (quantize QUANTITY (dsub new_qty_original qty_already_exited))
             (\<lambda>new_qty_remaining.
           Inr (update_lot (l_id lot)
                  (\<lambda>l. l\<lparr>l_quantity_original := new_qty_original,
                         l_quantity_remaining := new_qty_remaining,
                         l_cost_per_share := new_avg_entry\<rparr>) d,
                result\<lparr>tax_lots_updated := Suc (tax_lots_updated result)\<rparr>)))))"

definition decrement_lot_on_exit ::
  "uuid \<Rightarrow> uuid \<Rightarrow> fill_record \<Rightarrow> db \<Rightarrow> reconstruction_result \<Rightarrow>
   exn + db \<times> reconstruction_result" where
  "decrement_lot_on_exit user_id instrument_id fill d result =
     (case get_open_lot user_id instrument_id d of
        None \<Rightarrow> Inl (Recon (ReconstructionConsistencyError (NoOpenLotOnExit (fr_id fill))))
      | Some lot \<Rightarrow>
          rbind (quantize QUANTITY (dsub (l_quantity_remaining lot) (fr_quantity fill)))
            (\<lambda>new_remaining.
          if new_remaining < 0
          then Inl (Recon (ReconstructionConsistencyError
                 (LotWouldBeNegative (l_id lot) new_remaining (fr_id fill))))
          else
            let new_lot_status = (if new_remaining = 0 then ''CLOSED'' else ''PARTIALLY_CLOSED'')
            in Inr (update_lot (l_id lot)
                      (\<lambda>l. l\<lparr>l_quantity_remaining := new_remaining,
                             l_status := new_lot_status\<rparr>) d,
                    result\<lparr>tax_lots_updated := Suc (tax_lots_updated result)\<rparr>)))"

definition assert_lot_closed :: "uuid \<Rightarrow> fill_record \<Rightarrow> db \<Rightarrow> exn + unit" where
  "assert_lot_closed trade_id fill d =
     rbind (get_lot_for_trade trade_id d) (\<lambda>found.
     case found of
        None \<Rightarrow> Inr ()
      | Some lot \<Rightarrow>
          check (\<not> (l_quantity_remaining lot \<noteq> 0 \<or> l_status lot \<noteq> ''CLOSED''))
            (Recon (ReconstructionConsistencyError
               (LotNotClosed (l_id lot) trade_id (l_quantity_remaining lot) (l_status lot)))))"

definition compute_average_exit :: "fill_record list \<Rightarrow> exn + rat" where
  "compute_average_exit exit_fills =
     (if exit_fills = [] then Inr 0
      else ddiv (dsum (map (\<lambda>f. dmul (fr_quantity f) (fr_price f)) exit_fills))
                (dsum (map fr_quantity exit_fills)))"

definition ambiguous :: "fill_record \<Rightarrow> fill_record \<Rightarrow> bool" where
  "ambiguous a b \<longleftrightarrow>
     fr_fill_timestamp a = fr_fill_timestamp b \<and>
     fr_fill_id_str a = None \<and> fr_fill_id_str b = None \<and>
     fr_created_at a = fr_created_at b"

fun check_ambiguous_ordering :: "fill_record list \<Rightarrow> exn + unit" where
  "check_ambiguous_ordering (a # b # fills) =
     (if ambiguous a b then Inl (Recon (ReconstructionAmbiguityError (fr_id a) (fr_id b)))
      else check_ambiguous_ordering (b # fills))"
| "check_ambiguous_ordering _ = Inr ()"

section \<open>One fill\<close>

text \<open>FLAT to OPEN: create the trade, and its tax lot for delivery trades.\<close>

definition open_new_trade ::
  "uuid \<Rightarrow> uuid \<Rightarrow> product_type_family \<Rightarrow> string \<Rightarrow> fill_record \<Rightarrow> run_state \<Rightarrow>
   exn + uuid \<times> string \<times> run_state" where
  "open_new_trade user_id instrument_id family instrument_type fill s =
     rbind (direction_for_first_fill (fr_side fill)) (\<lambda>direction.
     rbind (provisional_trade_type family instrument_type) (\<lambda>trade_type.
     let (trade_id, d0) = uuid4 (rs_db s) in
     rbind (quantize PRICE (fr_price fill)) (\<lambda>avg_entry.
     rbind (quantize QUANTITY (fr_quantity fill)) (\<lambda>qty.
     let d1 = create_trade_row (new_trade_row trade_id user_id (fr_account_id fill)
                instrument_id trade_type direction ''OPEN'' (fr_trade_date fill)
                (fr_fill_timestamp fill) qty 0 qty avg_entry) d0;
         (d2, lots_created) =
           (if family = DELIVERY
            then (let (lot_id, d') = uuid4 d1
                  in (create_lot lot_id trade_id user_id instrument_id (fr_trade_date fill)
                        qty qty avg_entry d', 1))
            else (d1, 0))
     in
     rbind (fill_role_for direction (fr_side fill)) (\<lambda>fill_role.
     Inr (trade_id, fill_role, s\<lparr>
       rs_db := d2,
       rs_result := (rs_result s)\<lparr>
         tax_lots_created := tax_lots_created (rs_result s) + lots_created,
         trades_opened := Suc (trades_opened (rs_result s)),
         affected_trade_id := Some trade_id\<rparr>,
       rs_current := Some \<lparr>
         ot_id = trade_id, ot_direction = direction, ot_status = ''OPEN'',
         ot_trade_date = fr_trade_date fill, ot_first_fill_at = fr_fill_timestamp fill,
         ot_total_entry_quantity = fr_quantity fill, ot_total_exit_quantity = 0,
         ot_net_position = fr_quantity fill, ot_average_entry = avg_entry,
         ot_trade_type = trade_type\<rparr>,
       rs_entry_value := dmul (fr_quantity fill) (fr_price fill),
       rs_entry_qty := fr_quantity fill,
       rs_exit_fills := []\<rparr>))))))"

text \<open>Scale-in: an ENTRY fill of the current trade.\<close>

definition scale_in ::
  "product_type_family \<Rightarrow> open_trade_snapshot \<Rightarrow> fill_record \<Rightarrow> run_state \<Rightarrow> exn + run_state" where
  "scale_in family cur fill s =
     (let trade_id = ot_id cur;
          entry_value = dadd (rs_entry_value s) (dmul (fr_quantity fill) (fr_price fill));
          entry_qty = dadd (rs_entry_qty s) (fr_quantity fill)
      in
      rbind (ddiv entry_value entry_qty) (\<lambda>avg.
      rbind (quantize PRICE avg) (\<lambda>new_avg_entry.
      rbind (quantize QUANTITY (dadd (ot_total_entry_quantity cur) (fr_quantity fill)))
        (\<lambda>new_total_entry.
      rbind (quantize QUANTITY (dadd (ot_net_position cur) (fr_quantity fill))) (\<lambda>new_net.
      let new_status = (if 0 < ot_total_exit_quantity cur then ''PARTIAL'' else ''OPEN'');
          d1 = update_trade trade_id
                 (\<lambda>t. t\<lparr>t_total_entry_quantity := new_total_entry, t_net_position := new_net,
                        t_average_entry := Some new_avg_entry, t_status := new_status\<rparr>)
                 (rs_db s)
      in
      rbind (if family = DELIVERY
             then update_lot_on_scale_in trade_id (fr_quantity fill) new_avg_entry d1
                    (rs_result s)
             else Inr (d1, rs_result s)) (\<lambda>(d2, result).
      Inr (s\<lparr>
        rs_db := d2,
        rs_result := result,
        rs_current := Some (cur\<lparr>ot_status := new_status,
          ot_total_entry_quantity := new_total_entry, ot_net_position := new_net,
          ot_average_entry := new_avg_entry\<rparr>),
        rs_entry_value := entry_value,
        rs_entry_qty := entry_qty\<rparr>)))))))"

text \<open>The P and L trigger at close: a missing charge schedule is only logged.\<close>

definition trigger_pnl :: "bool \<Rightarrow> uuid \<Rightarrow> uuid \<Rightarrow> db \<Rightarrow> exn + db" where
  "trigger_pnl has_pnl_service trade_id user_id d =
     (if has_pnl_service then
        (case calculate_and_store trade_id user_id d of
           Inr d' \<Rightarrow> Inr d'
         | Inl (Pnl (ChargeScheduleNotFoundError _ _ _ _)) \<Rightarrow> Inr d
         | Inl e \<Rightarrow> Inl e)
      else Inr d)"

text \<open>An EXIT fill, full or partial.\<close>

definition exit_fill ::
  "bool \<Rightarrow> uuid \<Rightarrow> uuid \<Rightarrow> product_type_family \<Rightarrow> open_trade_snapshot \<Rightarrow> fill_record \<Rightarrow>
   run_state \<Rightarrow> exn + run_state" where
  "exit_fill has_pnl_service user_id instrument_id family cur fill s =
     (let trade_id = ot_id cur;
          exit_fills = rs_exit_fills s @ [fill]
      in
      rbind (quantize QUANTITY (dadd (ot_total_exit_quantity cur) (fr_quantity fill)))
        (\<lambda>new_total_exit.
      rbind (quantize QUANTITY (dsub (ot_net_position cur) (fr_quantity fill))) (\<lambda>new_net.
      rbind (if family = DELIVERY
             then decrement_lot_on_exit user_id instrument_id fill (rs_db s) (rs_result s)
             else Inr (rs_db s, rs_result s)) (\<lambda>(d1, result).
      if new_net = 0 then
        rbind (compute_average_exit exit_fills) (\<lambda>avg.
        rbind (quantize PRICE avg) (\<lambda>avg_exit.
        let final_trade_type =
              finalize_trade_type (ot_trade_type cur) (ot_trade_date cur) (fr_trade_date fill);
            d2 = update_trade trade_id
                   (\<lambda>t. t\<lparr>t_status := ''CLOSED'', t_last_fill_at := Some (fr_fill_timestamp fill),
                          t_average_exit := Some avg_exit, t_net_position := 0,
                          t_total_exit_quantity := new_total_exit,
                          t_trade_type := final_trade_type\<rparr>) d1
        in
        rbind (if family = DELIVERY then assert_lot_closed trade_id fill d2 else Inr ()) (\<lambda>_.
        rbind (trigger_pnl has_pnl_service trade_id user_id d2) (\<lambda>d3.
        Inr (s\<lparr>
          rs_db := d3,
          rs_result := result\<lparr>trades_closed := Suc (trades_closed result)\<rparr>,
          rs_current := None,
          rs_entry_value := 0,
          rs_entry_qty := 0,
          rs_exit_fills := []\<rparr>)))))
      else
        Inr (s\<lparr>
          rs_db := update_trade trade_id
                     (\<lambda>t. t\<lparr>t_status := ''PARTIAL'',
                            t_last_fill_at := Some (fr_fill_timestamp fill),
                            t_total_exit_quantity := new_total_exit,
                            t_net_position := new_net\<rparr>) d1,
          rs_result := result,
          rs_current := Some (cur\<lparr>ot_status := ''PARTIAL'',
            ot_total_exit_quantity := new_total_exit, ot_net_position := new_net\<rparr>),
          rs_exit_fills := exit_fills\<rparr>)))))"

definition signed_delta :: "fill_record \<Rightarrow> rat" where
  "signed_delta fill = (if fr_side fill = ''BUY'' then fr_quantity fill else dneg (fr_quantity fill))"

definition crosses_zero :: "rat \<Rightarrow> rat \<Rightarrow> bool" where
  "crosses_zero running_position new_position \<longleftrightarrow>
     (0 < running_position \<and> new_position < 0) \<or> (running_position < 0 \<and> 0 < new_position)"

text \<open>The body of the loop over the fills.\<close>

definition process_fill ::
  "bool \<Rightarrow> uuid \<Rightarrow> uuid \<Rightarrow> product_type_family \<Rightarrow> string \<Rightarrow> fill_record \<Rightarrow> run_state \<Rightarrow>
   exn + run_state" where
  "process_fill has_pnl_service user_id instrument_id family instrument_type fill s =
     rbind (product_type_family_for (fr_product_type fill)) (\<lambda>fill_family.
     rbind (check (fill_family = family)
              (Recon (ReconstructionDataError (FamilyMismatch (fr_id fill))))) (\<lambda>_.
     let new_position = dadd (rs_position s) (signed_delta fill) in
     rbind (check (\<not> crosses_zero (rs_position s) new_position)
              (Recon (PositionCrossingZeroError (fr_id fill)))) (\<lambda>_.
     rbind (case rs_current s of
              None \<Rightarrow> open_new_trade user_id instrument_id family instrument_type fill s
            | Some cur \<Rightarrow>
                rbind (fill_role_for (ot_direction cur) (fr_side fill)) (\<lambda>fill_role.
                rbind (if fill_role = ''ENTRY'' then scale_in family cur fill s
                       else exit_fill has_pnl_service user_id instrument_id family cur fill s)
                  (\<lambda>s'. Inr (ot_id cur, fill_role, s'))))
       (\<lambda>(trade_id, fill_role, s').
     Inr (s'\<lparr>
       rs_db := assign_trade (fr_id fill) trade_id fill_role (rs_db s'),
       rs_position := new_position,
       rs_result := (rs_result s')\<lparr>fills_processed := Suc (fills_processed (rs_result s'))\<rparr>\<rparr>)))))"

section \<open>A run\<close>

text \<open>Step 4: the running state from the open trade, if there is one.\<close>

definition init_run_state :: "open_trade_snapshot option \<Rightarrow> db \<Rightarrow> run_state" where
  "init_run_state open_trade d =
     (case open_trade of
        Some t \<Rightarrow> \<lparr>
          rs_db = d,
          rs_result = empty_result\<lparr>affected_trade_id := Some (ot_id t)\<rparr>,
          rs_position =
            (if ot_direction t = ''LONG'' then ot_net_position t else dneg (ot_net_position t)),
          rs_current = Some t,
          rs_entry_qty = ot_total_entry_quantity t,
          rs_entry_value = dmul (ot_average_entry t) (ot_total_entry_quantity t),
          rs_exit_fills =
            (if ot_status t = ''PARTIAL'' then get_exit_fills (ot_id t) d else [])\<rparr>
      | None \<Rightarrow> \<lparr>
          rs_db = d, rs_result = empty_result, rs_position = 0, rs_current = None,
          rs_entry_qty = 0, rs_entry_value = 0, rs_exit_fills = []\<rparr>)"

definition run ::
  "bool \<Rightarrow> uuid \<Rightarrow> uuid \<Rightarrow> uuid \<Rightarrow> string \<Rightarrow> string \<Rightarrow> db \<Rightarrow> exn + db \<times> reconstruction_result" where
  "run has_pnl_service user_id account_id instrument_id product_type instrument_type d =
     rbind (product_type_family_for product_type) (\<lambda>family.
     rbind (get_open_trade_with_lock user_id account_id instrument_id family d) (\<lambda>open_trade.
     let fills = get_unprocessed_fills user_id account_id instrument_id product_type d in
     if fills = [] then Inr (d, empty_result)
     else
       rbind (check_ambiguous_ordering fills) (\<lambda>_.
       rbind (rfold (process_fill has_pnl_service user_id instrument_id family instrument_type)
                fills (init_run_state open_trade d)) (\<lambda>s.
       Inr (rs_db s, rs_result s)))))"

end
