(* ===== verification/Recon_Steps.thy ===== *)
theory Recon_Steps
  imports Reconstruction
begin

text \<open>
  The steps of the reconstruction engine in closed form. On inputs within the limits of the
  columns (four decimal places, prices up to a billion, a processed volume below ten billion
  units) no Decimal operation of a step rounds or raises, so every step equals an explicit
  update over exact rationals: these equations carry all later proofs about \<open>run\<close>.
\<close>

section \<open>Limits\<close>

definition price_range :: "rat \<Rightarrow> rat \<Rightarrow> bool" where
  "price_range lo hi \<longleftrightarrow> dp 4 lo \<and> dp 4 hi \<and> 0 < lo \<and> lo \<le> hi \<and> hi \<le> 10 ^ 9"

definition sane_fill :: "rat \<Rightarrow> rat \<Rightarrow> fill_record \<Rightarrow> bool" where
  "sane_fill lo hi f \<longleftrightarrow>
     dp 4 (fr_quantity f) \<and> 0 < fr_quantity f \<and>
     dp 4 (fr_price f) \<and> lo \<le> fr_price f \<and> fr_price f \<le> hi \<and>
     fr_side f \<in> {''BUY'', ''SELL''}"

definition volume :: "fill_record list \<Rightarrow> rat" where
  "volume fs = sum_list (map fr_quantity fs)"

definition turnover :: "fill_record list \<Rightarrow> rat" where
  "turnover fs = sum_list (map (\<lambda>f. fr_quantity f * fr_price f) fs)"

text \<open>Rounding to a stored price.\<close>

definition price4 :: "rat \<Rightarrow> rat" where
  "price4 x = of_int (round_half_up (x * 10 ^ 4)) / 10 ^ 4"

lemma volume_simps [simp]:
  "volume [] = 0" "volume (f # fs) = fr_quantity f + volume fs"
  "volume (fs @ gs) = volume fs + volume gs"
  by (simp_all add: volume_def)

lemma turnover_simps [simp]:
  "turnover [] = 0" "turnover (f # fs) = fr_quantity f * fr_price f + turnover fs"
  "turnover (fs @ gs) = turnover fs + turnover gs"
  by (simp_all add: turnover_def)

lemma sane_fillD:
  assumes "sane_fill lo hi f"
  shows "dp 4 (fr_quantity f)" "0 < fr_quantity f" "dp 4 (fr_price f)"
    "lo \<le> fr_price f" "fr_price f \<le> hi" "fr_side f \<in> {''BUY'', ''SELL''}"
  using assms by (simp_all add: sane_fill_def)

lemma price_rangeD:
  assumes "price_range lo hi"
  shows "dp 4 lo" "dp 4 hi" "0 < lo" "lo \<le> hi" "hi \<le> 10 ^ 9"
  using assms by (simp_all add: price_range_def)

lemma volume_nonneg: "(\<And>f. f \<in> set fs \<Longrightarrow> sane_fill lo hi f) \<Longrightarrow> 0 \<le> volume fs"
  unfolding volume_def by (rule sum_list_nonneg) (auto simp: sane_fill_def intro: less_imp_le)

lemma dp_volume: "(\<And>f. f \<in> set fs \<Longrightarrow> sane_fill lo hi f) \<Longrightarrow> dp 4 (volume fs)"
  unfolding volume_def by (rule dp_sum_list) (auto simp: sane_fill_def)

lemma dp_fill_turnover: "sane_fill lo hi f \<Longrightarrow> dp 8 (fr_quantity f * fr_price f)"
  using dp_mult [of 4 "fr_quantity f" 4 "fr_price f"] by (simp add: sane_fill_def)

lemma dp_turnover: "(\<And>f. f \<in> set fs \<Longrightarrow> sane_fill lo hi f) \<Longrightarrow> dp 8 (turnover fs)"
  unfolding turnover_def by (rule dp_sum_list) (auto intro: dp_fill_turnover)

lemma fill_turnover_bounds:
  assumes "sane_fill lo hi f"
  shows "lo * fr_quantity f \<le> fr_quantity f * fr_price f"
    and "fr_quantity f * fr_price f \<le> hi * fr_quantity f"
  using assms by (simp_all add: sane_fill_def mult.commute mult_left_mono)

lemma turnover_bounds:
  assumes "\<And>f. f \<in> set fs \<Longrightarrow> sane_fill lo hi f"
  shows "lo * volume fs \<le> turnover fs \<and> turnover fs \<le> hi * volume fs"
  using assms
proof (induction fs)
  case (Cons f fs)
  then have "sane_fill lo hi f" "lo * volume fs \<le> turnover fs \<and> turnover fs \<le> hi * volume fs"
    by auto
  with fill_turnover_bounds [of lo hi f] show ?case by (simp add: distrib_left)
qed simp

section \<open>Exactness under the limits\<close>

lemma value_limit:
  assumes "price_range lo hi" and "0 \<le> q" and "q < 10 ^ 10" and "v \<le> hi * q"
  shows "v < 10 ^ 20"
proof -
  have "hi * q \<le> 10 ^ 9 * q" using assms(2) price_rangeD(5) [OF assms(1)] by (rule mult_right_mono [rotated])
  also have "\<dots> < 10 ^ 9 * 10 ^ 10" using assms(3) by (intro mult_strict_left_mono) simp_all
  finally show ?thesis using assms(4) by simp
qed

lemma quantize_PRICE:
  assumes "0 \<le> x" and "x \<le> 10 ^ 9"
  shows "quantize PRICE x = Inr (price4 x)"
proof -
  have "\<bar>round_half_up (x * 10 ^ 4)\<bar> \<le> 10 ^ 13"
    using assms by (intro half_up.r_abs_le) (simp add: abs_mult)
  then show ?thesis by (simp add: quantize_def PRICE_def price4_def)
qed

lemma quantize_QUANTITY: "dp 4 x \<Longrightarrow> \<bar>x\<bar> < 10 ^ 24 \<Longrightarrow> quantize QUANTITY x = Inr x"
  by (rule quantize_exact) (simp_all add: QUANTITY_def)

lemma price4_dp [simp]: "dp 4 (price4 x)"
  by (simp add: price4_def dp_def)

lemma price4_exact: "dp 4 x \<Longrightarrow> price4 x = x"
  by (elim dpE) (simp add: price4_def half_up.r_of_int)

lemma price4_mono: "x \<le> y \<Longrightarrow> price4 x \<le> price4 y"
  by (simp add: price4_def divide_right_mono half_up.r_mono)

lemma price4_range: "dp 4 lo \<Longrightarrow> dp 4 hi \<Longrightarrow> lo \<le> x \<Longrightarrow> x \<le> hi \<Longrightarrow> lo \<le> price4 x \<and> price4 x \<le> hi"
  using price4_mono [of lo x] price4_mono [of x hi] by (simp add: price4_exact)

text \<open>A weighted average of prices, computed with one division, stays in the price range.\<close>

lemma average_range:
  assumes r: "price_range lo hi" and q: "0 < q"
    and v: "lo * q \<le> v" "v \<le> hi * q"
  shows "lo \<le> ctx (v / q)" and "ctx (v / q) \<le> hi"
proof -
  have "lo \<le> v / q" "v / q \<le> hi" using q v by (simp_all add: pos_le_divide_eq pos_divide_le_eq)
  then have "ctx lo \<le> ctx (v / q)" "ctx (v / q) \<le> ctx hi" by (auto intro: ctx_mono)
  moreover have "ctx lo = lo" "ctx hi = hi"
    using price_rangeD [OF r] by (auto intro!: ctx_dp4)
  ultimately show "lo \<le> ctx (v / q)" "ctx (v / q) \<le> hi" by simp_all
qed

lemma average_quantize:
  assumes "price_range lo hi" and "0 < q" and "lo * q \<le> v" and "v \<le> hi * q"
  shows "rbind (ddiv v q) (quantize PRICE) = Inr (price4 (ctx (v / q)))"
  using average_range [OF assms] price_rangeD [OF assms(1)] assms(2)
  by (simp add: ddiv_def quantize_PRICE)

lemma average_price4_range:
  assumes "price_range lo hi" and "0 < q" and "lo * q \<le> v" and "v \<le> hi * q"
  shows "lo \<le> price4 (ctx (v / q)) \<and> price4 (ctx (v / q)) \<le> hi"
  using average_range [OF assms] price_rangeD [OF assms(1)] by (intro price4_range)

lemma dsum_exact_aux:
  assumes "\<And>x. x \<in> set xs \<Longrightarrow> dp k x \<and> 0 \<le> x" and "dp k a" and "0 \<le> a"
    and "(a + sum_list xs) * 10 ^ k < 10 ^ 28"
  shows "foldl dadd a xs = a + sum_list xs"
  using assms
proof (induction xs arbitrary: a)
  case (Cons x xs)
  have nn: "0 \<le> sum_list xs" by (rule sum_list_nonneg) (use Cons.prems in auto)
  have "(a + x) * 10 ^ k \<le> (a + sum_list (x # xs)) * 10 ^ k"
    using nn by (intro mult_right_mono) auto
  then have "(a + x) * 10 ^ k < 10 ^ 28" using Cons.prems(4) by linarith
  then have "dadd a x = a + x"
    using Cons.prems unfolding dadd_def by (intro ctx_dp [of k]) auto
  moreover have "foldl dadd (a + x) xs = (a + x) + sum_list xs"
    using Cons.prems by (intro Cons.IH) (auto simp: add.assoc)
  ultimately show ?case by (simp add: add.assoc)
qed simp

lemma dsum_exact:
  "(\<And>x. x \<in> set xs \<Longrightarrow> dp k x \<and> 0 \<le> x) \<Longrightarrow> sum_list xs * 10 ^ k < 10 ^ 28 \<Longrightarrow>
   dsum xs = sum_list xs"
  unfolding dsum_def by (subst dsum_exact_aux [of xs k]) auto

lemma fill_value_exact:
  assumes "price_range lo hi" and "sane_fill lo hi f" and "fr_quantity f < 10 ^ 10"
  shows "dmul (fr_quantity f) (fr_price f) = fr_quantity f * fr_price f"
proof -
  note s = sane_fillD [OF assms(2)]
  have pos: "0 < fr_price f" using s price_rangeD(3) [OF assms(1)] by linarith
  have "fr_quantity f * fr_price f < 10 ^ 20"
    using assms s fill_turnover_bounds(2) [OF assms(2)] by (intro value_limit) auto
  then show ?thesis using s pos by (intro dmul_exact) (auto simp: abs_mult)
qed

lemma fills_le_volume:
  assumes "\<And>f. f \<in> set fs \<Longrightarrow> sane_fill lo hi f" and "f \<in> set fs"
  shows "fr_quantity f \<le> volume fs"
  using assms
proof (induction fs)
  case (Cons g gs)
  then have "0 \<le> volume gs" "0 < fr_quantity g"
    using volume_nonneg [of gs lo hi] by (auto simp: sane_fill_def)
  with Cons show ?case by fastforce
qed simp

lemma compute_average_exit_eq:
  assumes r: "price_range lo hi" and fs: "\<And>f. f \<in> set fs \<Longrightarrow> sane_fill lo hi f"
    and ne: "fs \<noteq> []" and V: "volume fs < 10 ^ 10"
  shows "compute_average_exit fs = Inr (ctx (turnover fs / volume fs))"
proof -
  have q: "fr_quantity f < 10 ^ 10" if "f \<in> set fs" for f
    using fills_le_volume [OF fs that] V by linarith
  have vals: "map (\<lambda>f. dmul (fr_quantity f) (fr_price f)) fs =
      map (\<lambda>f. fr_quantity f * fr_price f) fs"
    by (rule map_cong) (use fill_value_exact r fs q in auto)
  have pos: "0 < volume fs"
    using ne fs volume_nonneg [of "tl fs" lo hi]
    by (cases fs) (auto simp: sane_fill_def add_pos_nonneg)
  have t: "dsum (map (\<lambda>f. fr_quantity f * fr_price f) fs) = turnover fs"
  proof -
    have "turnover fs < 10 ^ 20"
      using turnover_bounds [OF fs] pos V r by (intro value_limit) auto
    moreover have "0 \<le> fr_quantity f * fr_price f" if "f \<in> set fs" for f
      using fs [OF that] price_rangeD(3) [OF r] by (auto simp: sane_fill_def)
    ultimately show ?thesis
      using fs unfolding turnover_def
      by (intro dsum_exact [of _ 8]) (auto intro: dp_fill_turnover)
  qed
  have v: "dsum (map fr_quantity fs) = volume fs"
    using fs V unfolding volume_def by (intro dsum_exact [of _ 4]) (auto simp: sane_fill_def intro: less_imp_le)
  show ?thesis using ne pos by (simp add: compute_average_exit_def vals t v ddiv_def)
qed

section \<open>The numeric invariant of the loop\<close>

definition snap_ok :: "rat \<Rightarrow> rat \<Rightarrow> open_trade_snapshot \<Rightarrow> bool" where
  "snap_ok lo hi c \<longleftrightarrow>
     dp 4 (ot_total_entry_quantity c) \<and> dp 4 (ot_total_exit_quantity c) \<and>
     dp 4 (ot_net_position c) \<and>
     0 \<le> ot_total_exit_quantity c \<and> 0 < ot_net_position c \<and>
     ot_total_entry_quantity c = ot_total_exit_quantity c + ot_net_position c \<and>
     ot_direction c \<in> {''LONG'', ''SHORT''} \<and>
     ot_status c = (if 0 < ot_total_exit_quantity c then ''PARTIAL'' else ''OPEN'') \<and>
     dp 4 (ot_average_entry c) \<and> lo \<le> ot_average_entry c \<and> ot_average_entry c \<le> hi"

fun signed_net :: "open_trade_snapshot option \<Rightarrow> rat" where
  "signed_net None = 0"
| "signed_net (Some c) =
     (if ot_direction c = ''LONG'' then ot_net_position c else - ot_net_position c)"

text \<open>The accumulators of the current trade; \<open>V\<close> is the volume of the fills still to come.\<close>

definition acc_ok :: "rat \<Rightarrow> rat \<Rightarrow> rat \<Rightarrow> open_trade_snapshot \<Rightarrow> run_state \<Rightarrow> bool" where
  "acc_ok lo hi V c s \<longleftrightarrow>
     snap_ok lo hi c \<and>
     rs_entry_qty s = ot_total_entry_quantity c \<and>
     dp 8 (rs_entry_value s) \<and>
     lo * ot_total_entry_quantity c \<le> rs_entry_value s \<and>
     rs_entry_value s \<le> hi * ot_total_entry_quantity c \<and>
     ot_total_entry_quantity c + V < 10 ^ 10 \<and>
     (\<forall>f\<in>set (rs_exit_fills s). sane_fill lo hi f) \<and>
     volume (rs_exit_fills s) = ot_total_exit_quantity c"

definition num_ok :: "rat \<Rightarrow> rat \<Rightarrow> rat \<Rightarrow> run_state \<Rightarrow> bool" where
  "num_ok lo hi V s \<longleftrightarrow>
     V < 10 ^ 10 \<and> rs_position s = signed_net (rs_current s) \<and>
     (case rs_current s of None \<Rightarrow> True | Some c \<Rightarrow> acc_ok lo hi V c s)"

lemma snap_okD:
  assumes "snap_ok lo hi c"
  shows "dp 4 (ot_total_entry_quantity c)" "dp 4 (ot_total_exit_quantity c)"
    "dp 4 (ot_net_position c)" "0 \<le> ot_total_exit_quantity c" "0 < ot_net_position c"
    "ot_total_entry_quantity c = ot_total_exit_quantity c + ot_net_position c"
    "ot_direction c \<in> {''LONG'', ''SHORT''}"
    "ot_status c = (if 0 < ot_total_exit_quantity c then ''PARTIAL'' else ''OPEN'')"
    "dp 4 (ot_average_entry c)" "lo \<le> ot_average_entry c" "ot_average_entry c \<le> hi"
  using assms unfolding snap_ok_def by blast+

section \<open>Closed form of the steps\<close>

definition opened_trade :: "string \<Rightarrow> string \<Rightarrow> uuid \<Rightarrow> fill_record \<Rightarrow> open_trade_snapshot" where
  "opened_trade direction trade_type trade_id f = \<lparr>
     ot_id = trade_id, ot_direction = direction, ot_status = ''OPEN'',
     ot_trade_date = fr_trade_date f, ot_first_fill_at = fr_fill_timestamp f,
     ot_total_entry_quantity = fr_quantity f, ot_total_exit_quantity = 0,
     ot_net_position = fr_quantity f, ot_average_entry = fr_price f,
     ot_trade_type = trade_type\<rparr>"

definition opened_row ::
  "uuid \<Rightarrow> uuid \<Rightarrow> string \<Rightarrow> string \<Rightarrow> uuid \<Rightarrow> fill_record \<Rightarrow> trade_row" where
  "opened_row user_id instrument_id direction trade_type trade_id f =
     new_trade_row trade_id user_id (fr_account_id f) instrument_id trade_type direction ''OPEN''
       (fr_trade_date f) (fr_fill_timestamp f) (fr_quantity f) 0 (fr_quantity f) (fr_price f)"

definition opened_lot :: "uuid \<Rightarrow> uuid \<Rightarrow> uuid \<Rightarrow> uuid \<Rightarrow> fill_record \<Rightarrow> tax_lot_row" where
  "opened_lot user_id instrument_id trade_id lot_id f = \<lparr>
     l_id = lot_id, l_trade_id = trade_id, l_user_id = user_id,
     l_instrument_id = instrument_id, l_purchase_date = fr_trade_date f,
     l_quantity_original = fr_quantity f, l_quantity_remaining = fr_quantity f,
     l_cost_per_share = fr_price f, l_status = ''OPEN''\<rparr>"

definition opened_db ::
  "uuid \<Rightarrow> uuid \<Rightarrow> product_type_family \<Rightarrow> string \<Rightarrow> string \<Rightarrow> fill_record \<Rightarrow> db \<Rightarrow> db" where
  "opened_db user_id instrument_id family direction trade_type f d =
     (let n = next_uuid d in
      d\<lparr>trades := append_row (trades d) (opened_row user_id instrument_id direction trade_type n f),
        tax_lots := (if family = DELIVERY
                     then append_row (tax_lots d) (opened_lot user_id instrument_id n (Suc n) f)
                     else tax_lots d),
        next_uuid := (if family = DELIVERY then Suc (Suc n) else Suc n)\<rparr>)"

definition direction_of :: "fill_record \<Rightarrow> string" where
  "direction_of f = (if fr_side f = ''BUY'' then ''LONG'' else ''SHORT'')"

lemma open_new_trade_eq:
  assumes r: "price_range lo hi" and f: "sane_fill lo hi f" and q: "fr_quantity f < 10 ^ 10"
    and tt: "provisional_trade_type family instrument_type = Inr trade_type"
  shows "open_new_trade user_id instrument_id family instrument_type f s =
    Inr (next_uuid (rs_db s), ''ENTRY'', s\<lparr>
      rs_db := opened_db user_id instrument_id family (direction_of f) trade_type f (rs_db s),
      rs_result := (rs_result s)\<lparr>
        tax_lots_created := tax_lots_created (rs_result s) + (if family = DELIVERY then 1 else 0),
        trades_opened := Suc (trades_opened (rs_result s)),
        affected_trade_id := Some (next_uuid (rs_db s))\<rparr>,
      rs_current := Some (opened_trade (direction_of f) trade_type (next_uuid (rs_db s)) f),
      rs_entry_value := fr_quantity f * fr_price f,
      rs_entry_qty := fr_quantity f,
      rs_exit_fills := []\<rparr>)"
proof -
  note fD = sane_fillD [OF f] and rD = price_rangeD [OF r]
  have dir: "direction_for_first_fill (fr_side f) = Inr (direction_of f)"
    using fD(6) by (auto simp: direction_of_def direction_for_first_fill_def)
  then have role: "fill_role_for (direction_of f) (fr_side f) = Inr ''ENTRY''"
    by (rule fill_role_for_first)
  have p: "quantize PRICE (fr_price f) = Inr (fr_price f)"
    using fD rD by (subst quantize_PRICE) (auto simp: price4_exact)
  have qq: "quantize QUANTITY (fr_quantity f) = Inr (fr_quantity f)"
    using fD q by (intro quantize_QUANTITY) auto
  show ?thesis
    by (simp add: open_new_trade_def dir role tt p qq uuid4_def create_trade_row_def create_lot_def
        opened_db_def opened_row_def opened_lot_def opened_trade_def Let_def
        fill_value_exact [OF r f q])
qed

definition scaled_row :: "rat \<Rightarrow> open_trade_snapshot \<Rightarrow> fill_record \<Rightarrow> trade_row \<Rightarrow> trade_row" where
  "scaled_row avg c f t = t\<lparr>
     t_total_entry_quantity := ot_total_entry_quantity c + fr_quantity f,
     t_net_position := ot_net_position c + fr_quantity f,
     t_average_entry := Some avg,
     t_status := (if 0 < ot_total_exit_quantity c then ''PARTIAL'' else ''OPEN'')\<rparr>"

definition scaled_lot :: "rat \<Rightarrow> open_trade_snapshot \<Rightarrow> fill_record \<Rightarrow> tax_lot_row \<Rightarrow> tax_lot_row" where
  "scaled_lot avg c f l = l\<lparr>
     l_quantity_original := ot_total_entry_quantity c + fr_quantity f,
     l_quantity_remaining := ot_net_position c + fr_quantity f,
     l_cost_per_share := avg\<rparr>"

definition scaled_trade :: "rat \<Rightarrow> open_trade_snapshot \<Rightarrow> fill_record \<Rightarrow> open_trade_snapshot" where
  "scaled_trade avg c f = c\<lparr>
     ot_status := (if 0 < ot_total_exit_quantity c then ''PARTIAL'' else ''OPEN''),
     ot_total_entry_quantity := ot_total_entry_quantity c + fr_quantity f,
     ot_net_position := ot_net_position c + fr_quantity f,
     ot_average_entry := avg\<rparr>"

definition scaled_avg :: "fill_record \<Rightarrow> run_state \<Rightarrow> rat" where
  "scaled_avg f s = price4 (ctx ((rs_entry_value s + fr_quantity f * fr_price f) /
     (rs_entry_qty s + fr_quantity f)))"

text \<open>The lot of the current trade, in step with it (delivery trades only).\<close>

definition lot_synced :: "product_type_family \<Rightarrow> open_trade_snapshot \<Rightarrow> db \<Rightarrow> tax_lot_row \<Rightarrow> bool" where
  "lot_synced family c d l \<longleftrightarrow> (family = DELIVERY \<longrightarrow>
     get_lot_for_trade (ot_id c) d = Inr (Some l) \<and>
     l_quantity_original l = ot_total_entry_quantity c \<and>
     l_quantity_remaining l = ot_net_position c)"

lemma scale_in_eq:
  assumes r: "price_range lo hi" and f: "sane_fill lo hi f"
    and a: "acc_ok lo hi V c s" and V: "fr_quantity f \<le> V"
    and l: "lot_synced family c (rs_db s) l"
  shows "scale_in family c f s = Inr (s\<lparr>
      rs_db := (rs_db s)\<lparr>
        trades := update_by t_id (ot_id c) (scaled_row (scaled_avg f s) c f) (trades (rs_db s)),
        tax_lots := (if family = DELIVERY
           then update_by l_id (l_id l) (scaled_lot (scaled_avg f s) c f) (tax_lots (rs_db s))
           else tax_lots (rs_db s))\<rparr>,
      rs_result := (if family = DELIVERY
         then (rs_result s)\<lparr>tax_lots_updated := Suc (tax_lots_updated (rs_result s))\<rparr>
         else rs_result s),
      rs_current := Some (scaled_trade (scaled_avg f s) c f),
      rs_entry_value := rs_entry_value s + fr_quantity f * fr_price f,
      rs_entry_qty := rs_entry_qty s + fr_quantity f\<rparr>)"
    and "lo \<le> scaled_avg f s" and "scaled_avg f s \<le> hi"
    and "lo * (rs_entry_qty s + fr_quantity f) \<le> rs_entry_value s + fr_quantity f * fr_price f"
    and "rs_entry_value s + fr_quantity f * fr_price f \<le> hi * (rs_entry_qty s + fr_quantity f)"
proof -
  note fD = sane_fillD [OF f] and rD = price_rangeD [OF r]
  have c: "snap_ok lo hi c" and eq: "rs_entry_qty s = ot_total_entry_quantity c"
    and ev: "dp 8 (rs_entry_value s)" "lo * ot_total_entry_quantity c \<le> rs_entry_value s"
      "rs_entry_value s \<le> hi * ot_total_entry_quantity c"
    and lim: "ot_total_entry_quantity c + fr_quantity f < 10 ^ 10"
    using a V by (auto simp: acc_ok_def)
  note cD = snap_okD [OF c]
  have epos: "0 < ot_total_entry_quantity c" using cD by linarith
  have q: "fr_quantity f < 10 ^ 10" using lim epos by linarith
  note tb = fill_turnover_bounds [OF f]
  show b: "lo * (rs_entry_qty s + fr_quantity f) \<le> rs_entry_value s + fr_quantity f * fr_price f"
    "rs_entry_value s + fr_quantity f * fr_price f \<le> hi * (rs_entry_qty s + fr_quantity f)"
    using tb ev eq by (simp_all add: distrib_left)
  have qpos: "0 < rs_entry_qty s + fr_quantity f" using epos eq fD by linarith
  show rng: "lo \<le> scaled_avg f s" "scaled_avg f s \<le> hi"
    unfolding scaled_avg_def using average_price4_range [OF r qpos b] by auto
  have vlim: "rs_entry_value s + fr_quantity f * fr_price f < 10 ^ 20"
    using r qpos lim eq b by (intro value_limit [of lo hi]) auto
  have vpos: "0 < rs_entry_value s + fr_quantity f * fr_price f"
    using b(1) mult_pos_pos [OF rD(3) qpos] by linarith
  have v: "dadd (rs_entry_value s) (dmul (fr_quantity f) (fr_price f)) =
      rs_entry_value s + fr_quantity f * fr_price f"
    using vlim vpos ev(1) dp_fill_turnover [OF f]
    by (simp add: fill_value_exact [OF r f q]) (rule dadd_exact8, auto)
  have e: "dadd (ot_total_entry_quantity c) (fr_quantity f) =
      ot_total_entry_quantity c + fr_quantity f"
    using cD fD lim epos by (intro dadd_exact) auto
  have n: "dadd (ot_net_position c) (fr_quantity f) = ot_net_position c + fr_quantity f"
    using cD fD lim by (intro dadd_exact) auto
  have ne: "rs_entry_qty s + fr_quantity f \<noteq> 0" using qpos by linarith
  have avg: "quantize PRICE (ctx ((rs_entry_value s + fr_quantity f * fr_price f) /
      (rs_entry_qty s + fr_quantity f))) = Inr (scaled_avg f s)"
    using average_quantize [OF r qpos b] ne by (simp add: ddiv_def scaled_avg_def)
  have Q: "quantize QUANTITY (ot_total_entry_quantity c + fr_quantity f) =
      Inr (ot_total_entry_quantity c + fr_quantity f)"
    "quantize QUANTITY (ot_net_position c + fr_quantity f) = Inr (ot_net_position c + fr_quantity f)"
    using cD fD lim epos by (auto intro!: quantize_QUANTITY)
  have L: "(if family = DELIVERY
      then update_lot_on_scale_in (ot_id c) (fr_quantity f) (scaled_avg f s)
        (update_trade (ot_id c) g (rs_db s)) res
      else Inr (update_trade (ot_id c) g (rs_db s), res)) =
    Inr ((update_trade (ot_id c) g (rs_db s))\<lparr>tax_lots := (if family = DELIVERY
        then update_by l_id (l_id l) (scaled_lot (scaled_avg f s) c f) (tax_lots (rs_db s))
        else tax_lots (rs_db s))\<rparr>,
      (if family = DELIVERY then res\<lparr>tax_lots_updated := Suc (tax_lots_updated res)\<rparr> else res))"
    for g res
  proof -
    have x: "dsub (ot_total_entry_quantity c) (ot_net_position c) = ot_total_exit_quantity c"
      using cD fD lim by (subst dsub_exact) auto
    have y: "dsub (ot_total_entry_quantity c + fr_quantity f) (ot_total_exit_quantity c) =
        ot_net_position c + fr_quantity f"
      using cD fD lim by (subst dsub_exact) auto
    show ?thesis using l
      by (simp add: lot_synced_def update_lot_on_scale_in_def get_lot_for_trade_def
          update_trade_def update_lot_def x y e Q scaled_lot_def [abs_def])
  qed
  show "scale_in family c f s = Inr (s\<lparr>
      rs_db := (rs_db s)\<lparr>
        trades := update_by t_id (ot_id c) (scaled_row (scaled_avg f s) c f) (trades (rs_db s)),
        tax_lots := (if family = DELIVERY
           then update_by l_id (l_id l) (scaled_lot (scaled_avg f s) c f) (tax_lots (rs_db s))
           else tax_lots (rs_db s))\<rparr>,
      rs_result := (if family = DELIVERY
         then (rs_result s)\<lparr>tax_lots_updated := Suc (tax_lots_updated (rs_result s))\<rparr>
         else rs_result s),
      rs_current := Some (scaled_trade (scaled_avg f s) c f),
      rs_entry_value := rs_entry_value s + fr_quantity f * fr_price f,
      rs_entry_qty := rs_entry_qty s + fr_quantity f\<rparr>)"
    using ne [unfolded eq]
    by (simp only: scale_in_def Let_def v eq e n ddiv_def if_False rbind.simps avg [unfolded eq]
        Q L prod.case)
      (simp add: scaled_trade_def scaled_row_def [abs_def] update_trade_def)
qed

text \<open>The exits. \<open>lot_held\<close>: the lot the exit query finds is the lot of the current trade.\<close>

definition lot_held ::
  "uuid \<Rightarrow> uuid \<Rightarrow> product_type_family \<Rightarrow> open_trade_snapshot \<Rightarrow> db \<Rightarrow> tax_lot_row \<Rightarrow> bool" where
  "lot_held user_id instrument_id family c d l \<longleftrightarrow> (family = DELIVERY \<longrightarrow>
     get_open_lot user_id instrument_id d = Some l \<and>
     filter (\<lambda>x. l_trade_id x = ot_id c) (tax_lots d) = [l] \<and>
     l_quantity_remaining l = ot_net_position c)"

definition exited_lot :: "open_trade_snapshot \<Rightarrow> fill_record \<Rightarrow> tax_lot_row \<Rightarrow> tax_lot_row" where
  "exited_lot c f l = l\<lparr>
     l_quantity_remaining := ot_net_position c - fr_quantity f,
     l_status := (if fr_quantity f = ot_net_position c then ''CLOSED'' else ''PARTIALLY_CLOSED'')\<rparr>"

definition reduced_row :: "open_trade_snapshot \<Rightarrow> fill_record \<Rightarrow> trade_row \<Rightarrow> trade_row" where
  "reduced_row c f t = t\<lparr>
     t_status := ''PARTIAL'', t_last_fill_at := Some (fr_fill_timestamp f),
     t_total_exit_quantity := ot_total_exit_quantity c + fr_quantity f,
     t_net_position := ot_net_position c - fr_quantity f\<rparr>"

definition reduced_trade :: "open_trade_snapshot \<Rightarrow> fill_record \<Rightarrow> open_trade_snapshot" where
  "reduced_trade c f = c\<lparr>
     ot_status := ''PARTIAL'',
     ot_total_exit_quantity := ot_total_exit_quantity c + fr_quantity f,
     ot_net_position := ot_net_position c - fr_quantity f\<rparr>"

definition exit_avg :: "fill_record list \<Rightarrow> rat" where
  "exit_avg fs = price4 (ctx (turnover fs / volume fs))"

definition closed_row :: "rat \<Rightarrow> open_trade_snapshot \<Rightarrow> fill_record \<Rightarrow> trade_row \<Rightarrow> trade_row" where
  "closed_row avg_exit c f t = t\<lparr>
     t_status := ''CLOSED'', t_last_fill_at := Some (fr_fill_timestamp f),
     t_average_exit := Some avg_exit, t_net_position := 0,
     t_total_exit_quantity := ot_total_exit_quantity c + fr_quantity f,
     t_trade_type :=
       finalize_trade_type (ot_trade_type c) (ot_trade_date c) (fr_trade_date f)\<rparr>"

definition exit_lots :: "product_type_family \<Rightarrow> open_trade_snapshot \<Rightarrow> fill_record \<Rightarrow> tax_lot_row \<Rightarrow>
    tax_lot_row list \<Rightarrow> tax_lot_row list" where
  "exit_lots family c f l ls =
     (if family = DELIVERY then update_by l_id (l_id l) (exited_lot c f) ls else ls)"

definition exit_result :: "product_type_family \<Rightarrow> reconstruction_result \<Rightarrow> reconstruction_result" where
  "exit_result family r =
     (if family = DELIVERY then r\<lparr>tax_lots_updated := Suc (tax_lots_updated r)\<rparr> else r)"

definition closed_db ::
  "product_type_family \<Rightarrow> open_trade_snapshot \<Rightarrow> fill_record \<Rightarrow> tax_lot_row \<Rightarrow> fill_record list \<Rightarrow>
   db \<Rightarrow> db" where
  "closed_db family c f l exits d = d\<lparr>
     tax_lots := exit_lots family c f l (tax_lots d),
     trades := update_by t_id (ot_id c) (closed_row (exit_avg exits) c f) (trades d)\<rparr>"

lemma filter_update_by:
  "(\<And>r. p (f r) = p r) \<Longrightarrow> filter p (update_by key k f rs) = update_by key k f (filter p rs)"
  by (induction rs) (auto simp: update_by_def)

lemma exit_common:
  assumes r: "price_range lo hi" and f: "sane_fill lo hi f"
    and a: "acc_ok lo hi V c s" and V: "fr_quantity f \<le> V"
    and le: "fr_quantity f \<le> ot_net_position c"
  shows "quantize QUANTITY (dadd (ot_total_exit_quantity c) (fr_quantity f)) =
      Inr (ot_total_exit_quantity c + fr_quantity f)"
    and "quantize QUANTITY (dsub (ot_net_position c) (fr_quantity f)) =
      Inr (ot_net_position c - fr_quantity f)"
    and "compute_average_exit (rs_exit_fills s @ [f]) =
      Inr (ctx (turnover (rs_exit_fills s @ [f]) / volume (rs_exit_fills s @ [f])))"
    and "quantize PRICE (ctx (turnover (rs_exit_fills s @ [f]) / volume (rs_exit_fills s @ [f]))) =
      Inr (exit_avg (rs_exit_fills s @ [f]))"
    and "lo \<le> exit_avg (rs_exit_fills s @ [f])" and "exit_avg (rs_exit_fills s @ [f]) \<le> hi"
    and "volume (rs_exit_fills s @ [f]) = ot_total_exit_quantity c + fr_quantity f"
proof -
  note fD = sane_fillD [OF f] and rD = price_rangeD [OF r]
  have c: "snap_ok lo hi c" and ex: "\<forall>g\<in>set (rs_exit_fills s). sane_fill lo hi g"
    "volume (rs_exit_fills s) = ot_total_exit_quantity c"
    and lim: "ot_total_entry_quantity c + fr_quantity f < 10 ^ 10"
    using a V by (auto simp: acc_ok_def)
  note cD = snap_okD [OF c]
  have A: "ot_total_exit_quantity c + fr_quantity f < 10 ^ 10" "ot_net_position c < 10 ^ 10"
    using cD fD lim by linarith+
  have d1: "dadd (ot_total_exit_quantity c) (fr_quantity f) = ot_total_exit_quantity c + fr_quantity f"
    using cD fD A by (intro dadd_exact) auto
  have d2: "dsub (ot_net_position c) (fr_quantity f) = ot_net_position c - fr_quantity f"
    using cD fD A le by (intro dsub_exact) auto
  show "quantize QUANTITY (dadd (ot_total_exit_quantity c) (fr_quantity f)) =
      Inr (ot_total_exit_quantity c + fr_quantity f)"
    unfolding d1 using cD fD A by (intro quantize_QUANTITY) auto
  show "quantize QUANTITY (dsub (ot_net_position c) (fr_quantity f)) =
      Inr (ot_net_position c - fr_quantity f)"
    unfolding d2 using cD fD A le by (intro quantize_QUANTITY) auto
  let ?fs = "rs_exit_fills s @ [f]"
  have fs: "sane_fill lo hi g" if "g \<in> set ?fs" for g using that ex f by auto
  show vol: "volume ?fs = ot_total_exit_quantity c + fr_quantity f" using ex by simp
  have pos: "0 < volume ?fs" using vol cD fD by linarith
  note tb = turnover_bounds [of ?fs lo hi, OF fs]
  show "compute_average_exit ?fs = Inr (ctx (turnover ?fs / volume ?fs))"
    by (rule compute_average_exit_eq [OF r]) (use fs vol A in auto)
  show "quantize PRICE (ctx (turnover ?fs / volume ?fs)) = Inr (exit_avg ?fs)"
    unfolding exit_avg_def
    using average_range [OF r pos tb [THEN conjunct1] tb [THEN conjunct2]] rD
    by (intro quantize_PRICE) auto
  show "lo \<le> exit_avg ?fs" "exit_avg ?fs \<le> hi"
    unfolding exit_avg_def
    using average_price4_range [OF r pos tb [THEN conjunct1] tb [THEN conjunct2]] by auto
qed

lemma decrement_lot_eq:
  assumes "quantize QUANTITY (dsub (ot_net_position c) (fr_quantity f)) =
      Inr (ot_net_position c - fr_quantity f)"
    and "fr_quantity f \<le> ot_net_position c" and "lot_held user_id instrument_id family c d l"
  shows "(if family = DELIVERY then decrement_lot_on_exit user_id instrument_id f d res
          else Inr (d, res)) =
    Inr (d\<lparr>tax_lots := exit_lots family c f l (tax_lots d)\<rparr>, exit_result family res)"
proof (cases "family = DELIVERY")
  case True
  show ?thesis using True assms
    by (cases "ot_net_position c = fr_quantity f")
      (simp_all add: decrement_lot_on_exit_def lot_held_def Let_def update_lot_def exit_lots_def
        exit_result_def exited_lot_def [abs_def])
qed (simp add: exit_lots_def exit_result_def)

lemma exit_fill_full_eq:
  assumes r: "price_range lo hi" and f: "sane_fill lo hi f"
    and a: "acc_ok lo hi V c s" and V: "fr_quantity f \<le> V"
    and le: "fr_quantity f = ot_net_position c"
    and l: "lot_held user_id instrument_id family c (rs_db s) l"
  shows "exit_fill has_pnl user_id instrument_id family c f s =
    rbind (trigger_pnl has_pnl (ot_id c) user_id
             (closed_db family c f l (rs_exit_fills s @ [f]) (rs_db s))) (\<lambda>d3.
      Inr (s\<lparr>rs_db := d3,
        rs_result := (exit_result family (rs_result s))\<lparr>
          trades_closed := Suc (trades_closed (rs_result s))\<rparr>,
        rs_current := None, rs_entry_value := 0, rs_entry_qty := 0, rs_exit_fills := []\<rparr>))"
proof -
  have le': "fr_quantity f \<le> ot_net_position c" using le by simp
  note E = exit_common [OF r f a V le']
  note D = decrement_lot_eq [OF E(2) le' l]
  have L: "(if family = DELIVERY then assert_lot_closed (ot_id c) f
        (update_trade (ot_id c) g ((rs_db s)\<lparr>tax_lots := exit_lots family c f l (tax_lots (rs_db s))\<rparr>))
      else Inr ()) = Inr ()" for g
  proof (cases "family = DELIVERY")
    case True
    then have "filter (\<lambda>x. l_trade_id x = ot_id c) (exit_lots family c f l (tax_lots (rs_db s))) =
        [exited_lot c f l]"
      using l by (simp add: exit_lots_def lot_held_def filter_update_by exited_lot_def)
        (simp add: update_by_def exited_lot_def)
    with True le show ?thesis
      by (simp add: assert_lot_closed_def get_lot_for_trade_def update_trade_def check_def
          exited_lot_def)
  qed simp
  have tc: "trades_closed (exit_result family (rs_result s)) = trades_closed (rs_result s)"
    by (simp add: exit_result_def)
  show ?thesis
    by (simp only: exit_fill_def Let_def E(1-4) D rbind.simps prod.case)
      (simp add: L [simplified le] L le tc update_trade_def closed_db_def closed_row_def [abs_def])
qed

lemma exit_fill_partial_eq:
  assumes r: "price_range lo hi" and f: "sane_fill lo hi f"
    and a: "acc_ok lo hi V c s" and V: "fr_quantity f \<le> V"
    and lt: "fr_quantity f < ot_net_position c"
    and l: "lot_held user_id instrument_id family c (rs_db s) l"
  shows "exit_fill has_pnl user_id instrument_id family c f s =
      Inr (s\<lparr>rs_db := (rs_db s)\<lparr>
          trades := update_by t_id (ot_id c) (reduced_row c f) (trades (rs_db s)),
          tax_lots := exit_lots family c f l (tax_lots (rs_db s))\<rparr>,
        rs_result := exit_result family (rs_result s),
        rs_current := Some (reduced_trade c f),
        rs_exit_fills := rs_exit_fills s @ [f]\<rparr>)"
proof -
  have le: "fr_quantity f \<le> ot_net_position c" using lt by simp
  note E = exit_common [OF r f a V le]
  note D = decrement_lot_eq [OF E(2) le l]
  show ?thesis
    using lt by (simp add: exit_fill_def Let_def E D update_trade_def reduced_row_def [abs_def]
        reduced_trade_def)
qed

end
