(* ===== verification/Recon_Frame.thy ===== *)
theory Recon_Frame
  imports Reconstruction
begin

text \<open>
  What a run leaves alone, without any assumption on the data: which tables a step writes, and
  that of a fill only the trade reference and the role are ever written.
\<close>

section \<open>The P and L trigger writes the P and L table only\<close>

lemma upsert_frame: "upsert r d = d\<lparr>trade_pnls := trade_pnls (upsert r d)\<rparr>"
  by (simp add: upsert_def split: option.split)

lemma calculate_and_store_cases:
  assumes "calculate_and_store t u d = Inr d'"
  obtains "d' = d" | r where "d' = upsert r d"
  using assms by (fastforce simp: calculate_and_store_def result_simps split: option.splits)

lemma calculate_and_store_frame:
  "calculate_and_store t u d = Inr d' \<Longrightarrow> d' = d\<lparr>trade_pnls := trade_pnls d'\<rparr>"
  by (erule calculate_and_store_cases) (simp, metis upsert_frame)

lemma trigger_pnl_frame:
  "trigger_pnl b t u d = Inr d' \<Longrightarrow> d' = d\<lparr>trade_pnls := trade_pnls d'\<rparr>"
  by (auto simp: trigger_pnl_def dest: calculate_and_store_frame
      split: if_splits sum.splits exn.splits pnl_error.splits)

lemma trigger_pnl_same:
  assumes "trigger_pnl b t u d = Inr d'"
  shows "trades d' = trades d" "tax_lots d' = tax_lots d" "next_uuid d' = next_uuid d"
    "execution_fills d' = execution_fills d" "fill_exclusions d' = fill_exclusions d"
    "instruments d' = instruments d" "trading_accounts d' = trading_accounts d"
    "journal_entries d' = journal_entries d" "charge_schedules d' = charge_schedules d"
  by (subst trigger_pnl_frame [OF assms], simp)+

section \<open>The tables no step writes\<close>

text \<open>\<open>same_inputs\<close>: the tables the engine only reads.\<close>

definition same_inputs :: "db \<Rightarrow> db \<Rightarrow> bool" where
  "same_inputs d d' \<longleftrightarrow>
     fill_exclusions d' = fill_exclusions d \<and> instruments d' = instruments d \<and>
     trading_accounts d' = trading_accounts d \<and> journal_entries d' = journal_entries d \<and>
     charge_schedules d' = charge_schedules d"

definition same_fills :: "db \<Rightarrow> db \<Rightarrow> bool" where
  "same_fills d d' \<longleftrightarrow> same_inputs d d' \<and> execution_fills d' = execution_fills d"

lemma same_inputs_refl [simp]: "same_inputs d d"
  by (simp add: same_inputs_def)

lemma same_inputs_trans: "same_inputs d d' \<Longrightarrow> same_inputs d' d'' \<Longrightarrow> same_inputs d d''"
  by (simp add: same_inputs_def)

lemma same_fills_refl [simp]: "same_fills d d"
  by (simp add: same_fills_def)

lemma same_fills_trans: "same_fills d d' \<Longrightarrow> same_fills d' d'' \<Longrightarrow> same_fills d d''"
  by (auto simp: same_fills_def dest: same_inputs_trans)

lemma same_fills_writes [simp]:
  "same_fills d (update_trade t g d')= same_fills d d'"
  "same_fills d (update_lot l h d') = same_fills d d'"
  "same_fills d (create_trade_row r d') = same_fills d d'"
  "same_fills d (create_lot pk tid uid iid day q q' c d') = same_fills d d'"
  by (simp_all add: same_fills_def same_inputs_def update_trade_def update_lot_def
      create_trade_row_def create_lot_def)

lemma same_fills_uuid: "uuid4 d = (n, d') \<Longrightarrow> same_fills d0 d' = same_fills d0 d"
  by (auto simp: uuid4_def same_fills_def same_inputs_def)

lemma same_fills_trigger: "trigger_pnl b t u d = Inr d' \<Longrightarrow> same_fills d d'"
  by (simp add: same_fills_def same_inputs_def trigger_pnl_same)

lemma same_fills_close: "trigger_pnl b t u (update_trade k g d) = Inr d' \<Longrightarrow> same_fills d d'"
  by (drule same_fills_trigger) (simp add: same_fills_def same_inputs_def update_trade_def)

lemma update_lot_on_scale_in_frame:
  "update_lot_on_scale_in t q avg d res = Inr (d', res') \<Longrightarrow> same_fills d d'"
  by (auto simp: update_lot_on_scale_in_def result_simps Let_def split: option.splits)

lemma decrement_lot_on_exit_frame:
  "decrement_lot_on_exit u i f d res = Inr (d', res') \<Longrightarrow> same_fills d d'"
  by (auto simp: decrement_lot_on_exit_def result_simps Let_def split: option.splits if_splits)

lemma open_new_trade_frame:
  "open_new_trade u i fam itype f s = Inr (tid, role, s') \<Longrightarrow> same_fills (rs_db s) (rs_db s')"
  by (auto simp: open_new_trade_def result_simps Let_def uuid4_def split: prod.splits if_splits)
    (simp_all add: same_fills_def same_inputs_def create_trade_row_def create_lot_def)

lemma scale_in_frame: "scale_in fam c f s = Inr s' \<Longrightarrow> same_fills (rs_db s) (rs_db s')"
  by (auto simp: scale_in_def result_simps Let_def split: prod.splits if_splits
      dest!: update_lot_on_scale_in_frame)
    (simp_all add: same_fills_def same_inputs_def update_trade_def)

lemma exit_fill_frame:
  assumes "exit_fill b u i fam c f s = Inr s'"
  shows "same_fills (rs_db s) (rs_db s')"
proof -
  obtain d1 res where d1: "(if fam = DELIVERY then decrement_lot_on_exit u i f (rs_db s) (rs_result s)
      else Inr (rs_db s, rs_result s)) = Inr (d1, res)"
    and rest: "same_fills d1 (rs_db s')"
    using assms
    by (auto simp: exit_fill_def result_simps Let_def simp del: if_split_eq1
        split: if_splits dest: same_fills_close)
  have "same_fills (rs_db s) d1" using d1 by (auto split: if_splits dest: decrement_lot_on_exit_frame)
  then show ?thesis using rest by (rule same_fills_trans)
qed

section \<open>The fills\<close>

abbreviation linked :: "uuid \<Rightarrow> string \<Rightarrow> execution_fill_row \<Rightarrow> execution_fill_row" where
  "linked tid role x \<equiv> x\<lparr>x_trade_id := Some tid, x_fill_role := Some role\<rparr>"

lemma process_fill_fills:
  assumes "process_fill b u i fam itype f s = Inr s'"
  obtains tid role where
    "execution_fills (rs_db s') = update_by x_id (fr_id f) (linked tid role) (execution_fills (rs_db s))"
    and "same_inputs (rs_db s) (rs_db s')"
proof -
  obtain tid role s1 where step: "(case rs_current s of
      None \<Rightarrow> open_new_trade u i fam itype f s
    | Some cur \<Rightarrow>
        rbind (fill_role_for (ot_direction cur) (fr_side f)) (\<lambda>fill_role.
        rbind (if fill_role = ''ENTRY'' then scale_in fam cur f s
               else exit_fill b u i fam cur f s)
          (\<lambda>s'. Inr (ot_id cur, fill_role, s')))) = Inr (tid, role, s1)"
    and s': "rs_db s' = assign_trade (fr_id f) tid role (rs_db s1)"
    using assms unfolding process_fill_def rbind_eq_Inr Let_def by auto
  have "same_fills (rs_db s) (rs_db s1)"
  proof (cases "rs_current s")
    case None
    with step show ?thesis by (auto dest: open_new_trade_frame)
  next
    case (Some c)
    with step have "scale_in fam c f s = Inr s1 \<or> exit_fill b u i fam c f s = Inr s1"
      by (auto simp: rbind_eq_Inr split: if_splits)
    then show ?thesis by (auto dest: scale_in_frame exit_fill_frame)
  qed
  with s' show ?thesis
    by (intro that [of role tid])
      (simp_all add: assign_trade_def same_fills_def same_inputs_def)
qed

text \<open>The rows before and after: the same fill, or the fill linked to a trade.\<close>

definition fill_step :: "uuid set \<Rightarrow> execution_fill_row \<Rightarrow> execution_fill_row \<Rightarrow> bool" where
  "fill_step ids x y \<longleftrightarrow>
     (if x_id x \<in> ids then (\<exists>tid role. y = linked tid role x) else y = x)"

lemma fill_step_link:
  "list_all2 (fill_step {k}) xs (update_by x_id k (linked tid role) xs)"
  by (induction xs) (auto simp: update_by_def fill_step_def)

lemma fill_step_trans:
  assumes "list_all2 (fill_step A) xs ys" and "list_all2 (fill_step B) ys zs"
  shows "list_all2 (fill_step (A \<union> B)) xs zs"
proof (rule list_all2_trans [OF _ assms])
  fix x y z
  assume "fill_step A x y" "fill_step B y z"
  then show "fill_step (A \<union> B) x z"
    by (auto simp: fill_step_def split: if_splits)
qed

lemma rfold_fills:
  assumes "rfold (process_fill b u i fam itype) fs s = Inr s'"
  shows "list_all2 (fill_step (fr_id ` set fs)) (execution_fills (rs_db s)) (execution_fills (rs_db s'))
    \<and> same_inputs (rs_db s) (rs_db s')"
  using assms
proof (induction fs arbitrary: s)
  case Nil
  then show ?case by (simp add: fill_step_def list_all2_refl)
next
  case (Cons f fs)
  from Cons.prems obtain s1 where s1: "process_fill b u i fam itype f s = Inr s1"
    and rest: "rfold (process_fill b u i fam itype) fs s1 = Inr s'"
    by (auto simp: result_simps)
  obtain tid role where "execution_fills (rs_db s1) =
      update_by x_id (fr_id f) (linked tid role) (execution_fills (rs_db s))"
    and same: "same_inputs (rs_db s) (rs_db s1)"
    using process_fill_fills [OF s1] .
  then have "list_all2 (fill_step {fr_id f}) (execution_fills (rs_db s)) (execution_fills (rs_db s1))"
    by (simp add: fill_step_link)
  from fill_step_trans [OF this Cons.IH [OF rest, THEN conjunct1]]
    same_inputs_trans [OF same Cons.IH [OF rest, THEN conjunct2]]
  show ?case by simp
qed

end
