(* ===== verification/Recon_Invariant.thy ===== *)
theory Recon_Invariant
  imports Recon_Steps Recon_Frame
begin

text \<open>
  The invariant of the loop over the fills of a processing unit and its preservation by each
  step: the numeric invariant of \<open>Recon_Steps\<close>, the trades table (at most one open trade of the
  unit, in step with the snapshot in memory; every row a balanced ledger), and the tax lots.
\<close>

section \<open>Tables in step with the loop\<close>

text \<open>A balanced trade row: what is bought is sold or still held, and the status says which.\<close>

definition trade_wf :: "trade_row \<Rightarrow> bool" where
  "trade_wf t \<longleftrightarrow> trade_check t \<and>
     t_total_entry_quantity t = t_total_exit_quantity t + t_net_position t \<and>
     (t_status t = ''CLOSED'' \<longleftrightarrow> t_net_position t = 0) \<and>
     (t_status t = ''PARTIAL'' \<longleftrightarrow> 0 < t_net_position t \<and> 0 < t_total_exit_quantity t) \<and>
     (t_status t = ''CLOSED'' \<longrightarrow> t_average_exit t \<noteq> None)"

definition unit_ok ::
  "uuid \<Rightarrow> uuid \<Rightarrow> uuid \<Rightarrow> product_type_family \<Rightarrow> open_trade_snapshot option \<Rightarrow> db \<Rightarrow> bool" where
  "unit_ok u a i fam cur d \<longleftrightarrow>
     distinct (map t_id (trades d)) \<and> (\<forall>t\<in>set (trades d). t_id t < next_uuid d) \<and>
     (\<forall>t\<in>set (trades d). trade_wf t) \<and>
     (case cur of
        None \<Rightarrow> filter (is_open_trade u a i fam) (trades d) = []
      | Some c \<Rightarrow> \<exists>r. filter (is_open_trade u a i fam) (trades d) = [r] \<and> to_snapshot r = Inr c)"

definition open_lots :: "uuid \<Rightarrow> uuid \<Rightarrow> db \<Rightarrow> tax_lot_row list" where
  "open_lots u i d =
     filter (\<lambda>l. l_user_id l = u \<and> l_instrument_id l = i \<and> l_status l \<noteq> ''CLOSED'') (tax_lots d)"

definition lot_matches :: "open_trade_snapshot \<Rightarrow> tax_lot_row \<Rightarrow> bool" where
  "lot_matches c l \<longleftrightarrow>
     l_quantity_original l = ot_total_entry_quantity c \<and>
     l_quantity_remaining l = ot_net_position c \<and>
     l_cost_per_share l = ot_average_entry c \<and>
     l_status l = (if 0 < ot_total_exit_quantity c then ''PARTIALLY_CLOSED'' else ''OPEN'')"

definition lots_ok ::
  "uuid \<Rightarrow> uuid \<Rightarrow> product_type_family \<Rightarrow> open_trade_snapshot option \<Rightarrow> db \<Rightarrow> bool" where
  "lots_ok u i fam cur d \<longleftrightarrow>
     distinct (map l_id (tax_lots d)) \<and>
     (\<forall>l\<in>set (tax_lots d). l_id l < next_uuid d \<and> l_trade_id l < next_uuid d \<and> tax_lot_check l) \<and>
     (fam = DELIVERY \<longrightarrow> (case cur of
        None \<Rightarrow> open_lots u i d = []
      | Some c \<Rightarrow> \<exists>l. open_lots u i d = [l] \<and>
          filter (\<lambda>x. l_trade_id x = ot_id c) (tax_lots d) = [l] \<and> lot_matches c l))"

definition unit_fill :: "uuid \<Rightarrow> product_type_family \<Rightarrow> fill_record \<Rightarrow> bool" where
  "unit_fill a fam f \<longleftrightarrow>
     product_type_family_for (fr_product_type f) = Inr fam \<and> fr_account_id f = Some a"

definition loop_inv ::
  "rat \<Rightarrow> rat \<Rightarrow> uuid \<Rightarrow> uuid \<Rightarrow> uuid \<Rightarrow> product_type_family \<Rightarrow> rat \<Rightarrow> run_state \<Rightarrow> bool" where
  "loop_inv lo hi u a i fam V s \<longleftrightarrow>
     num_ok lo hi V s \<and> unit_ok u a i fam (rs_current s) (rs_db s) \<and>
     lots_ok u i fam (rs_current s) (rs_db s)"

section \<open>Keyed updates of one row\<close>

lemma filter_singleD: "filter p rs = [r] \<Longrightarrow> r \<in> set rs \<and> p r"
proof -
  assume "filter p rs = [r]"
  then have "r \<in> set (filter p rs)" by simp
  then show ?thesis by simp
qed

lemma filter_update_unique:
  assumes "distinct (map key rs)" and "filter p rs = [r]" and "key r = k"
  shows "filter p (update_by key k g rs) = (if p (g r) then [g r] else [])"
  using assms
proof (induction rs)
  case (Cons x xs)
  show ?case
  proof (cases "p x")
    case True
    with Cons.prems have x: "x = r" and none: "filter p xs = []" by auto
    have "key y \<noteq> k" if "y \<in> set xs" for y
    proof -
      from that have "key y \<in> key ` set xs" by (rule imageI)
      then show ?thesis using Cons.prems(1,3) x by auto
    qed
    then have "update_by key k g xs = xs"
      unfolding update_by_def by (intro update_where_none)
    then show ?thesis using x none Cons.prems(3) by (simp add: update_by_def)
  next
    case False
    with Cons.prems have xs: "filter p xs = [r]" by auto
    then have "r \<in> set xs" by (blast dest: filter_singleD)
    with Cons.prems have "key x \<noteq> k" by auto
    with False xs Cons show ?thesis by (simp add: update_by_def)
  qed
qed simp

lemma row_by_key: "distinct (map key rs) \<Longrightarrow> filter p rs = [r] \<Longrightarrow> x \<in> set rs \<Longrightarrow> key x = key r \<Longrightarrow> x = r"
  by (drule filter_singleD) (auto simp: distinct_map dest: inj_onD)

section \<open>The trades table\<close>

lemma to_snapshot_Inr [result_simps]:
  "to_snapshot r = Inr c \<longleftrightarrow> t_average_entry r = Some (ot_average_entry c) \<and>
     t_id r = ot_id c \<and> t_direction r = ot_direction c \<and> t_status r = ot_status c \<and>
     t_trade_date r = ot_trade_date c \<and> t_first_fill_at r = ot_first_fill_at c \<and>
     t_total_entry_quantity r = ot_total_entry_quantity c \<and>
     t_total_exit_quantity r = ot_total_exit_quantity c \<and>
     t_net_position r = ot_net_position c \<and> t_trade_type r = ot_trade_type c"
  by (cases c) (auto simp: to_snapshot_def split: option.splits)

lemma unit_ok_open:
  assumes u: "unit_ok u a i fam None d" and f: "sane_fill lo hi f" "fr_account_id f = Some a"
    and tt: "provisional_trade_type fam itype = Inr tt"
  shows "unit_ok u a i fam (Some (opened_trade (direction_of f) tt (next_uuid d) f))
    (opened_db u i fam (direction_of f) tt f d)"
proof -
  let ?r = "opened_row u i (direction_of f) tt (next_uuid d) f"
  note fD = sane_fillD [OF f(1)]
  have tset: "tt \<in> set (TRADE_TYPES_FOR_FAMILY fam)"
    using tt by (rule provisional_trade_type_in_family)
  then have t5: "tt \<in> {''MIS'', ''CNC'', ''CNC_SAME_DAY'', ''NRML_FUT'', ''NRML_OPT''}"
    by (cases fam) auto
  have wf: "trade_wf ?r"
    using t5 fD by (auto simp: trade_wf_def trade_check_def opened_row_def new_trade_row_def direction_of_def)
  have op: "is_open_trade u a i fam ?r"
    using tset f(2) by (simp add: is_open_trade_def opened_row_def new_trade_row_def)
  have "to_snapshot ?r = Inr (opened_trade (direction_of f) tt (next_uuid d) f)"
    by (simp add: result_simps opened_row_def new_trade_row_def opened_trade_def)
  moreover have "next_uuid d \<notin> t_id ` set (trades d)" using u by (auto simp: unit_ok_def)
  moreover have "t_id ?r = next_uuid d" by (simp add: opened_row_def new_trade_row_def)
  ultimately show ?thesis
    using u wf op by (auto simp: unit_ok_def opened_db_def Let_def append_row_def less_Suc_eq)
qed

text \<open>An update of the current trade's row by a function that keeps it open.\<close>

lemma unit_ok_update:
  assumes u: "unit_ok u a i fam (Some c) d"
    and g: "\<And>t. t_id (g t) = t_id t"
    and keep: "\<And>r. is_open_trade u a i fam r \<Longrightarrow> to_snapshot r = Inr c \<Longrightarrow> trade_wf r \<Longrightarrow>
      trade_wf (g r) \<and> (case cur' of None \<Rightarrow> \<not> is_open_trade u a i fam (g r)
        | Some c' \<Rightarrow> is_open_trade u a i fam (g r) \<and> to_snapshot (g r) = Inr c')"
    and d': "trades d' = update_by t_id (ot_id c) g (trades d)" "next_uuid d \<le> next_uuid d'"
  shows "unit_ok u a i fam cur' d'"
proof -
  from u obtain r where r: "filter (is_open_trade u a i fam) (trades d) = [r]"
    and c: "to_snapshot r = Inr c" and dist: "distinct (map t_id (trades d))"
    and wf: "\<forall>t\<in>set (trades d). trade_wf t" and fresh: "\<forall>t\<in>set (trades d). t_id t < next_uuid d"
    by (auto simp: unit_ok_def)
  have id: "t_id r = ot_id c" using c by (simp add: result_simps)
  note rin = filter_singleD [OF r]
  have kr: "trade_wf (g r) \<and> (case cur' of None \<Rightarrow> \<not> is_open_trade u a i fam (g r)
        | Some c' \<Rightarrow> is_open_trade u a i fam (g r) \<and> to_snapshot (g r) = Inr c')"
    using rin c wf by (intro keep) auto
  have "trade_wf t" if "t \<in> set (trades d')" for t
    using that wf kr row_by_key [OF dist r] id by (auto simp: d'(1) in_update_by)
  moreover have "t_id t < next_uuid d'" if "t \<in> set (trades d')" for t
    using that fresh d'(2) g by (fastforce simp: d'(1) in_update_by)
  moreover have "distinct (map t_id (trades d'))" using dist by (simp add: d'(1) g)
  ultimately show ?thesis
    using kr filter_update_unique [OF dist r id, of g]
    by (auto simp: unit_ok_def d'(1) split: option.splits)
qed

text \<open>The three updates of the loop.\<close>

lemma scaled_row_keeps:
  assumes c: "snap_ok lo hi c" and f: "sane_fill lo hi f"
    and r: "is_open_trade u a i fam r" "to_snapshot r = Inr c" "trade_wf r"
  shows "trade_wf (scaled_row avg c f r) \<and> is_open_trade u a i fam (scaled_row avg c f r) \<and>
    to_snapshot (scaled_row avg c f r) = Inr (scaled_trade avg c f)"
proof -
  note cD = snap_okD [OF c] and fD = sane_fillD [OF f]
  have eqs: "t_total_exit_quantity r = ot_total_exit_quantity c"
    using r(2) by (simp add: result_simps)
  have "trade_wf (scaled_row avg c f r)"
    using r(3) cD(4,5,6) fD(2) eqs
    by (auto simp: trade_wf_def trade_check_def scaled_row_def)
  moreover have "is_open_trade u a i fam (scaled_row avg c f r)"
    using r(1) by (simp add: is_open_trade_def scaled_row_def)
  moreover have "to_snapshot (scaled_row avg c f r) = Inr (scaled_trade avg c f)"
    using r(2) by (simp add: result_simps scaled_row_def scaled_trade_def)
  ultimately show ?thesis by simp
qed

lemma reduced_row_keeps:
  assumes c: "snap_ok lo hi c" and f: "sane_fill lo hi f"
    and lt: "fr_quantity f < ot_net_position c"
    and r: "is_open_trade u a i fam r" "to_snapshot r = Inr c" "trade_wf r"
  shows "trade_wf (reduced_row c f r) \<and> is_open_trade u a i fam (reduced_row c f r) \<and>
    to_snapshot (reduced_row c f r) = Inr (reduced_trade c f)"
proof -
  note cD = snap_okD [OF c] and fD = sane_fillD [OF f]
  have eqs: "t_total_entry_quantity r = ot_total_entry_quantity c"
    using r(2) by (simp add: result_simps)
  have "trade_wf (reduced_row c f r)"
    using r(3) cD(4,5,6) fD(2) lt eqs
    by (auto simp: trade_wf_def trade_check_def reduced_row_def)
  moreover have "is_open_trade u a i fam (reduced_row c f r)"
    using r(1) by (simp add: is_open_trade_def reduced_row_def)
  moreover have "to_snapshot (reduced_row c f r) = Inr (reduced_trade c f)"
    using r(2) by (simp add: result_simps reduced_row_def reduced_trade_def)
  ultimately show ?thesis by simp
qed

lemma closed_row_closes:
  assumes c: "snap_ok lo hi c" and eq: "fr_quantity f = ot_net_position c"
    and r: "is_open_trade u a i fam r" "to_snapshot r = Inr c" "trade_wf r"
  shows "trade_wf (closed_row x c f r) \<and> \<not> is_open_trade u a i fam (closed_row x c f r)"
proof -
  note cD = snap_okD [OF c]
  have eqs: "t_total_entry_quantity r = ot_total_entry_quantity c"
    "t_trade_type r = ot_trade_type c"
    using r(2) by (simp_all add: result_simps)
  then have "finalize_trade_type (ot_trade_type c) (ot_trade_date c) (fr_trade_date f) \<in>
      {''MIS'', ''CNC'', ''CNC_SAME_DAY'', ''NRML_FUT'', ''NRML_OPT''}"
    using r(3) by (auto simp: finalize_trade_type_def trade_wf_def trade_check_def)
  then show ?thesis
    using r(3) cD(4,5,6) eq eqs(1)
    by (simp add: trade_wf_def trade_check_def closed_row_def is_open_trade_def)
qed

section \<open>The tax lots\<close>

lemma lots_ok_open:
  assumes l: "lots_ok u i fam None d" and f: "sane_fill lo hi f" and lo: "0 < lo"
  shows "lots_ok u i fam (Some (opened_trade dir tt (next_uuid d) f)) (opened_db u i fam dir tt f d)"
proof -
  note fD = sane_fillD [OF f]
  let ?n = "next_uuid d"
  have chk: "tax_lot_check (opened_lot u i ?n (Suc ?n) f)"
    using fD lo by (auto simp: tax_lot_check_def opened_lot_def)
  have fresh: "\<forall>x\<in>set (tax_lots d). l_id x < ?n \<and> l_trade_id x < ?n \<and> tax_lot_check x"
    "distinct (map l_id (tax_lots d))"
    using l by (auto simp: lots_ok_def)
  then have ids: "Suc ?n \<notin> l_id ` set (tax_lots d)" "?n \<notin> l_trade_id ` set (tax_lots d)"
    by fastforce+
  then have none: "filter (\<lambda>x. l_trade_id x = ?n) (tax_lots d) = []"
    unfolding filter_empty_conv by (metis imageI)
  show ?thesis
  proof (cases "fam = DELIVERY")
    case True
    then have "open_lots u i d = []" using l by (simp add: lots_ok_def)
    with True fresh ids none chk show ?thesis
      by (auto simp: lots_ok_def open_lots_def opened_db_def Let_def append_row_def opened_lot_def
          lot_matches_def opened_trade_def intro: less_SucI)
  next
    case False
    with fresh show ?thesis
      by (auto simp: lots_ok_def opened_db_def Let_def intro: less_SucI)
  qed
qed

lemma lots_ok_update:
  assumes l: "lots_ok u i DELIVERY (Some c) d"
    and lot: "open_lots u i d = [l]" "filter (\<lambda>x. l_trade_id x = ot_id c) (tax_lots d) = [l]"
    and g: "\<And>x. l_id (g x) = l_id x" "\<And>x. l_trade_id (g x) = l_trade_id x"
      "\<And>x. l_user_id (g x) = l_user_id x" "\<And>x. l_instrument_id (g x) = l_instrument_id x"
    and chk: "tax_lot_check (g l)"
    and after: "case cur' of None \<Rightarrow> l_status (g l) = ''CLOSED''
      | Some c' \<Rightarrow> l_status (g l) \<noteq> ''CLOSED'' \<and> lot_matches c' (g l) \<and> ot_id c' = ot_id c"
    and d': "tax_lots d' = update_by l_id (l_id l) g (tax_lots d)" "next_uuid d \<le> next_uuid d'"
  shows "lots_ok u i DELIVERY cur' d'"
proof -
  have dist: "distinct (map l_id (tax_lots d))"
    and fresh: "\<forall>x\<in>set (tax_lots d). l_id x < next_uuid d \<and> l_trade_id x < next_uuid d \<and> tax_lot_check x"
    using l by (auto simp: lots_ok_def)
  have all: "l_id x < next_uuid d' \<and> l_trade_id x < next_uuid d' \<and> tax_lot_check x"
    if "x \<in> set (tax_lots d')" for x
  proof -
    from that obtain y where y: "y \<in> set (tax_lots d)" "x = (if l_id y = l_id l then g y else y)"
      by (auto simp: d'(1) in_update_by)
    then have "l_id y = l_id l \<Longrightarrow> y = l" using row_by_key [OF dist lot(2)] by blast
    with y chk fresh d'(2) g show ?thesis by (auto intro: less_le_trans)
  qed
  have "filter (\<lambda>x. l_trade_id x = ot_id c) (tax_lots d') = [g l]"
    using filter_update_unique [OF dist lot(2) refl, of g] filter_singleD [OF lot(2)]
    by (simp add: d'(1) g)
  moreover have "open_lots u i d' = (if l_status (g l) = ''CLOSED'' then [] else [g l])"
    using filter_update_unique [OF dist lot(1) [unfolded open_lots_def] refl, of g]
      filter_singleD [OF lot(1) [unfolded open_lots_def]]
    by (simp add: open_lots_def d'(1) g)
  moreover have "distinct (map l_id (tax_lots d'))" using dist by (simp add: d'(1) g)
  ultimately show ?thesis
    using all after by (auto simp: lots_ok_def split: option.splits)
qed

lemma lots_ok_other:
  "lots_ok u i fam cur d \<Longrightarrow> fam \<noteq> DELIVERY \<Longrightarrow> tax_lots d' = tax_lots d \<Longrightarrow>
   next_uuid d \<le> next_uuid d' \<Longrightarrow> lots_ok u i fam cur' d'"
  by (auto simp: lots_ok_def intro: less_le_trans)

lemma lots_ok_lotE:
  assumes "lots_ok u i fam (Some c) d"
  obtains l where "lot_synced fam c d l" and "lot_held u i fam c d l"
    and "fam = DELIVERY \<Longrightarrow> open_lots u i d = [l] \<and>
      filter (\<lambda>x. l_trade_id x = ot_id c) (tax_lots d) = [l] \<and> lot_matches c l \<and> tax_lot_check l"
proof (cases "fam = DELIVERY")
  case True
  with assms obtain l where l: "open_lots u i d = [l]"
    "filter (\<lambda>x. l_trade_id x = ot_id c) (tax_lots d) = [l]" "lot_matches c l"
    by (auto simp: lots_ok_def)
  have "get_open_lot u i d = Some l"
    using l(1) by (simp add: get_open_lot_def open_lots_def order_by_def first_row_def)
  moreover have "tax_lot_check l" using assms filter_singleD [OF l(2)] by (simp add: lots_ok_def)
  ultimately show ?thesis
    using l by (intro that [of l])
      (simp_all add: lot_synced_def lot_held_def get_lot_for_trade_def lot_matches_def)
next
  case False
  then show ?thesis by (intro that) (simp_all add: lot_synced_def lot_held_def)
qed

section \<open>One fill keeps the invariant\<close>

definition delta :: "fill_record \<Rightarrow> rat" where
  "delta f = (if fr_side f = ''BUY'' then fr_quantity f else - fr_quantity f)"

lemma position_step:
  assumes n: "num_ok lo hi (fr_quantity f + V) s" and f: "sane_fill lo hi f" and V: "0 \<le> V"
  shows "dadd (rs_position s) (signed_delta f) = rs_position s + delta f"
    and "dp 4 (rs_position s)"
proof -
  note fD = sane_fillD [OF f]
  have q: "fr_quantity f < 10 ^ 10" using n V by (simp add: num_ok_def)
  have p: "dp 4 (rs_position s) \<and> \<bar>rs_position s\<bar> < 10 ^ 10"
  proof (cases "rs_current s")
    case None
    then show ?thesis using n by (simp add: num_ok_def)
  next
    case (Some c)
    then have a: "acc_ok lo hi (fr_quantity f + V) c s" and pos: "rs_position s = signed_net (Some c)"
      using n by (auto simp: num_ok_def)
    then have c: "snap_ok lo hi c"
      and lim: "ot_total_entry_quantity c + (fr_quantity f + V) < 10 ^ 10"
      by (simp_all add: acc_ok_def)
    note cD = snap_okD [OF c]
    show ?thesis using cD(3-6) lim fD(2) V by (simp add: pos)
  qed
  then show "dp 4 (rs_position s)" by simp
  have s: "signed_delta f = delta f"
    using fD q by (simp add: signed_delta_def delta_def dneg_exact)
  show "dadd (rs_position s) (signed_delta f) = rs_position s + delta f"
    unfolding s using p fD q by (intro dadd_exact) (auto simp: delta_def)
qed

text \<open>Everything after the checks, before the fill is assigned.\<close>

definition advance ::
  "bool \<Rightarrow> uuid \<Rightarrow> uuid \<Rightarrow> product_type_family \<Rightarrow> string \<Rightarrow> fill_record \<Rightarrow> run_state \<Rightarrow>
   exn + uuid \<times> string \<times> run_state" where
  "advance b u i fam itype f s =
     (case rs_current s of
        None \<Rightarrow> open_new_trade u i fam itype f s
      | Some cur \<Rightarrow>
          rbind (fill_role_for (ot_direction cur) (fr_side f)) (\<lambda>fill_role.
          rbind (if fill_role = ''ENTRY'' then scale_in fam cur f s
                 else exit_fill b u i fam cur f s)
            (\<lambda>s'. Inr (ot_id cur, fill_role, s'))))"

lemma process_fill_advance:
  assumes "num_ok lo hi (fr_quantity f + V) s" and "sane_fill lo hi f" and "0 \<le> V"
    and "unit_fill a fam f"
  shows "process_fill b u i fam itype f s =
    (if crosses_zero (rs_position s) (rs_position s + delta f)
     then Inl (Recon (PositionCrossingZeroError (fr_id f)))
     else rbind (advance b u i fam itype f s) (\<lambda>(trade_id, fill_role, s').
       Inr (s'\<lparr>rs_db := assign_trade (fr_id f) trade_id fill_role (rs_db s'),
         rs_position := rs_position s + delta f,
         rs_result := (rs_result s')\<lparr>fills_processed := Suc (fills_processed (rs_result s'))\<rparr>\<rparr>)))"
  using assms(4) by (simp add: process_fill_def advance_def unit_fill_def check_def Let_def
      position_step(1) [OF assms(1-3)])

lemma unit_ok_same:
  "unit_ok u a i fam cur d \<Longrightarrow> trades d' = trades d \<Longrightarrow> next_uuid d' = next_uuid d \<Longrightarrow>
   unit_ok u a i fam cur d'"
  by (simp add: unit_ok_def split: option.splits)

lemma lots_ok_same:
  "lots_ok u i fam cur d \<Longrightarrow> tax_lots d' = tax_lots d \<Longrightarrow> next_uuid d' = next_uuid d \<Longrightarrow>
   lots_ok u i fam cur d'"
  by (simp add: lots_ok_def open_lots_def split: option.splits)

text \<open>
  What one successful step does: the state \<open>s1\<close> before the P and L trigger (which a full exit
  runs last), the role given to the fill, and the bookkeeping of the counters.
\<close>

definition in_unit :: "uuid \<Rightarrow> uuid \<Rightarrow> uuid \<Rightarrow> product_type_family \<Rightarrow> trade_row \<Rightarrow> bool" where
  "in_unit u a i fam t \<longleftrightarrow> t_user_id t = u \<and> t_account_id t = Some a \<and> t_instrument_id t = i \<and>
     t_trade_type t \<in> set (TRADE_TYPES_FOR_FAMILY fam)"

definition open_count :: "open_trade_snapshot option \<Rightarrow> nat" where
  "open_count cur = (if cur = None then 0 else 1)"

text \<open>
  The ledger entry of a step: the totals of trade \<open>tid\<close> grow by the quantity of the fill in its
  role, every other trade of the unit is untouched.
\<close>

definition prev_totals ::
  "uuid \<Rightarrow> uuid \<Rightarrow> uuid \<Rightarrow> product_type_family \<Rightarrow> uuid \<Rightarrow> db \<Rightarrow> rat \<Rightarrow> rat \<Rightarrow> bool" where
  "prev_totals u a i fam tid d e x \<longleftrightarrow>
     tid = next_uuid d \<and> e = 0 \<and> x = 0 \<or>
     (\<exists>t\<in>set (trades d). in_unit u a i fam t \<and> t_id t = tid \<and>
        t_total_entry_quantity t = e \<and> t_total_exit_quantity t = x)"

definition ledger_step ::
  "uuid \<Rightarrow> uuid \<Rightarrow> uuid \<Rightarrow> product_type_family \<Rightarrow> uuid \<Rightarrow> string \<Rightarrow> rat \<Rightarrow> db \<Rightarrow> db \<Rightarrow> bool" where
  "ledger_step u a i fam tid role q d d1 \<longleftrightarrow>
     next_uuid d \<le> next_uuid d1 \<and> tid < next_uuid d1 \<and> role \<in> {''ENTRY'', ''EXIT''} \<and>
     (\<forall>t\<in>set (trades d1). in_unit u a i fam t \<longrightarrow>
        (if t_id t = tid then \<exists>e x. prev_totals u a i fam tid d e x \<and>
           t_total_entry_quantity t = e + (if role = ''ENTRY'' then q else 0) \<and>
           t_total_exit_quantity t = x + (if role = ''EXIT'' then q else 0)
         else t \<in> set (trades d)))"

definition step_ok ::
  "rat \<Rightarrow> rat \<Rightarrow> uuid \<Rightarrow> uuid \<Rightarrow> uuid \<Rightarrow> product_type_family \<Rightarrow> rat \<Rightarrow> fill_record \<Rightarrow> run_state \<Rightarrow>
   uuid \<Rightarrow> string \<Rightarrow> run_state \<Rightarrow> bool" where
  "step_ok lo hi u a i fam V f s tid role s1 \<longleftrightarrow>
     loop_inv lo hi u a i fam V (s1\<lparr>rs_position := rs_position s + delta f\<rparr>) \<and>
     filter (\<lambda>t. \<not> in_unit u a i fam t) (trades (rs_db s1)) =
       filter (\<lambda>t. \<not> in_unit u a i fam t) (trades (rs_db s)) \<and>
     ledger_step u a i fam tid role (fr_quantity f) (rs_db s) (rs_db s1) \<and>
     execution_fills (rs_db s1) = execution_fills (rs_db s) \<and>
     trades_opened (rs_result s1) + open_count (rs_current s) + trades_closed (rs_result s) =
       trades_opened (rs_result s) + open_count (rs_current s1) + trades_closed (rs_result s1) \<and>
     fills_processed (rs_result s1) = fills_processed (rs_result s)"

lemma in_unit_open: "is_open_trade u a i fam t \<Longrightarrow> in_unit u a i fam t"
  by (simp add: is_open_trade_def in_unit_def)

lemma others_update:
  assumes "unit_ok u a i fam (Some c) d"
    and g: "\<And>t. in_unit u a i fam t \<Longrightarrow> to_snapshot t = Inr c \<Longrightarrow> in_unit u a i fam (g t)"
  shows "filter (\<lambda>t. \<not> in_unit u a i fam t) (update_by t_id (ot_id c) g (trades d)) =
    filter (\<lambda>t. \<not> in_unit u a i fam t) (trades d)"
proof -
  from assms(1) obtain r where r: "filter (is_open_trade u a i fam) (trades d) = [r]"
    and c: "to_snapshot r = Inr c" and dist: "distinct (map t_id (trades d))"
    by (auto simp: unit_ok_def)
  have id: "t_id r = ot_id c" using c by (simp add: result_simps)
  have rin: "in_unit u a i fam r" using filter_singleD [OF r] by (blast intro: in_unit_open)
  show ?thesis
    unfolding update_by_def
  proof (rule filter_update_where_disjoint)
    fix t assume "t \<in> set (trades d)" "t_id t = ot_id c"
    then have "t = r" using row_by_key [OF dist r] id by simp
    then show "\<not> \<not> in_unit u a i fam t \<and> \<not> \<not> in_unit u a i fam (g t)"
      using rin g [OF rin c] by simp
  qed
qed

lemma ledger_update:
  assumes u: "unit_ok u a i fam (Some c) d" and g: "\<And>t. t_id (g t) = t_id t"
    and tot: "\<And>t. to_snapshot t = Inr c \<Longrightarrow>
      t_total_entry_quantity (g t) = ot_total_entry_quantity c + (if role = ''ENTRY'' then q else 0) \<and>
      t_total_exit_quantity (g t) = ot_total_exit_quantity c + (if role = ''EXIT'' then q else 0)"
    and role: "role \<in> {''ENTRY'', ''EXIT''}"
    and d1: "trades d1 = update_by t_id (ot_id c) g (trades d)" "next_uuid d1 = next_uuid d"
  shows "ledger_step u a i fam (ot_id c) role q d d1"
proof -
  from u obtain r where r: "filter (is_open_trade u a i fam) (trades d) = [r]"
    and c: "to_snapshot r = Inr c" and dist: "distinct (map t_id (trades d))"
    and fresh: "\<forall>t\<in>set (trades d). t_id t < next_uuid d"
    by (auto simp: unit_ok_def)
  have cr: "t_id r = ot_id c" "t_total_entry_quantity r = ot_total_entry_quantity c"
    "t_total_exit_quantity r = ot_total_exit_quantity c"
    using c by (simp_all add: result_simps)
  note rin = filter_singleD [OF r]
  have prev: "prev_totals u a i fam (ot_id c) d (ot_total_entry_quantity c) (ot_total_exit_quantity c)"
    unfolding prev_totals_def using rin cr in_unit_open [of u a i fam r] by blast
  have "if t_id t = ot_id c then \<exists>e x. prev_totals u a i fam (ot_id c) d e x \<and>
           t_total_entry_quantity t = e + (if role = ''ENTRY'' then q else 0) \<and>
           t_total_exit_quantity t = x + (if role = ''EXIT'' then q else 0)
         else t \<in> set (trades d)" if "t \<in> set (trades d1)" for t
  proof (cases "t_id t = ot_id c")
    case True
    from that obtain t0 where "t0 \<in> set (trades d)" "t = (if t_id t0 = ot_id c then g t0 else t0)"
      by (auto simp: d1(1) in_update_by)
    with True have "t = g r" using row_by_key [OF dist r, of t0] cr(1) g by (auto split: if_splits)
    with True show ?thesis using prev tot [OF c] by auto
  next
    case False
    with that g show ?thesis by (auto simp: d1(1) in_update_by)
  qed
  moreover have "ot_id c < next_uuid d" using rin fresh cr(1) by metis
  ultimately show ?thesis unfolding ledger_step_def d1(2) using role by blast
qed

lemma ledger_open:
  assumes u: "unit_ok u a i fam None d"
  shows "ledger_step u a i fam (next_uuid d) ''ENTRY'' (fr_quantity f) d
    (opened_db u i fam dir tt f d)"
proof -
  have fresh: "t_id t \<noteq> next_uuid d" if "t \<in> set (trades d)" for t
    using u that by (auto simp: unit_ok_def)
  have "if t_id t = next_uuid d then \<exists>e x. prev_totals u a i fam (next_uuid d) d e x \<and>
           t_total_entry_quantity t = e + (if ''ENTRY'' = ''ENTRY'' then fr_quantity f else 0) \<and>
           t_total_exit_quantity t = x + (if ''ENTRY'' = ''EXIT'' then fr_quantity f else 0)
         else t \<in> set (trades d)" if "t \<in> set (trades (opened_db u i fam dir tt f d))" for t
  proof -
    have "t \<in> set (trades d) \<or> t = opened_row u i dir tt (next_uuid d) f"
      using that by (auto simp: opened_db_def Let_def)
    then show ?thesis
    proof
      assume "t \<in> set (trades d)"
      with fresh show ?thesis by simp
    next
      assume "t = opened_row u i dir tt (next_uuid d) f"
      then show ?thesis by (simp add: opened_row_def new_trade_row_def prev_totals_def)
    qed
  qed
  moreover have "next_uuid d < next_uuid (opened_db u i fam dir tt f d)"
    by (simp add: opened_db_def Let_def)
  ultimately show ?thesis unfolding ledger_step_def by (meson insertI1 less_imp_le)
qed

lemma advance_open:
  assumes r: "price_range lo hi" and f: "sane_fill lo hi f" "unit_fill a fam f"
    and inv: "loop_inv lo hi u a i fam (fr_quantity f + V) s" and V: "0 \<le> V"
    and tt: "provisional_trade_type fam itype = Inr tt" and cur: "rs_current s = None"
  obtains s1 where "advance b u i fam itype f s = Inr (next_uuid (rs_db s), ''ENTRY'', s1)"
    and "step_ok lo hi u a i fam V f s (next_uuid (rs_db s)) ''ENTRY'' s1" and "rs_current s1 \<noteq> None"
proof -
  note fD = sane_fillD [OF f(1)] and rD = price_rangeD [OF r]
  from inv have num: "num_ok lo hi (fr_quantity f + V) s" and uo: "unit_ok u a i fam None (rs_db s)"
    and lo: "lots_ok u i fam None (rs_db s)"
    using cur by (simp_all add: loop_inv_def)
  have lim: "fr_quantity f + V < 10 ^ 10" and pos: "rs_position s = 0"
    using num cur by (simp_all add: num_ok_def)
  have q: "fr_quantity f < 10 ^ 10" using lim V by linarith
  let ?d = "rs_db s" and ?dir = "direction_of f"
  let ?n = "next_uuid ?d"
  let ?s1 = "s\<lparr>
      rs_db := opened_db u i fam ?dir tt f ?d,
      rs_result := (rs_result s)\<lparr>
        tax_lots_created := tax_lots_created (rs_result s) + (if fam = DELIVERY then 1 else 0),
        trades_opened := Suc (trades_opened (rs_result s)), affected_trade_id := Some ?n\<rparr>,
      rs_current := Some (opened_trade ?dir tt ?n f),
      rs_entry_value := fr_quantity f * fr_price f, rs_entry_qty := fr_quantity f,
      rs_exit_fills := []\<rparr>"
  have adv: "advance b u i fam itype f s = Inr (?n, ''ENTRY'', ?s1)"
    using cur by (simp add: advance_def open_new_trade_eq [OF r f(1) q tt])
  have acc: "acc_ok lo hi V (opened_trade ?dir tt ?n f) (?s1\<lparr>rs_position := rs_position s + delta f\<rparr>)"
    using fD lim fill_turnover_bounds [OF f(1)] dp_fill_turnover [OF f(1)]
    by (auto simp: acc_ok_def snap_ok_def opened_trade_def direction_of_def)
  have num': "num_ok lo hi V (?s1\<lparr>rs_position := rs_position s + delta f\<rparr>)"
    using acc lim fD(2,6) pos
    by (auto simp: num_ok_def delta_def opened_trade_def direction_of_def)
  have others: "filter (\<lambda>t. \<not> in_unit u a i fam t) (trades (opened_db u i fam ?dir tt f ?d)) =
      filter (\<lambda>t. \<not> in_unit u a i fam t) (trades ?d)"
    using f(2) provisional_trade_type_in_family [OF tt]
    by (simp add: opened_db_def Let_def append_row_def in_unit_def opened_row_def new_trade_row_def
        unit_fill_def)
  have "step_ok lo hi u a i fam V f s (next_uuid (rs_db s)) ''ENTRY'' ?s1"
    using num' others cur ledger_open [OF uo] unit_ok_open [OF uo f(1) _ tt] lots_ok_open [OF lo f(1) rD(3)] f(2)
    by (simp add: step_ok_def loop_inv_def open_count_def unit_fill_def)
      (simp add: opened_db_def Let_def)
  then show ?thesis by (intro that [OF adv]) simp_all
qed

lemma fam_of_snapshot:
  assumes "unit_ok u a i fam (Some c) d"
  shows "ot_trade_type c \<in> set (TRADE_TYPES_FOR_FAMILY fam)"
proof -
  from assms obtain r where r: "filter (is_open_trade u a i fam) (trades d) = [r]"
    and c: "to_snapshot r = Inr c"
    by (auto simp: unit_ok_def)
  show ?thesis using filter_singleD [OF r] c by (simp add: is_open_trade_def result_simps)
qed

lemma advance_scale:
  assumes r: "price_range lo hi" and f: "sane_fill lo hi f"
    and inv: "loop_inv lo hi u a i fam (fr_quantity f + V) s" and V: "0 \<le> V"
    and cur: "rs_current s = Some c" and role: "fill_role_for (ot_direction c) (fr_side f) = Inr ''ENTRY''"
  obtains s1 where "advance b u i fam itype f s = Inr (ot_id c, ''ENTRY'', s1)"
    and "step_ok lo hi u a i fam V f s (ot_id c) ''ENTRY'' s1" and "rs_current s1 \<noteq> None"
proof -
  note fD = sane_fillD [OF f] and rD = price_rangeD [OF r]
  from inv have num: "num_ok lo hi (fr_quantity f + V) s"
    and uo: "unit_ok u a i fam (Some c) (rs_db s)" and lo: "lots_ok u i fam (Some c) (rs_db s)"
    using cur by (simp_all add: loop_inv_def)
  have acc: "acc_ok lo hi (fr_quantity f + V) c s" and pos: "rs_position s = signed_net (Some c)"
    using num cur by (simp_all add: num_ok_def)
  have c: "snap_ok lo hi c" using acc by (simp add: acc_ok_def)
  note cD = snap_okD [OF c]
  obtain l where l: "lot_synced fam c (rs_db s) l"
    and D: "fam = DELIVERY \<Longrightarrow> open_lots u i (rs_db s) = [l] \<and>
      filter (\<lambda>x. l_trade_id x = ot_id c) (tax_lots (rs_db s)) = [l] \<and> lot_matches c l \<and> tax_lot_check l"
    using lots_ok_lotE [OF lo] by metis
  have le: "fr_quantity f \<le> fr_quantity f + V" using V by simp
  note S = scale_in_eq [OF r f acc le l]
  let ?d = "rs_db s" and ?avg = "scaled_avg f s"
  let ?d1 = "?d\<lparr>trades := update_by t_id (ot_id c) (scaled_row ?avg c f) (trades ?d),
      tax_lots := (if fam = DELIVERY then update_by l_id (l_id l) (scaled_lot ?avg c f) (tax_lots ?d)
        else tax_lots ?d)\<rparr>"
  let ?s1 = "s\<lparr>rs_db := ?d1,
      rs_result := (if fam = DELIVERY
         then (rs_result s)\<lparr>tax_lots_updated := Suc (tax_lots_updated (rs_result s))\<rparr>
         else rs_result s),
      rs_current := Some (scaled_trade ?avg c f),
      rs_entry_value := rs_entry_value s + fr_quantity f * fr_price f,
      rs_entry_qty := rs_entry_qty s + fr_quantity f\<rparr>"
  have adv: "advance b u i fam itype f s = Inr (ot_id c, ''ENTRY'', ?s1)"
    using cur role S(1) by (simp add: advance_def)
  have avg4: "dp 4 ?avg" by (simp add: scaled_avg_def)
  have num': "num_ok lo hi V (?s1\<lparr>rs_position := rs_position s + delta f\<rparr>)"
  proof -
    have "acc_ok lo hi V (scaled_trade ?avg c f) (?s1\<lparr>rs_position := rs_position s + delta f\<rparr>)"
      using acc cD fD S(2-5) avg4 dp_fill_turnover [OF f]
      by (auto simp: acc_ok_def snap_ok_def scaled_trade_def add.assoc)
    moreover have "rs_position s + delta f = signed_net (Some (scaled_trade ?avg c f))"
      using role cD(7) pos by (auto simp: result_simps scaled_trade_def delta_def)
    moreover have "V < 10 ^ 10" using num fD(2) by (simp add: num_ok_def)
    ultimately show ?thesis by (simp add: num_ok_def)
  qed
  have uo': "unit_ok u a i fam (Some (scaled_trade ?avg c f)) ?d1"
    by (rule unit_ok_update [OF uo, of "scaled_row ?avg c f"])
      (use scaled_row_keeps [OF c f] in \<open>auto simp: scaled_row_def\<close>)
  have lo': "lots_ok u i fam (Some (scaled_trade ?avg c f)) ?d1"
  proof (cases "fam = DELIVERY")
    case True
    have lm: "lot_matches c l" "tax_lot_check l" using D [OF True] by auto
    have after: "l_status (scaled_lot ?avg c f l) \<noteq> ''CLOSED'' \<and>
        lot_matches (scaled_trade ?avg c f) (scaled_lot ?avg c f l)"
      using lm by (simp add: lot_matches_def scaled_lot_def scaled_trade_def)
    have chk: "tax_lot_check (scaled_lot ?avg c f l)"
      using lm cD fD S(2) rD(3) by (auto simp: tax_lot_check_def scaled_lot_def)
    show ?thesis unfolding True
      by (rule lots_ok_update [where g = "scaled_lot ?avg c f" and l = l, OF lo [unfolded True]])
        (use chk D [OF True] after True in \<open>auto simp: scaled_lot_def scaled_trade_def\<close>)
  next
    case False
    with lo show ?thesis by (auto intro: lots_ok_other)
  qed
  have others: "filter (\<lambda>t. \<not> in_unit u a i fam t) (update_by t_id (ot_id c) (scaled_row ?avg c f) (trades ?d)) =
      filter (\<lambda>t. \<not> in_unit u a i fam t) (trades ?d)"
    by (rule others_update [OF uo]) (simp add: in_unit_def scaled_row_def)
  have led: "ledger_step u a i fam (ot_id c) ''ENTRY'' (fr_quantity f) ?d ?d1"
    by (rule ledger_update [OF uo, of "scaled_row ?avg c f"]) (simp_all add: scaled_row_def result_simps)
  have "step_ok lo hi u a i fam V f s (ot_id c) ''ENTRY'' ?s1"
    using num' uo' lo' others led cur by (simp add: step_ok_def loop_inv_def open_count_def)
  then show ?thesis by (intro that [OF adv]) simp_all
qed

lemma exited_lot_sel [simp]:
  "l_id (exited_lot c f l) = l_id l" "l_trade_id (exited_lot c f l) = l_trade_id l"
  "l_user_id (exited_lot c f l) = l_user_id l"
  "l_instrument_id (exited_lot c f l) = l_instrument_id l"
  by (simp_all add: exited_lot_def)

lemma lots_ok_exit:
  assumes "lots_ok u i DELIVERY (Some c) d"
    and "open_lots u i d = [l]" "filter (\<lambda>x. l_trade_id x = ot_id c) (tax_lots d) = [l]"
    and "tax_lot_check (exited_lot c f l)"
    and "case cur' of None \<Rightarrow> l_status (exited_lot c f l) = ''CLOSED''
      | Some c' \<Rightarrow> l_status (exited_lot c f l) \<noteq> ''CLOSED'' \<and>
          lot_matches c' (exited_lot c f l) \<and> ot_id c' = ot_id c"
    and "tax_lots d' = exit_lots DELIVERY c f l (tax_lots d)" "next_uuid d' = next_uuid d"
  shows "lots_ok u i DELIVERY cur' d'"
  by (rule lots_ok_update [where g = "exited_lot c f" and l = l, OF assms(1-3) _ _ _ _ assms(4,5)])
    (simp_all add: assms(6,7) exit_lots_def)

lemma exit_setup:
  assumes r: "price_range lo hi" and f: "sane_fill lo hi f"
    and inv: "loop_inv lo hi u a i fam (fr_quantity f + V) s" and V: "0 \<le> V"
    and cur: "rs_current s = Some c" and role: "fill_role_for (ot_direction c) (fr_side f) = Inr ''EXIT''"
    and nx: "\<not> crosses_zero (rs_position s) (rs_position s + delta f)"
  shows "acc_ok lo hi (fr_quantity f + V) c s" and "snap_ok lo hi c"
    and "unit_ok u a i fam (Some c) (rs_db s)" and "lots_ok u i fam (Some c) (rs_db s)"
    and "fr_quantity f \<le> ot_net_position c" and "V < 10 ^ 10"
    and "rs_position s + delta f =
      (if ot_direction c = ''LONG'' then ot_net_position c - fr_quantity f
       else - (ot_net_position c - fr_quantity f))"
proof -
  note fD = sane_fillD [OF f]
  from inv have num: "num_ok lo hi (fr_quantity f + V) s" using cur by (simp add: loop_inv_def)
  show "unit_ok u a i fam (Some c) (rs_db s)" "lots_ok u i fam (Some c) (rs_db s)"
    using inv cur by (simp_all add: loop_inv_def)
  show acc: "acc_ok lo hi (fr_quantity f + V) c s" using num cur by (simp add: num_ok_def)
  have pos: "rs_position s = signed_net (Some c)" using num cur by (simp add: num_ok_def)
  show c: "snap_ok lo hi c" using acc by (simp add: acc_ok_def)
  note cD = snap_okD [OF c]
  show "V < 10 ^ 10" using num fD(2) by (simp add: num_ok_def)
  show p: "rs_position s + delta f =
      (if ot_direction c = ''LONG'' then ot_net_position c - fr_quantity f
       else - (ot_net_position c - fr_quantity f))"
    using role pos by (auto simp: result_simps delta_def)
  show "fr_quantity f \<le> ot_net_position c"
    using nx cD(5) role unfolding pos by (auto simp: crosses_zero_def result_simps delta_def)
qed

lemma advance_partial:
  assumes r: "price_range lo hi" and f: "sane_fill lo hi f"
    and inv: "loop_inv lo hi u a i fam (fr_quantity f + V) s" and V: "0 \<le> V"
    and cur: "rs_current s = Some c" and role: "fill_role_for (ot_direction c) (fr_side f) = Inr ''EXIT''"
    and nx: "\<not> crosses_zero (rs_position s) (rs_position s + delta f)"
    and ne: "fr_quantity f \<noteq> ot_net_position c"
  obtains s1 where "advance b u i fam itype f s = Inr (ot_id c, ''EXIT'', s1)"
    and "step_ok lo hi u a i fam V f s (ot_id c) ''EXIT'' s1" and "rs_current s1 \<noteq> None"
proof -
  note fD = sane_fillD [OF f] and rD = price_rangeD [OF r]
  note E = exit_setup [OF r f inv V cur role nx]
  note cD = snap_okD [OF E(2)]
  have lt: "fr_quantity f < ot_net_position c" using E(5) ne by simp
  obtain l where l: "lot_held u i fam c (rs_db s) l"
    and D: "fam = DELIVERY \<Longrightarrow> open_lots u i (rs_db s) = [l] \<and>
      filter (\<lambda>x. l_trade_id x = ot_id c) (tax_lots (rs_db s)) = [l] \<and> lot_matches c l \<and> tax_lot_check l"
    using lots_ok_lotE [OF E(4)] by metis
  have le: "fr_quantity f \<le> fr_quantity f + V" using V by simp
  let ?d = "rs_db s"
  let ?d1 = "?d\<lparr>trades := update_by t_id (ot_id c) (reduced_row c f) (trades ?d),
      tax_lots := exit_lots fam c f l (tax_lots ?d)\<rparr>"
  let ?s1 = "s\<lparr>rs_db := ?d1, rs_result := exit_result fam (rs_result s),
      rs_current := Some (reduced_trade c f), rs_exit_fills := rs_exit_fills s @ [f]\<rparr>"
  have adv: "advance b u i fam itype f s = Inr (ot_id c, ''EXIT'', ?s1)"
    using cur role by (simp add: advance_def exit_fill_partial_eq [OF r f E(1) le lt l])
  have num': "num_ok lo hi V (?s1\<lparr>rs_position := rs_position s + delta f\<rparr>)"
  proof -
    have "acc_ok lo hi V (reduced_trade c f) (?s1\<lparr>rs_position := rs_position s + delta f\<rparr>)"
      using E(1) cD fD lt f by (auto simp: acc_ok_def snap_ok_def reduced_trade_def)
    then show ?thesis using E(6,7) by (simp add: num_ok_def reduced_trade_def)
  qed
  have uo': "unit_ok u a i fam (Some (reduced_trade c f)) ?d1"
    by (rule unit_ok_update [OF E(3), of "reduced_row c f"])
      (use reduced_row_keeps [OF E(2) f lt] in \<open>auto simp: reduced_row_def\<close>)
  have lo': "lots_ok u i fam (Some (reduced_trade c f)) ?d1"
  proof (cases "fam = DELIVERY")
    case True
    have lm: "lot_matches c l" "tax_lot_check l" using D [OF True] by auto
    have after: "l_status (exited_lot c f l) \<noteq> ''CLOSED'' \<and>
        lot_matches (reduced_trade c f) (exited_lot c f l)"
      using lm lt cD(4) fD(2) by (simp add: lot_matches_def exited_lot_def reduced_trade_def)
    have chk: "tax_lot_check (exited_lot c f l)"
      using lm cD fD lt by (auto simp: tax_lot_check_def exited_lot_def lot_matches_def)
    show ?thesis unfolding True
      by (rule lots_ok_exit [OF E(4) [unfolded True] _ _ chk])
        (use D [OF True] after in \<open>simp_all add: reduced_trade_def\<close>)
  next
    case False
    then show ?thesis by (intro lots_ok_other [OF E(4) False]) (simp_all add: exit_lots_def)
  qed
  have others: "filter (\<lambda>t. \<not> in_unit u a i fam t) (update_by t_id (ot_id c) (reduced_row c f) (trades ?d)) =
      filter (\<lambda>t. \<not> in_unit u a i fam t) (trades ?d)"
    by (rule others_update [OF E(3)]) (simp add: in_unit_def reduced_row_def)
  have led: "ledger_step u a i fam (ot_id c) ''EXIT'' (fr_quantity f) ?d ?d1"
    by (rule ledger_update [OF E(3), of "reduced_row c f"]) (simp_all add: reduced_row_def result_simps)
  have "step_ok lo hi u a i fam V f s (ot_id c) ''EXIT'' ?s1"
    using num' uo' lo' others led cur
    by (simp add: step_ok_def loop_inv_def open_count_def exit_result_def)
  then show ?thesis by (intro that [OF adv]) simp_all
qed

lemma advance_close:
  assumes r: "price_range lo hi" and f: "sane_fill lo hi f"
    and inv: "loop_inv lo hi u a i fam (fr_quantity f + V) s" and V: "0 \<le> V"
    and cur: "rs_current s = Some c" and role: "fill_role_for (ot_direction c) (fr_side f) = Inr ''EXIT''"
    and nx: "\<not> crosses_zero (rs_position s) (rs_position s + delta f)"
    and eq: "fr_quantity f = ot_net_position c"
  obtains s1 where "advance b u i fam itype f s =
      rbind (trigger_pnl b (ot_id c) u (rs_db s1))
        (\<lambda>d. Inr (ot_id c, ''EXIT'', s1\<lparr>rs_db := d\<rparr>))"
    and "step_ok lo hi u a i fam V f s (ot_id c) ''EXIT'' s1" and "rs_current s1 = None"
proof -
  note fD = sane_fillD [OF f] and rD = price_rangeD [OF r]
  note E = exit_setup [OF r f inv V cur role nx]
  note cD = snap_okD [OF E(2)]
  obtain l where l: "lot_held u i fam c (rs_db s) l"
    and D: "fam = DELIVERY \<Longrightarrow> open_lots u i (rs_db s) = [l] \<and>
      filter (\<lambda>x. l_trade_id x = ot_id c) (tax_lots (rs_db s)) = [l] \<and> lot_matches c l \<and> tax_lot_check l"
    using lots_ok_lotE [OF E(4)] by metis
  have le: "fr_quantity f \<le> fr_quantity f + V" using V by simp
  let ?d = "rs_db s" and ?fs = "rs_exit_fills s @ [f]"
  let ?d1 = "closed_db fam c f l ?fs ?d"
  let ?s1 = "s\<lparr>rs_db := ?d1,
      rs_result := (exit_result fam (rs_result s))\<lparr>trades_closed := Suc (trades_closed (rs_result s))\<rparr>,
      rs_current := None, rs_entry_value := 0, rs_entry_qty := 0, rs_exit_fills := []\<rparr>"
  have adv: "advance b u i fam itype f s =
      rbind (trigger_pnl b (ot_id c) u (rs_db ?s1))
        (\<lambda>d. Inr (ot_id c, ''EXIT'', ?s1\<lparr>rs_db := d\<rparr>))"
    using cur role
    by (cases "trigger_pnl b (ot_id c) u ?d1")
      (simp_all add: advance_def exit_fill_full_eq [OF r f E(1) le eq l])
  have num': "num_ok lo hi V (?s1\<lparr>rs_position := rs_position s + delta f\<rparr>)"
    using E(6,7) eq by (simp add: num_ok_def)
  have uo': "unit_ok u a i fam None ?d1"
    by (rule unit_ok_update [OF E(3), of "closed_row (exit_avg ?fs) c f"])
      (use closed_row_closes [OF E(2) eq] in \<open>auto simp: closed_row_def closed_db_def\<close>)
  have lo': "lots_ok u i fam None ?d1"
  proof (cases "fam = DELIVERY")
    case True
    have lm: "lot_matches c l" "tax_lot_check l" using D [OF True] by auto
    have chk: "tax_lot_check (exited_lot c f l)"
      using lm cD fD eq by (auto simp: tax_lot_check_def exited_lot_def lot_matches_def)
    show ?thesis unfolding True
      by (rule lots_ok_exit [OF E(4) [unfolded True] _ _ chk])
        (use D [OF True] in \<open>simp_all add: eq exited_lot_def closed_db_def\<close>)
  next
    case False
    then show ?thesis
      by (intro lots_ok_other [OF E(4) False]) (simp_all add: exit_lots_def closed_db_def)
  qed
  have others: "filter (\<lambda>t. \<not> in_unit u a i fam t)
        (update_by t_id (ot_id c) (closed_row (exit_avg ?fs) c f) (trades ?d)) =
      filter (\<lambda>t. \<not> in_unit u a i fam t) (trades ?d)"
    using fam_of_snapshot [OF E(3)]
    by (intro others_update [OF E(3)])
      (simp add: in_unit_def closed_row_def finalize_trade_type_in_family)
  have led: "ledger_step u a i fam (ot_id c) ''EXIT'' (fr_quantity f) ?d ?d1"
    by (rule ledger_update [OF E(3), of "closed_row (exit_avg ?fs) c f"]) (simp_all add: closed_row_def closed_db_def result_simps)
  have "step_ok lo hi u a i fam V f s (ot_id c) ''EXIT'' ?s1"
    using num' uo' lo' others led cur
    by (simp add: step_ok_def loop_inv_def open_count_def exit_result_def closed_db_def)
  then show ?thesis by (intro that [OF adv]) simp_all
qed

end
