(* ===== verification/Recon_Runs.thy ===== *)
theory Recon_Runs
  imports Recon_Invariant
begin

text \<open>
  From one fill to a whole run: \<open>process_fill\<close> and the loop under the invariant, the books that
  tie every trade of the unit to the fills linked to it, and the state predicate \<open>unit_state\<close>
  that a run assumes of the database and re-establishes.
\<close>

section \<open>One fill\<close>

lemma same_db [simp]: "s\<lparr>rs_db := rs_db s\<rparr> = s"
  by (cases s) simp

lemma rbind_assoc: "rbind (rbind m f) g = rbind m (\<lambda>x. rbind (f x) g)"
  by (cases m) simp_all

lemma advance_ok:
  assumes "price_range lo hi" and "sane_fill lo hi f" and "unit_fill a fam f"
    and inv: "loop_inv lo hi u a i fam (fr_quantity f + V) s" and "0 \<le> V"
    and "provisional_trade_type fam itype = Inr tt"
    and nx: "\<not> crosses_zero (rs_position s) (rs_position s + delta f)"
  obtains tid role s1 where "advance b u i fam itype f s =
      rbind (if rs_current s1 = None then trigger_pnl b tid u (rs_db s1) else Inr (rs_db s1))
        (\<lambda>d. Inr (tid, role, s1\<lparr>rs_db := d\<rparr>))"
    and "step_ok lo hi u a i fam V f s tid role s1"
proof (cases "rs_current s")
  case None
  obtain s1 where s1: "advance b u i fam itype f s = Inr (next_uuid (rs_db s), ''ENTRY'', s1)"
      "step_ok lo hi u a i fam V f s (next_uuid (rs_db s)) ''ENTRY'' s1" "rs_current s1 \<noteq> None"
      using advance_open [OF assms(1-6) None, of b] .
    show ?thesis by (rule that [of s1 "next_uuid (rs_db s)" "''ENTRY''"]) (use s1 in auto)
next
  case (Some c)
  have "snap_ok lo hi c" using inv Some by (simp add: loop_inv_def num_ok_def acc_ok_def)
  from snap_okD(7) [OF this] sane_fillD(6) [OF assms(2)]
  have "fill_role_for (ot_direction c) (fr_side f) = Inr ''ENTRY'' \<or>
    fill_role_for (ot_direction c) (fr_side f) = Inr ''EXIT''"
    by (auto simp: result_simps)
  then consider (entry) "fill_role_for (ot_direction c) (fr_side f) = Inr ''ENTRY''"
    | (part) "fill_role_for (ot_direction c) (fr_side f) = Inr ''EXIT''" "fr_quantity f \<noteq> ot_net_position c"
    | (full) "fill_role_for (ot_direction c) (fr_side f) = Inr ''EXIT''" "fr_quantity f = ot_net_position c"
    by blast
  then show ?thesis
  proof cases
    case entry
    obtain s1 where s1: "advance b u i fam itype f s = Inr (ot_id c, ''ENTRY'', s1)"
      "step_ok lo hi u a i fam V f s (ot_id c) ''ENTRY'' s1" "rs_current s1 \<noteq> None"
      using advance_scale [OF assms(1,2,4,5) Some entry, of b itype] .
    show ?thesis by (rule that [of s1 "ot_id c" "''ENTRY''"]) (use s1 in auto)
  next
    case part
    obtain s1 where s1: "advance b u i fam itype f s = Inr (ot_id c, ''EXIT'', s1)"
      "step_ok lo hi u a i fam V f s (ot_id c) ''EXIT'' s1" "rs_current s1 \<noteq> None"
      using advance_partial [OF assms(1,2,4,5) Some part(1) nx part(2), of b itype] .
    show ?thesis by (rule that [of s1 "ot_id c" "''EXIT''"]) (use s1 in auto)
  next
    case full
    obtain s1 where s1: "advance b u i fam itype f s = rbind (trigger_pnl b (ot_id c) u (rs_db s1))
        (\<lambda>d. Inr (ot_id c, ''EXIT'', s1\<lparr>rs_db := d\<rparr>))"
      "step_ok lo hi u a i fam V f s (ot_id c) ''EXIT'' s1" "rs_current s1 = None"
      using advance_close [OF assms(1,2,4,5) Some full(1) nx full(2), of b itype] .
    show ?thesis by (rule that [of s1 "ot_id c" "''EXIT''"]) (use s1 in auto)
  qed
qed

lemma process_fill_ok:
  assumes r: "price_range lo hi" and f: "sane_fill lo hi f" "unit_fill a fam f"
    and inv: "loop_inv lo hi u a i fam (fr_quantity f + V) s" and V: "0 \<le> V"
    and tt: "provisional_trade_type fam itype = Inr tt"
    and nx: "\<not> crosses_zero (rs_position s) (rs_position s + delta f)"
  obtains tid role s1 where "process_fill b u i fam itype f s =
      rbind (if rs_current s1 = None then trigger_pnl b tid u (rs_db s1) else Inr (rs_db s1))
        (\<lambda>d. Inr (s1\<lparr>rs_db := assign_trade (fr_id f) tid role d,
           rs_position := rs_position s + delta f,
           rs_result := (rs_result s1)\<lparr>fills_processed := Suc (fills_processed (rs_result s1))\<rparr>\<rparr>))"
    and "step_ok lo hi u a i fam V f s tid role s1"
proof -
  have num: "num_ok lo hi (fr_quantity f + V) s" using inv by (simp add: loop_inv_def)
  obtain tid role s1 where adv: "advance b u i fam itype f s =
      rbind (if rs_current s1 = None then trigger_pnl b tid u (rs_db s1) else Inr (rs_db s1))
        (\<lambda>d. Inr (tid, role, s1\<lparr>rs_db := d\<rparr>))"
    and ok: "step_ok lo hi u a i fam V f s tid role s1"
    using advance_ok [OF r f inv V tt nx] .
  show ?thesis
    by (rule that [OF _ ok], unfold process_fill_advance [OF num f(1) V f(2)] adv)
      (simp add: nx rbind_assoc)
qed

section \<open>The books\<close>

text \<open>
  \<open>linked_volume\<close>: the quantity of the fills linked to a trade in a role. The books of a unit
  balance when every trade row of the unit carries exactly the volumes of its linked fills.
\<close>

definition linked_volume :: "uuid \<Rightarrow> string \<Rightarrow> execution_fill_row list \<Rightarrow> rat" where
  "linked_volume tid role xs =
     sum_list (map x_quantity (filter (\<lambda>x. x_trade_id x = Some tid \<and> x_fill_role x = Some role) xs))"

definition in_fill_unit :: "uuid \<Rightarrow> uuid \<Rightarrow> uuid \<Rightarrow> string \<Rightarrow> execution_fill_row \<Rightarrow> bool" where
  "in_fill_unit u a i p x \<longleftrightarrow> x_user_id x = u \<and> x_account_id x = Some a \<and>
     x_instrument_id x = i \<and> x_product_type x = p"

definition books_ok ::
  "uuid \<Rightarrow> uuid \<Rightarrow> uuid \<Rightarrow> string \<Rightarrow> product_type_family \<Rightarrow> db \<Rightarrow> bool" where
  "books_ok u a i p fam d \<longleftrightarrow>
     distinct (map x_id (execution_fills d)) \<and>
     (\<forall>x\<in>set (execution_fills d). \<forall>t. x_trade_id x = Some t \<longrightarrow> t < next_uuid d) \<and>
     (\<forall>t\<in>set (trades d). in_unit u a i fam t \<longrightarrow>
        t_total_entry_quantity t = linked_volume (t_id t) ''ENTRY'' (execution_fills d) \<and>
        t_total_exit_quantity t = linked_volume (t_id t) ''EXIT'' (execution_fills d)) \<and>
     (\<forall>x\<in>set (execution_fills d). \<forall>t\<in>set (trades d).
        in_unit u a i fam t \<longrightarrow> x_trade_id x = Some (t_id t) \<longrightarrow> in_fill_unit u a i p x)"

text \<open>The fills still to be processed are unlinked rows of the unit.\<close>

definition pending :: "uuid \<Rightarrow> uuid \<Rightarrow> uuid \<Rightarrow> string \<Rightarrow> fill_record list \<Rightarrow> db \<Rightarrow> bool" where
  "pending u a i p fs d \<longleftrightarrow> distinct (map fr_id fs) \<and>
     (\<forall>f\<in>set fs. \<exists>x\<in>set (execution_fills d).
        to_record x = f \<and> x_trade_id x = None \<and> in_fill_unit u a i p x)"

lemma linked_volume_simps [simp]:
  "linked_volume tid role [] = 0"
  "linked_volume tid role (x # xs) =
     (if x_trade_id x = Some tid \<and> x_fill_role x = Some role then x_quantity x else 0)
     + linked_volume tid role xs"
  by (simp_all add: linked_volume_def)

lemma update_by_other: "k \<notin> key ` set xs \<Longrightarrow> update_by key k g xs = xs"
  unfolding update_by_def by (rule update_where_none) auto

lemma linked_volume_link:
  assumes "distinct (map x_id xs)" and "x \<in> set xs" and "x_trade_id x = None"
  shows "linked_volume t ro (update_by x_id (x_id x) (linked tid role) xs) =
    linked_volume t ro xs + (if t = tid \<and> ro = role then x_quantity x else 0)"
  using assms(1,2)
proof (induction xs)
  case (Cons y ys)
  show ?case
  proof (cases "y = x")
    case True
    with Cons.prems have "x_id x \<notin> x_id ` set ys" by auto
    from update_by_other [OF this, of "linked tid role"] True assms(3) show ?thesis
      by (simp add: update_by_def)
  next
    case False
    with Cons.prems have "x \<in> set ys" by simp
    with Cons.prems have "x_id y \<noteq> x_id x" by auto
    with Cons \<open>x \<in> set ys\<close> show ?thesis by (simp add: update_by_def)
  qed
qed simp

lemma linked_volume_fresh:
  "(\<And>x t. x \<in> set xs \<Longrightarrow> x_trade_id x = Some t \<Longrightarrow> t < n) \<Longrightarrow> linked_volume n role xs = 0"
  by (induction xs) fastforce+

lemma prev_totals_linked:
  assumes b: "books_ok u a i p fam d" and pt: "prev_totals u a i fam tid d e x"
  shows "e = linked_volume tid ''ENTRY'' (execution_fills d)"
    and "x = linked_volume tid ''EXIT'' (execution_fills d)"
    and "\<And>y. y \<in> set (execution_fills d) \<Longrightarrow> x_trade_id y = Some tid \<Longrightarrow> in_fill_unit u a i p y"
proof -
  have fresh: "\<And>y t. y \<in> set (execution_fills d) \<Longrightarrow> x_trade_id y = Some t \<Longrightarrow> t < next_uuid d"
    using b by (simp add: books_ok_def)
  show "e = linked_volume tid ''ENTRY'' (execution_fills d)"
    "x = linked_volume tid ''EXIT'' (execution_fills d)"
    using pt b linked_volume_fresh [of "execution_fills d" "next_uuid d", OF fresh]
    by (auto simp: prev_totals_def books_ok_def)
  show "in_fill_unit u a i p y" if "y \<in> set (execution_fills d)" "x_trade_id y = Some tid" for y
    using pt b that fresh [OF that] by (auto simp: prev_totals_def books_ok_def)
qed

lemma books_step:
  assumes b: "books_ok u a i p fam d" and l: "ledger_step u a i fam tid role (x_quantity x) d d1"
    and same: "execution_fills d1 = execution_fills d"
    and x: "x \<in> set (execution_fills d)" "x_trade_id x = None" "in_fill_unit u a i p x"
  shows "books_ok u a i p fam (assign_trade (x_id x) tid role d1)"
proof -
  let ?d = "assign_trade (x_id x) tid role d1"
  have dist: "distinct (map x_id (execution_fills d))" using b by (simp add: books_ok_def)
  have nx: "next_uuid d \<le> next_uuid d1" "tid < next_uuid d1" and role: "role \<in> {''ENTRY'', ''EXIT''}"
    using l by (simp_all add: ledger_step_def)
  have lv: "linked_volume t ro (execution_fills ?d) = linked_volume t ro (execution_fills d) +
      (if t = tid \<and> ro = role then x_quantity x else 0)" for t ro
    using linked_volume_link [OF dist x(1,2)] by (simp add: assign_trade_def same)
  have row: "y \<in> set (execution_fills d) \<or> y = linked tid role x"
    if "y \<in> set (execution_fills ?d)" for y
  proof -
    from that obtain z where z: "z \<in> set (execution_fills d)"
      "y = (if x_id z = x_id x then linked tid role z else z)"
      by (auto simp: assign_trade_def same in_update_by)
    with dist x(1) show ?thesis by (auto simp: distinct_map dest: inj_onD)
  qed
  have step: "(if t_id t = tid then \<exists>e z. prev_totals u a i fam tid d e z \<and>
           t_total_entry_quantity t = e + (if role = ''ENTRY'' then x_quantity x else 0) \<and>
           t_total_exit_quantity t = z + (if role = ''EXIT'' then x_quantity x else 0)
         else t \<in> set (trades d))" if "t \<in> set (trades ?d)" "in_unit u a i fam t" for t
    using l that by (simp add: ledger_step_def assign_trade_def)
  have "t_total_entry_quantity t = linked_volume (t_id t) ''ENTRY'' (execution_fills ?d) \<and>
        t_total_exit_quantity t = linked_volume (t_id t) ''EXIT'' (execution_fills ?d)"
    if t: "t \<in> set (trades ?d)" "in_unit u a i fam t" for t
  proof (cases "t_id t = tid")
    case True
    with step [OF t] prev_totals_linked(1,2) [OF b] show ?thesis unfolding lv by auto
  next
    case False
    with step [OF t] t b show ?thesis unfolding lv by (simp add: books_ok_def)
  qed
  moreover have "in_fill_unit u a i p y"
    if y: "y \<in> set (execution_fills ?d)" and t: "t \<in> set (trades ?d)" "in_unit u a i fam t"
      and yt: "x_trade_id y = Some (t_id t)" for y t
    using row [OF y]
  proof
    assume old: "y \<in> set (execution_fills d)"
    show ?thesis
    proof (cases "t_id t = tid")
      case True
      with step [OF t] prev_totals_linked(3) [OF b _ old] yt show ?thesis by auto
    next
      case False
      with step [OF t] t old yt b show ?thesis by (auto simp: books_ok_def)
    qed
  next
    assume "y = linked tid role x"
    with x(3) show ?thesis by (simp add: in_fill_unit_def)
  qed
  moreover have "t < next_uuid ?d" if "y \<in> set (execution_fills ?d)" "x_trade_id y = Some t" for y t
    using row [OF that(1)] that(2) nx b
    by (auto simp: assign_trade_def books_ok_def intro: less_le_trans)
  moreover have "distinct (map x_id (execution_fills ?d))"
    using dist by (simp add: assign_trade_def same)
  ultimately show ?thesis unfolding books_ok_def by blast
qed

lemma pending_step:
  assumes "pending u a i p (f # fs) d" and "execution_fills d1 = execution_fills d"
  shows "pending u a i p fs (assign_trade (fr_id f) tid role d1)"
proof -
  have "\<exists>x\<in>set (execution_fills (assign_trade (fr_id f) tid role d1)).
      to_record x = g \<and> x_trade_id x = None \<and> in_fill_unit u a i p x" if g: "g \<in> set fs" for g
  proof -
    from assms(1) g obtain x where x: "x \<in> set (execution_fills d)" "to_record x = g"
      "x_trade_id x = None" "in_fill_unit u a i p x" by (auto simp: pending_def)
    from assms(1) g have "fr_id f \<noteq> fr_id g" by (auto simp: pending_def)
    with x(2) have "x_id x \<noteq> fr_id f" by (auto simp: to_record_def)
    with x show ?thesis
      by (intro bexI [of _ x]) (auto simp: assign_trade_def assms(2) in_update_by)
  qed
  with assms(1) show ?thesis by (simp add: pending_def)
qed

section \<open>The loop\<close>

text \<open>The invariant with the fills still to come, and what the loop has done since its start.\<close>

definition loop_all ::
  "rat \<Rightarrow> rat \<Rightarrow> uuid \<Rightarrow> uuid \<Rightarrow> uuid \<Rightarrow> string \<Rightarrow> product_type_family \<Rightarrow> fill_record list \<Rightarrow>
   run_state \<Rightarrow> bool" where
  "loop_all lo hi u a i p fam fs s \<longleftrightarrow>
     loop_inv lo hi u a i fam (volume fs) s \<and> books_ok u a i p fam (rs_db s) \<and>
     pending u a i p fs (rs_db s) \<and> (\<forall>f\<in>set fs. sane_fill lo hi f \<and> unit_fill a fam f)"

definition loop_effect ::
  "uuid \<Rightarrow> uuid \<Rightarrow> uuid \<Rightarrow> product_type_family \<Rightarrow> nat \<Rightarrow> rat \<Rightarrow> run_state \<Rightarrow> run_state \<Rightarrow> bool" where
  "loop_effect u a i fam n dq s s' \<longleftrightarrow>
     filter (\<lambda>t. \<not> in_unit u a i fam t) (trades (rs_db s')) =
       filter (\<lambda>t. \<not> in_unit u a i fam t) (trades (rs_db s)) \<and>
     trades_opened (rs_result s') + open_count (rs_current s) + trades_closed (rs_result s) =
       trades_opened (rs_result s) + open_count (rs_current s') + trades_closed (rs_result s') \<and>
     fills_processed (rs_result s') = fills_processed (rs_result s) + n \<and>
     rs_position s' = rs_position s + dq"

lemma loop_effect_trans:
  "loop_effect u a i fam m dq s s' \<Longrightarrow> loop_effect u a i fam n dr s' s'' \<Longrightarrow>
   loop_effect u a i fam (m + n) (dq + dr) s s''"
  by (simp add: loop_effect_def)

lemma loop_all_step:
  assumes r: "price_range lo hi" and tt: "provisional_trade_type fam itype = Inr tt"
    and inv: "loop_all lo hi u a i p fam (f # fs) s"
    and ok: "process_fill b u i fam itype f s = Inr s'"
  shows "loop_all lo hi u a i p fam fs s'" and "loop_effect u a i fam 1 (delta f) s s'"
proof -
  have f: "sane_fill lo hi f" "unit_fill a fam f" and fs: "\<And>g. g \<in> set fs \<Longrightarrow> sane_fill lo hi g"
    and li: "loop_inv lo hi u a i fam (fr_quantity f + volume fs) s"
    and books: "books_ok u a i p fam (rs_db s)" and pend: "pending u a i p (f # fs) (rs_db s)"
    using inv by (simp_all add: loop_all_def)
  have V: "0 \<le> volume fs" using fs by (rule volume_nonneg)
  have num: "num_ok lo hi (fr_quantity f + volume fs) s" using li by (simp add: loop_inv_def)
  have nx: "\<not> crosses_zero (rs_position s) (rs_position s + delta f)"
    using ok process_fill_advance [OF num f(1) V f(2), of b u i itype] by auto
  obtain tid role s1 where s1: "process_fill b u i fam itype f s =
      rbind (if rs_current s1 = None then trigger_pnl b tid u (rs_db s1) else Inr (rs_db s1))
        (\<lambda>d. Inr (s1\<lparr>rs_db := assign_trade (fr_id f) tid role d,
           rs_position := rs_position s + delta f,
           rs_result := (rs_result s1)\<lparr>fills_processed := Suc (fills_processed (rs_result s1))\<rparr>\<rparr>))"
    and step: "step_ok lo hi u a i fam (volume fs) f s tid role s1"
    using process_fill_ok [OF r f li V tt nx] .
  obtain d where d: "(if rs_current s1 = None then trigger_pnl b tid u (rs_db s1) else Inr (rs_db s1)) = Inr d"
    and s': "s' = s1\<lparr>rs_db := assign_trade (fr_id f) tid role d,
           rs_position := rs_position s + delta f,
           rs_result := (rs_result s1)\<lparr>fills_processed := Suc (fills_processed (rs_result s1))\<rparr>\<rparr>"
    using ok unfolding s1 rbind_eq_Inr by auto
  have same: "trades d = trades (rs_db s1)" "tax_lots d = tax_lots (rs_db s1)"
    "next_uuid d = next_uuid (rs_db s1)" "execution_fills d = execution_fills (rs_db s1)"
    using d trigger_pnl_same by (auto split: if_splits)
  have ex: "execution_fills d = execution_fills (rs_db s)"
    and li1: "loop_inv lo hi u a i fam (volume fs) (s1\<lparr>rs_position := rs_position s + delta f\<rparr>)"
    and led1: "ledger_step u a i fam tid role (fr_quantity f) (rs_db s) (rs_db s1)"
    using step same by (simp_all only: step_ok_def)
  have led: "ledger_step u a i fam tid role (fr_quantity f) (rs_db s) d"
    using led1 unfolding ledger_step_def same .
  have "loop_inv lo hi u a i fam (volume fs) s'"
  proof -
    have "unit_ok u a i fam (rs_current s1) (rs_db s')"
      by (rule unit_ok_same [where d = "rs_db s1"])
        (use li1 same in \<open>simp_all add: loop_inv_def s' assign_trade_def\<close>)
    moreover have "lots_ok u i fam (rs_current s1) (rs_db s')"
      by (rule lots_ok_same [where d = "rs_db s1"])
        (use li1 same in \<open>simp_all add: loop_inv_def s' assign_trade_def\<close>)
    moreover have "num_ok lo hi (volume fs) s'"
      using li1 by (simp add: loop_inv_def num_ok_def acc_ok_def s' split: option.splits)
    ultimately show ?thesis by (simp add: loop_inv_def s')
  qed
  moreover have "books_ok u a i p fam (rs_db s')"
  proof -
    from pend obtain x where x: "x \<in> set (execution_fills (rs_db s))" "to_record x = f"
      "x_trade_id x = None" "in_fill_unit u a i p x" by (auto simp: pending_def)
    then have "fr_id f = x_id x" "fr_quantity f = x_quantity x" by (auto simp: to_record_def)
    with books_step [OF books _ ex x(1,3,4), of tid role] led show ?thesis by (simp add: s')
  qed
  moreover have "pending u a i p fs (rs_db s')"
    using pending_step [OF pend ex] by (simp add: s')
  ultimately show "loop_all lo hi u a i p fam fs s'" using inv by (simp add: loop_all_def)
  show "loop_effect u a i fam 1 (delta f) s s'"
    using step same by (simp add: step_ok_def loop_effect_def s' assign_trade_def)
qed

lemma loop_all_run:
  assumes "price_range lo hi" and "provisional_trade_type fam itype = Inr tt"
    and "loop_all lo hi u a i p fam fs s"
    and "rfold (process_fill b u i fam itype) fs s = Inr s'"
  shows "loop_all lo hi u a i p fam [] s' \<and>
    loop_effect u a i fam (length fs) (sum_list (map delta fs)) s s'"
  using assms(3,4)
proof (induction fs arbitrary: s)
  case Nil
  then show ?case by (simp add: loop_effect_def)
next
  case (Cons f fs)
  from Cons.prems(2) obtain s1 where s1: "process_fill b u i fam itype f s = Inr s1"
    and rest: "rfold (process_fill b u i fam itype) fs s1 = Inr s'"
    by (auto simp: result_simps)
  note step = loop_all_step [OF assms(1,2) Cons.prems(1) s1]
  show ?case
    using Cons.IH [OF step(1) rest] loop_effect_trans [OF step(2), of "length fs"] by auto
qed

text \<open>When a run stops: the first fill whose position would cross zero.\<close>

fun first_crossing :: "rat \<Rightarrow> fill_record list \<Rightarrow> fill_record option" where
  "first_crossing q [] = None"
| "first_crossing q (f # fs) =
     (if crosses_zero q (q + delta f) then Some f else first_crossing (q + delta f) fs)"

text \<open>An error of the P and L trigger (other than a missing charge schedule).\<close>

definition pnl_failure :: "bool \<Rightarrow> exn \<Rightarrow> bool" where
  "pnl_failure b e \<longleftrightarrow> b \<and> (\<exists>tid u d. calculate_and_store tid u d = Inl e) \<and>
     (\<forall>br ty ex dt. e \<noteq> Pnl (ChargeScheduleNotFoundError br ty ex dt))"

lemma trigger_pnl_error: "trigger_pnl b tid u d = Inl e \<Longrightarrow> pnl_failure b e"
  by (auto simp: trigger_pnl_def pnl_failure_def split: if_splits sum.splits exn.splits pnl_error.splits)

lemma loop_all_outcome:
  assumes r: "price_range lo hi" and tt: "provisional_trade_type fam itype = Inr tt"
    and inv: "loop_all lo hi u a i p fam fs s"
  shows "(first_crossing (rs_position s) fs = None \<and>
      (\<exists>s'. rfold (process_fill b u i fam itype) fs s = Inr s')) \<or>
    (\<exists>f. first_crossing (rs_position s) fs = Some f \<and>
      rfold (process_fill b u i fam itype) fs s = Inl (Recon (PositionCrossingZeroError (fr_id f)))) \<or>
    (\<exists>e. rfold (process_fill b u i fam itype) fs s = Inl e \<and> pnl_failure b e)"
  using inv
proof (induction fs arbitrary: s)
  case (Cons f fs)
  have f: "sane_fill lo hi f" "unit_fill a fam f" and fs: "\<And>g. g \<in> set fs \<Longrightarrow> sane_fill lo hi g"
    and li: "loop_inv lo hi u a i fam (fr_quantity f + volume fs) s"
    using Cons.prems by (simp_all add: loop_all_def)
  have V: "0 \<le> volume fs" using fs by (rule volume_nonneg)
  have num: "num_ok lo hi (fr_quantity f + volume fs) s" using li by (simp add: loop_inv_def)
  show ?case
  proof (cases "crosses_zero (rs_position s) (rs_position s + delta f)")
    case True
    then show ?thesis by (simp add: process_fill_advance [OF num f(1) V f(2)])
  next
    case False
    note nx = this
    show ?thesis
    proof (cases "process_fill b u i fam itype f s")
      case (Inr s1)
      note step = loop_all_step [OF r tt Cons.prems Inr]
      have "rs_position s1 = rs_position s + delta f" using step(2) by (simp add: loop_effect_def)
      with Cons.IH [OF step(1)] Inr nx show ?thesis by simp
    next
      case (Inl e)
      obtain tid role s1 where "process_fill b u i fam itype f s =
        rbind (if rs_current s1 = None then trigger_pnl b tid u (rs_db s1) else Inr (rs_db s1))
        (\<lambda>d. Inr (s1\<lparr>rs_db := assign_trade (fr_id f) tid role d,
           rs_position := rs_position s + delta f,
           rs_result := (rs_result s1)\<lparr>fills_processed := Suc (fills_processed (rs_result s1))\<rparr>\<rparr>))"
        using process_fill_ok [OF r f li V tt nx] by metis
      with Inl have "pnl_failure b e"
        by (auto simp: rbind_eq_Inl dest: trigger_pnl_error split: if_splits)
      with Inl show ?thesis by simp
    qed
  qed
qed simp

end
