(* ===== verification/Recon_Engine.thy ===== *)
theory Recon_Engine
  imports Recon_Runs "HOL-Library.Multiset"
begin

text \<open>
  The reconstruction engine's contract: the state of a processing unit that \<open>run\<close> assumes and
  re-establishes, and the theorems about a whole run.
\<close>

section \<open>The state of a processing unit\<close>

definition unit_volume :: "uuid \<Rightarrow> uuid \<Rightarrow> uuid \<Rightarrow> string \<Rightarrow> execution_fill_row list \<Rightarrow> rat" where
  "unit_volume u a i p xs = sum_list (map x_quantity (filter (in_fill_unit u a i p) xs))"

text \<open>
  \<open>unit_state\<close>: the fills of the unit are within the limits, the trades balance and agree with
  their linked fills, at most one trade is open, and a delivery trade holds the open tax lot.
\<close>

definition unit_state ::
  "rat \<Rightarrow> rat \<Rightarrow> uuid \<Rightarrow> uuid \<Rightarrow> uuid \<Rightarrow> string \<Rightarrow> product_type_family \<Rightarrow> db \<Rightarrow> bool" where
  "unit_state lo hi u a i p fam d \<longleftrightarrow>
     price_range lo hi \<and> product_type_family_for p = Inr fam \<and>
     (\<forall>x\<in>set (execution_fills d). in_fill_unit u a i p x \<longrightarrow> sane_fill lo hi (to_record x)) \<and>
     unit_volume u a i p (execution_fills d) < 10 ^ 10 \<and>
     books_ok u a i p fam d \<and>
     (case get_open_trade_with_lock u a i fam d of
        Inl e \<Rightarrow> False
      | Inr cur \<Rightarrow> unit_ok u a i fam cur d \<and> lots_ok u i fam cur d \<and>
          (case cur of None \<Rightarrow> True | Some c \<Rightarrow> snap_ok lo hi c))"

lemma unit_ok_get_open:
  "unit_ok u a i fam cur d \<Longrightarrow> get_open_trade_with_lock u a i fam d = Inr cur"
  by (cases cur) (auto simp: unit_ok_def get_open_trade_with_lock_def result_simps simp del: to_snapshot_Inr)

lemma unit_stateI:
  assumes "price_range lo hi" and "product_type_family_for p = Inr fam"
    and "\<And>x. x \<in> set (execution_fills d) \<Longrightarrow> in_fill_unit u a i p x \<Longrightarrow> sane_fill lo hi (to_record x)"
    and "unit_volume u a i p (execution_fills d) < 10 ^ 10" and "books_ok u a i p fam d"
    and "unit_ok u a i fam cur d" and "lots_ok u i fam cur d"
    and "\<And>c. cur = Some c \<Longrightarrow> snap_ok lo hi c"
  shows "unit_state lo hi u a i p fam d"
  unfolding unit_state_def unit_ok_get_open [OF assms(6)]
  using assms by (auto split: option.splits)

lemma unit_stateE:
  assumes "unit_state lo hi u a i p fam d"
  obtains cur where "price_range lo hi" and "product_type_family_for p = Inr fam"
    and "\<And>x. x \<in> set (execution_fills d) \<Longrightarrow> in_fill_unit u a i p x \<Longrightarrow> sane_fill lo hi (to_record x)"
    and "unit_volume u a i p (execution_fills d) < 10 ^ 10" and "books_ok u a i p fam d"
    and "get_open_trade_with_lock u a i fam d = Inr cur"
    and "unit_ok u a i fam cur d" and "lots_ok u i fam cur d"
    and "\<And>c. cur = Some c \<Longrightarrow> snap_ok lo hi c"
proof -
  from assms obtain cur where "get_open_trade_with_lock u a i fam d = Inr cur"
    by (auto simp: unit_state_def split: sum.splits)
  with assms show ?thesis by (intro that [of cur]) (auto simp: unit_state_def)
qed

section \<open>The first state of the loop\<close>

lemma sum_list_insort_by:
  fixes g :: "'a \<Rightarrow> 'b :: comm_monoid_add"
  shows "sum_list (map g (insort_by le x xs)) = g x + sum_list (map g xs)"
  by (induction xs) (auto simp: ac_simps)

lemma sum_list_order_by:
  fixes g :: "'a \<Rightarrow> 'b :: comm_monoid_add"
  shows "sum_list (map g (order_by le xs)) = sum_list (map g xs)"
proof (induction xs)
  case (Cons x xs)
  have "order_by le (x # xs) = insort_by le x (order_by le xs)" by (simp add: order_by_def)
  with Cons show ?case by (simp add: sum_list_insort_by)
qed (simp add: order_by_def)

lemma volume_records: "volume (map to_record (order_by le xs)) = sum_list (map x_quantity xs)"
  by (simp add: volume_def to_record_def comp_def sum_list_order_by)

lemma sum_filter_two:
  fixes g :: "'a \<Rightarrow> rat"
  assumes "\<And>x. x \<in> set xs \<Longrightarrow> p x \<Longrightarrow> r x \<and> \<not> q x" and "\<And>x. x \<in> set xs \<Longrightarrow> q x \<Longrightarrow> r x"
    and "\<And>x. x \<in> set xs \<Longrightarrow> r x \<Longrightarrow> 0 \<le> g x"
  shows "sum_list (map g (filter p xs)) + sum_list (map g (filter q xs)) \<le> sum_list (map g (filter r xs))"
  using assms
proof (induction xs)
  case (Cons x xs)
  then have IH: "sum_list (map g (filter p xs)) + sum_list (map g (filter q xs)) \<le> sum_list (map g (filter r xs))"
    by simp
  with Cons.prems(1)[of x] Cons.prems(2)[of x] Cons.prems(3)[of x] show ?case by fastforce
qed simp

lemma unprocessed_in_unit:
  "is_unprocessed u a i p d x \<Longrightarrow> in_fill_unit u a i p x \<and> x_trade_id x = None"
  by (simp add: is_unprocessed_def in_fill_unit_def)

lemma in_unprocessed:
  "f \<in> set (get_unprocessed_fills u a i p d) \<longleftrightarrow>
   (\<exists>x\<in>set (execution_fills d). is_unprocessed u a i p d x \<and> f = to_record x)"
  by (auto simp: get_unprocessed_fills_def)

lemma pending_unprocessed:
  assumes "distinct (map x_id (execution_fills d))"
  shows "pending u a i p (get_unprocessed_fills u a i p d) d"
proof -
  have "map fr_id (get_unprocessed_fills u a i p d) = map x_id
      (order_by fill_before (filter (is_unprocessed u a i p d) (execution_fills d)))"
    by (simp add: get_unprocessed_fills_def to_record_def comp_def)
  moreover have "distinct (map x_id (filter (is_unprocessed u a i p d) (execution_fills d)))"
    using assms by (rule distinct_map_filter)
  ultimately have "distinct (map fr_id (get_unprocessed_fills u a i p d))"
    by (simp add: distinct_map_order_by)
  then show ?thesis
    by (auto simp: pending_def in_unprocessed dest!: unprocessed_in_unit)
qed

lemma init_loop_all:
  assumes st: "unit_state lo hi u a i p fam d"
    and cur: "get_open_trade_with_lock u a i fam d = Inr cur"
  shows "loop_all lo hi u a i p fam (get_unprocessed_fills u a i p d) (init_run_state cur d)"
proof -
  let ?fs = "get_unprocessed_fills u a i p d" and ?xs = "execution_fills d"
  from st cur have r: "price_range lo hi" and p: "product_type_family_for p = Inr fam"
    and sane: "\<And>x. x \<in> set ?xs \<Longrightarrow> in_fill_unit u a i p x \<Longrightarrow> sane_fill lo hi (to_record x)"
    and vol: "unit_volume u a i p ?xs < 10 ^ 10" and books: "books_ok u a i p fam d"
    and uo: "unit_ok u a i fam cur d" and lo: "lots_ok u i fam cur d"
    and snap: "\<And>c. cur = Some c \<Longrightarrow> snap_ok lo hi c"
    by (auto elim!: unit_stateE)
  have q0: "0 \<le> x_quantity x" if "x \<in> set ?xs" "in_fill_unit u a i p x" for x
    using sane_fillD(2) [OF sane [OF that]] by (simp add: to_record_def)
  have fs: "sane_fill lo hi f \<and> unit_fill a fam f" if "f \<in> set ?fs" for f
  proof -
    from that obtain x where x: "x \<in> set ?xs" "in_fill_unit u a i p x" "f = to_record x"
      using unprocessed_in_unit [of u a i p d] by (auto simp: in_unprocessed)
    moreover have "unit_fill a fam (to_record x)"
      using p x(2) by (simp add: unit_fill_def to_record_def in_fill_unit_def)
    ultimately show ?thesis using sane by simp
  qed
  have vfs: "volume ?fs = sum_list (map x_quantity (filter (is_unprocessed u a i p d) ?xs))"
    by (simp add: get_unprocessed_fills_def volume_records)
  have "num_ok lo hi (volume ?fs) (init_run_state cur d)"
  proof (cases cur)
    case None
    have "volume ?fs \<le> unit_volume u a i p ?xs"
      unfolding vfs unit_volume_def
      using sum_filter_two [of ?xs "is_unprocessed u a i p d" "in_fill_unit u a i p" "\<lambda>x. False" x_quantity]
        unprocessed_in_unit q0 by fastforce
    with vol None show ?thesis by (simp add: num_ok_def init_run_state_def)
  next
    case (Some c)
    note c = snap [OF Some] and cD = snap_okD [OF snap [OF Some]]
    from uo Some obtain t where t: "filter (is_open_trade u a i fam) (trades d) = [t]"
      and ts: "to_snapshot t = Inr c" by (auto simp: unit_ok_def)
    note tin = filter_singleD [OF t]
    have tc: "t_id t = ot_id c" "t_total_entry_quantity t = ot_total_entry_quantity c"
      "t_total_exit_quantity t = ot_total_exit_quantity c"
      using ts by (simp_all add: result_simps)
    have lv: "ot_total_entry_quantity c = linked_volume (ot_id c) ''ENTRY'' ?xs"
      "ot_total_exit_quantity c = linked_volume (ot_id c) ''EXIT'' ?xs"
      using books tin in_unit_open [of u a i fam t] tc by (auto simp: books_ok_def)
    have lin: "in_fill_unit u a i p x" if "x \<in> set ?xs" "x_trade_id x = Some (ot_id c)" for x
      using books tin in_unit_open [of u a i fam t] tc that unfolding books_ok_def by metis
    have lim: "ot_total_entry_quantity c + volume ?fs < 10 ^ 10"
    proof -
      have "ot_total_entry_quantity c + volume ?fs \<le> unit_volume u a i p ?xs"
        unfolding lv(1) vfs unit_volume_def linked_volume_def
        by (rule sum_filter_two) (use lin unprocessed_in_unit [of u a i p d] q0 in fastforce)+
      with vol show ?thesis by linarith
    qed
    let ?s = "init_run_state cur d"
    have V0: "0 \<le> volume ?fs" using fs volume_nonneg by blast
    have avg: "dp 4 (ot_average_entry c)" "lo \<le> ot_average_entry c" "ot_average_entry c \<le> hi"
      using cD by simp_all
    have qpos: "0 < ot_total_entry_quantity c" "ot_total_entry_quantity c < 10 ^ 10"
      using cD(4-6) lim V0 by linarith+
    note rD = price_rangeD [OF r]
    have ev_hi: "ot_average_entry c * ot_total_entry_quantity c \<le> hi * ot_total_entry_quantity c"
      and ev_lo: "lo * ot_total_entry_quantity c \<le> ot_average_entry c * ot_total_entry_quantity c"
      using avg qpos by (simp_all add: mult_right_mono)
    have dp8: "dp 8 (ot_average_entry c * ot_total_entry_quantity c)"
      using dp_mult [of 4 "ot_average_entry c" 4 "ot_total_entry_quantity c"] avg(1) cD(1) by simp
    have "0 < ot_average_entry c" using avg rD by linarith
    then have ev: "dmul (ot_average_entry c) (ot_total_entry_quantity c) =
        ot_average_entry c * ot_total_entry_quantity c"
      using value_limit [OF r _ qpos(2) ev_hi] qpos avg cD(1)
      by (intro dmul_exact) (auto simp: abs_mult)
    have exits: "(\<forall>f\<in>set (rs_exit_fills ?s). sane_fill lo hi f) \<and>
        volume (rs_exit_fills ?s) = ot_total_exit_quantity c"
    proof (cases "0 < ot_total_exit_quantity c")
      case True
      then have "rs_exit_fills ?s = get_exit_fills (ot_id c) d"
        using Some cD(8) by (simp add: init_run_state_def)
      then show ?thesis
        using lin sane lv(2) by (auto simp: get_exit_fills_def volume_records linked_volume_def)
    next
      case False
      then show ?thesis using Some cD(4,8) by (simp add: init_run_state_def)
    qed
    have "acc_ok lo hi (volume ?fs) c ?s"
      using c exits dp8 ev_lo ev_hi lim Some by (simp add: acc_ok_def init_run_state_def ev)
    moreover have "rs_position ?s = signed_net cur"
      using Some cD qpos by (simp add: init_run_state_def dneg_exact)
    moreover have "rs_current ?s = Some c" using Some by (simp add: init_run_state_def)
    ultimately show ?thesis using lim qpos Some by (simp add: num_ok_def)
  qed
  moreover have "rs_current (init_run_state cur d) = cur" "rs_db (init_run_state cur d) = d"
    by (simp_all add: init_run_state_def split: option.split)
  ultimately show ?thesis
    using uo lo books fs pending_unprocessed [of d u a i p] by (simp add: loop_all_def loop_inv_def books_ok_def)
qed

section \<open>Order of the fills\<close>

lemma nulls_last_less_irrefl [simp]: "\<not> nulls_last_less x x"
  by (cases x) auto

lemma nulls_last_linear: "nulls_last_less x y \<or> x = y \<or> nulls_last_less y x"
  by (cases x; cases y) (use str_less_linear in auto)

lemma nulls_last_trans: "nulls_last_less x y \<Longrightarrow> nulls_last_less y z \<Longrightarrow> nulls_last_less x z"
  by (cases x; cases y; cases z) (auto intro: str_less_trans)

lemma fill_before_total: "fill_before x y \<or> fill_before y x"
  using nulls_last_linear [of "x_fill_id x" "x_fill_id y"] by (auto simp: fill_before_def)

lemma fill_before_trans: "fill_before x y \<Longrightarrow> fill_before y z \<Longrightarrow> fill_before x z"
  by (auto simp: fill_before_def dest: nulls_last_trans)

lemma fill_before_antisym:
  "fill_before x y \<Longrightarrow> fill_before y x \<Longrightarrow>
   x_fill_timestamp x = x_fill_timestamp y \<and> x_fill_id x = x_fill_id y \<and> x_created_at x = x_created_at y"
  by (auto simp: fill_before_def dest: nulls_last_trans)

lemma sorted_fills: "sorted_wrt fill_before (order_by fill_before xs)"
  by (rule sorted_order_by) (rule fill_before_total, rule fill_before_trans)

text \<open>In a sorted list, a pair with the same key has a neighbouring pair with the same key.\<close>

lemma check_ambiguous_neighbours:
  "check_ambiguous_ordering fs = Inr () \<Longrightarrow> Suc m < length fs \<Longrightarrow> \<not> ambiguous (fs ! m) (fs ! Suc m)"
proof (induction fs arbitrary: m rule: check_ambiguous_ordering.induct)
  case (1 f g fs)
  then show ?case by (cases m) (simp_all split: if_splits)
qed simp_all

lemma fill_between_ambiguous:
  assumes "fill_before x y" and "fill_before y z \<or> y = z" and "ambiguous (to_record x) (to_record z)"
  shows "x_fill_timestamp y = x_fill_timestamp x \<and> x_fill_id y = None \<and> x_created_at y = x_created_at x"
proof -
  have keys: "x_fill_timestamp x = x_fill_timestamp z" "x_fill_id x = None" "x_fill_id z = None"
    "x_created_at x = x_created_at z"
    using assms(3) by (simp_all add: ambiguous_def to_record_def)
  have "\<not> nulls_last_less None w" for w by simp
  with assms(1) keys(2) have xy: "x_fill_timestamp x < x_fill_timestamp y \<or>
      x_fill_timestamp x = x_fill_timestamp y \<and> x_fill_id y = None \<and> x_created_at x \<le> x_created_at y"
    by (metis fill_before_def)
  from assms(2) show ?thesis
  proof
    assume "fill_before y z"
    with xy keys show ?thesis by (fastforce simp: fill_before_def)
  next
    assume "y = z"
    with keys show ?thesis by simp
  qed
qed

lemma check_ambiguous_complete:
  assumes "sorted_wrt fill_before xs" and "check_ambiguous_ordering (map to_record xs) = Inr ()"
    and "j < length xs" and "k < j"
  shows "\<not> ambiguous (to_record (xs ! k)) (to_record (xs ! j))"
proof
  assume amb: "ambiguous (to_record (xs ! k)) (to_record (xs ! j))"
  let ?x = "xs ! k" and ?y = "xs ! Suc k" and ?z = "xs ! j"
  have "fill_before ?x ?y" using assms by (intro sorted_wrt_nth_less) auto
  moreover have "fill_before ?y ?z \<or> ?y = ?z"
    using assms by (cases "Suc k = j") (auto intro: sorted_wrt_nth_less)
  ultimately have "x_fill_timestamp ?y = x_fill_timestamp ?x \<and> x_fill_id ?y = None \<and>
      x_created_at ?y = x_created_at ?x"
    using amb by (rule fill_between_ambiguous)
  with amb have "ambiguous (to_record ?x) (to_record ?y)"
    by (simp add: ambiguous_def to_record_def)
  with check_ambiguous_neighbours [OF assms(2), of k] assms(3,4) show False by simp
qed

lemma sorted_wrt_unique:
  assumes "sorted_wrt le xs" and "sorted_wrt le ys" and "mset xs = mset ys"
    and "\<And>x y. x \<in> set xs \<Longrightarrow> y \<in> set xs \<Longrightarrow> le x y \<Longrightarrow> le y x \<Longrightarrow> x = y"
  shows "xs = ys"
  using assms
proof (induction xs arbitrary: ys)
  case (Cons x xs)
  then obtain y zs where ys: "ys = y # zs" by (cases ys) auto
  have sets: "set (x # xs) = set ys" using Cons.prems(3) by (rule mset_eq_setD)
  have "x = y"
  proof (rule ccontr)
    assume "x \<noteq> y"
    with sets ys have "x \<in> set zs" "y \<in> set xs" by auto
    with Cons.prems(1,2) ys have "le y x" "le x y" by auto
    with Cons.prems(4) [of x y] \<open>y \<in> set xs\<close> \<open>x \<noteq> y\<close> show False by simp
  qed
  moreover have "xs = zs"
    using Cons.prems ys \<open>x = y\<close> by (intro Cons.IH) auto
  ultimately show ?case using ys by simp
qed simp

lemma mset_insort_by: "mset (insort_by le x xs) = add_mset x (mset xs)"
  by (induction xs) auto

lemma mset_order_by: "mset (order_by le xs) = mset xs"
proof (induction xs)
  case (Cons x xs)
  have "order_by le (x # xs) = insort_by le x (order_by le xs)" by (simp add: order_by_def)
  with Cons show ?case by (simp add: mset_insort_by)
qed (simp add: order_by_def)

section \<open>A run\<close>

lemma run_unfold:
  assumes "product_type_family_for p = Inr fam" and "get_open_trade_with_lock u a i fam d = Inr cur"
  shows "run b u a i p itype d =
    (let fs = get_unprocessed_fills u a i p d in
     if fs = [] then Inr (d, empty_result)
     else rbind (check_ambiguous_ordering fs) (\<lambda>_.
       rbind (rfold (process_fill b u i fam itype) fs (init_run_state cur d))
         (\<lambda>s. Inr (rs_db s, rs_result s))))"
  by (simp add: run_def assms)

lemma list_all2_member: "list_all2 P xs ys \<Longrightarrow> y \<in> set ys \<Longrightarrow> \<exists>x\<in>set xs. P x y"
  by (induction rule: list_all2_induct) auto

text \<open>Without any assumption: only the links of the fetched fills change in the fills table.\<close>

lemma run_fills:
  assumes "run b u a i p itype d = Inr (d', res)"
  shows "list_all2 (fill_step (fr_id ` set (get_unprocessed_fills u a i p d)))
      (execution_fills d) (execution_fills d') \<and> same_inputs d d'"
proof -
  obtain fam cur where fam: "product_type_family_for p = Inr fam"
    and cur: "get_open_trade_with_lock u a i fam d = Inr cur"
    using assms by (auto simp: run_def rbind_eq_Inr)
  have db: "rs_db (init_run_state cur d) = d" by (simp add: init_run_state_def split: option.split)
  show ?thesis
  proof (cases "get_unprocessed_fills u a i p d = []")
    case True
    with assms show ?thesis
      by (simp add: run_unfold [OF fam cur] fill_step_def list_all2_refl)
  next
    case False
    with assms obtain s where "rfold (process_fill b u i fam itype)
        (get_unprocessed_fills u a i p d) (init_run_state cur d) = Inr s" and "d' = rs_db s"
      by (auto simp: run_unfold [OF fam cur] Let_def rbind_eq_Inr)
    with rfold_fills [of b u i fam itype _ "init_run_state cur d" s] show ?thesis by (simp add: db)
  qed
qed

lemma fill_step_unprocessed:
  assumes "list_all2 (fill_step (fr_id ` set (get_unprocessed_fills u a i p d)))
      (execution_fills d) (execution_fills d')" and "same_inputs d d'"
  shows "get_unprocessed_fills u a i p d' = []"
proof -
  have "\<not> is_unprocessed u a i p d' y" if y: "y \<in> set (execution_fills d')" for y
  proof
    assume un: "is_unprocessed u a i p d' y"
    obtain x where x: "x \<in> set (execution_fills d)"
      "fill_step (fr_id ` set (get_unprocessed_fills u a i p d)) x y"
      using list_all2_member [OF assms(1) y] by blast
    have tn: "x_trade_id y = None" using un by (simp add: is_unprocessed_def)
    with x(2) have same: "y = x" and nin: "x_id x \<notin> fr_id ` set (get_unprocessed_fills u a i p d)"
      by (auto simp: fill_step_def split: if_splits)
    have "is_unprocessed u a i p d x"
      using un assms(2) same by (simp add: is_unprocessed_def same_inputs_def)
    with x(1) have "to_record x \<in> set (get_unprocessed_fills u a i p d)" by (auto simp: in_unprocessed)
    then have "fr_id (to_record x) \<in> fr_id ` set (get_unprocessed_fills u a i p d)" by (rule imageI)
    with nin show False by (simp add: to_record_def)
  qed
  then have "filter (is_unprocessed u a i p d') (execution_fills d') = []"
    by (auto simp: filter_empty_conv)
  then show ?thesis by (simp add: get_unprocessed_fills_def order_by_def)
qed

lemma fill_step_sel:
  "fill_step ids x y \<Longrightarrow> in_fill_unit u a i p y = in_fill_unit u a i p x \<and>
     x_quantity y = x_quantity x \<and> sane_fill lo hi (to_record y) = sane_fill lo hi (to_record x)"
  by (auto simp: fill_step_def in_fill_unit_def sane_fill_def to_record_def split: if_splits)

lemma fill_step_volume:
  "list_all2 (fill_step ids) xs ys \<Longrightarrow> unit_volume u a i p ys = unit_volume u a i p xs"
proof (induction rule: list_all2_induct)
  case (Cons x xs y ys)
  with fill_step_sel [OF Cons.hyps(1)] show ?case by (simp add: unit_volume_def)
qed (simp add: unit_volume_def)

lemma fill_step_sane:
  assumes "list_all2 (fill_step ids) xs ys"
    and "\<And>x. x \<in> set xs \<Longrightarrow> in_fill_unit u a i p x \<Longrightarrow> sane_fill lo hi (to_record x)"
    and "y \<in> set ys" and "in_fill_unit u a i p y"
  shows "sane_fill lo hi (to_record y)"
  using list_all2_member [OF assms(1,3)] assms(2,4) fill_step_sel by blast

definition run_effect ::
  "uuid \<Rightarrow> uuid \<Rightarrow> uuid \<Rightarrow> string \<Rightarrow> product_type_family \<Rightarrow> db \<Rightarrow> db \<Rightarrow> reconstruction_result \<Rightarrow> bool" where
  "run_effect u a i p fam d d' res \<longleftrightarrow> (\<exists>cur cur'.
     get_open_trade_with_lock u a i fam d = Inr cur \<and>
     get_open_trade_with_lock u a i fam d' = Inr cur' \<and>
     filter (\<lambda>t. \<not> in_unit u a i fam t) (trades d') = filter (\<lambda>t. \<not> in_unit u a i fam t) (trades d) \<and>
     trades_opened res + open_count cur = open_count cur' + trades_closed res \<and>
     fills_processed res = length (get_unprocessed_fills u a i p d) \<and>
     signed_net cur' = signed_net cur + sum_list (map delta (get_unprocessed_fills u a i p d)))"

lemma run_ok:
  assumes st: "unit_state lo hi u a i p fam d" and tt: "provisional_trade_type fam itype = Inr tt"
    and run: "run b u a i p itype d = Inr (d', res)"
  shows "unit_state lo hi u a i p fam d' \<and> run_effect u a i p fam d d' res"
proof -
  let ?fs = "get_unprocessed_fills u a i p d"
  obtain cur where cur: "get_open_trade_with_lock u a i fam d = Inr cur"
    using st by (elim unit_stateE)
  with st have r: "price_range lo hi" and p: "product_type_family_for p = Inr fam"
    and sane: "\<And>x. x \<in> set (execution_fills d) \<Longrightarrow> in_fill_unit u a i p x \<Longrightarrow> sane_fill lo hi (to_record x)"
    and vol: "unit_volume u a i p (execution_fills d) < 10 ^ 10"
    and uo: "unit_ok u a i fam cur d"
    by (auto elim!: unit_stateE)
  note eq = run_unfold [OF p cur]
  show ?thesis
  proof (cases "?fs = []")
    case True
    with run have "d' = d" "res = empty_result" by (simp_all add: eq)
    with st True cur show ?thesis
      by (auto simp: run_effect_def empty_result_def)
  next
    case False
    with run obtain s where s: "rfold (process_fill b u i fam itype) ?fs (init_run_state cur d) = Inr s"
      and d': "d' = rs_db s" and res: "res = rs_result s"
      by (auto simp: eq Let_def rbind_eq_Inr)
    note L = loop_all_run [OF r tt init_loop_all [OF st cur] s]
    note F = run_fills [OF run]
    have inv: "unit_ok u a i fam (rs_current s) d'" "lots_ok u i fam (rs_current s) d'"
      "books_ok u a i p fam d'" and num: "num_ok lo hi 0 s"
      using L by (simp_all add: loop_all_def loop_inv_def d')
    have cur': "get_open_trade_with_lock u a i fam d' = Inr (rs_current s)"
      using inv(1) by (rule unit_ok_get_open)
    have "unit_state lo hi u a i p fam d'"
    proof (rule unit_stateI [OF r p _ _ inv(3) inv(1,2)])
      show "unit_volume u a i p (execution_fills d') < 10 ^ 10"
        using F vol fill_step_volume by metis
      show "\<And>x. x \<in> set (execution_fills d') \<Longrightarrow> in_fill_unit u a i p x \<Longrightarrow> sane_fill lo hi (to_record x)"
        using F sane by (blast intro: fill_step_sane)
      show "\<And>c. rs_current s = Some c \<Longrightarrow> snap_ok lo hi c"
        using num by (simp add: num_ok_def acc_ok_def)
    qed
    moreover have "loop_effect u a i fam (length ?fs) (sum_list (map delta ?fs)) (init_run_state cur d) s"
      using L by simp
    moreover have "rs_position (init_run_state cur d) = signed_net cur"
      using init_loop_all [OF st cur] by (simp add: loop_all_def loop_inv_def num_ok_def init_run_state_def split: option.splits)
    moreover have "rs_position s = signed_net (rs_current s)" using num by (simp add: num_ok_def)
    moreover have "rs_current (init_run_state cur d) = cur" "rs_db (init_run_state cur d) = d"
      "trades_opened (rs_result (init_run_state cur d)) = 0"
      "trades_closed (rs_result (init_run_state cur d)) = 0"
      "fills_processed (rs_result (init_run_state cur d)) = 0"
      by (simp_all add: init_run_state_def empty_result_def split: option.split)
    ultimately show ?thesis
      using cur cur' by (simp add: run_effect_def loop_effect_def d' res)
  qed
qed

end
