(* ===== verification/Recon_Episodes.thy ===== *)
theory Recon_Episodes
  imports Recon_Engine
begin

text \<open>
  The abstract specification of the engine and the refinement to it: a run over a flat unit
  cuts the fills into episodes, from one moment the position is zero to the next, and appends
  one trade row per episode, a pure function of the episode's fills.
\<close>

section \<open>Specification\<close>

text \<open>\<open>episodes acc q fs\<close>: \<open>acc\<close> holds the fills of the episode under way, \<open>q\<close> its position.\<close>

fun episodes :: "fill_record list \<Rightarrow> rat \<Rightarrow> fill_record list \<Rightarrow> fill_record list list" where
  "episodes acc q [] = (if acc = [] then [] else [acc])"
| "episodes acc q (f # fs) =
     (if q + delta f = 0 then (acc @ [f]) # episodes [] 0 fs
      else episodes (acc @ [f]) (q + delta f) fs)"

text \<open>The entry fills of an episode have the side of its first fill; the others are exits.\<close>

definition entry_fills :: "fill_record list \<Rightarrow> fill_record list" where
  "entry_fills e = filter (\<lambda>f. fr_side f = fr_side (hd e)) e"

definition exit_fills_of :: "fill_record list \<Rightarrow> fill_record list" where
  "exit_fills_of e = filter (\<lambda>f. fr_side f \<noteq> fr_side (hd e)) e"

definition average_price :: "fill_record list \<Rightarrow> rat" where
  "average_price fs = price4 (ctx (turnover fs / volume fs))"

definition episode_trade ::
  "uuid \<Rightarrow> uuid \<Rightarrow> uuid \<Rightarrow> string \<Rightarrow> fill_record list \<Rightarrow> trade_row \<Rightarrow> bool" where
  "episode_trade u a i tt e t \<longleftrightarrow> e \<noteq> [] \<and>
     (let bought = volume (entry_fills e); sold = volume (exit_fills_of e) in
      t_user_id t = u \<and> t_account_id t = Some a \<and> t_instrument_id t = i \<and>
      t_direction t = direction_of (hd e) \<and>
      t_trade_date t = fr_trade_date (hd e) \<and> t_first_fill_at t = fr_fill_timestamp (hd e) \<and>
      t_total_entry_quantity t = bought \<and> t_total_exit_quantity t = sold \<and>
      t_net_position t = bought - sold \<and>
      t_average_entry t = Some (average_price (entry_fills e)) \<and>
      (if bought = sold
       then t_status t = ''CLOSED'' \<and> t_average_exit t = Some (average_price (exit_fills_of e)) \<and>
         t_last_fill_at t = Some (fr_fill_timestamp (last e)) \<and>
         t_trade_type t = finalize_trade_type tt (fr_trade_date (hd e)) (fr_trade_date (last e))
       else t_status t = (if 0 < sold then ''PARTIAL'' else ''OPEN'') \<and>
         t_average_exit t = None \<and> t_trade_type t = tt) \<and>
      \<not> t_is_deleted t)"

section \<open>Refinement\<close>

text \<open>The loop's state against the specification's: the rows appended so far.\<close>

definition refines ::
  "uuid \<Rightarrow> uuid \<Rightarrow> uuid \<Rightarrow> string \<Rightarrow> trade_row list \<Rightarrow> fill_record list list \<Rightarrow> fill_record list \<Rightarrow>
   run_state \<Rightarrow> bool" where
  "refines u a i tt old es acc s \<longleftrightarrow>
     (case rs_current s of
        None \<Rightarrow> acc = [] \<and>
          (\<exists>rows. trades (rs_db s) = old @ rows \<and> list_all2 (episode_trade u a i tt) es rows)
      | Some c \<Rightarrow> acc \<noteq> [] \<and> ot_direction c = direction_of (hd acc) \<and>
          fr_side (hd acc) \<in> {''BUY'', ''SELL''} \<and>
          rs_entry_value s = turnover (entry_fills acc) \<and> rs_exit_fills s = exit_fills_of acc \<and>
          (\<exists>rows r. trades (rs_db s) = old @ rows @ [r] \<and>
             list_all2 (episode_trade u a i tt) es rows \<and>
             episode_trade u a i tt acc r \<and> to_snapshot r = Inr c))"

lemma entry_fills_snoc [simp]:
  "acc \<noteq> [] \<Longrightarrow> entry_fills (acc @ [f]) =
     (if fr_side f = fr_side (hd acc) then entry_fills acc @ [f] else entry_fills acc)"
  by (simp add: entry_fills_def)

lemma exit_fills_snoc [simp]:
  "acc \<noteq> [] \<Longrightarrow> exit_fills_of (acc @ [f]) =
     (if fr_side f = fr_side (hd acc) then exit_fills_of acc else exit_fills_of acc @ [f])"
  by (simp add: exit_fills_of_def)

lemma episode_singleton [simp]: "entry_fills [f] = [f]" "exit_fills_of [f] = []"
  by (simp_all add: entry_fills_def exit_fills_of_def)

lemma average_price_single:
  assumes "price_range lo hi" and "sane_fill lo hi f"
  shows "average_price [f] = fr_price f"
proof -
  note fD = sane_fillD [OF assms(2)] and rD = price_rangeD [OF assms(1)]
  have "ctx (fr_price f) = fr_price f" using fD rD by (intro ctx_dp4) auto
  with fD show ?thesis by (simp add: average_price_def price4_exact)
qed

lemma update_last:
  "distinct (map key (xs @ [r])) \<Longrightarrow> update_by key (key r) g (xs @ [r]) = xs @ [g r]"
  using update_by_other [of "key r" key xs g] by (auto simp: update_by_def)

lemma role_side:
  "fr_side f \<in> {''BUY'', ''SELL''} \<Longrightarrow> fr_side g \<in> {''BUY'', ''SELL''} \<Longrightarrow>
   fill_role_for (direction_of g) (fr_side f) =
     Inr (if fr_side f = fr_side g then ''ENTRY'' else ''EXIT'')"
  by (auto simp: direction_of_def fill_role_for_def FILL_ROLE_TABLE_def)

lemma refines_cong:
  assumes "refines u a i tt old es acc s" and "rs_current s' = rs_current s"
    and "trades (rs_db s') = trades (rs_db s)" and "rs_entry_value s' = rs_entry_value s"
    and "rs_exit_fills s' = rs_exit_fills s"
  shows "refines u a i tt old es acc s'"
  using assms by (simp add: refines_def split: option.splits)

lemma refines_open:
  assumes r: "price_range lo hi" and f: "sane_fill lo hi f" "fr_account_id f = Some a"
    and q: "fr_quantity f < 10 ^ 10" and tt: "provisional_trade_type fam itype = Inr tt"
    and cur: "rs_current s = None" and ref: "refines u a i tt old es acc s"
    and adv: "advance b u i fam itype f s = Inr (tid, role, s1)"
  shows "refines u a i tt old es [f] s1"
proof -
  note fD = sane_fillD [OF f(1)]
  let ?d = "rs_db s" and ?dir = "direction_of f"
  let ?r = "opened_row u i ?dir tt (next_uuid ?d) f"
  have s1: "trades (rs_db s1) = trades ?d @ [?r]" "rs_entry_value s1 = fr_quantity f * fr_price f"
    "rs_exit_fills s1 = []" "rs_current s1 = Some (opened_trade ?dir tt (next_uuid ?d) f)"
    using adv cur by (auto simp: advance_def open_new_trade_eq [OF r f(1) q tt] opened_db_def Let_def append_row_def)
  have "episode_trade u a i tt [f] ?r"
    using fD f(2) by (auto simp: episode_trade_def Let_def opened_row_def new_trade_row_def
        average_price_single [OF r f(1)])
  moreover have "to_snapshot ?r = Inr (opened_trade ?dir tt (next_uuid ?d) f)"
    by (simp add: result_simps opened_row_def new_trade_row_def opened_trade_def)
  ultimately show ?thesis
    using ref cur fD(6) unfolding refines_def s1
    by (auto simp: opened_trade_def)
qed

text \<open>The current trade of a refined state, with the row that stands for it.\<close>

lemma refines_currentE:
  assumes "refines u a i tt old es acc s" and "rs_current s = Some c"
    and "unit_ok u a i fam (Some c) (rs_db s)"
  obtains rows r where "acc \<noteq> []" and "ot_direction c = direction_of (hd acc)"
    and "fr_side (hd acc) \<in> {''BUY'', ''SELL''}"
    and "rs_entry_value s = turnover (entry_fills acc)" and "rs_exit_fills s = exit_fills_of acc"
    and "list_all2 (episode_trade u a i tt) es rows" and "episode_trade u a i tt acc r"
    and "to_snapshot r = Inr c"
    and "\<And>g. update_by t_id (ot_id c) g (trades (rs_db s)) = old @ rows @ [g r]"
proof -
  from assms(1,2) obtain rows r where R: "acc \<noteq> []" "ot_direction c = direction_of (hd acc)"
    "fr_side (hd acc) \<in> {''BUY'', ''SELL''}"
    "rs_entry_value s = turnover (entry_fills acc)" "rs_exit_fills s = exit_fills_of acc"
    "list_all2 (episode_trade u a i tt) es rows" "episode_trade u a i tt acc r"
    "to_snapshot r = Inr c" "trades (rs_db s) = old @ rows @ [r]"
    by (auto simp: refines_def)
  have "distinct (map t_id ((old @ rows) @ [r]))" using assms(3) R(9) by (simp add: unit_ok_def)
  moreover have "t_id r = ot_id c" using R(8) by (simp add: result_simps)
  ultimately have "update_by t_id (ot_id c) g (trades (rs_db s)) = old @ rows @ [g r]" for g
    using update_last [of t_id "old @ rows" r g] R(9) by simp
  then show ?thesis using R by (intro that) auto
qed

lemma refines_scale:
  assumes r: "price_range lo hi" and f: "sane_fill lo hi f"
    and acc: "acc_ok lo hi V c s" "fr_quantity f \<le> V"
    and uo: "unit_ok u a i fam (Some c) (rs_db s)" and lo: "lots_ok u i fam (Some c) (rs_db s)"
    and cur: "rs_current s = Some c" and ref: "refines u a i tt old es ac s"
    and role: "fill_role_for (ot_direction c) (fr_side f) = Inr ''ENTRY''"
    and adv: "advance b u i fam itype f s = Inr (tid, role, s1)"
  shows "refines u a i tt old es (ac @ [f]) s1"
proof -
  note fD = sane_fillD [OF f]
  obtain rows r where R: "ac \<noteq> []" "ot_direction c = direction_of (hd ac)"
    "fr_side (hd ac) \<in> {''BUY'', ''SELL''}"
    "rs_entry_value s = turnover (entry_fills ac)" "rs_exit_fills s = exit_fills_of ac"
    "list_all2 (episode_trade u a i tt) es rows" "episode_trade u a i tt ac r"
    "to_snapshot r = Inr c"
    "\<And>g. update_by t_id (ot_id c) g (trades (rs_db s)) = old @ rows @ [g r]"
    using refines_currentE [OF ref cur uo] by metis
  obtain l where l: "lot_synced fam c (rs_db s) l" using lots_ok_lotE [OF lo] by metis
  let ?avg = "scaled_avg f s"
  have s1: "trades (rs_db s1) = old @ rows @ [scaled_row ?avg c f r]"
    "rs_entry_value s1 = rs_entry_value s + fr_quantity f * fr_price f"
    "rs_exit_fills s1 = rs_exit_fills s" "rs_current s1 = Some (scaled_trade ?avg c f)"
    using adv cur role scale_in_eq(1) [OF r f acc l] by (auto simp: advance_def R(9))
  have side: "fr_side f = fr_side (hd ac)"
    using role R(3) fD(6) by (auto simp: R(2) role_side split: if_splits)
  have c: "snap_ok lo hi c" and eq: "rs_entry_qty s = ot_total_entry_quantity c"
    using acc by (simp_all add: acc_ok_def)
  note cD = snap_okD [OF c]
  have tc: "t_total_entry_quantity r = ot_total_entry_quantity c"
    "t_total_exit_quantity r = ot_total_exit_quantity c" "t_net_position r = ot_net_position c"
    using R(8) by (simp_all add: result_simps)
  have vols: "volume (entry_fills ac) = ot_total_entry_quantity c"
    "volume (exit_fills_of ac) = ot_total_exit_quantity c"
    using R(7) tc by (simp_all add: episode_trade_def Let_def)
  have avg: "?avg = average_price (entry_fills (ac @ [f]))"
    using R(1) side by (simp add: scaled_avg_def average_price_def R(4) eq vols add.commute)
  have ne: "ot_total_entry_quantity c + fr_quantity f \<noteq> ot_total_exit_quantity c"
    "ot_total_entry_quantity c \<noteq> ot_total_exit_quantity c"
    using cD(5,6) fD(2) by linarith+
  have "episode_trade u a i tt (ac @ [f]) (scaled_row ?avg c f r)"
    using R(1,7) side avg ne cD(6)
    by (simp add: episode_trade_def Let_def vols scaled_row_def)
  moreover have "to_snapshot (scaled_row ?avg c f r) = Inr (scaled_trade ?avg c f)"
    using R(8) by (simp add: result_simps scaled_row_def scaled_trade_def)
  ultimately show ?thesis
    using R side unfolding refines_def s1 by (auto simp: scaled_trade_def)
qed

lemma refines_exit:
  assumes r: "price_range lo hi" and f: "sane_fill lo hi f"
    and acc: "acc_ok lo hi V c s" "fr_quantity f \<le> V"
    and uo: "unit_ok u a i fam (Some c) (rs_db s)" and lo: "lots_ok u i fam (Some c) (rs_db s)"
    and cur: "rs_current s = Some c" and ref: "refines u a i tt old es ac s"
    and role: "fill_role_for (ot_direction c) (fr_side f) = Inr ''EXIT''"
    and le: "fr_quantity f \<le> ot_net_position c"
    and adv: "advance b u i fam itype f s = Inr (tid, role, s1)"
  shows "if fr_quantity f = ot_net_position c then refines u a i tt old (es @ [ac @ [f]]) [] s1
    else refines u a i tt old es (ac @ [f]) s1"
proof -
  note fD = sane_fillD [OF f]
  obtain rows r where R: "ac \<noteq> []" "ot_direction c = direction_of (hd ac)"
    "fr_side (hd ac) \<in> {''BUY'', ''SELL''}"
    "rs_entry_value s = turnover (entry_fills ac)" "rs_exit_fills s = exit_fills_of ac"
    "list_all2 (episode_trade u a i tt) es rows" "episode_trade u a i tt ac r"
    "to_snapshot r = Inr c"
    "\<And>g. update_by t_id (ot_id c) g (trades (rs_db s)) = old @ rows @ [g r]"
    using refines_currentE [OF ref cur uo] by metis
  obtain l where l: "lot_held u i fam c (rs_db s) l" using lots_ok_lotE [OF lo] by metis
  have c: "snap_ok lo hi c" using acc by (simp_all add: acc_ok_def)
  note cD = snap_okD [OF c]
  have side: "fr_side f \<noteq> fr_side (hd ac)"
    using role R(3) fD(6) by (auto simp: R(2) role_side split: if_splits)
  have tc: "t_total_entry_quantity r = ot_total_entry_quantity c"
    "t_total_exit_quantity r = ot_total_exit_quantity c" "t_net_position r = ot_net_position c"
    "t_average_entry r = Some (ot_average_entry c)" "t_trade_type r = ot_trade_type c"
    "t_trade_date r = ot_trade_date c"
    using R(8) by (simp_all add: result_simps)
  have vols: "volume (entry_fills ac) = ot_total_entry_quantity c"
    "volume (exit_fills_of ac) = ot_total_exit_quantity c"
    using R(7) tc by (simp_all add: episode_trade_def Let_def)
  have open_row: "ot_total_entry_quantity c \<noteq> ot_total_exit_quantity c" using cD(5,6) by linarith
  then have tt: "ot_trade_type c = tt"
    using R(7) tc(5) by (simp add: episode_trade_def Let_def vols)
  show ?thesis
  proof (cases "fr_quantity f = ot_net_position c")
    case True
    let ?g = "closed_row (exit_avg (rs_exit_fills s @ [f])) c f"
    obtain d where d: "trigger_pnl b (ot_id c) u (closed_db fam c f l (rs_exit_fills s @ [f]) (rs_db s)) = Inr d"
      and s1: "rs_db s1 = d" "rs_current s1 = None"
      using adv cur role by (auto simp: advance_def exit_fill_full_eq [OF r f acc True l] rbind_eq_Inr)
    have trades: "trades (rs_db s1) = old @ (rows @ [?g r])"
      unfolding s1 trigger_pnl_same(1) [OF d] by (simp add: closed_db_def R(9))
    have avg: "exit_avg (rs_exit_fills s @ [f]) = average_price (exit_fills_of (ac @ [f]))"
      using R(1) side by (simp add: exit_avg_def average_price_def R(5))
    have eq: "ot_total_entry_quantity c = ot_total_exit_quantity c + fr_quantity f"
      using cD(6) True by simp
    have "episode_trade u a i tt (ac @ [f]) (?g r)"
      using R(1,7) side avg eq open_row tc tt
      by (simp add: episode_trade_def Let_def vols closed_row_def)
    then have "list_all2 (episode_trade u a i tt) (es @ [ac @ [f]]) (rows @ [?g r])"
      using R(6) by (simp add: list_all2_appendI)
    with True s1(2) trades show ?thesis by (auto simp: refines_def)
  next
    case False
    with le have lt: "fr_quantity f < ot_net_position c" by simp
    have s1: "trades (rs_db s1) = old @ rows @ [reduced_row c f r]"
      "rs_entry_value s1 = rs_entry_value s" "rs_exit_fills s1 = rs_exit_fills s @ [f]"
      "rs_current s1 = Some (reduced_trade c f)"
      using adv cur role exit_fill_partial_eq [OF r f acc lt l] by (auto simp: advance_def R(9))
    have ne: "ot_total_entry_quantity c \<noteq> ot_total_exit_quantity c + fr_quantity f"
      and pos: "0 < ot_total_exit_quantity c + fr_quantity f"
      using cD(4,6) lt fD(2) by linarith+
    have "episode_trade u a i tt (ac @ [f]) (reduced_row c f r)"
      using R(1,7) side ne pos open_row cD(6)
      by (simp add: episode_trade_def Let_def vols reduced_row_def)
    moreover have "to_snapshot (reduced_row c f r) = Inr (reduced_trade c f)"
      using R(8) by (simp add: result_simps reduced_row_def reduced_trade_def)
    ultimately show ?thesis
      using R side False unfolding refines_def s1 by (auto simp: reduced_trade_def)
  qed
qed

lemma refines_step:
  assumes r: "price_range lo hi" and tt: "provisional_trade_type fam itype = Inr tt"
    and inv: "loop_all lo hi u a i p fam (f # fs) s"
    and ok: "process_fill b u i fam itype f s = Inr s'"
    and ref: "refines u a i tt old es ac s"
  shows "if rs_position s + delta f = 0 then refines u a i tt old (es @ [ac @ [f]]) [] s'
    else refines u a i tt old es (ac @ [f]) s'"
proof -
  have f: "sane_fill lo hi f" "unit_fill a fam f" and fs: "\<And>g. g \<in> set fs \<Longrightarrow> sane_fill lo hi g"
    and li: "loop_inv lo hi u a i fam (fr_quantity f + volume fs) s"
    using inv by (simp_all add: loop_all_def)
  note fD = sane_fillD [OF f(1)]
  have V: "0 \<le> volume fs" using fs by (rule volume_nonneg)
  have num: "num_ok lo hi (fr_quantity f + volume fs) s" using li by (simp add: loop_inv_def)
  have pos: "rs_position s = signed_net (rs_current s)" using num by (simp add: num_ok_def)
  note pf = process_fill_advance [OF num f(1) V f(2), of b u i itype]
  have nx: "\<not> crosses_zero (rs_position s) (rs_position s + delta f)" using ok pf by auto
  obtain tid role s1 where adv: "advance b u i fam itype f s = Inr (tid, role, s1)"
    and s': "s' = s1\<lparr>rs_db := assign_trade (fr_id f) tid role (rs_db s1),
         rs_position := rs_position s + delta f,
         rs_result := (rs_result s1)\<lparr>fills_processed := Suc (fills_processed (rs_result s1))\<rparr>\<rparr>"
    using ok nx unfolding pf by (auto simp: rbind_eq_Inr)
  have same: "rs_current s' = rs_current s1" "trades (rs_db s') = trades (rs_db s1)"
    "rs_entry_value s' = rs_entry_value s1" "rs_exit_fills s' = rs_exit_fills s1"
    by (simp_all add: s' assign_trade_def)
  have "if rs_position s + delta f = 0 then refines u a i tt old (es @ [ac @ [f]]) [] s1
    else refines u a i tt old es (ac @ [f]) s1"
  proof (cases "rs_current s")
    case None
    have "fr_quantity f < 10 ^ 10" using num V by (simp add: num_ok_def)
    with None refines_open [OF r f(1) _ _ tt None ref adv] f(2)
    have "refines u a i tt old es [f] s1" by (simp add: unit_fill_def)
    moreover have "ac = []" using ref None by (simp add: refines_def)
    moreover have "rs_position s + delta f \<noteq> 0" using pos None fD(2) by (auto simp: delta_def)
    ultimately show ?thesis by simp
  next
    case (Some c)
    have acc: "acc_ok lo hi (fr_quantity f + volume fs) c s"
      and uo: "unit_ok u a i fam (Some c) (rs_db s)" and lo: "lots_ok u i fam (Some c) (rs_db s)"
      using li Some by (simp_all add: loop_inv_def num_ok_def)
    have le: "fr_quantity f \<le> fr_quantity f + volume fs" using V by simp
    have c: "snap_ok lo hi c" using acc by (simp add: acc_ok_def)
    note cD = snap_okD [OF c]
    consider (entry) "fill_role_for (ot_direction c) (fr_side f) = Inr ''ENTRY''"
      | (exit) "fill_role_for (ot_direction c) (fr_side f) = Inr ''EXIT''"
      using cD(7) fD(6) by (auto simp: result_simps)
    then show ?thesis
    proof cases
      case entry
      have "rs_position s + delta f \<noteq> 0"
        using entry pos Some cD(5) fD(2) by (auto simp: result_simps delta_def)
      with refines_scale [OF r f(1) acc le uo lo Some ref entry adv] show ?thesis by simp
    next
      case exit
      note X = exit_setup [OF r f(1) li V Some exit nx]
      have "rs_position s + delta f = 0 \<longleftrightarrow> fr_quantity f = ot_net_position c"
        using X(7) by auto
      with refines_exit [OF r f(1) acc le uo lo Some ref exit X(5) adv]
      show ?thesis by simp
    qed
  qed
  then show ?thesis using refines_cong [OF _ same] by (auto split: if_splits)
qed

lemma refines_run:
  assumes r: "price_range lo hi" and tt: "provisional_trade_type fam itype = Inr tt"
    and inv: "loop_all lo hi u a i p fam fs s"
    and ok: "rfold (process_fill b u i fam itype) fs s = Inr s'"
    and ref: "refines u a i tt old es ac s"
  shows "\<exists>rows. trades (rs_db s') = old @ rows \<and>
    list_all2 (episode_trade u a i tt) (es @ episodes ac (rs_position s) fs) rows"
  using inv ok ref
proof (induction fs arbitrary: s es ac)
  case Nil
  have "loop_inv lo hi u a i fam 0 s" using Nil.prems(1) by (simp add: loop_all_def)
  then show ?case
    using Nil.prems(2,3)
    by (auto simp: refines_def list_all2_appendI split: option.splits)
next
  case (Cons f fs)
  from Cons.prems(2) obtain s1 where s1: "process_fill b u i fam itype f s = Inr s1"
    and rest: "rfold (process_fill b u i fam itype) fs s1 = Inr s'"
    by (auto simp: result_simps)
  note step = loop_all_step [OF r tt Cons.prems(1) s1]
  note ref1 = refines_step [OF r tt Cons.prems(1) s1 Cons.prems(3)]
  have pos: "rs_position s1 = rs_position s + delta f" using step(2) by (simp add: loop_effect_def)
  show ?case
  proof (cases "rs_position s + delta f = 0")
    case True
    with ref1 Cons.IH [OF step(1) rest, of "es @ [ac @ [f]]" "[]"] pos show ?thesis by simp
  next
    case False
    with ref1 Cons.IH [OF step(1) rest, of es "ac @ [f]"] pos show ?thesis by simp
  qed
qed

lemma run_refines:
  assumes st: "unit_state lo hi u a i p fam d" and tt: "provisional_trade_type fam itype = Inr tt"
    and flat: "get_open_trade_with_lock u a i fam d = Inr None"
    and run: "run b u a i p itype d = Inr (d', res)"
  shows "\<exists>rows. trades d' = trades d @ rows \<and>
    list_all2 (episode_trade u a i tt) (episodes [] 0 (get_unprocessed_fills u a i p d)) rows"
proof -
  let ?fs = "get_unprocessed_fills u a i p d" and ?s = "init_run_state None d"
  have r: "price_range lo hi" and p: "product_type_family_for p = Inr fam"
    using st by (auto elim!: unit_stateE)
  note eq = run_unfold [OF p flat]
  show ?thesis
  proof (cases "?fs = []")
    case True
    with run show ?thesis by (simp add: eq)
  next
    case False
    with run obtain s where s: "rfold (process_fill b u i fam itype) ?fs ?s = Inr s"
      and d': "d' = rs_db s"
      by (auto simp: eq Let_def rbind_eq_Inr)
    have "refines u a i tt (trades d) [] [] ?s"
      by (simp add: refines_def init_run_state_def)
    from refines_run [OF r tt init_loop_all [OF st flat] s this] show ?thesis
      by (simp add: d' init_run_state_def)
  qed
qed

end
