(* ===== verification/Recon_Properties.thy ===== *)
theory Recon_Properties
  imports Recon_Episodes
begin

text \<open>
  The properties of the reconstruction engine, each with a witness on a small database: a CNC
  unit with two buys and a sell, stored out of order.
\<close>

section \<open>A sample database\<close>

definition sample_fill :: "uuid \<Rightarrow> string \<Rightarrow> rat \<Rightarrow> rat \<Rightarrow> timestamp \<Rightarrow> execution_fill_row" where
  "sample_fill k side q price ts = \<lparr>
     x_id = k, x_user_id = 7, x_account_id = Some 8, x_instrument_id = 9, x_trade_id = None,
     x_fill_role = None, x_fill_timestamp = ts, x_trade_date = 19800, x_session = ''REGULAR'',
     x_side = side, x_quantity = q, x_price = price, x_product_type = ''CNC'', x_exit_type = None,
     x_order_id = None, x_fill_id = None, x_broker = ''ZERODHA'', x_import_source = ''CSV'',
     x_created_at = ts\<rparr>"

definition empty_db :: db where
  "empty_db = \<lparr>instruments = [], trades = [], execution_fills = [], tax_lots = [],
     fill_exclusions = [], trading_accounts = [], journal_entries = [], charge_schedules = [],
     trade_pnls = [], import_records = [], journal_attachments = [], journal_audit_log = [], security_audit_log = [],
     next_uuid = 50\<rparr>"

definition sample_db :: db where
  "sample_db = empty_db\<lparr>execution_fills :=
     [sample_fill 2 ''SELL'' 4 103 30, sample_fill 1 ''BUY'' 10 100 10,
      sample_fill 3 ''BUY'' 5 (1015/10) 20]\<rparr>"

definition sample_outcome :: "exn + db \<times> reconstruction_result" where
  "sample_outcome = run False 7 8 9 ''CNC'' ''EQ'' sample_db"

definition sample_after :: db where
  "sample_after = fst (projr sample_outcome)"

definition sample_result :: reconstruction_result where
  "sample_result = snd (projr sample_outcome)"

lemma sample_facts:
  "case sample_outcome of
     Inr (d, r) \<Rightarrow> trades d \<noteq> [] \<and> in_unit 7 8 9 DELIVERY (hd (trades d)) | Inl _ \<Rightarrow> False"
  by code_simp

lemma sample_run: "run False 7 8 9 ''CNC'' ''EQ'' sample_db = Inr (sample_after, sample_result)"
  using sample_facts unfolding sample_after_def sample_result_def
  by (cases sample_outcome) (simp_all add: sample_outcome_def)

lemma sample_trade:
  "hd (trades sample_after) \<in> set (trades sample_after) \<and>
   in_unit 7 8 9 DELIVERY (hd (trades sample_after))"
  using sample_facts sample_run by (simp add: sample_outcome_def)

lemma sample_state: "unit_state 1 1000 7 8 9 ''CNC'' DELIVERY sample_db"
proof (rule unit_stateI [where cur = None])
  show "price_range 1 1000" by (simp add: price_range_def dp_def)
  show "unit_volume 7 8 9 ''CNC'' (execution_fills sample_db) < 10 ^ 10" by code_simp
qed (auto simp: result_simps sample_db_def empty_db_def sample_fill_def sane_fill_def to_record_def
    dp_def unit_volume_def in_fill_unit_def books_ok_def unit_ok_def lots_ok_def open_lots_def)

lemma sample_type: "provisional_trade_type DELIVERY ''EQ'' = Inr ''CNC''"
  by (simp add: provisional_trade_type_def)

section \<open>The state of a processing unit\<close>

text \<open>
  C1: a successful run keeps the state of its processing unit: at most one open trade, every
  trade balanced and inside the CHECK constraints, every trade's totals equal to the volumes of
  the fills linked to it, the delivery tax lot in step with the open trade.
\<close>

theorem run_keeps_unit_state:
  assumes "unit_state lo hi u a i p fam d" and "provisional_trade_type fam itype = Inr tt"
    and "run b u a i p itype d = Inr (d', res)"
  shows "unit_state lo hi u a i p fam d'"
  using run_ok [OF assms] by simp

theorem run_keeps_unit_state_witness: "unit_state 1 1000 7 8 9 ''CNC'' DELIVERY sample_after"
  by (rule run_keeps_unit_state [OF sample_state sample_type sample_run])

text \<open>
  C2: in such a state a run has exactly four outcomes: it succeeds; two neighbouring fills are
  ambiguous; a fill would carry the position through zero, and then it is the first such fill;
  or the P and L trigger failed. In particular no consistency error of the tax lots, no data
  error and no arithmetic error is ever raised, and without a P and L service the outcome is
  decided by the order and the signs of the fills alone.
\<close>

theorem run_outcome:
  assumes "unit_state lo hi u a i p fam d" and "provisional_trade_type fam itype = Inr tt"
    and "get_open_trade_with_lock u a i fam d = Inr cur"
  shows "case run b u a i p itype d of
      Inr _ \<Rightarrow> check_ambiguous_ordering (get_unprocessed_fills u a i p d) = Inr () \<and>
        first_crossing (signed_net cur) (get_unprocessed_fills u a i p d) = None
    | Inl e \<Rightarrow>
        check_ambiguous_ordering (get_unprocessed_fills u a i p d) = Inl e \<or>
        (\<exists>f. first_crossing (signed_net cur) (get_unprocessed_fills u a i p d) = Some f \<and>
           e = Recon (PositionCrossingZeroError (fr_id f))) \<or>
        pnl_failure b e"
proof -
  let ?fs = "get_unprocessed_fills u a i p d" and ?s = "init_run_state cur d"
  have r: "price_range lo hi" and p: "product_type_family_for p = Inr fam"
    using assms(1) by (auto elim!: unit_stateE)
  note inv = init_loop_all [OF assms(1,3)]
  have pos: "rs_position ?s = signed_net cur"
    using inv by (simp add: loop_all_def loop_inv_def num_ok_def init_run_state_def split: option.splits)
  note run = run_unfold [OF p assms(3), of b itype]
  show ?thesis
  proof (cases "?fs = []")
    case True
    then show ?thesis by (simp add: run)
  next
    case False
    show ?thesis
    proof (cases "check_ambiguous_ordering ?fs")
      case (Inl e)
      with False show ?thesis by (simp add: run)
    next
      case (Inr x)
      with False loop_all_outcome [OF r assms(2) inv, of b] show ?thesis
        unfolding pos run by (auto simp: Let_def)
    qed
  qed
qed

theorem run_outcome_witness:
  "first_crossing 0 (get_unprocessed_fills 7 8 9 ''CNC'' sample_db) = None"
proof -
  have "get_open_trade_with_lock 7 8 9 DELIVERY sample_db = Inr None" by code_simp
  from run_outcome [OF sample_state sample_type this, of False]
  show ?thesis by (simp add: sample_run)
qed

text \<open>
  C3: a run is exact bookkeeping of the position: the signed net quantity of the unit's open
  trade after it is the one before it plus the signed quantities of all processed fills.
\<close>

theorem run_conserves_position:
  assumes "unit_state lo hi u a i p fam d" and "provisional_trade_type fam itype = Inr tt"
    and "run b u a i p itype d = Inr (d', res)"
  shows "\<exists>cur cur'. get_open_trade_with_lock u a i fam d = Inr cur \<and>
    get_open_trade_with_lock u a i fam d' = Inr cur' \<and>
    signed_net cur' = signed_net cur + sum_list (map delta (get_unprocessed_fills u a i p d))"
  using run_ok [OF assms] by (auto simp: run_effect_def)

theorem run_conserves_position_witness:
  "\<exists>cur'. get_open_trade_with_lock 7 8 9 DELIVERY sample_after = Inr cur' \<and> signed_net cur' = 11"
proof -
  have "get_open_trade_with_lock 7 8 9 DELIVERY sample_db = Inr None" by code_simp
  moreover have "sum_list (map delta (get_unprocessed_fills 7 8 9 ''CNC'' sample_db)) = 11"
    by code_simp
  ultimately show ?thesis
    using run_conserves_position [OF sample_state sample_type sample_run] by auto
qed

text \<open>
  C4: fills are immutable. Whatever the data, a run changes no column of a fill but its trade
  reference and its role, and those only on the fills it fetched: every one of them is linked
  afterwards. Exclusions, instruments, accounts, journals and charge schedules are untouched.
\<close>

theorem run_only_links_fills:
  assumes "run b u a i p itype d = Inr (d', res)"
  shows "list_all2 (\<lambda>x y. if is_unprocessed u a i p d x
      then (\<exists>tid role. y = x\<lparr>x_trade_id := Some tid, x_fill_role := Some role\<rparr>)
      else y = x \<or> x_id x \<in> fr_id ` set (get_unprocessed_fills u a i p d))
    (execution_fills d) (execution_fills d') \<and> same_inputs d d'"
proof -
  note F = run_fills [OF assms]
  have "fr_id (to_record x) \<in> fr_id ` set (get_unprocessed_fills u a i p d)"
    if "is_unprocessed u a i p d x" "x \<in> set (execution_fills d)" for x
    using that by (intro imageI) (auto simp: in_unprocessed)
  then have K: "x_id x \<in> fr_id ` set (get_unprocessed_fills u a i p d)"
    if "is_unprocessed u a i p d x" "x \<in> set (execution_fills d)" for x
    using that by (simp add: to_record_def)
  have "list_all2 (\<lambda>x y. if is_unprocessed u a i p d x
      then (\<exists>tid role. y = x\<lparr>x_trade_id := Some tid, x_fill_role := Some role\<rparr>)
      else y = x \<or> x_id x \<in> fr_id ` set (get_unprocessed_fills u a i p d))
    (execution_fills d) (execution_fills d')"
    by (rule list.rel_mono_strong [OF F [THEN conjunct1]])
      (use K in \<open>auto simp: fill_step_def split: if_splits\<close>)
  with F show ?thesis by simp
qed

theorem run_only_links_fills_witness: "same_inputs sample_db sample_after"
  using run_only_links_fills [OF sample_run] by simp

text \<open>
  C5: a run settles its unit. In a unit with sound books no unprocessed fill is left after a
  successful run, and running again at once changes nothing.
\<close>

theorem run_settles:
  assumes "unit_state lo hi u a i p fam d" and "provisional_trade_type fam itype = Inr tt"
    and "run b u a i p itype d = Inr (d', res)"
  shows "get_unprocessed_fills u a i p d' = [] \<and> run b' u a i p itype' d' = Inr (d', empty_result)"
proof -
  have none: "get_unprocessed_fills u a i p d' = []"
    using run_fills [OF assms(3)] by (blast intro: fill_step_unprocessed)
  have "unit_state lo hi u a i p fam d'" using run_ok [OF assms] by simp
  then obtain cur where "product_type_family_for p = Inr fam"
    and "get_open_trade_with_lock u a i fam d' = Inr cur" by (elim unit_stateE)
  from run_unfold [OF this] none show ?thesis by simp
qed

theorem run_settles_witness:
  "run True 7 8 9 ''CNC'' ''FUT'' sample_after = Inr (sample_after, empty_result)"
  using run_settles [OF sample_state sample_type sample_run] by blast

text \<open>
  C6: a run touches no trade of another processing unit: the trades of other users, accounts,
  instruments or product families are the same rows in the same order.
\<close>

theorem run_leaves_other_units:
  assumes "unit_state lo hi u a i p fam d" and "provisional_trade_type fam itype = Inr tt"
    and "run b u a i p itype d = Inr (d', res)"
  shows "filter (\<lambda>t. \<not> in_unit u a i fam t) (trades d') = filter (\<lambda>t. \<not> in_unit u a i fam t) (trades d)"
  using run_ok [OF assms] by (auto simp: run_effect_def)

theorem run_leaves_other_units_witness:
  "filter (\<lambda>t. \<not> in_unit 7 8 9 DELIVERY t) (trades sample_after) = []"
  using run_leaves_other_units [OF sample_state sample_type sample_run]
  by (simp add: sample_db_def empty_db_def)

text \<open>
  The counters a run reports are right: every fetched fill is counted once, and the trades
  opened less the trades closed is the change in the number of open trades of the unit (zero or
  one).
\<close>

theorem run_counts:
  assumes "unit_state lo hi u a i p fam d" and "provisional_trade_type fam itype = Inr tt"
    and "run b u a i p itype d = Inr (d', res)"
  shows "fills_processed res = length (get_unprocessed_fills u a i p d) \<and>
    trades_opened res + length (filter (is_open_trade u a i fam) (trades d)) =
    length (filter (is_open_trade u a i fam) (trades d')) + trades_closed res"
proof -
  have len: "length (filter (is_open_trade u a i fam) (trades e)) = open_count c"
    if "get_open_trade_with_lock u a i fam e = Inr c" for e c
    using that by (auto simp: get_open_trade_with_lock_def open_count_def rbind_eq_Inr
        scalar_one_or_none_None scalar_one_or_none_Some split: option.splits)
  from run_ok [OF assms] len show ?thesis by (auto simp: run_effect_def)
qed

theorem run_counts_witness: "fills_processed sample_result = 3"
proof -
  have "length (get_unprocessed_fills 7 8 9 ''CNC'' sample_db) = 3" by code_simp
  then show ?thesis using run_counts [OF sample_state sample_type sample_run] by simp
qed

section \<open>The order of the fills\<close>

text \<open>
  The fills of a run are exactly the unit's fills that are neither linked nor excluded, in
  the order of their timestamps, then broker fill ids with the missing ones last, then creation.
\<close>

theorem unprocessed_fills_spec:
  "\<exists>rows. get_unprocessed_fills u a i p d = map to_record rows \<and> sorted_wrt fill_before rows \<and>
     mset rows = mset (filter (\<lambda>x. in_fill_unit u a i p x \<and> x_trade_id x = None \<and>
       \<not> exists_by_fill_id (x_id x) d) (execution_fills d))"
proof -
  have "is_unprocessed u a i p d = (\<lambda>x. in_fill_unit u a i p x \<and> x_trade_id x = None \<and>
      \<not> exists_by_fill_id (x_id x) d)"
    unfolding fun_eq_iff is_unprocessed_def in_fill_unit_def exists_by_fill_id_def filter_empty_conv
    by (auto intro: rev_image_eqI)
  then show ?thesis
    unfolding get_unprocessed_fills_def by (intro exI conjI) (rule refl, rule sorted_fills, simp add: mset_order_by)
qed

text \<open>
  C7: replay is deterministic. If the ambiguity check passes and broker fill ids do not repeat
  in the unit, the order of the fills does not depend on the physical order of the fills table.
\<close>

theorem fill_order_deterministic:
  assumes "check_ambiguous_ordering (get_unprocessed_fills u a i p d) = Inr ()"
    and "mset (execution_fills d') = mset (execution_fills d)"
    and "fill_exclusions d' = fill_exclusions d"
    and "\<And>x y. x \<in> set (execution_fills d) \<Longrightarrow> y \<in> set (execution_fills d) \<Longrightarrow>
      in_fill_unit u a i p x \<Longrightarrow> in_fill_unit u a i p y \<Longrightarrow>
      x_fill_id x = x_fill_id y \<Longrightarrow> x_fill_id x \<noteq> None \<Longrightarrow> x = y"
  shows "get_unprocessed_fills u a i p d' = get_unprocessed_fills u a i p d"
proof -
  let ?rows = "\<lambda>d. order_by fill_before (filter (is_unprocessed u a i p d) (execution_fills d))"
  have un: "is_unprocessed u a i p d' = is_unprocessed u a i p d"
    by (simp add: fun_eq_iff is_unprocessed_def assms(3))
  have same: "mset (?rows d') = mset (?rows d)"
    unfolding un mset_order_by by (metis assms(2) mset_filter)
  have eq: "?rows d = ?rows d'"
  proof (rule sorted_wrt_unique [OF sorted_fills sorted_fills same [symmetric]])
    fix x y assume x: "x \<in> set (?rows d)" and y: "y \<in> set (?rows d)"
      and xy: "fill_before x y" "fill_before y x"
    note key = fill_before_antisym [OF xy]
    show "x = y"
    proof (cases "x_fill_id x")
      case (Some k)
      then have "x_fill_id x \<noteq> None" by simp
      moreover have "x \<in> set (execution_fills d)" "y \<in> set (execution_fills d)"
        "in_fill_unit u a i p x" "in_fill_unit u a i p y"
        using x y by (auto dest: unprocessed_in_unit)
      ultimately show ?thesis using key assms(4) by blast
    next
      case None
      show ?thesis
      proof (rule ccontr)
        assume ne: "x \<noteq> y"
        from x y obtain j k where jk: "j < length (?rows d)" "?rows d ! j = x"
          "k < length (?rows d)" "?rows d ! k = y" by (meson in_set_conv_nth)
        have amb: "ambiguous (to_record x) (to_record y)" "ambiguous (to_record y) (to_record x)"
          using key None by (simp_all add: ambiguous_def to_record_def)
        have no: "\<not> ambiguous (to_record (?rows d ! m)) (to_record (?rows d ! n))"
          if "n < length (?rows d)" "m < n" for m n
          using check_ambiguous_complete [OF sorted_fills _ that] assms(1)
          by (simp add: get_unprocessed_fills_def)
        from jk ne have "j \<noteq> k" by auto
        then show False using no [of k j] no [of j k] jk amb by (cases "j < k") auto
      qed
    qed
  qed
  then show ?thesis by (simp add: get_unprocessed_fills_def)
qed

theorem fill_order_deterministic_witness:
  "get_unprocessed_fills 7 8 9 ''CNC'' (sample_db\<lparr>execution_fills := rev (execution_fills sample_db)\<rparr>) =
   get_unprocessed_fills 7 8 9 ''CNC'' sample_db"
proof (rule fill_order_deterministic)
  show "check_ambiguous_ordering (get_unprocessed_fills 7 8 9 ''CNC'' sample_db) = Inr ()"
    by code_simp
qed (auto simp: sample_db_def sample_fill_def)

text \<open>
  C8: the ambiguity check is complete. It compares neighbours only, but on the fetched fills a
  pass means that no two fills at all share timestamp and creation time without broker ids.
\<close>

theorem ambiguity_check_complete:
  assumes "check_ambiguous_ordering (get_unprocessed_fills u a i p d) = Inr ()"
    and "j < length (get_unprocessed_fills u a i p d)" and "k < j"
  shows "\<not> ambiguous (get_unprocessed_fills u a i p d ! k) (get_unprocessed_fills u a i p d ! j)"
proof -
  let ?rows = "order_by fill_before (filter (is_unprocessed u a i p d) (execution_fills d))"
  have eq: "get_unprocessed_fills u a i p d = map to_record ?rows"
    by (simp add: get_unprocessed_fills_def)
  show ?thesis
    using check_ambiguous_complete [OF sorted_fills, of _ j k] assms unfolding eq by simp
qed

theorem ambiguity_check_complete_witness:
  "\<not> ambiguous (get_unprocessed_fills 7 8 9 ''CNC'' sample_db ! 0)
     (get_unprocessed_fills 7 8 9 ''CNC'' sample_db ! 2)"
proof (rule ambiguity_check_complete)
  show "check_ambiguous_ordering (get_unprocessed_fills 7 8 9 ''CNC'' sample_db) = Inr ()"
    by code_simp
  show "2 < length (get_unprocessed_fills 7 8 9 ''CNC'' sample_db)" by code_simp
qed simp

section \<open>Refinement of the specification by episodes\<close>

text \<open>
  C9: a run over a flat unit implements the specification by episodes: it cuts the fills where
  the position returns to zero and appends, in order, one trade per episode. Each trade has the
  direction, date and first timestamp of the episode's first fill, the exact volumes of its
  entries and exits, the volume-weighted average entry and exit prices rounded half up to four
  places, and status and trade type according to whether the episode is complete.
\<close>

theorem run_refines_episodes:
  assumes "unit_state lo hi u a i p fam d" and "provisional_trade_type fam itype = Inr tt"
    and "get_open_trade_with_lock u a i fam d = Inr None"
    and "run b u a i p itype d = Inr (d', res)"
  shows "\<exists>rows. trades d' = trades d @ rows \<and>
    list_all2 (episode_trade u a i tt) (episodes [] 0 (get_unprocessed_fills u a i p d)) rows"
  by (rule run_refines [OF assms])

theorem run_refines_episodes_witness:
  "\<exists>rows. trades sample_after = rows \<and>
    list_all2 (episode_trade 7 8 9 ''CNC'')
      (episodes [] 0 (get_unprocessed_fills 7 8 9 ''CNC'' sample_db)) rows"
proof -
  have "get_open_trade_with_lock 7 8 9 DELIVERY sample_db = Inr None" by code_simp
  from run_refines_episodes [OF sample_state sample_type this sample_run]
  show ?thesis by (simp add: sample_db_def empty_db_def)
qed

section \<open>Where the engine's assumption on tax lots matters\<close>

text \<open>
  The exit query for the tax lot names the user and the instrument but not the account. In
  this database account 8 holds the instrument; account 18 of the same user buys and sells it.
\<close>

definition two_accounts_db :: db where
  "two_accounts_db = empty_db\<lparr>
     execution_fills := [
       (sample_fill 1 ''BUY'' 5 100 20)\<lparr>x_account_id := Some 18\<rparr>,
       (sample_fill 2 ''SELL'' 5 101 30)\<lparr>x_account_id := Some 18\<rparr>],
     tax_lots := [\<lparr>l_id = 41, l_trade_id = 40, l_user_id = 7, l_instrument_id = 9,
       l_purchase_date = 19700, l_quantity_original = 10, l_quantity_remaining = 10,
       l_cost_per_share = 90, l_status = ''OPEN''\<rparr>]\<rparr>"

text \<open>
  A complete, unambiguous round trip of one account fails with a consistency error when
  another account of the user holds the same instrument: the sell is taken from the other
  account's older lot and the trade's own lot is found still open at the close.
\<close>

theorem lots_not_scoped_by_account:
  "run False 7 18 9 ''CNC'' ''EQ'' two_accounts_db =
     Inl (Recon (ReconstructionConsistencyError (LotNotClosed 51 50 5 ''OPEN''))) \<and>
   first_crossing 0 (get_unprocessed_fills 7 18 9 ''CNC'' two_accounts_db) = None \<and>
   isl (run False 7 18 9 ''CNC'' ''EQ'' (two_accounts_db\<lparr>tax_lots := []\<rparr>)) = False"
proof (intro conjI)
  show "run False 7 18 9 ''CNC'' ''EQ'' two_accounts_db =
     Inl (Recon (ReconstructionConsistencyError (LotNotClosed 51 50 5 ''OPEN'')))" by code_simp
  show "first_crossing 0 (get_unprocessed_fills 7 18 9 ''CNC'' two_accounts_db) = None" by code_simp
  show "isl (run False 7 18 9 ''CNC'' ''EQ'' (two_accounts_db\<lparr>tax_lots := []\<rparr>)) = False"
    by code_simp
qed

section \<open>Resuming an open trade\<close>

definition drift_db :: db where
  "drift_db = empty_db\<lparr>execution_fills :=
     [sample_fill 1 ''BUY'' 1 100 10, sample_fill 2 ''BUY'' 2 (1000001/10000) 20]\<rparr>"

definition drift_fill :: execution_fill_row where
  "drift_fill = sample_fill 3 ''BUY'' 3 100 30"

text \<open>The average entry price of the only trade after a run.\<close>

definition entry_after :: "db \<Rightarrow> rat option list" where
  "entry_after d =
     (case run False 7 8 9 ''CNC'' ''EQ'' d of
        Inr (d', res) \<Rightarrow> map t_average_entry (trades d') | Inl e \<Rightarrow> [])"

definition entry_after_resuming :: "db \<Rightarrow> execution_fill_row \<Rightarrow> rat option list" where
  "entry_after_resuming d x =
     (case run False 7 8 9 ''CNC'' ''EQ'' d of
        Inr (d', res) \<Rightarrow> entry_after (d'\<lparr>execution_fills := execution_fills d' @ [x]\<rparr>) | Inl e \<Rightarrow> [])"

text \<open>
  The average entry price depends on how the fills were batched. A run that resumes an open
  trade restarts from the stored, already rounded average, so three buys imported in two batches
  are averaged differently from the same buys in one batch, whose average is the exact one.
\<close>

theorem average_entry_depends_on_batches:
  "entry_after (drift_db\<lparr>execution_fills := execution_fills drift_db @ [drift_fill]\<rparr>) = [Some 100] \<and>
   entry_after_resuming drift_db drift_fill = [Some (1000001/10000)]"
proof (intro conjI)
  show "entry_after (drift_db\<lparr>execution_fills := execution_fills drift_db @ [drift_fill]\<rparr>) = [Some 100]"
    by code_simp
  show "entry_after_resuming drift_db drift_fill = [Some (1000001/10000)]"
    by code_simp
qed

end
