(* ===== verification/Pnl_Facts.thy ===== *)
theory Pnl_Facts
  imports Pnl_Service
begin

text \<open>
  Facts about the P and L calculator and its service: symmetry of the gross result, totality,
  the total-charges identity and the size of the components under explicit limits, and the
  laws of the P and L table.
\<close>

section \<open>Gross P and L\<close>

lemma dsub_swap: "dsub a b = - dsub b a"
  unfolding dsub_def by (metis ctx_minus minus_diff_eq)

lemma dmul_minus: "dmul (- a) b = - dmul a b"
  unfolding dmul_def by (metis ctx_minus mult_minus_left)

lemma gross_opposite:
  "compute_gross_pnl (t\<lparr>ts_direction := ''SHORT''\<rparr>) = - compute_gross_pnl (t\<lparr>ts_direction := ''LONG''\<rparr>)"
  by (simp add: compute_gross_pnl_def dsub_swap [of "ts_average_entry t"] dmul_minus)

section \<open>Limits\<close>

definition sane_closed :: "trade_snapshot \<Rightarrow> bool" where
  "sane_closed t \<longleftrightarrow>
     dp 4 (ts_average_entry t) \<and> dp 4 (ts_average_exit t) \<and> dp 4 (ts_total_entry_quantity t) \<and>
     0 \<le> ts_average_entry t \<and> 0 \<le> ts_average_exit t \<and> 0 \<le> ts_total_entry_quantity t \<and>
     ts_average_entry t < 10 ^ 20 \<and> ts_average_exit t < 10 ^ 20 \<and>
     ts_average_entry t * ts_total_entry_quantity t \<le> 10 ^ 18 \<and>
     ts_average_exit t * ts_total_entry_quantity t \<le> 10 ^ 18"

definition rate_ok :: "rat \<Rightarrow> bool" where
  "rate_ok r \<longleftrightarrow> 0 \<le> r \<and> r \<le> 1"

definition sane_schedule :: "charge_schedule_row \<Rightarrow> bool" where
  "sane_schedule cs \<longleftrightarrow>
     rate_ok (cs_stt_buy_rate cs) \<and> rate_ok (cs_stt_sell_rate cs) \<and>
     rate_ok (cs_exchange_charge_rate cs) \<and> rate_ok (cs_sebi_charge_rate cs) \<and>
     rate_ok (cs_stamp_duty_rate cs) \<and> rate_ok (cs_gst_rate cs) \<and> rate_ok (cs_ipft_rate cs) \<and>
     (if cs_brokerage_type cs = ''ZERO'' then True
      else if cs_brokerage_type cs = ''FLAT''
      then (case cs_brokerage_flat_per_order cs of None \<Rightarrow> False | Some f \<Rightarrow> 0 \<le> f \<and> f \<le> 10 ^ 9)
      else (case (cs_brokerage_pct cs, cs_brokerage_cap_per_order cs) of
              (Some p, Some c) \<Rightarrow> rate_ok p \<and> 0 \<le> c \<and> c \<le> 10 ^ 9 | _ \<Rightarrow> False))"

lemma dmul_bound:
  assumes "rate_ok r" and "0 \<le> x" and "x \<le> B" and "dp 4 B" and "B < 10 ^ 24"
  shows "0 \<le> dmul r x \<and> dmul r x \<le> B"
proof -
  have "r * x \<le> 1 * x" using assms(1,2) by (intro mult_right_mono) (auto simp: rate_ok_def)
  then have "r * x \<le> B" using assms(3) by simp
  then have "ctx (r * x) \<le> ctx B" by (rule ctx_mono)
  moreover have "ctx B = B" using assms by (intro ctx_dp4) auto
  moreover have "0 \<le> r * x" using assms(1,2) by (simp add: rate_ok_def)
  ultimately show ?thesis by (simp add: dmul_def ctx_nonneg)
qed

lemma dadd_bound:
  assumes "0 \<le> x" and "0 \<le> y" and "x + y \<le> B" and "dp 4 B" and "B < 10 ^ 24"
  shows "0 \<le> dadd x y \<and> dadd x y \<le> B"
proof -
  have "ctx (x + y) \<le> ctx B" using assms(3) by (rule ctx_mono)
  moreover have "ctx B = B" using assms by (intro ctx_dp4) auto
  ultimately show ?thesis using assms by (simp add: dadd_def ctx_nonneg)
qed

lemma quantize_bound:
  assumes "0 \<le> x" and "x \<le> B" and "dp 4 B" and "B < 10 ^ 20"
  obtains y where "quantize CHARGE_STORED x = Inr y" and "0 \<le> y" and "y \<le> B" and "dp 4 y"
proof -
  have "\<bar>x\<bar> * 10 ^ fst CHARGE_STORED \<le> of_int (10 ^ 28 - 1)"
    using assms by (simp add: CHARGE_STORED_def)
  then obtain y where y: "quantize CHARGE_STORED x = Inr y" using quantize_total by blast
  have "quantize CHARGE_STORED B = Inr B"
    using assms by (intro quantize_exact) (simp_all add: CHARGE_STORED_def)
  with y assms(2) have "y \<le> B" by (blast intro: quantize_mono)
  with y show ?thesis
    using quantize_nonneg [OF y assms(1)] quantize_dp [OF y] by (intro that) (simp_all add: CHARGE_STORED_def)
qed

lemma turnover_exact:
  assumes "sane_closed t"
  shows "dmul (ts_average_entry t) (ts_total_entry_quantity t) =
      ts_average_entry t * ts_total_entry_quantity t"
    and "dmul (ts_average_exit t) (ts_total_entry_quantity t) =
      ts_average_exit t * ts_total_entry_quantity t"
  using assms by (auto simp: sane_closed_def abs_mult intro!: dmul_exact)

lemma brokerage_bound:
  assumes "sane_schedule cs" and "0 \<le> v"
  obtains b where "brokerage_per_side v cs = Inr b" and "0 \<le> b" and "b \<le> 10 ^ 9"
proof -
  consider (zero) "cs_brokerage_type cs = ''ZERO''"
    | (flat) f where "cs_brokerage_type cs = ''FLAT''" "cs_brokerage_flat_per_order cs = Some f"
        "0 \<le> f" "f \<le> 10 ^ 9"
    | (pct) p c where "cs_brokerage_type cs \<noteq> ''ZERO''" "cs_brokerage_type cs \<noteq> ''FLAT''"
        "cs_brokerage_pct cs = Some p" "cs_brokerage_cap_per_order cs = Some c"
        "rate_ok p" "0 \<le> c" "c \<le> 10 ^ 9"
    using assms(1) by (auto simp: sane_schedule_def split: if_splits option.splits)
  then show ?thesis
  proof cases
    case zero
    then show ?thesis by (intro that [of 0]) (simp_all add: brokerage_per_side_def)
  next
    case flat
    then show ?thesis by (intro that [of f]) (simp_all add: brokerage_per_side_def)
  next
    case pct
    have "0 \<le> dmul p v" using pct(5) assms(2) by (simp add: dmul_def rate_ok_def ctx_nonneg)
    with pct show ?thesis
      by (intro that [of "min (dmul p v) c"]) (simp_all add: brokerage_per_side_def)
  qed
qed

section \<open>Charges\<close>

lemma dadd_dp4:
  "dp 4 a \<Longrightarrow> dp 4 b \<Longrightarrow> 0 \<le> a \<Longrightarrow> 0 \<le> b \<Longrightarrow> a + b < 10 ^ 24 \<Longrightarrow> dadd a b = a + b \<and> dp 4 (a + b)"
  by (auto intro!: dadd_exact)

lemma sum_charges_exact:
  assumes "dp 4 a" "dp 4 b" "dp 4 c" "dp 4 d" "dp 4 e" "dp 4 f" "dp 4 g"
    and "0 \<le> a" "0 \<le> b" "0 \<le> c" "0 \<le> d" "0 \<le> e" "0 \<le> f" "0 \<le> g"
    and "a + b + c + d + e + f + g < 10 ^ 24"
  shows "dadd (dadd (dadd (dadd (dadd (dadd a b) c) d) e) f) g = a + b + c + d + e + f + g"
proof -
  have 1: "dadd a b = a + b \<and> dp 4 (a + b)" using assms by (intro dadd_dp4) simp_all
  have 2: "dadd (a + b) c = a + b + c \<and> dp 4 (a + b + c)"
    using assms 1 by (intro dadd_dp4) simp_all
  have 3: "dadd (a + b + c) d = a + b + c + d \<and> dp 4 (a + b + c + d)"
    using assms 2 by (intro dadd_dp4) simp_all
  have 4: "dadd (a + b + c + d) e = a + b + c + d + e \<and> dp 4 (a + b + c + d + e)"
    using assms 3 by (intro dadd_dp4) simp_all
  have 5: "dadd (a + b + c + d + e) f = a + b + c + d + e + f \<and> dp 4 (a + b + c + d + e + f)"
    using assms 4 by (intro dadd_dp4) simp_all
  have 6: "dadd (a + b + c + d + e + f) g = a + b + c + d + e + f + g"
    using assms 5 dadd_dp4 [of "a + b + c + d + e + f" g] by simp
  show ?thesis using 1 2 3 4 5 6 by simp
qed

text \<open>What the charges of a trade within the limits are: every component, and their sum.\<close>

lemma compute_charges_ok:
  assumes t: "sane_closed t" and cs: "sane_schedule cs"
  obtains c where "compute_charges t cs = Inr c"
    and "cb_total_charges c = cb_brokerage c + cb_stt c + cb_exchange_charges c +
      cb_sebi_charges c + cb_stamp_duty c + cb_gst c + cb_ipft c"
    and "0 \<le> cb_brokerage c" "0 \<le> cb_stt c" "0 \<le> cb_exchange_charges c" "0 \<le> cb_sebi_charges c"
      "0 \<le> cb_stamp_duty c" "0 \<le> cb_gst c" "0 \<le> cb_ipft c"
    and "dp 4 (cb_total_charges c)" and "cb_total_charges c \<le> 2 * 10 ^ 19"
proof -
  let ?e = "dmul (ts_average_entry t) (ts_total_entry_quantity t)"
    and ?x = "dmul (ts_average_exit t) (ts_total_entry_quantity t)"
  have E: "0 \<le> ?e" "?e \<le> 10 ^ 18" and X: "0 \<le> ?x" "?x \<le> 10 ^ 18"
    using t by (simp_all add: turnover_exact [OF t] sane_closed_def)
  have rates: "rate_ok (cs_stt_buy_rate cs)" "rate_ok (cs_stt_sell_rate cs)"
    "rate_ok (cs_exchange_charge_rate cs)" "rate_ok (cs_sebi_charge_rate cs)"
    "rate_ok (cs_stamp_duty_rate cs)" "rate_ok (cs_gst_rate cs)" "rate_ok (cs_ipft_rate cs)"
    using cs by (simp_all add: sane_schedule_def)
  obtain b1 where b1: "brokerage_per_side ?e cs = Inr b1" "0 \<le> b1" "b1 \<le> 10 ^ 9"
    using brokerage_bound [OF cs E(1)] .
  obtain b2 where b2: "brokerage_per_side ?x cs = Inr b2" "0 \<le> b2" "b2 \<le> 10 ^ 9"
    using brokerage_bound [OF cs X(1)] .
  define br where "br = dadd b1 b2"
  define stt where "stt = dadd (dmul (cs_stt_buy_rate cs) ?e) (dmul (cs_stt_sell_rate cs) ?x)"
  define base where "base = dadd ?e ?x"
  define exch where "exch = dmul (cs_exchange_charge_rate cs) base"
  define sebi where "sebi = dmul (cs_sebi_charge_rate cs) base"
  define stamp where "stamp = dmul (cs_stamp_duty_rate cs) ?e"
  define gst where "gst = dmul (cs_gst_rate cs) (dadd (dadd br exch) sebi)"
  define ipft where "ipft = dmul (cs_ipft_rate cs) base"
  note unfolded = br_def stt_def base_def exch_def sebi_def stamp_def gst_def ipft_def
  have br: "0 \<le> br \<and> br \<le> 2 * 10 ^ 9"
    unfolding br_def using b1 b2 by (intro dadd_bound) auto
  have s1: "0 \<le> dmul (cs_stt_buy_rate cs) ?e \<and> dmul (cs_stt_buy_rate cs) ?e \<le> 10 ^ 18"
    by (rule dmul_bound [OF rates(1) E]) simp_all
  have s2: "0 \<le> dmul (cs_stt_sell_rate cs) ?x \<and> dmul (cs_stt_sell_rate cs) ?x \<le> 10 ^ 18"
    by (rule dmul_bound [OF rates(2) X]) simp_all
  have stt: "0 \<le> stt \<and> stt \<le> 2 * 10 ^ 18"
    unfolding stt_def using s1 s2 by (intro dadd_bound) auto
  have base: "0 \<le> base \<and> base \<le> 2 * 10 ^ 18"
    unfolding base_def using E X by (intro dadd_bound) auto
  have exch: "0 \<le> exch \<and> exch \<le> 2 * 10 ^ 18"
    unfolding exch_def using base by (intro dmul_bound rates) auto
  have sebi: "0 \<le> sebi \<and> sebi \<le> 2 * 10 ^ 18"
    unfolding sebi_def using base by (intro dmul_bound rates) auto
  have ipft: "0 \<le> ipft \<and> ipft \<le> 2 * 10 ^ 18"
    unfolding ipft_def using base by (intro dmul_bound rates) auto
  have stamp: "0 \<le> stamp \<and> stamp \<le> 10 ^ 18"
    unfolding stamp_def using E by (intro dmul_bound rates) auto
  have g1: "0 \<le> dadd br exch \<and> dadd br exch \<le> 3 * 10 ^ 18"
    using br exch by (intro dadd_bound) auto
  have g2: "0 \<le> dadd (dadd br exch) sebi \<and> dadd (dadd br exch) sebi \<le> 5 * 10 ^ 18"
    using g1 sebi by (intro dadd_bound) auto
  have gst: "0 \<le> gst \<and> gst \<le> 5 * 10 ^ 18"
    unfolding gst_def using g2 by (intro dmul_bound rates) auto
  obtain q1 where q1: "quantize CHARGE_STORED br = Inr q1" "0 \<le> q1" "q1 \<le> 2 * 10 ^ 9" "dp 4 q1"
    using br quantize_bound [of br "2 * 10 ^ 9"] by auto
  obtain q2 where q2: "quantize CHARGE_STORED stt = Inr q2" "0 \<le> q2" "q2 \<le> 2 * 10 ^ 18" "dp 4 q2"
    using stt quantize_bound [of stt "2 * 10 ^ 18"] by auto
  obtain q3 where q3: "quantize CHARGE_STORED exch = Inr q3" "0 \<le> q3" "q3 \<le> 2 * 10 ^ 18" "dp 4 q3"
    using exch quantize_bound [of exch "2 * 10 ^ 18"] by auto
  obtain q4 where q4: "quantize CHARGE_STORED sebi = Inr q4" "0 \<le> q4" "q4 \<le> 2 * 10 ^ 18" "dp 4 q4"
    using sebi quantize_bound [of sebi "2 * 10 ^ 18"] by auto
  obtain q5 where q5: "quantize CHARGE_STORED stamp = Inr q5" "0 \<le> q5" "q5 \<le> 10 ^ 18" "dp 4 q5"
    using stamp quantize_bound [of stamp "10 ^ 18"] by auto
  obtain q6 where q6: "quantize CHARGE_STORED gst = Inr q6" "0 \<le> q6" "q6 \<le> 5 * 10 ^ 18" "dp 4 q6"
    using gst quantize_bound [of gst "5 * 10 ^ 18"] by auto
  obtain q7 where q7: "quantize CHARGE_STORED ipft = Inr q7" "0 \<le> q7" "q7 \<le> 2 * 10 ^ 18" "dp 4 q7"
    using ipft quantize_bound [of ipft "2 * 10 ^ 18"] by auto
  have sum: "dadd (dadd (dadd (dadd (dadd (dadd q1 q2) q3) q4) q5) q6) q7 =
      q1 + q2 + q3 + q4 + q5 + q6 + q7"
    using q1 q2 q3 q4 q5 q6 q7 by (intro sum_charges_exact) simp_all
  let ?c = "\<lparr>cb_brokerage = q1, cb_stt = q2, cb_exchange_charges = q3, cb_sebi_charges = q4,
      cb_stamp_duty = q5, cb_gst = q6, cb_ipft = q7, cb_total_charges = q1 + q2 + q3 + q4 + q5 + q6 + q7\<rparr>"
  have "compute_charges t cs = Inr ?c"
    unfolding compute_charges_def Let_def b1 b2 rbind.simps
    using q1(1) q2(1) q3(1) q4(1) q5(1) q6(1) q7(1) unfolding unfolded
    by (simp add: sum)
  then show ?thesis
    by (rule that) (use q1 q2 q3 q4 q5 q6 q7 in \<open>simp_all add: dp_add\<close>)
qed

section \<open>The whole result\<close>

definition exact_gross :: "trade_snapshot \<Rightarrow> rat" where
  "exact_gross t =
     (if ts_direction t = ''LONG'' then ts_average_exit t - ts_average_entry t
      else ts_average_entry t - ts_average_exit t) * ts_total_entry_quantity t"

definition risk_ok :: "rat option \<Rightarrow> bool" where
  "risk_ok risk \<longleftrightarrow> (case risk of None \<Rightarrow> True | Some r \<Rightarrow> r = 0 \<or> 1 / 100 \<le> \<bar>r\<bar>)"

lemma diff_mult_bounded:
  fixes a b q :: rat
  assumes "0 \<le> a * q" and "a * q \<le> B" and "0 \<le> b * q" and "b * q \<le> B"
  shows "\<bar>(a - b) * q\<bar> \<le> B"
proof -
  have "(a - b) * q = a * q - b * q" by (rule left_diff_distrib)
  with assms show ?thesis by (simp add: abs_le_iff)
qed

lemma gross_exact:
  assumes t: "sane_closed t"
  shows "compute_gross_pnl t = exact_gross t" and "\<bar>exact_gross t\<bar> \<le> 10 ^ 18"
proof -
  have d: "dsub (ts_average_exit t) (ts_average_entry t) = ts_average_exit t - ts_average_entry t"
    "dsub (ts_average_entry t) (ts_average_exit t) = ts_average_entry t - ts_average_exit t"
    using t by (auto simp: sane_closed_def intro!: dsub_exact)
  have b: "\<bar>(ts_average_exit t - ts_average_entry t) * ts_total_entry_quantity t\<bar> \<le> 10 ^ 18"
    "\<bar>(ts_average_entry t - ts_average_exit t) * ts_total_entry_quantity t\<bar> \<le> 10 ^ 18"
    using t by (simp_all only: sane_closed_def) (auto intro!: diff_mult_bounded)
  have m: "dmul (ts_average_exit t - ts_average_entry t) (ts_total_entry_quantity t) =
      (ts_average_exit t - ts_average_entry t) * ts_total_entry_quantity t"
    "dmul (ts_average_entry t - ts_average_exit t) (ts_total_entry_quantity t) =
      (ts_average_entry t - ts_average_exit t) * ts_total_entry_quantity t"
    using t b by (auto simp: sane_closed_def intro!: dmul_exact)
  show "compute_gross_pnl t = exact_gross t"
    by (simp add: compute_gross_pnl_def exact_gross_def d m)
  show "\<bar>exact_gross t\<bar> \<le> 10 ^ 18" using b by (simp add: exact_gross_def)
qed

lemma quantize_signed:
  assumes "\<bar>x\<bar> \<le> B" and "dp 4 B" and "B < 10 ^ 20"
  obtains y where "quantize CHARGE_STORED x = Inr y" and "\<bar>y\<bar> \<le> B" and "dp 4 y"
    and "\<bar>y - x\<bar> \<le> 1 / (2 * 10 ^ 4)"
proof -
  have "\<bar>x\<bar> * 10 ^ fst CHARGE_STORED \<le> of_int (10 ^ 28 - 1)"
    using assms by (simp add: CHARGE_STORED_def)
  then obtain y where y: "quantize CHARGE_STORED x = Inr y" using quantize_total by blast
  have B: "quantize CHARGE_STORED B = Inr B"
    using assms by (intro quantize_exact) (simp_all add: CHARGE_STORED_def)
  have "y \<le> B" using y B by (rule quantize_mono) (use assms(1) in simp)
  moreover have "- B \<le> y" using quantize_minus [OF B] y by (rule quantize_mono) (use assms(1) in simp)
  ultimately have "\<bar>y\<bar> \<le> B" by simp
  with y show ?thesis
    using quantize_dp [OF y] quantize_half_up_error [of 4 x y]
    by (intro that) (simp_all add: CHARGE_STORED_def)
qed

lemma r_multiple_total:
  assumes "risk_ok risk" and "\<bar>net\<bar> \<le> 3 * 10 ^ 19"
  obtains r where "compute_r_multiple net risk = Inr r"
    and "r = None \<longleftrightarrow> risk = None \<or> risk = Some 0"
proof (cases "risk = None \<or> risk = Some 0")
  case True
  then show ?thesis by (intro that [of None]) (auto simp: compute_r_multiple_def)
next
  case False
  then obtain k where k: "risk = Some k" "k \<noteq> 0" "1 / 100 \<le> \<bar>k\<bar>"
    using assms(1) by (auto simp: risk_ok_def split: option.splits)
  have "\<bar>net / k\<bar> = \<bar>net\<bar> / \<bar>k\<bar>" by (rule abs_divide)
  also have "\<dots> \<le> (3 * 10 ^ 19) / (1 / 100)"
    using assms(2) k(3) by (intro frac_le) auto
  finally have "\<bar>net / k\<bar> \<le> 3 * 10 ^ 21" by simp
  then have b: "net / k \<le> 3 * 10 ^ 21" "- (3 * 10 ^ 21) \<le> net / k" by (simp_all only: abs_le_iff) simp
  have eq: "ctx (3 * 10 ^ 21) = 3 * 10 ^ 21" by (intro ctx_dp4) simp_all
  have "ctx (net / k) \<le> 3 * 10 ^ 21"
    using ctx_mono [OF b(1)] eq by simp
  moreover have "- (3 * 10 ^ 21) \<le> ctx (net / k)"
    using ctx_mono [OF b(2)] eq ctx_minus [of "3 * 10 ^ 21"] by simp
  ultimately have "\<bar>ctx (net / k)\<bar> * 10 ^ fst R_MULTIPLE \<le> of_int (10 ^ 28 - 1)"
    by (simp add: R_MULTIPLE_def)
  then obtain y where "quantize R_MULTIPLE (ctx (net / k)) = Inr y" using quantize_total by blast
  with k show ?thesis
    by (intro that [of "Some y"]) (simp_all add: compute_r_multiple_def ddiv_def)
qed

lemma compute_pnl_ok:
  assumes t: "sane_closed t" and cs: "sane_schedule cs" and risk: "risk_ok (ts_planned_risk_amount t)"
  obtains r where "compute_pnl t cs = Inr r" and "trade_pnl_check (pnl_values r)"
    and "pr_net_pnl r = pr_gross_pnl r - pr_total_charges r"
    and "\<bar>pr_gross_pnl r - exact_gross t\<bar> \<le> 1 / (2 * 10 ^ 4)"
    and "pr_r_multiple r = None \<longleftrightarrow>
      ts_planned_risk_amount t = None \<or> ts_planned_risk_amount t = Some 0"
proof -
  note G = gross_exact [OF t]
  obtain g where g: "quantize CHARGE_STORED (exact_gross t) = Inr g" "\<bar>g\<bar> \<le> 10 ^ 18" "dp 4 g"
    "\<bar>g - exact_gross t\<bar> \<le> 1 / (2 * 10 ^ 4)"
    using quantize_signed [OF G(2)] by auto
  obtain c where c: "compute_charges t cs = Inr c"
    "cb_total_charges c = cb_brokerage c + cb_stt c + cb_exchange_charges c +
      cb_sebi_charges c + cb_stamp_duty c + cb_gst c + cb_ipft c"
    "0 \<le> cb_brokerage c" "0 \<le> cb_stt c" "0 \<le> cb_exchange_charges c" "0 \<le> cb_sebi_charges c"
    "0 \<le> cb_stamp_duty c" "0 \<le> cb_gst c" "0 \<le> cb_ipft c"
    "dp 4 (cb_total_charges c)" "cb_total_charges c \<le> 2 * 10 ^ 19"
    using compute_charges_ok [OF t cs] .
  let ?n = "g - cb_total_charges c"
  have pos: "0 \<le> cb_total_charges c" using c(3-9) by (simp add: c(2))
  have nb: "\<bar>?n\<bar> \<le> 3 * 10 ^ 19" using g(2) c(11) pos by (simp add: abs_le_iff)
  have n4: "dp 4 ?n" using g(3) c(10) by (rule dp_diff)
  have n: "dsub g (cb_total_charges c) = ?n" using g(3) c(10) nb by (intro dsub_exact) auto
  have nq: "quantize CHARGE_STORED ?n = Inr ?n"
    using n4 nb by (intro quantize_exact) (simp_all add: CHARGE_STORED_def)
  obtain r where r: "compute_r_multiple ?n (ts_planned_risk_amount t) = Inr r"
    "r = None \<longleftrightarrow> ts_planned_risk_amount t = None \<or> ts_planned_risk_amount t = Some 0"
    using r_multiple_total [OF risk nb] .
  show ?thesis
    by (rule that, unfold compute_pnl_def G(1) g(1) c(1) rbind.simps n nq r(1), rule refl)
      (use c g(4) r(2) in \<open>simp_all add: trade_pnl_check_def pnl_values_def\<close>)
qed

section \<open>The P and L table\<close>

lemma update_by_absent: "k \<notin> key ` set xs \<Longrightarrow> update_by key k g xs = xs"
  unfolding update_by_def by (rule update_where_none) auto

lemma update_by_idem:
  "(\<And>x. g (g x) = g x) \<Longrightarrow> (\<And>x. key (g x) = key x) \<Longrightarrow>
   update_by key k g (update_by key k g xs) = update_by key k g xs"
  by (induction xs) (simp_all add: update_by_def)

definition stored_row :: "pnl_result \<Rightarrow> db \<Rightarrow> trade_pnl_row" where
  "stored_row r d = (pnl_values r)\<lparr>p_user_id :=
     (case get_for_trade (pr_trade_id r) d of None \<Rightarrow> pr_user_id r | Some p \<Rightarrow> p_user_id p)\<rparr>"

lemma pnl_values_sel [simp]:
  "p_trade_id (pnl_values r) = pr_trade_id r" "p_user_id (pnl_values r) = pr_user_id r"
  by (simp_all add: pnl_values_def)

lemma get_for_trade_upsert:
  "get_for_trade k (upsert r d) = (if k = pr_trade_id r then Some (stored_row r d) else get_for_trade k d)"
proof (cases "get_by p_trade_id (trade_pnls d) (pr_trade_id r)")
  case None
  then have fresh: "p_trade_id (pnl_values r) \<notin> p_trade_id ` set (trade_pnls d)"
    by (simp add: get_by_None)
  show ?thesis
    using None tbl.lookup_insert [of p_trade_id, OF fresh]
    by (simp add: upsert_def get_for_trade_def stored_row_def pnl_values_def)
next
  case (Some p)
  then have "p_trade_id p = pr_trade_id r" by (auto dest: get_by_Some)
  with Some show ?thesis
    by (simp add: upsert_def get_for_trade_def stored_row_def get_by_update_by pnl_values_def)
qed

lemma upsert_idem: "upsert r (upsert r d) = upsert r d"
proof (cases "get_by p_trade_id (trade_pnls d) (pr_trade_id r)")
  case None
  then have "update_by p_trade_id (pr_trade_id r) g (trade_pnls d) = trade_pnls d" for g
    unfolding get_by_None by (rule update_by_absent)
  with None show ?thesis
    by (simp add: upsert_def append_row_def get_by_append get_by_Cons)
      (simp add: update_by_def pnl_values_def)
next
  case (Some p)
  let ?g = "\<lambda>p. (pnl_values r)\<lparr>p_trade_id := p_trade_id p, p_user_id := p_user_id p\<rparr>"
  have "update_by p_trade_id k ?g (update_by p_trade_id k ?g ps) = update_by p_trade_id k ?g ps" for k ps
    by (rule update_by_idem) simp_all
  with Some show ?thesis by (simp add: upsert_def get_by_update_by)
qed

lemma snapshot_indep [simp]:
  "get_trade_snapshot t (d\<lparr>trade_pnls := ps\<rparr>) = get_trade_snapshot t d"
  "get_for_date b ty ex dt (d\<lparr>trade_pnls := ps\<rparr>) = get_for_date b ty ex dt d"
  by (simp_all add: get_trade_snapshot_def get_broker_for_trade_def get_planned_risk_def
      get_for_date_def cong del: option.case_cong_weak)

lemma snapshot_upsert [simp]:
  "get_trade_snapshot t (upsert r d) = get_trade_snapshot t d"
  "get_for_date b ty ex dt (upsert r d) = get_for_date b ty ex dt d"
  by (simp_all add: upsert_def split: option.split)

lemma snapshot_id:
  assumes h: "get_trade_snapshot t d = Inr (Some s)"
  shows "ts_trade_id s = t"
proof -
  from h obtain tr where tr: "get_by t_id (filter (\<lambda>t. t_status t = ''CLOSED'') (trades d)) t = Some tr"
    by (cases "get_by t_id (filter (\<lambda>t. t_status t = ''CLOSED'') (trades d)) t")
      (simp_all add: get_trade_snapshot_def)
  with h obtain ins where ins: "get_by i_id (instruments d) (t_instrument_id tr) = Some ins"
    by (cases "get_by i_id (instruments d) (t_instrument_id tr)") (simp_all add: get_trade_snapshot_def)
  with h tr obtain br where br: "get_broker_for_trade t d = Some br"
    by (cases "get_broker_for_trade t d") (simp_all add: get_trade_snapshot_def)
  with h tr ins obtain k where k: "get_planned_risk t d = Inr k"
    by (cases "get_planned_risk t d") (simp_all add: get_trade_snapshot_def)
  have "t_id tr = t" using get_by_Some [OF tr] by simp
  with h tr ins br k show ?thesis
    by (cases "t_average_entry tr"; cases "t_average_exit tr") (auto simp: get_trade_snapshot_def)
qed

lemma compute_pnl_ids:
  "compute_pnl s cs = Inr r \<Longrightarrow> pr_trade_id r = ts_trade_id s \<and> pr_user_id r = ts_user_id s"
  by (auto simp: compute_pnl_def rbind_eq_Inr)

lemma calculate_and_store_Inr:
  "calculate_and_store t u d = Inr d' \<longleftrightarrow>
     (get_trade_snapshot t d = Inr None \<and> d' = d) \<or>
     (\<exists>s cs r. get_trade_snapshot t d = Inr (Some s) \<and>
        get_for_date (ts_broker s) (ts_trade_type s) (ts_exchange_segment s) (ts_trade_date s) d = Some cs \<and>
        compute_pnl s cs = Inr r \<and> pr_trade_id r = t \<and> d' = upsert r d)"
proof (cases "get_trade_snapshot t d")
  case (Inr snap)
  show ?thesis
  proof (cases snap)
    case (Some s)
    show ?thesis
    proof (cases "get_for_date (ts_broker s) (ts_trade_type s) (ts_exchange_segment s) (ts_trade_date s) d")
      case (Some cs)
      with Inr \<open>snap = Some s\<close> snapshot_id [of t d s] show ?thesis
        by (auto simp: calculate_and_store_def rbind_eq_Inr dest: compute_pnl_ids)
    qed (use Inr Some in \<open>simp add: calculate_and_store_def\<close>)
  qed (use Inr in \<open>auto simp: calculate_and_store_def\<close>)
qed (simp add: calculate_and_store_def)

lemma calculate_and_store_idem:
  "calculate_and_store t u d = Inr d' \<Longrightarrow> calculate_and_store t u' d' = Inr d'"
  unfolding calculate_and_store_Inr by (auto simp: upsert_idem)

section \<open>Backfill\<close>

lemma upsert_fresh:
  "get_for_trade (pr_trade_id r) d = None \<Longrightarrow>
   upsert r d = d\<lparr>trade_pnls := trade_pnls d @ [pnl_values r]\<rparr>"
  by (simp add: upsert_def get_for_trade_def append_row_def)

lemma backfill_loop_spec:
  assumes "backfill_loop u tids (d, s, f) = (d', s', f')" and "distinct tids"
    and "\<And>t. t \<in> set tids \<Longrightarrow> get_for_trade t d = None"
  shows "s' + f' = s + f + length tids \<and>
    (\<exists>new. d' = d\<lparr>trade_pnls := trade_pnls d @ new\<rparr> \<and> p_trade_id ` set new \<subseteq> set tids \<and>
       distinct (map p_trade_id new) \<and> length new + s \<le> s')"
  using assms
proof (induction tids arbitrary: d s f)
  case Nil
  then show ?case by (intro conjI exI [of _ "[]"]) simp_all
next
  case (Cons t tids)
  show ?case
  proof (cases "\<exists>r. calculate_and_store t u d = Inr (upsert r d) \<and> pr_trade_id r = t")
    case True
    then obtain r where r: "calculate_and_store t u d = Inr (upsert r d)" "pr_trade_id r = t" by blast
    have up: "upsert r d = d\<lparr>trade_pnls := trade_pnls d @ [pnl_values r]\<rparr>"
      using Cons.prems(3) [of t] r(2) by (intro upsert_fresh) simp
    have "backfill_loop u tids (upsert r d, Suc s, f) = (d', s', f')"
      using Cons.prems(1) r(1) by simp
    moreover have "get_for_trade t' (upsert r d) = None" if "t' \<in> set tids" for t'
      using that Cons.prems(2,3) r(2) by (auto simp: get_for_trade_upsert)
    ultimately obtain new where new: "s' + f' = Suc s + f + length tids"
      "d' = (upsert r d)\<lparr>trade_pnls := trade_pnls (upsert r d) @ new\<rparr>"
      "p_trade_id ` set new \<subseteq> set tids" "distinct (map p_trade_id new)" "length new + Suc s \<le> s'"
      using Cons.IH [of "upsert r d" "Suc s" f] Cons.prems(2) by auto
    have "t \<notin> p_trade_id ` set new" using new(3) Cons.prems(2) by auto
    with new r(2) show ?thesis
      by (intro conjI exI [of _ "pnl_values r # new"]) (auto simp: up)
  next
    case False
    then have "backfill_loop u tids (d, s, Suc f) = (d', s', f') \<or>
        backfill_loop u tids (d, Suc s, f) = (d', s', f')"
      using Cons.prems(1) by (cases "calculate_and_store t u d") (auto simp: calculate_and_store_Inr)
    then obtain s0 f0 where sf: "s0 + f0 = Suc (s + f)" "s \<le> s0"
      and loop: "backfill_loop u tids (d, s0, f0) = (d', s', f')"
    proof (elim disjE)
      assume "backfill_loop u tids (d, s, Suc f) = (d', s', f')"
      then show thesis by (intro that [of s "Suc f"]) simp_all
    next
      assume "backfill_loop u tids (d, Suc s, f) = (d', s', f')"
      then show thesis by (intro that [of "Suc s" f]) simp_all
    qed
    obtain new where "s' + f' = s0 + f0 + length tids"
      "d' = d\<lparr>trade_pnls := trade_pnls d @ new\<rparr>"
      "p_trade_id ` set new \<subseteq> set tids" "distinct (map p_trade_id new)" "length new + s0 \<le> s'"
      using Cons.IH [OF loop] Cons.prems(2,3) by auto
    with sf show ?thesis by (intro conjI exI [of _ new]) auto
  qed
qed

section \<open>The charge schedule in force\<close>

lemma get_for_date_latest:
  assumes "get_for_date b ty ex dt d = Some c"
  shows "c \<in> set (charge_schedules d)" and "cs_broker c = b" and "cs_trade_type c = ty"
    and "cs_exchange_segment c = ex" and "cs_effective_from c \<le> dt"
    and "\<And>c'. c' \<in> set (charge_schedules d) \<Longrightarrow> cs_broker c' = b \<Longrightarrow> cs_trade_type c' = ty \<Longrightarrow>
      cs_exchange_segment c' = ex \<Longrightarrow> cs_effective_from c' \<le> dt \<Longrightarrow>
      cs_effective_from c' \<le> cs_effective_from c"
proof -
  let ?le = "\<lambda>a b. cs_effective_from b \<le> cs_effective_from a"
  let ?rows = "filter (\<lambda>c. cs_broker c = b \<and> cs_trade_type c = ty \<and> cs_exchange_segment c = ex \<and>
      cs_effective_from c \<le> dt) (charge_schedules d)"
  obtain cs where cs: "order_by ?le ?rows = c # cs"
    using assms by (auto simp: get_for_date_def first_row_def split: list.splits)
  then have "c \<in> set (order_by ?le ?rows)" by (simp only: list.set_intros)
  then have "c \<in> set ?rows" by (simp only: set_order_by)
  then show "c \<in> set (charge_schedules d)" "cs_broker c = b" "cs_trade_type c = ty"
    "cs_exchange_segment c = ex" "cs_effective_from c \<le> dt" by auto
  have "sorted_wrt ?le (order_by ?le ?rows)" by (rule sorted_order_by) linarith+
  then have sorted: "sorted_wrt ?le (c # cs)" by (simp only: cs)
  fix c' assume "c' \<in> set (charge_schedules d)" "cs_broker c' = b" "cs_trade_type c' = ty"
    "cs_exchange_segment c' = ex" "cs_effective_from c' \<le> dt"
  then have "c' \<in> set (order_by ?le ?rows)" by (simp only: set_order_by) simp
  then have "c' \<in> set (c # cs)" by (simp only: cs)
  with sorted show "cs_effective_from c' \<le> cs_effective_from c" by auto
qed

lemma get_for_date_None:
  "get_for_date b ty ex dt d = None \<longleftrightarrow>
   (\<forall>c\<in>set (charge_schedules d). cs_broker c = b \<longrightarrow> cs_trade_type c = ty \<longrightarrow>
      cs_exchange_segment c = ex \<longrightarrow> dt < cs_effective_from c)"
  by (auto simp: get_for_date_def filter_empty_conv not_le)

end
