(* ===== verification/Pnl_Properties.thy ===== *)
theory Pnl_Properties
  imports Pnl_Facts
begin

text \<open>
  The properties of the P and L calculator and its service, with witnesses on an intraday trade
  under a percentage-with-cap charge schedule.
\<close>

section \<open>Sample data\<close>

definition sample_closed :: trade_snapshot where
  "sample_closed = \<lparr>ts_trade_id = 50, ts_user_id = 7, ts_trade_type = ''MIS'', ts_trade_date = 19800,
     ts_direction = ''LONG'', ts_average_entry = 1000, ts_average_exit = 1010,
     ts_total_entry_quantity = 100, ts_exchange_segment = ''NSE_EQ'', ts_broker = ''ZERODHA'',
     ts_planned_risk_amount = Some 500, ts_account_id = Some 8\<rparr>"

definition sample_schedule :: charge_schedule_row where
  "sample_schedule = \<lparr>cs_id = 90, cs_broker = ''ZERODHA'', cs_trade_type = ''MIS'',
     cs_exchange_segment = ''NSE_EQ'', cs_effective_from = 19700, cs_brokerage_type = ''PERCENT_CAP'',
     cs_brokerage_flat_per_order = None, cs_brokerage_pct = Some (3 / 10000),
     cs_brokerage_cap_per_order = Some 20, cs_stt_buy_rate = 0, cs_stt_sell_rate = 25 / 100000,
     cs_stt_base = ''TURNOVER'', cs_exchange_charge_rate = 345 / 10000000,
     cs_exchange_charge_base = ''TURNOVER'', cs_sebi_charge_rate = 1 / 1000000,
     cs_stamp_duty_rate = 3 / 100000, cs_stamp_duty_base = ''TURNOVER'', cs_gst_rate = 18 / 100,
     cs_ipft_rate = 1 / 1000000, cs_ipft_base = ''TURNOVER''\<rparr>"

definition sample_pnl_db :: db where
  "sample_pnl_db = \<lparr>
     instruments = [\<lparr>i_id = 9, i_symbol = ''INFY'', i_exchange_segment = ''NSE_EQ'',
       i_instrument_type = ''EQ'', i_expiry_date = None, i_strike_price = None, i_name = ''INFY''\<rparr>],
     trades = [\<lparr>t_id = 50, t_user_id = 7, t_account_id = Some 8, t_instrument_id = 9,
       t_trade_type = ''MIS'', t_direction = ''LONG'', t_status = ''CLOSED'', t_trade_date = 19800,
       t_first_fill_at = 10, t_last_fill_at = Some 20, t_total_entry_quantity = 100,
       t_total_exit_quantity = 100, t_net_position = 0, t_average_entry = Some 1000,
       t_average_exit = Some 1010, t_planned_stop = None, t_planned_target = None,
       t_planned_risk_amount = Some 500, t_is_deleted = False, t_setup_name = None\<rparr>],
     execution_fills = [\<lparr>x_id = 1, x_user_id = 7, x_account_id = Some 8, x_instrument_id = 9,
       x_trade_id = Some 50, x_fill_role = Some ''ENTRY'', x_fill_timestamp = 10,
       x_trade_date = 19800, x_session = ''REGULAR'', x_side = ''BUY'', x_quantity = 100,
       x_price = 1000, x_product_type = ''MIS'', x_exit_type = None, x_order_id = None,
       x_fill_id = None, x_broker = ''ZERODHA'', x_import_source = ''CSV'', x_created_at = 10\<rparr>],
     tax_lots = [], fill_exclusions = [], trading_accounts = [], journal_entries = [],
     charge_schedules = [sample_schedule], trade_pnls = [],
     import_records = [], journal_attachments = [], journal_audit_log = [], security_audit_log = [], next_uuid = 100\<rparr>"

lemma sample_closed_sane: "sane_closed sample_closed"
  by (simp add: sane_closed_def sample_closed_def)

lemma sample_schedule_sane: "sane_schedule sample_schedule"
  by (simp add: sane_schedule_def sample_schedule_def rate_ok_def)

lemma sample_snapshot: "get_trade_snapshot 50 sample_pnl_db = Inr (Some sample_closed)"
  by (simp add: get_trade_snapshot_def sample_pnl_db_def get_by_def first_row_def
      get_broker_for_trade_def get_planned_risk_def order_by_def sample_closed_def)

lemma sample_in_force: "get_for_date ''ZERODHA'' ''MIS'' ''NSE_EQ'' 19800 sample_pnl_db = Some sample_schedule"
  by (simp add: get_for_date_def sample_pnl_db_def sample_schedule_def order_by_def first_row_def)

section \<open>The calculator\<close>

text \<open>
  C10: within explicit limits (turnover at most ten to the eighteen, rates between 0 and 1, a
  planned risk of nothing, zero or at least a cent) the calculation never raises. Its row
  satisfies the CHECK constraints of the table: charges are not negative and their stored values
  add up exactly to the stored total; the net is exactly gross less charges; the gross is within
  half a unit of the fourth place of the exact result; and the R-multiple is missing exactly when
  the planned risk is missing or zero.
\<close>

theorem compute_pnl_sound:
  assumes "sane_closed t" and "sane_schedule cs" and "risk_ok (ts_planned_risk_amount t)"
  shows "\<exists>r. compute_pnl t cs = Inr r \<and> trade_pnl_check (pnl_values r) \<and>
    pr_net_pnl r = pr_gross_pnl r - pr_total_charges r \<and>
    \<bar>pr_gross_pnl r - exact_gross t\<bar> \<le> 1 / (2 * 10 ^ 4) \<and>
    (pr_r_multiple r = None \<longleftrightarrow> ts_planned_risk_amount t = None \<or> ts_planned_risk_amount t = Some 0)"
proof -
  obtain r where "compute_pnl t cs = Inr r" "trade_pnl_check (pnl_values r)"
    "pr_net_pnl r = pr_gross_pnl r - pr_total_charges r"
    "\<bar>pr_gross_pnl r - exact_gross t\<bar> \<le> 1 / (2 * 10 ^ 4)"
    "pr_r_multiple r = None \<longleftrightarrow> ts_planned_risk_amount t = None \<or> ts_planned_risk_amount t = Some 0"
    using compute_pnl_ok [OF assms] .
  then show ?thesis by (intro exI [of _ r] conjI)
qed

theorem compute_pnl_sound_witness:
  "\<exists>r. compute_pnl sample_closed sample_schedule = Inr r \<and> trade_pnl_check (pnl_values r) \<and>
    pr_r_multiple r \<noteq> None"
proof -
  have "risk_ok (ts_planned_risk_amount sample_closed)" by (simp add: risk_ok_def sample_closed_def)
  from compute_pnl_sound [OF sample_closed_sane sample_schedule_sane this]
  show ?thesis by (auto simp: sample_closed_def)
qed

text \<open>
  The direction only turns the sign of the gross result, exactly, whatever the values and
  however they round.
\<close>

theorem gross_pnl_antisymmetric:
  "compute_gross_pnl (t\<lparr>ts_direction := ''SHORT''\<rparr>) = - compute_gross_pnl (t\<lparr>ts_direction := ''LONG''\<rparr>)"
  by (rule gross_opposite)

definition taxes_only :: charge_schedule_row where
  "taxes_only = sample_schedule\<lparr>cs_brokerage_type := ''ZERO'', cs_exchange_charge_rate := 0,
     cs_sebi_charge_rate := 0, cs_ipft_rate := 0\<rparr>"

lemma dmul_zero [simp]: "dmul 0 x = 0" "dmul x 0 = 0"
  by (simp_all add: dmul_def)

text \<open>Values with four decimal places are exact.\<close>

lemma levies:
  "dmul 1000 100 = 100000" "dmul 1010 100 = 101000"
  "dmul (3/100000) 100000 = 3" "dmul (3/100000) 101000 = 303/100"
  "dmul (1/4000) 100000 = 25" "dmul (1/4000) 101000 = 101/4"
  "ctx 25 = 25" "ctx (101/4) = 101/4"
  unfolding dmul_def by (subst ctx_dp4; simp add: dp_def)+

lemma stored_levies:
  "quantize CHARGE_STORED 0 = Inr 0" "quantize CHARGE_STORED 3 = Inr 3"
  "quantize CHARGE_STORED (303/100) = Inr (303/100)"
  "quantize CHARGE_STORED 25 = Inr 25" "quantize CHARGE_STORED (101/4) = Inr (101/4)"
  by (rule quantize_exact; simp add: CHARGE_STORED_def dp_def)+

lemmas taxes = taxes_only_def sample_schedule_def sample_closed_def compute_charges_def
  brokerage_per_side_def levies stored_levies

text \<open>
  The charges do not look at the direction. A short trade sells on entry and buys on exit,
  and still the stamp duty, documented as falling on the buy side only, is taken on the entry,
  and the sell rate of the securities transaction tax on the exit: the same two executions are
  charged differently as a long and as a short trade.
\<close>

theorem short_trades_charged_as_long:
  "compute_charges (t\<lparr>ts_direction := dir\<rparr>) cs = compute_charges t cs \<and>
   rbind (compute_charges (sample_closed\<lparr>ts_direction := ''SHORT'', ts_average_entry := 1010,
       ts_average_exit := 1000\<rparr>) taxes_only) (\<lambda>c. Inr (cb_stamp_duty c, cb_stt c)) =
     Inr (303 / 100, 25) \<and>
   rbind (compute_charges sample_closed taxes_only) (\<lambda>c. Inr (cb_stamp_duty c, cb_stt c)) =
     Inr (3, 101 / 4)"
proof (intro conjI)
  show "compute_charges (t\<lparr>ts_direction := dir\<rparr>) cs = compute_charges t cs"
    by (simp add: compute_charges_def)
  show "rbind (compute_charges (sample_closed\<lparr>ts_direction := ''SHORT'', ts_average_entry := 1010,
       ts_average_exit := 1000\<rparr>) taxes_only) (\<lambda>c. Inr (cb_stamp_duty c, cb_stt c)) =
     Inr (303 / 100, 25)"
    by (simp add: taxes Let_def)
  show "rbind (compute_charges sample_closed taxes_only) (\<lambda>c. Inr (cb_stamp_duty c, cb_stt c)) =
     Inr (3, 101 / 4)"
    by (simp add: taxes Let_def)
qed

section \<open>The service\<close>

text \<open>
  C11: calculating stores the result: if the trade has a snapshot and a schedule and the
  calculation succeeds, the row of the trade is afterwards the result (a row that existed keeps
  its user), all other rows are as before, and calculating again changes nothing.
\<close>

theorem calculate_and_store_roundtrip:
  assumes "get_trade_snapshot tid d = Inr (Some s)"
    and "get_for_date (ts_broker s) (ts_trade_type s) (ts_exchange_segment s) (ts_trade_date s) d = Some cs"
    and "compute_pnl s cs = Inr r"
  shows "\<exists>d'. calculate_and_store tid u d = Inr d' \<and>
    (\<forall>k. get_for_trade k d' = (if k = tid then Some (stored_row r d) else get_for_trade k d)) \<and>
    calculate_and_store tid u d' = Inr d'"
proof -
  have id: "pr_trade_id r = tid" using compute_pnl_ids [OF assms(3)] snapshot_id [OF assms(1)] by simp
  have c: "calculate_and_store tid u d = Inr (upsert r d)"
    using assms id by (auto simp: calculate_and_store_Inr)
  show ?thesis
    by (intro exI [of _ "upsert r d"]) (simp add: c calculate_and_store_idem [OF c] get_for_trade_upsert id)
qed

theorem calculate_and_store_roundtrip_witness:
  "\<exists>d' r. calculate_and_store 50 7 sample_pnl_db = Inr d' \<and>
     compute_pnl sample_closed sample_schedule = Inr r \<and> get_for_trade 50 d' = Some (pnl_values r)"
proof -
  have "risk_ok (ts_planned_risk_amount sample_closed)" by (simp add: risk_ok_def sample_closed_def)
  then obtain r where r: "compute_pnl sample_closed sample_schedule = Inr r"
    using compute_pnl_ok [OF sample_closed_sane sample_schedule_sane] by blast
  have f: "get_for_date (ts_broker sample_closed) (ts_trade_type sample_closed)
      (ts_exchange_segment sample_closed) (ts_trade_date sample_closed) sample_pnl_db = Some sample_schedule"
    using sample_in_force by (simp add: sample_closed_def)
  have "stored_row r sample_pnl_db = pnl_values r"
    by (simp add: stored_row_def get_for_trade_def sample_pnl_db_def get_by_Nil pnl_values_def)
  with calculate_and_store_roundtrip [OF sample_snapshot f r, of 7] r show ?thesis by auto
qed

text \<open>
  The schedule chosen for a trade is in force: it is for the trade's broker, type and
  segment, effective on or before the trade date, and none such is later; there is none only if
  no such schedule exists.
\<close>

theorem schedule_in_force:
  "case get_for_date b ty ex dt d of
     None \<Rightarrow> filter (\<lambda>c. cs_broker c = b \<and> cs_trade_type c = ty \<and> cs_exchange_segment c = ex \<and>
       cs_effective_from c \<le> dt) (charge_schedules d) = []
   | Some c \<Rightarrow> c \<in> set (charge_schedules d) \<and> cs_broker c = b \<and> cs_trade_type c = ty \<and>
       cs_exchange_segment c = ex \<and> cs_effective_from c \<le> dt \<and>
       filter (\<lambda>c'. cs_broker c' = b \<and> cs_trade_type c' = ty \<and> cs_exchange_segment c' = ex \<and>
         cs_effective_from c < cs_effective_from c' \<and> cs_effective_from c' \<le> dt) (charge_schedules d) = []"
proof (cases "get_for_date b ty ex dt d")
  case None
  then have "filter (\<lambda>c. cs_broker c = b \<and> cs_trade_type c = ty \<and> cs_exchange_segment c = ex \<and>
       cs_effective_from c \<le> dt) (charge_schedules d) = []"
    unfolding get_for_date_None filter_empty_conv by fastforce
  with None show ?thesis by simp
next
  case (Some c)
  note L = get_for_date_latest [OF Some]
  have "filter (\<lambda>c'. cs_broker c' = b \<and> cs_trade_type c' = ty \<and> cs_exchange_segment c' = ex \<and>
         cs_effective_from c < cs_effective_from c' \<and> cs_effective_from c' \<le> dt) (charge_schedules d) = []"
    unfolding filter_empty_conv using L(6) leD by blast
  with L(1-5) Some show ?thesis by simp
qed

text \<open>
  C12: the backfill is total and only adds. It counts every selected trade once, as succeeded or
  as failed, one failure not stopping the rest; it adds at most one row for each selected trade,
  no more rows than it counts as succeeded, and changes nothing else. Trades that are deleted,
  open, another user's or already calculated are not selected, so their rows are untouched.
\<close>

theorem backfill_only_adds:
  assumes "distinct (map t_id (trades d))"
    and "backfill_all_closed u d = (d', succeeded, failed)"
  shows "succeeded + failed = length (backfill_pending u d) \<and>
    (\<exists>new. d' = d\<lparr>trade_pnls := trade_pnls d @ new\<rparr> \<and> distinct (map p_trade_id new) \<and>
       length new \<le> succeeded \<and> p_trade_id ` set new \<subseteq> set (backfill_pending u d))"
proof -
  have "distinct (backfill_pending u d)"
    unfolding backfill_pending_def using assms(1) by (rule distinct_map_filter)
  moreover have "get_for_trade t d = None" if "t \<in> set (backfill_pending u d)" for t
    using that by (auto simp: backfill_pending_def)
  ultimately show ?thesis
    using backfill_loop_spec [OF assms(2) [unfolded backfill_all_closed_def]] by fastforce
qed

theorem backfill_only_adds_witness:
  "\<exists>d' n m. backfill_all_closed 7 sample_pnl_db = (d', n, m) \<and> n + m = 1 \<and>
     trades d' = trades sample_pnl_db"
proof -
  obtain d' n m where b: "backfill_all_closed 7 sample_pnl_db = (d', n, m)"
    by (cases "backfill_all_closed 7 sample_pnl_db") auto
  have "distinct (map t_id (trades sample_pnl_db))" by (simp add: sample_pnl_db_def)
  from backfill_only_adds [OF this b] have "n + m = length (backfill_pending 7 sample_pnl_db)"
    and "trades d' = trades sample_pnl_db" by auto
  moreover have "length (backfill_pending 7 sample_pnl_db) = 1" by code_simp
  ultimately show ?thesis using b by simp
qed

text \<open>
  C13: recalculating the R-multiple writes that column of that trade's row and nothing else,
  with the value the calculator gives for the stored net result and the current planned risk;
  without a row it does nothing.
\<close>

theorem recalculate_only_r_multiple:
  assumes "recalculate_r_multiple tid u d = Inr d'"
  shows "d' = d\<lparr>trade_pnls := trade_pnls d'\<rparr> \<and>
    (case get_for_trade tid d of
       None \<Rightarrow> d' = d
     | Some p \<Rightarrow> \<exists>risk m. get_planned_risk tid d = Inr risk \<and>
         compute_r_multiple (p_net_pnl p) risk = Inr m \<and>
         (\<forall>k. get_for_trade k d' =
           (if k = tid then Some (p\<lparr>p_r_multiple := m\<rparr>) else get_for_trade k d)))"
proof (cases "get_for_trade tid d")
  case None
  with assms show ?thesis by (simp add: recalculate_r_multiple_def)
next
  case (Some p)
  with assms obtain risk m where "get_planned_risk tid d = Inr risk"
    and "compute_r_multiple (p_net_pnl p) risk = Inr m" and d': "d' = update_r_multiple tid m d"
    by (auto simp: recalculate_r_multiple_def rbind_eq_Inr)
  moreover have "get_for_trade k d' = (if k = tid then Some (p\<lparr>p_r_multiple := m\<rparr>) else get_for_trade k d)" for k
    using Some by (simp add: d' update_r_multiple_def get_for_trade_def get_by_update_by)
  ultimately show ?thesis using Some by (auto simp: update_r_multiple_def)
qed

definition unrated_row :: trade_pnl_row where
  "unrated_row = \<lparr>p_trade_id = 50, p_user_id = 7, p_account_id = Some 8, p_gross_pnl = 1000, p_net_pnl = 1000,
     p_total_charges = 0, p_r_multiple = None, p_brokerage = 0, p_stt = 0, p_exchange_charges = 0,
     p_sebi_charges = 0, p_stamp_duty = 0, p_gst = 0, p_ipft = 0, p_broker = ''ZERODHA'',
     p_charge_schedule_version = (''ZERODHA'', ''MIS'', ''NSE_EQ'', 19700), p_engine_version = ''1''\<rparr>"

definition unrated_db :: db where "unrated_db = sample_pnl_db\<lparr>trade_pnls := [unrated_row]\<rparr>"

lemma unrated_evaluation:
  "(case recalculate_r_multiple 50 7 unrated_db of Inl e \<Rightarrow> False | Inr d \<Rightarrow> True) \<and>
   get_planned_risk 50 unrated_db = Inr (Some 500) \<and> compute_r_multiple 1000 (Some 500) = Inr (Some 2)"
  by code_simp

theorem recalculate_only_r_multiple_witness:
  "\<exists>d'. recalculate_r_multiple 50 7 unrated_db = Inr d' \<and>
     get_for_trade 50 d' = Some (unrated_row\<lparr>p_r_multiple := Some 2\<rparr>) \<and> trades d' = trades unrated_db"
proof -
  obtain d' where d': "recalculate_r_multiple 50 7 unrated_db = Inr d'"
    using unrated_evaluation by (auto split: sum.splits)
  have row: "get_for_trade 50 unrated_db = Some unrated_row"
    by (simp add: get_for_trade_def unrated_db_def unrated_row_def get_by_Cons)
  note r = recalculate_only_r_multiple [OF d', unfolded row option.case]
  from r have frame: "d' = unrated_db\<lparr>trade_pnls := trade_pnls d'\<rparr>" by (rule conjunct1)
  have "trades d' = trades unrated_db" by (subst frame) simp
  moreover have "p_net_pnl unrated_row = 1000" by (simp add: unrated_row_def)
  then have "get_for_trade 50 d' = Some (unrated_row\<lparr>p_r_multiple := Some 2\<rparr>)"
    using r unrated_evaluation by auto
  ultimately show ?thesis using d' by blast
qed

end
