(* ===== verification/Text_Time.thy ===== *)
theory Text_Time
  imports Tables
begin

text \<open>
  The parts of Python's \<open>str\<close>, \<open>uuid\<close>, \<open>date\<close> and \<open>datetime\<close> that the services use. Strings
  are ASCII. A \<open>date\<close> is a day number since 1970-01-01 in the proleptic Gregorian calendar, an
  aware \<open>datetime\<close> the microseconds since the epoch; the code's \<open>_IST\<close> is a fixed offset.
\<close>

section \<open>str\<close>

definition is_space :: "char \<Rightarrow> bool" where
  "is_space c \<longleftrightarrow> (of_char c :: nat) \<in> {9, 10, 11, 12, 13, 28, 29, 30, 31, 32}"

definition is_digit :: "char \<Rightarrow> bool" where
  "is_digit c \<longleftrightarrow> 48 \<le> (of_char c :: nat) \<and> (of_char c :: nat) \<le> 57"

definition is_upper :: "char \<Rightarrow> bool" where
  "is_upper c \<longleftrightarrow> 65 \<le> (of_char c :: nat) \<and> (of_char c :: nat) \<le> 90"

definition is_lower :: "char \<Rightarrow> bool" where
  "is_lower c \<longleftrightarrow> 97 \<le> (of_char c :: nat) \<and> (of_char c :: nat) \<le> 122"

definition lstrip :: "string \<Rightarrow> string" where
  "lstrip s = dropWhile is_space s"

definition strip :: "string \<Rightarrow> string" where
  "strip s = rev (lstrip (rev (lstrip s)))"

definition upper :: "string \<Rightarrow> string" where
  "upper s = map (\<lambda>c. if is_lower c then char_of ((of_char c :: nat) - 32) else c) s"

definition lower :: "string \<Rightarrow> string" where
  "lower s = map (\<lambda>c. if is_upper c then char_of ((of_char c :: nat) + 32) else c) s"

text \<open>\<open>s.split(c)\<close> for a single character, and \<open>s.split()\<close> at white space.\<close>

fun split_at :: "char \<Rightarrow> string \<Rightarrow> string list" where
  "split_at c [] = [[]]"
| "split_at c (x # xs) =
     (if x = c then [] # split_at c xs
      else case split_at c xs of [] \<Rightarrow> [[x]] | w # ws \<Rightarrow> (x # w) # ws)"

fun words_from :: "string \<Rightarrow> string \<Rightarrow> string list" where
  "words_from w [] = (if w = [] then [] else [rev w])"
| "words_from w (x # xs) =
     (if is_space x then (if w = [] then [] else [rev w]) @ words_from [] xs
      else words_from (x # w) xs)"

definition split_ws :: "string \<Rightarrow> string list" where
  "split_ws s = words_from [] s"

fun join :: "string \<Rightarrow> string list \<Rightarrow> string" where
  "join sep [] = []"
| "join sep [w] = w"
| "join sep (w # v # ws) = w @ sep @ join sep (v # ws)"

lemma lstrip_idem [simp]: "lstrip (lstrip s) = lstrip s"
  by (simp add: lstrip_def dropWhile_idem)

lemma lstrip_rev_lstrip: "lstrip (rev (lstrip (rev s))) = rev (lstrip (rev (lstrip s)))"
proof -
  have *: "dropWhile P (rev (dropWhile P (rev s))) = rev (dropWhile P (rev (dropWhile P s)))" for P :: "char \<Rightarrow> bool"
  proof (induction s)
    case (Cons c s)
    show ?case
    proof (cases "\<forall>x\<in>set s. P x")
      case True
      then have e: "dropWhile P (rev s) = []" "dropWhile P s = []" by simp_all
      show ?thesis using True by (simp add: dropWhile_append e)
    next
      case False
      then have n: "\<exists>x\<in>set s. \<not> P x" by blast
      then have a: "dropWhile P (rev s @ [c]) = dropWhile P (rev s) @ [c]"
        by (simp add: dropWhile_append) 
      show ?thesis using Cons a by (auto simp: dropWhile_append)
    qed
  qed simp
  show ?thesis unfolding lstrip_def by (rule *)
qed

lemma strip_idem [simp]: "strip (strip s) = strip s"
  using lstrip_rev_lstrip [of "lstrip s"] by (simp add: strip_def)

lemma strip_eq_Nil: "strip s = [] \<longleftrightarrow> (\<forall>c\<in>set s. is_space c)"
  by (auto simp: strip_def lstrip_def dropWhile_eq_Nil_conv dest: set_dropWhileD)
     (metis append.right_neutral dropWhile_eq_Nil_conv takeWhile_dropWhile_id set_takeWhileD Un_iff set_append)

lemma length_strip: "length (strip s) \<le> length s"
  unfolding strip_def lstrip_def
  by (metis length_dropWhile_le length_rev order_trans)

section \<open>Numbers as text\<close>

definition digit_char :: "nat \<Rightarrow> char" where
  "digit_char n = ''0123456789'' ! n"

fun digits_n :: "nat \<Rightarrow> nat \<Rightarrow> string" where
  "digits_n 0 n = []"
| "digits_n (Suc k) n = digits_n k (n div 10) @ [digit_char (n mod 10)]"

fun nat_str :: "nat \<Rightarrow> string" where
  "nat_str n = (if n < 10 then [digit_char n] else nat_str (n div 10) @ [digit_char (n mod 10)])"

declare nat_str.simps [simp del]

definition int_str :: "int \<Rightarrow> string" where
  "int_str i = (if i < 0 then CHR ''-'' # nat_str (nat (- i)) else nat_str (nat i))"

text \<open>\<open>str(uuid)\<close>: 32 hexadecimal digits in groups of 8, 4, 4, 4 and 12.\<close>

definition hex_char :: "nat \<Rightarrow> char" where
  "hex_char n = ''0123456789abcdef'' ! n"

fun hex_digits :: "nat \<Rightarrow> nat \<Rightarrow> string" where
  "hex_digits 0 u = []"
| "hex_digits (Suc k) u = hex_digits k (u div 16) @ [hex_char (u mod 16)]"

definition uuid_str :: "uuid \<Rightarrow> string" where
  "uuid_str u =
     (let h = hex_digits 32 u in
      take 8 h @ ''-'' @ take 4 (drop 8 h) @ ''-'' @ take 4 (drop 12 h) @ ''-'' @
      take 4 (drop 16 h) @ ''-'' @ drop 20 h)"

lemma length_hex_digits [simp]: "length (hex_digits k u) = k"
  by (induction k arbitrary: u) auto

lemma hex_char_inj: "m < 16 \<Longrightarrow> n < 16 \<Longrightarrow> hex_char m = hex_char n \<Longrightarrow> m = n"
  by (simp add: hex_char_def nth_eq_iff_index_eq)

lemma hex_digits_zero: "hex_digits k 0 = replicate k CHR ''0''"
  by (induction k) (simp_all add: hex_char_def replicate_append_same)

text \<open>For evaluation: leading zeros at once.\<close>

lemma hex_digits_code [code]:
  "hex_digits k u = (if u = 0 then replicate k CHR ''0''
     else case k of 0 \<Rightarrow> [] | Suc l \<Rightarrow> hex_digits l (u div 16) @ [hex_char (u mod 16)])"
  by (cases k) (simp_all add: hex_digits_zero hex_char_def replicate_append_same)

lemma hex_digits_inj: "u < 16 ^ k \<Longrightarrow> v < 16 ^ k \<Longrightarrow> hex_digits k u = hex_digits k v \<Longrightarrow> u = v"
proof (induction k arbitrary: u v)
  case (Suc k)
  then have "hex_digits k (u div 16) = hex_digits k (v div 16)"
    and c: "hex_char (u mod 16) = hex_char (v mod 16)" by auto
  moreover have "u div 16 < 16 ^ k" "v div 16 < 16 ^ k"
    using Suc.prems by (auto simp: less_mult_imp_div_less mult.commute)
  ultimately have "u div 16 = v div 16" by (intro Suc.IH)
  moreover have "u mod 16 = v mod 16" using hex_char_inj [OF _ _ c] by simp
  ultimately show ?case by (metis div_mult_mod_eq)
qed simp

lemma uuid_str_inj:
  assumes "u < 2 ^ 128" and "v < 2 ^ 128" and "uuid_str u = uuid_str v"
  shows "u = v"
proof -
  let ?g = "hex_digits 32 u" and ?h = "hex_digits 32 v"
  have e: "take 8 ?g @ ''-'' @ take 4 (drop 8 ?g) @ ''-'' @ take 4 (drop 12 ?g) @ ''-'' @
      take 4 (drop 16 ?g) @ ''-'' @ drop 20 ?g =
    take 8 ?h @ ''-'' @ take 4 (drop 8 ?h) @ ''-'' @ take 4 (drop 12 ?h) @ ''-'' @
      take 4 (drop 16 ?h) @ ''-'' @ drop 20 ?h"
    using assms(3) by (simp add: uuid_str_def Let_def)
  have p: "take 8 ?g = take 8 ?h" "take 4 (drop 8 ?g) = take 4 (drop 8 ?h)"
    "take 4 (drop 12 ?g) = take 4 (drop 12 ?h)" "take 4 (drop 16 ?g) = take 4 (drop 16 ?h)"
    "drop 20 ?g = drop 20 ?h"
    using e by (simp_all only: append_eq_append_conv length_take length_drop length_hex_digits
        append.simps list.inject) auto
  have *: "h = take 8 h @ take 4 (drop 8 h) @ take 4 (drop 12 h) @ take 4 (drop 16 h) @ drop 20 h"
    for h :: string
  proof -
    have "drop 16 h = take 4 (drop 16 h) @ drop 20 h" using append_take_drop_id [of 4 "drop 16 h"] by simp
    moreover have "drop 12 h = take 4 (drop 12 h) @ drop 16 h" using append_take_drop_id [of 4 "drop 12 h"] by simp
    moreover have "drop 8 h = take 4 (drop 8 h) @ drop 12 h" using append_take_drop_id [of 4 "drop 8 h"] by simp
    ultimately show ?thesis using append_take_drop_id [of 8 h] by metis
  qed
  have "?g = ?h" using * [of ?g] * [of ?h] p by metis
  moreover have "u < 16 ^ 32" "v < 16 ^ 32" using assms(1,2) by simp_all
  ultimately show ?thesis using hex_digits_inj by blast
qed

text \<open>\<open>repr(s)\<close> of an ASCII string.\<close>

definition repr_char :: "char \<Rightarrow> char \<Rightarrow> string" where
  "repr_char quote c =
     (if c = quote \<or> c = CHR 0x5C then [CHR 0x5C, c]
      else if c = CHR 0x0A then [CHR 0x5C, CHR ''n'']
      else if c = CHR 0x0D then [CHR 0x5C, CHR ''r'']
      else if c = CHR 0x09 then [CHR 0x5C, CHR ''t'']
      else if (of_char c :: nat) < 32 \<or> (of_char c :: nat) = 127
        then [CHR 0x5C, CHR ''x''] @ hex_digits 2 (of_char c)
      else [c])"

definition repr :: "string \<Rightarrow> string" where
  "repr s =
     (let quote = (if CHR 0x27 \<in> set s \<and> CHR 0x22 \<notin> set s then CHR 0x22 else CHR 0x27)
      in [quote] @ concat (map (repr_char quote) s) @ [quote])"

section \<open>date\<close>

definition day_of_civil :: "int \<Rightarrow> int \<Rightarrow> int \<Rightarrow> day" where
  "day_of_civil y m d =
     (let y' = (if m \<le> 2 then y - 1 else y);
          era = y' div 400; yoe = y' mod 400;
          doy = (153 * (if 2 < m then m - 3 else m + 9) + 2) div 5 + d - 1;
          doe = yoe * 365 + yoe div 4 - yoe div 100 + doy
      in era * 146097 + doe - 719468)"

definition civil_of_day :: "day \<Rightarrow> int \<times> int \<times> int" where
  "civil_of_day z0 =
     (let z = z0 + 719468; era = z div 146097; doe = z mod 146097;
          yoe = (doe - doe div 1460 + doe div 36524 - doe div 146096) div 365;
          doy = doe - (365 * yoe + yoe div 4 - yoe div 100);
          mp = (5 * doy + 2) div 153;
          d = doy - (153 * mp + 2) div 5 + 1;
          m = (if mp < 10 then mp + 3 else mp - 9)
      in (yoe + era * 400 + (if m \<le> 2 then 1 else 0), m, d))"

definition is_leap :: "int \<Rightarrow> bool" where
  "is_leap y \<longleftrightarrow> y mod 4 = 0 \<and> (y mod 100 \<noteq> 0 \<or> y mod 400 = 0)"

definition days_in_month :: "int \<Rightarrow> int \<Rightarrow> int" where
  "days_in_month y m =
     (if m = 2 then (if is_leap y then 29 else 28) else if m \<in> {4, 6, 9, 11} then 30 else 31)"

text \<open>\<open>date(year, month, day)\<close>\<close>

definition make_date :: "int \<Rightarrow> int \<Rightarrow> int \<Rightarrow> day option" where
  "make_date y m d =
     (if 1 \<le> y \<and> y \<le> 9999 \<and> 1 \<le> m \<and> m \<le> 12 \<and> 1 \<le> d \<and> d \<le> days_in_month y m
      then Some (day_of_civil y m d) else None)"

text \<open>\<open>date.weekday()\<close>: Monday is 0.\<close>

definition weekday :: "day \<Rightarrow> int" where
  "weekday n = (n + 3) mod 7"

definition month_abbr :: "int \<Rightarrow> string" where
  "month_abbr m =
     [''JAN'', ''FEB'', ''MAR'', ''APR'', ''MAY'', ''JUN'', ''JUL'', ''AUG'', ''SEP'', ''OCT'',
      ''NOV'', ''DEC''] ! nat (m - 1)"

definition iso_date :: "day \<Rightarrow> string" where
  "iso_date n = (case civil_of_day n of (y, m, d) \<Rightarrow>
     digits_n 4 (nat y) @ ''-'' @ digits_n 2 (nat m) @ ''-'' @ digits_n 2 (nat d))"

section \<open>datetime in IST\<close>

definition ist_offset :: int where "ist_offset = 19800 * 1000000"
definition day_us :: int where "day_us = 86400 * 1000000"

text \<open>\<open>ts.astimezone(_IST).date()\<close> and \<open>.time()\<close>, the latter as microseconds of the day.\<close>

definition ist_date :: "timestamp \<Rightarrow> day" where
  "ist_date ts = (ts + ist_offset) div day_us"

definition ist_time :: "timestamp \<Rightarrow> int" where
  "ist_time ts = (ts + ist_offset) mod day_us"

definition time_of_day :: "int \<Rightarrow> int \<Rightarrow> int \<Rightarrow> int" where
  "time_of_day h m s = (h * 3600 + m * 60 + s) * 1000000"

definition ist_timestamp :: "day \<Rightarrow> int \<Rightarrow> timestamp" where
  "ist_timestamp n t = n * day_us + t - ist_offset"

lemma ist_timestamp_date: "0 \<le> t \<Longrightarrow> t < day_us \<Longrightarrow> ist_date (ist_timestamp n t) = n"
  by (simp add: ist_date_def ist_timestamp_def day_us_def)

lemma ist_timestamp_time: "0 \<le> t \<Longrightarrow> t < day_us \<Longrightarrow> ist_time (ist_timestamp n t) = t"
  by (simp add: ist_time_def ist_timestamp_def day_us_def)

lemma ist_timestamp_id: "ist_timestamp (ist_date ts) (ist_time ts) = ts"
  by (simp add: ist_time_def ist_date_def ist_timestamp_def)

lemma ist_time_range: "0 \<le> ist_time ts \<and> ist_time ts < day_us"
  by (simp add: ist_time_def day_us_def)

end
