(* ===== verification/Accounts.thy ===== *)
theory Accounts
  imports Text_Time
begin

text \<open>
  \<open>infrastructure/repositories/trading_account_repo.py\<close> and
  \<open>application/trading_account_service.py\<close>: the trading accounts of a user. Every operation
  takes the authenticated user; an account of another user is treated as absent.
  \<open>account_store\<close> is what the other services rely on.
\<close>

section \<open>trading_account_repo.py\<close>

definition create_account ::
  "timestamp \<Rightarrow> uuid \<Rightarrow> string \<Rightarrow> string \<Rightarrow> string \<Rightarrow> string \<Rightarrow> rat option \<Rightarrow> db \<Rightarrow>
   trading_account_row \<times> db" where
  "create_account now user_id broker display_name account_type base_currency starting_capital d =
     (let (pk, d1) = uuid4 d;
          obj = \<lparr>a_id = pk, a_user_id = user_id, a_broker = broker,
                 a_display_name = display_name, a_account_type = account_type,
                 a_base_currency = base_currency, a_status = ''ACTIVE'',
                 a_starting_capital = starting_capital, a_created_at = now,
                 a_updated_at = now\<rparr>
      in (obj, d1\<lparr>trading_accounts := append_row (trading_accounts d1) obj\<rparr>))"

definition get_account_for_user :: "uuid \<Rightarrow> uuid \<Rightarrow> db \<Rightarrow> trading_account_row option" where
  "get_account_for_user user_id account_id d =
     get_by a_id (filter (\<lambda>a. a_user_id a = user_id) (trading_accounts d)) account_id"

definition list_accounts_for_user :: "uuid \<Rightarrow> db \<Rightarrow> trading_account_row list" where
  "list_accounts_for_user user_id d =
     order_by (\<lambda>a b. a_created_at a \<le> a_created_at b)
       (filter (\<lambda>a. a_user_id a = user_id) (trading_accounts d))"

text \<open>\<open>UPDATE trading_accounts ... WHERE id = account_id AND user_id = user_id\<close>\<close>

definition update_own_account ::
  "uuid \<Rightarrow> uuid \<Rightarrow> (trading_account_row \<Rightarrow> trading_account_row) \<Rightarrow> db \<Rightarrow> db" where
  "update_own_account user_id account_id f d =
     d\<lparr>trading_accounts :=
         update_where (\<lambda>a. a_id a = account_id \<and> a_user_id a = user_id) f (trading_accounts d)\<rparr>"

definition account_values ::
  "timestamp \<Rightarrow> string option \<Rightarrow> string option \<Rightarrow> rat option \<Rightarrow> trading_account_row \<Rightarrow>
   trading_account_row" where
  "account_values now display_name account_type starting_capital a =
     a\<lparr>a_updated_at := now,
       a_display_name := (case display_name of Some n \<Rightarrow> n | None \<Rightarrow> a_display_name a),
       a_account_type := (case account_type of Some t \<Rightarrow> t | None \<Rightarrow> a_account_type a),
       a_starting_capital :=
         (case starting_capital of Some c \<Rightarrow> Some c | None \<Rightarrow> a_starting_capital a)\<rparr>"

definition update_account ::
  "timestamp \<Rightarrow> uuid \<Rightarrow> uuid \<Rightarrow> string option \<Rightarrow> string option \<Rightarrow> rat option \<Rightarrow> db \<Rightarrow>
   trading_account_row option \<times> db" where
  "update_account now user_id account_id display_name account_type starting_capital d =
     (let d1 = update_own_account user_id account_id
                 (account_values now display_name account_type starting_capital) d
      in (get_account_for_user user_id account_id d1, d1))"

definition deactivate_account :: "timestamp \<Rightarrow> uuid \<Rightarrow> uuid \<Rightarrow> db \<Rightarrow> bool \<times> db" where
  "deactivate_account now user_id account_id d =
     (0 < length (filter (\<lambda>a. a_id a = account_id \<and> a_user_id a = user_id) (trading_accounts d)),
      update_own_account user_id account_id
        (\<lambda>a. a\<lparr>a_status := ''INACTIVE'', a_updated_at := now\<rparr>) d)"

section \<open>trading_account_service.py\<close>

definition VALID_BROKERS :: "string list" where
  "VALID_BROKERS = [''ZERODHA'', ''UPSTOX'', ''ANGEL_ONE'', ''MANUAL'']"

definition VALID_ACCOUNT_TYPES :: "string list" where
  "VALID_ACCOUNT_TYPES = [''INDIVIDUAL'', ''HUF'']"

definition account_service_create ::
  "timestamp \<Rightarrow> uuid \<Rightarrow> string \<Rightarrow> string \<Rightarrow> string \<Rightarrow> string \<Rightarrow> rat option \<Rightarrow> db \<Rightarrow>
   exn + trading_account_row \<times> db" where
  "account_service_create now user_id broker display_name account_type base_currency
     starting_capital d =
     (if broker \<notin> set VALID_BROKERS then Inl (Py (ValueError ''Unsupported broker''))
      else if account_type \<notin> set VALID_ACCOUNT_TYPES
        then Inl (Py (ValueError ''Unsupported account_type''))
      else if strip display_name = [] then Inl (Py (ValueError ''display_name must not be blank''))
      else Inr (create_account now user_id broker (strip display_name) account_type base_currency
                  starting_capital d))"

definition account_service_list :: "uuid \<Rightarrow> db \<Rightarrow> trading_account_row list" where
  "account_service_list user_id d = list_accounts_for_user user_id d"

definition account_service_get :: "uuid \<Rightarrow> uuid \<Rightarrow> db \<Rightarrow> exn + trading_account_row" where
  "account_service_get user_id account_id d =
     (case get_account_for_user user_id account_id d of
        None \<Rightarrow> Inl (Imp (AccountNotFoundError account_id))
      | Some a \<Rightarrow> Inr a)"

definition get_active :: "uuid \<Rightarrow> uuid \<Rightarrow> db \<Rightarrow> exn + trading_account_row" where
  "get_active user_id account_id d =
     rbind (account_service_get user_id account_id d) (\<lambda>account.
     if a_status account \<noteq> ''ACTIVE'' then Inl (Imp (AccountInactiveError account_id))
     else Inr account)"

text \<open>\<open>display_name.strip() if display_name else None\<close>: an empty name was refused before.\<close>

definition account_service_update ::
  "timestamp \<Rightarrow> uuid \<Rightarrow> uuid \<Rightarrow> string option \<Rightarrow> string option \<Rightarrow> rat option \<Rightarrow> db \<Rightarrow>
   exn + trading_account_row \<times> db" where
  "account_service_update now user_id account_id display_name account_type starting_capital d =
     (if account_type \<noteq> None \<and> the account_type \<notin> set VALID_ACCOUNT_TYPES
        then Inl (Py (ValueError ''Unsupported account_type''))
      else if display_name \<noteq> None \<and> strip (the display_name) = []
        then Inl (Py (ValueError ''display_name must not be blank''))
      else
        (case update_account now user_id account_id (map_option strip display_name) account_type
                starting_capital d of
           (None, d1) \<Rightarrow> Inl (Imp (AccountNotFoundError account_id))
         | (Some a, d1) \<Rightarrow> Inr (a, d1)))"

definition account_service_deactivate :: "timestamp \<Rightarrow> uuid \<Rightarrow> uuid \<Rightarrow> db \<Rightarrow> bool \<times> db" where
  "account_service_deactivate now user_id account_id d = deactivate_account now user_id account_id d"

section \<open>The table of accounts\<close>

text \<open>The rows keep the CHECK constraints of the table, and identifiers are unique.\<close>

definition account_check :: "trading_account_row \<Rightarrow> bool" where
  "account_check a \<longleftrightarrow> a_broker a \<in> set VALID_BROKERS \<and>
     a_account_type a \<in> set VALID_ACCOUNT_TYPES \<and> a_status a \<in> {''ACTIVE'', ''INACTIVE''}"

definition accounts_ok :: "db \<Rightarrow> bool" where
  "accounts_ok d \<longleftrightarrow> distinct (map a_id (trading_accounts d)) \<and>
     (\<forall>a\<in>set (trading_accounts d). account_check a \<and> a_id a < next_uuid d)"

lemma option_ext: "(\<And>x. p = Some x \<longleftrightarrow> q = Some x) \<Longrightarrow> p = q"
  by (cases p; cases q) auto

lemma get_by_filter_Some:
  "distinct (map key rs) \<Longrightarrow> get_by key (filter p rs) k = Some r \<longleftrightarrow> r \<in> set rs \<and> p r \<and> key r = k"
  by (induction rs) (auto simp: get_by_Nil get_by_Cons)

lemma get_by_filter_None:
  "get_by key (filter p rs) k = None \<longleftrightarrow> (\<forall>r\<in>set rs. key r = k \<longrightarrow> \<not> p r)"
  by (auto simp: get_by_None)

lemma get_account_Some:
  "accounts_ok d \<Longrightarrow> get_account_for_user u i d = Some a \<longleftrightarrow>
   a \<in> set (trading_accounts d) \<and> a_user_id a = u \<and> a_id a = i"
  unfolding get_account_for_user_def by (subst get_by_filter_Some) (auto simp: accounts_ok_def)

lemma get_account_None:
  "get_account_for_user u i d = None \<longleftrightarrow>
   (\<forall>a\<in>set (trading_accounts d). a_id a = i \<longrightarrow> a_user_id a \<noteq> u)"
  unfolding get_account_for_user_def by (rule get_by_filter_None)

lemma get_account_cases:
  assumes "get_account_for_user u i d = Some a"
  shows "a \<in> set (trading_accounts d)" "a_user_id a = u" "a_id a = i"
  using get_by_Some [OF assms [unfolded get_account_for_user_def]] by auto

lemma get_active_Inr:
  "get_active u i d = Inr a \<longleftrightarrow> get_account_for_user u i d = Some a \<and> a_status a = ''ACTIVE''"
  by (auto simp: get_active_def account_service_get_def result_simps split: option.splits)

lemma get_active_Inl:
  "get_active u i d = Inl e \<longleftrightarrow>
   get_account_for_user u i d = None \<and> e = Imp (AccountNotFoundError i) \<or>
   (\<exists>a. get_account_for_user u i d = Some a \<and> a_status a \<noteq> ''ACTIVE'' \<and>
        e = Imp (AccountInactiveError i))"
  by (auto simp: get_active_def account_service_get_def result_simps split: option.splits)

text \<open>An update of one's own account, seen from any account.\<close>

lemma get_by_filter_update_where:
  assumes "\<And>r. key (f r) = key r" and "\<And>r. p (f r) = p r"
  shows "get_by key (filter p (update_where (\<lambda>r. key r = k \<and> q r) f rs)) k' =
    map_option (\<lambda>r. if key r = k \<and> q r then f r else r) (get_by key (filter p rs) k')"
  by (induction rs) (auto simp: get_by_Nil get_by_Cons assms)

lemma get_account_update:
  assumes "\<And>a. a_id (f a) = a_id a" and "\<And>a. a_user_id (f a) = a_user_id a"
  shows "get_account_for_user u' i' (update_own_account u i f d) =
    (if u' = u \<and> i' = i then map_option f (get_account_for_user u' i' d)
     else get_account_for_user u' i' d)"
proof -
  have "get_account_for_user u' i' (update_own_account u i f d) =
    map_option (\<lambda>a. if a_id a = i \<and> a_user_id a = u then f a else a) (get_account_for_user u' i' d)"
    unfolding get_account_for_user_def update_own_account_def
    by (simp add: get_by_filter_update_where assms)
  also have "\<dots> = (if u' = u \<and> i' = i then map_option f (get_account_for_user u' i' d)
     else get_account_for_user u' i' d)"
    by (cases "get_account_for_user u' i' d") (auto dest: get_account_cases)
  finally show ?thesis .
qed

lemma accounts_ok_update:
  assumes "accounts_ok d" and "\<And>a. a_id (f a) = a_id a"
    and "\<And>a. account_check a \<Longrightarrow> account_check (f a)"
  shows "accounts_ok (update_own_account u i f d)"
  using assms unfolding accounts_ok_def update_own_account_def
  by (auto simp: set_update_where map_key_update_where)

lemma account_service_create_Inr:
  assumes "account_service_create now u b n ty cur cap d = Inr (a, d')"
  shows "d' = d\<lparr>next_uuid := Suc (next_uuid d), trading_accounts := trading_accounts d @ [a]\<rparr>"
    and "a = \<lparr>a_id = next_uuid d, a_user_id = u, a_broker = b, a_display_name = strip n,
       a_account_type = ty, a_base_currency = cur, a_status = ''ACTIVE'',
       a_starting_capital = cap, a_created_at = now, a_updated_at = now\<rparr>"
    and "account_check a" and "strip n \<noteq> []"
  using assms
  by (auto simp: account_service_create_def create_account_def uuid4_def append_row_def
      account_check_def Let_def split: if_splits)

lemma accounts_ok_create:
  assumes "accounts_ok d" and "account_service_create now u b n ty cur cap d = Inr (a, d')"
  shows "accounts_ok d'"
  using assms(1) account_service_create_Inr [OF assms(2)]
  by (auto simp: accounts_ok_def less_Suc_eq)

lemma get_account_create:
  assumes "accounts_ok d" and "account_service_create now u b n ty cur cap d = Inr (a, d')"
  shows "get_account_for_user u' i' d' =
    (if u' = u \<and> i' = a_id a then Some a else get_account_for_user u' i' d)"
proof -
  note c = account_service_create_Inr [OF assms(2)]
  have ok': "accounts_ok d'" by (rule accounts_ok_create [OF assms])
  show ?thesis
  proof (rule option_ext)
    fix x
    show "get_account_for_user u' i' d' = Some x \<longleftrightarrow>
      (if u' = u \<and> i' = a_id a then Some a else get_account_for_user u' i' d) = Some x"
      unfolding get_account_Some [OF ok']
      using c assms(1) get_account_Some [OF assms(1)] by (auto simp: accounts_ok_def)
  qed
qed

section \<open>The interface the services use\<close>

text \<open>
  An account store answers for a user and an account either the active account or one of the two
  errors, and never an account of somebody else.
\<close>

locale account_store =
  fixes find :: "uuid \<Rightarrow> uuid \<Rightarrow> 'd \<Rightarrow> trading_account_row option"
    and active :: "uuid \<Rightarrow> uuid \<Rightarrow> 'd \<Rightarrow> exn + trading_account_row"
  assumes find_own: "find u i d = Some a \<Longrightarrow> a_user_id a = u \<and> a_id a = i"
    and active_find: "active u i d = Inr a \<longleftrightarrow> find u i d = Some a \<and> a_status a = ''ACTIVE''"
    and active_missing: "find u i d = None \<Longrightarrow> active u i d = Inl (Imp (AccountNotFoundError i))"
    and active_inactive: "find u i d = Some a \<Longrightarrow> a_status a \<noteq> ''ACTIVE'' \<Longrightarrow>
      active u i d = Inl (Imp (AccountInactiveError i))"
begin

lemma active_own: "active u i d = Inr a \<Longrightarrow> a_user_id a = u \<and> a_id a = i"
  using find_own active_find by blast

lemma active_not_other: "active u i d = Inr a \<Longrightarrow> active v i d = Inr b \<Longrightarrow> a = b \<Longrightarrow> u = v"
  using active_own by blast

lemma active_error:
  "active u i d = Inl e \<Longrightarrow> e = Imp (AccountNotFoundError i) \<or> e = Imp (AccountInactiveError i)"
proof (cases "find u i d")
  case None
  assume "active u i d = Inl e"
  with active_missing [OF None] show ?thesis by simp
next
  case (Some a)
  assume e: "active u i d = Inl e"
  then have "a_status a \<noteq> ''ACTIVE''" using active_find [of u i d a] Some by auto
  from active_inactive [OF Some this] e show ?thesis by simp
qed

end

interpretation acc: account_store get_account_for_user get_active
  by unfold_locales
    (auto simp: get_active_def account_service_get_def dest: get_account_cases split: option.splits)

end
