(* ===== verification/Instruments.thy ===== *)
theory Instruments
  imports Text_Time
begin

text \<open>
  \<open>infrastructure/repositories/instrument_repo.py\<close>: looking instruments up by their contract and
  creating them on first encounter. The three partial unique indexes of the table decide
  \<open>ON CONFLICT DO NOTHING\<close>; a strike is stored in a \<open>NUMERIC(18, 4)\<close> column, which rounds it.
\<close>

section \<open>Lookup\<close>

definition derive_name :: "string \<Rightarrow> string \<Rightarrow> day option \<Rightarrow> rat option \<Rightarrow> string" where
  "derive_name symbol instrument_type expiry_date strike_price =
     (let ddmmmyy = (\<lambda>e. case civil_of_day e of (y, m, d) \<Rightarrow>
            digits_n 2 (nat d) @ month_abbr m @ digits_n 2 (nat (y mod 100)))
      in if instrument_type = ''EQ'' then symbol
         else if instrument_type = ''FUT'' \<and> expiry_date \<noteq> None
           then upper (symbol @ '' '' @ ddmmmyy (the expiry_date) @ '' FUT'')
         else if instrument_type \<in> {''CE'', ''PE''} \<and> expiry_date \<noteq> None \<and> strike_price \<noteq> None
           then upper (symbol @ '' '' @ ddmmmyy (the expiry_date) @ '' '' @
                  int_str (round_down (the strike_price)) @ '' '' @ instrument_type)
         else symbol)"

definition find_eq :: "string \<Rightarrow> string \<Rightarrow> db \<Rightarrow> uuid option" where
  "find_eq symbol exchange_segment d =
     map_option i_id (first_row (filter (\<lambda>i. i_symbol i = symbol \<and>
       i_exchange_segment i = exchange_segment \<and> i_instrument_type i = ''EQ'') (instruments d)))"

definition find_futures :: "string \<Rightarrow> string \<Rightarrow> day \<Rightarrow> db \<Rightarrow> uuid option" where
  "find_futures symbol exchange_segment expiry_date d =
     map_option i_id (first_row (filter (\<lambda>i. i_symbol i = symbol \<and>
       i_exchange_segment i = exchange_segment \<and> i_instrument_type i = ''FUT'' \<and>
       i_expiry_date i = Some expiry_date) (instruments d)))"

definition find_option :: "string \<Rightarrow> string \<Rightarrow> string \<Rightarrow> day \<Rightarrow> rat \<Rightarrow> db \<Rightarrow> uuid option" where
  "find_option symbol exchange_segment instrument_type expiry_date strike_price d =
     map_option i_id (first_row (filter (\<lambda>i. i_symbol i = symbol \<and>
       i_exchange_segment i = exchange_segment \<and> i_instrument_type i = instrument_type \<and>
       i_expiry_date i = Some expiry_date \<and> i_strike_price i = Some strike_price)
       (instruments d)))"

definition find_for_fill ::
  "string \<Rightarrow> string \<Rightarrow> string \<Rightarrow> day option \<Rightarrow> rat option \<Rightarrow> db \<Rightarrow> exn + uuid option" where
  "find_for_fill symbol exchange_segment instrument_type expiry_date strike_price d =
     (let missing = Inl (Imp (InstrumentNotFoundError symbol exchange_segment instrument_type))
      in if instrument_type = ''EQ'' then Inr (find_eq symbol exchange_segment d)
         else if instrument_type = ''FUT'' then
           (case expiry_date of
              None \<Rightarrow> missing
            | Some e \<Rightarrow> Inr (find_futures symbol exchange_segment e d))
         else if instrument_type \<in> {''CE'', ''PE''} then
           (case (expiry_date, strike_price) of
              (Some e, Some k) \<Rightarrow> Inr (find_option symbol exchange_segment instrument_type e k d)
            | _ \<Rightarrow> missing)
         else Inr None)"

section \<open>Insert\<close>

definition instrument_check :: "instrument_row \<Rightarrow> bool" where
  "instrument_check i \<longleftrightarrow>
     i_exchange_segment i \<in> {''NSE_EQ'', ''NSE_FO'', ''BSE_EQ''} \<and>
     i_instrument_type i \<in> {''EQ'', ''FUT'', ''CE'', ''PE''}"

definition instrument_conflict :: "instrument_row \<Rightarrow> instrument_row \<Rightarrow> bool" where
  "instrument_conflict i j \<longleftrightarrow>
     i_symbol i = i_symbol j \<and> i_exchange_segment i = i_exchange_segment j \<and>
     i_instrument_type i = i_instrument_type j \<and>
     (i_instrument_type i = ''EQ'' \<or>
      i_instrument_type i = ''FUT'' \<and> i_expiry_date i \<noteq> None \<and> i_expiry_date i = i_expiry_date j \<or>
      i_instrument_type i \<in> {''CE'', ''PE''} \<and> i_expiry_date i \<noteq> None \<and>
        i_expiry_date i = i_expiry_date j \<and> i_strike_price i \<noteq> None \<and>
        i_strike_price i = i_strike_price j)"

definition numeric_18_4 :: "rat \<Rightarrow> exn + rat" where
  "numeric_18_4 x =
     (let n = round_half_up (x * 10 ^ 4)
      in if \<bar>n\<bar> < 10 ^ 18 then Inr (of_int n / 10 ^ 4) else Inl (Py DataError))"

definition numeric_18_4_opt :: "rat option \<Rightarrow> exn + rat option" where
  "numeric_18_4_opt x =
     (case x of None \<Rightarrow> Inr None | Some k \<Rightarrow> rbind (numeric_18_4 k) (\<lambda>y. Inr (Some y)))"

definition insert_on_conflict_do_nothing :: "instrument_row \<Rightarrow> db \<Rightarrow> exn + db" where
  "insert_on_conflict_do_nothing row d =
     (if \<not> instrument_check row then Inl (Py IntegrityError)
      else if filter (instrument_conflict row) (instruments d) \<noteq> [] then Inr d
      else Inr (d\<lparr>instruments := append_row (instruments d) row\<rparr>))"

definition get_or_create ::
  "string \<Rightarrow> string \<Rightarrow> string \<Rightarrow> day option \<Rightarrow> rat option \<Rightarrow> db \<Rightarrow> exn + uuid \<times> db" where
  "get_or_create symbol exchange_segment instrument_type expiry_date strike_price d =
     rbind (find_for_fill symbol exchange_segment instrument_type expiry_date strike_price d)
       (\<lambda>existing.
     case existing of
       Some i \<Rightarrow> Inr (i, d)
     | None \<Rightarrow>
         let (pk, d1) = uuid4 d;
             name = derive_name symbol instrument_type expiry_date strike_price in
         rbind (numeric_18_4_opt strike_price) (\<lambda>stored_strike.
         rbind (insert_on_conflict_do_nothing \<lparr>
             i_id = pk, i_symbol = symbol, i_exchange_segment = exchange_segment,
             i_instrument_type = instrument_type, i_expiry_date = expiry_date,
             i_strike_price = stored_strike, i_name = name\<rparr> d1) (\<lambda>d2.
         rbind (find_for_fill symbol exchange_segment instrument_type expiry_date strike_price d2)
           (\<lambda>result.
         case result of
           None \<Rightarrow> Inl (Py RuntimeError)
         | Some i \<Rightarrow> Inr (i, d2)))))"

section \<open>Facts\<close>

text \<open>The identity a request asks for: the columns its type makes relevant.\<close>

definition is_contract ::
  "string \<Rightarrow> string \<Rightarrow> string \<Rightarrow> day option \<Rightarrow> rat option \<Rightarrow> instrument_row \<Rightarrow> bool" where
  "is_contract symbol seg ty e k i \<longleftrightarrow>
     i_symbol i = symbol \<and> i_exchange_segment i = seg \<and> i_instrument_type i = ty \<and>
     (ty = ''EQ'' \<or>
      ty = ''FUT'' \<and> e \<noteq> None \<and> i_expiry_date i = e \<or>
      ty \<in> {''CE'', ''PE''} \<and> e \<noteq> None \<and> k \<noteq> None \<and> i_expiry_date i = e \<and> i_strike_price i = k)"

lemma find_for_fill_Inr:
  "find_for_fill symbol seg ty e k d = Inr r \<Longrightarrow>
   r = map_option i_id (first_row (filter (is_contract symbol seg ty e k) (instruments d)))"
proof -
  assume r: "find_for_fill symbol seg ty e k d = Inr r"
  consider "ty = ''EQ''" | "ty = ''FUT''" | "ty = ''CE''" | "ty = ''PE''"
    | "ty \<notin> {''EQ'', ''FUT'', ''CE'', ''PE''}" by blast
  then show ?thesis
  proof cases
    case 1
    then show ?thesis using r by (simp add: find_for_fill_def find_eq_def is_contract_def [abs_def])
  next
    case 2
    then obtain x where "e = Some x" using r by (auto simp: find_for_fill_def Let_def split: option.splits)
    with 2 show ?thesis using r by (simp add: find_for_fill_def find_futures_def is_contract_def [abs_def])
  next
    case 3
    then obtain x y where "e = Some x" "k = Some y"
      using r by (auto simp: find_for_fill_def Let_def split: option.splits)
    with 3 show ?thesis using r by (simp add: find_for_fill_def find_option_def is_contract_def [abs_def])
  next
    case 4
    then obtain x y where "e = Some x" "k = Some y"
      using r by (auto simp: find_for_fill_def Let_def split: option.splits)
    with 4 show ?thesis using r by (simp add: find_for_fill_def find_option_def is_contract_def [abs_def])
  next
    case 5
    then have "\<not> is_contract symbol seg ty e k i" for i by (auto simp: is_contract_def)
    with 5 show ?thesis using r by (simp add: find_for_fill_def first_row_def)
  qed
qed

lemma find_for_fill_Inl:
  "find_for_fill symbol seg ty e k d = Inl x \<longleftrightarrow>
   x = Imp (InstrumentNotFoundError symbol seg ty) \<and>
   (ty = ''FUT'' \<and> e = None \<or> ty \<in> {''CE'', ''PE''} \<and> (e = None \<or> k = None))"
  by (auto simp: find_for_fill_def Let_def split: option.splits)

text \<open>Whether a lookup raises does not depend on the database.\<close>

lemma find_for_fill_total:
  "find_for_fill symbol seg ty e k d = Inr r \<Longrightarrow> \<exists>r'. find_for_fill symbol seg ty e k d' = Inr r'"
  using find_for_fill_Inl [of symbol seg ty e k d]
  by (cases "find_for_fill symbol seg ty e k d'") (auto simp: find_for_fill_Inl)

lemma numeric_18_4_exact: "dp 4 x \<Longrightarrow> \<bar>x\<bar> < 10 ^ 14 \<Longrightarrow> numeric_18_4 x = Inr x"
proof -
  assume "dp 4 x" "\<bar>x\<bar> < 10 ^ 14"
  then obtain n where n: "x = of_int n / 10 ^ 4" by (elim dpE)
  have "\<bar>rat_of_int n\<bar> < 10 ^ 18" using \<open>\<bar>x\<bar> < 10 ^ 14\<close> by (simp add: n abs_divide)
  then have "rat_of_int \<bar>n\<bar> < of_int (10 ^ 18)" by simp
  then have "\<bar>n\<bar> < 10 ^ 18" by (simp only: of_int_less_iff)
  then show ?thesis by (simp add: numeric_18_4_def n half_up.r_of_int)
qed

text \<open>What a successful \<open>get_or_create\<close> did: found the contract, or added exactly one row for it.\<close>

lemma first_row_append: "first_row (xs @ ys) = (if xs = [] then first_row ys else first_row xs)"
  by (cases xs) (auto simp: first_row_def)

lemma map_option_SomeE: "Some j = map_option f x \<Longrightarrow> \<exists>r. x = Some r \<and> f r = j"
  by (cases x) auto

lemma get_or_create_cases:
  assumes "get_or_create symbol seg ty e k d = Inr (i, d')"
  obtains (found) r where "d' = d" "r \<in> set (instruments d)" "is_contract symbol seg ty e k r" "i_id r = i"
    | (created) row where "i = next_uuid d" "i_id row = i" "is_contract symbol seg ty e k row"
      "instrument_check row" "\<forall>r\<in>set (instruments d). \<not> is_contract symbol seg ty e k r"
      "d' = d\<lparr>next_uuid := Suc (next_uuid d), instruments := instruments d @ [row]\<rparr>"
proof -
  let ?p = "is_contract symbol seg ty e k"
  from assms obtain ex where ex: "find_for_fill symbol seg ty e k d = Inr ex"
    by (auto simp: get_or_create_def result_simps)
  note exr = find_for_fill_Inr [OF ex]
  show thesis
  proof (cases ex)
    case (Some j)
    with assms ex have "i = j" "d' = d" by (simp_all add: get_or_create_def)
    moreover from exr Some obtain r where "first_row (filter ?p (instruments d)) = Some r" "i_id r = j"
      by (auto dest: map_option_SomeE)
    moreover from this(1) have "r \<in> set (instruments d)" "?p r" using first_row_Some by fastforce+
    ultimately show thesis by (intro found) auto
  next
    case None
    then have none: "\<forall>r\<in>set (instruments d). \<not> ?p r"
      using exr by (auto simp: filter_empty_conv)
    from assms ex None obtain ks row d2 where row: "numeric_18_4_opt k = Inr ks"
        "row = \<lparr>i_id = next_uuid d, i_symbol = symbol, i_exchange_segment = seg,
          i_instrument_type = ty, i_expiry_date = e, i_strike_price = ks,
          i_name = derive_name symbol ty e k\<rparr>"
      and ins: "insert_on_conflict_do_nothing row (d\<lparr>next_uuid := Suc (next_uuid d)\<rparr>) = Inr d2"
      and re: "find_for_fill symbol seg ty e k d2 = Inr (Some i)" and d2: "d' = d2"
      by (auto simp: get_or_create_def uuid4_def result_simps split: option.splits)
    from find_for_fill_Inr [OF re] obtain r where
      r: "first_row (filter ?p (instruments d2)) = Some r" "i_id r = i"
      by (auto dest: map_option_SomeE)
    then have rin: "r \<in> set (instruments d2)" "?p r" using first_row_Some by fastforce+
    have "d2 = d\<lparr>next_uuid := Suc (next_uuid d)\<rparr> \<or>
      d2 = d\<lparr>next_uuid := Suc (next_uuid d), instruments := instruments d @ [row]\<rparr>"
      and chk: "instrument_check row"
      using ins by (auto simp: insert_on_conflict_do_nothing_def append_row_def split: if_splits)
    then have d2': "d2 = d\<lparr>next_uuid := Suc (next_uuid d), instruments := instruments d @ [row]\<rparr>"
      using rin none by auto
    with rin none have "r = row" by auto
    with r rin d2 d2' chk none row(2) show thesis by (intro created [of row]) auto
  qed
qed

lemma get_or_create_found:
  assumes "find_for_fill symbol seg ty e k d = Inr (Some i)"
  shows "get_or_create symbol seg ty e k d = Inr (i, d)"
  using assms by (simp add: get_or_create_def)

end
