(* ===== verification/Fill_Store.thy ===== *)
theory Fill_Store
  imports Instruments Repositories
begin

text \<open>
  The insertion of a fill: \<open>insert_normalized_fill\<close> of
  \<open>infrastructure/repositories/fill_repo.py\<close> with what the table \<open>execution_fills\<close> makes of the row
  when the session flushes it. The columns are \<open>NUMERIC(18, 4)\<close>, which round, and identifiers of at
  most 64 characters; then come the CHECK constraints of the rounded row, and the unique indexes of
  the migrations 0002 (broker and fill) and 0008 (fill and account).
\<close>

section \<open>The row of a fill\<close>

definition fill_row ::
  "timestamp \<Rightarrow> uuid \<Rightarrow> uuid \<Rightarrow> uuid \<Rightarrow> normalized_fill \<Rightarrow> uuid \<Rightarrow> execution_fill_row" where
  "fill_row now user_id account_id instrument_id fill pk = \<lparr>
     x_id = pk, x_user_id = user_id, x_account_id = Some account_id,
     x_instrument_id = instrument_id, x_trade_id = None, x_fill_role = None,
     x_fill_timestamp = nf_fill_timestamp fill, x_trade_date = nf_trade_date fill,
     x_session = nf_session fill, x_side = nf_side fill,
     x_quantity = nf_quantity fill, x_price = nf_price fill,
     x_product_type = nf_product_type fill,
     x_exit_type = (if nf_is_expiry_squareoff fill then Some ''EXPIRY_SQUAREOFF'' else None),
     x_order_id = Some (nf_broker_order_id fill), x_fill_id = Some (nf_broker_trade_id fill),
     x_broker = nf_broker fill, x_import_source = nf_import_source fill, x_created_at = now\<rparr>"

definition fill_ids_fit :: "execution_fill_row \<Rightarrow> bool" where
  "fill_ids_fit x \<longleftrightarrow>
     (case x_fill_id x of None \<Rightarrow> True | Some s \<Rightarrow> length s \<le> 64) \<and>
     (case x_order_id x of None \<Rightarrow> True | Some s \<Rightarrow> length s \<le> 64)"

definition fill_conflict :: "execution_fill_row \<Rightarrow> execution_fill_row \<Rightarrow> bool" where
  "fill_conflict x y \<longleftrightarrow>
     x_fill_id x \<noteq> None \<and> x_fill_id y = x_fill_id x \<and>
     (x_broker y = x_broker x \<or> x_account_id x \<noteq> None \<and> x_account_id y = x_account_id x)"

definition flush_fill :: "execution_fill_row \<Rightarrow> db \<Rightarrow> exn + db" where
  "flush_fill x d =
     rbind (numeric_18_4 (x_quantity x)) (\<lambda>quantity.
     rbind (numeric_18_4 (x_price x)) (\<lambda>price.
     rbind (check (fill_ids_fit x) (Py DataError)) (\<lambda>_.
     let row = x\<lparr>x_quantity := quantity, x_price := price\<rparr> in
     rbind (check (fill_check row \<and> \<not> list_ex (fill_conflict row) (execution_fills d)) (Py IntegrityError))
       (\<lambda>_. Inr (d\<lparr>execution_fills := append_row (execution_fills d) row\<rparr>)))))"

definition insert_normalized_fill ::
  "timestamp \<Rightarrow> uuid \<Rightarrow> uuid \<Rightarrow> uuid \<Rightarrow> normalized_fill \<Rightarrow> db \<Rightarrow> exn + uuid \<times> db" where
  "insert_normalized_fill now user_id account_id instrument_id fill d =
     (let (pk, d1) = uuid4 d in
      rbind (flush_fill (fill_row now user_id account_id instrument_id fill pk) d1) (\<lambda>d2.
      Inr (pk, d2)))"

section \<open>Facts\<close>

lemma numeric_18_4_Inl: "numeric_18_4 x = Inl e \<Longrightarrow> e = Py DataError"
  by (auto simp: numeric_18_4_def Let_def split: if_splits)

text \<open>What a stored row is: the fill with its numbers rounded, at the end of the table.\<close>

lemma insert_normalized_fill_Inr:
  assumes "insert_normalized_fill now u a i f d = Inr (pk, d')"
  obtains q p where "numeric_18_4 (nf_quantity f) = Inr q" "numeric_18_4 (nf_price f) = Inr p"
    "pk = next_uuid d"
    "d' = d\<lparr>next_uuid := Suc (next_uuid d), execution_fills := execution_fills d @
       [(fill_row now u a i f pk)\<lparr>x_quantity := q, x_price := p\<rparr>]\<rparr>"
    "fill_check ((fill_row now u a i f pk)\<lparr>x_quantity := q, x_price := p\<rparr>)"
    "\<not> list_ex (fill_conflict (fill_row now u a i f pk)) (execution_fills d)"
proof -
  have c: "fill_conflict (x\<lparr>x_quantity := q, x_price := p\<rparr>) = fill_conflict x" for x q p
    by (rule ext) (simp add: fill_conflict_def)
  from assms show thesis
    unfolding insert_normalized_fill_def uuid4_def Let_def prod.case rbind_eq_Inr flush_fill_def check_eq_Inr
    by (elim exE conjE, intro that) (auto simp: append_row_def c, simp_all add: fill_row_def)
qed

lemma insert_normalized_fill_frame:
  assumes "insert_normalized_fill now u a i f d = Inr (pk, d')"
  shows "trades d' = trades d" and "next_uuid d' = Suc (next_uuid d)"
    and "fill_exclusions d' = fill_exclusions d" and "trading_accounts d' = trading_accounts d"
    and "tax_lots d' = tax_lots d" and "instruments d' = instruments d"
    and "\<exists>x. execution_fills d' = execution_fills d @ [x] \<and> x_id x = next_uuid d \<and> x_trade_id x = None \<and>
      x_account_id x = Some a \<and> x_fill_id x = Some (nf_broker_trade_id f) \<and> fill_check x"
  using assms by (rule insert_normalized_fill_Inr; simp add: fill_row_def)+

text \<open>When a fill is stored: the numbers survive the rounding, the identifiers fit, nothing is in the way.\<close>

definition number_fits :: "rat \<Rightarrow> bool" where
  "number_fits x \<longleftrightarrow> 1 / 20000 \<le> x \<and> x < 10 ^ 14 - 1 / 20000"

lemma numeric_18_4_positive:
  assumes "0 < x"
  shows "(\<exists>y. numeric_18_4 x = Inr y \<and> 0 < y) \<longleftrightarrow> number_fits x"
proof -
  define n where "n = \<lfloor>x * 10 ^ 4 + 1 / 2\<rfloor>"
  have n: "round_half_up (x * 10 ^ 4) = n" using assms by (simp add: round_half_up_def n_def)
  have "0 \<le> n" unfolding n_def using assms by simp
  have "(\<exists>y. numeric_18_4 x = Inr y \<and> 0 < y) \<longleftrightarrow> n < 10 ^ 18 \<and> 0 < n"
  proof (cases "n < 10 ^ 18")
    case True
    then have y: "numeric_18_4 x = Inr (of_int n / 10 ^ 4)"
      using \<open>0 \<le> n\<close> unfolding numeric_18_4_def n Let_def by simp
    have "(\<exists>y. numeric_18_4 x = Inr y \<and> 0 < y) \<longleftrightarrow> 0 < (of_int n / 10 ^ 4 :: rat)"
      by (simp only: y sum.inject simp_thms)
    with True show ?thesis by simp
  next
    case False
    then have "numeric_18_4 x = Inl (Py DataError)"
      using \<open>0 \<le> n\<close> unfolding numeric_18_4_def n Let_def by simp
    with False show ?thesis by simp
  qed
  moreover have "n < 10 ^ 18 \<longleftrightarrow> x * 10 ^ 4 + 1 / 2 < 10 ^ 18" unfolding n_def by (simp add: floor_less_iff)
  moreover have "0 < n \<longleftrightarrow> 1 \<le> x * 10 ^ 4 + 1 / 2" unfolding n_def by (simp add: less_floor_iff)
  ultimately show ?thesis unfolding number_fits_def by auto
qed

lemma insert_normalized_fill_iff:
  assumes "0 < nf_quantity f" and "0 < nf_price f"
    and "\<And>pk q p. 0 < q \<Longrightarrow> 0 < p \<Longrightarrow> fill_check ((fill_row now u a i f pk)\<lparr>x_quantity := q, x_price := p\<rparr>)"
  shows "(\<exists>s. insert_normalized_fill now u a i f d = Inr s) \<longleftrightarrow>
    number_fits (nf_quantity f) \<and> number_fits (nf_price f) \<and>
    length (nf_broker_trade_id f) \<le> 64 \<and> length (nf_broker_order_id f) \<le> 64 \<and>
    (\<forall>x\<in>set (execution_fills d). x_fill_id x = Some (nf_broker_trade_id f) \<longrightarrow>
       x_broker x \<noteq> nf_broker f \<and> x_account_id x \<noteq> Some a)"
proof
  assume "\<exists>s. insert_normalized_fill now u a i f d = Inr s"
  then obtain pk d' where ins: "insert_normalized_fill now u a i f d = Inr (pk, d')" by auto
  have "fill_ids_fit (fill_row now u a i f (next_uuid d))"
    using ins by (auto simp: insert_normalized_fill_def uuid4_def Let_def flush_fill_def result_simps)
  then have ids: "length (nf_broker_trade_id f) \<le> 64" "length (nf_broker_order_id f) \<le> 64"
    by (simp_all add: fill_ids_fit_def fill_row_def)
  from ins obtain q p where r: "numeric_18_4 (nf_quantity f) = Inr q" "numeric_18_4 (nf_price f) = Inr p"
    "fill_check ((fill_row now u a i f pk)\<lparr>x_quantity := q, x_price := p\<rparr>)"
    "\<not> list_ex (fill_conflict (fill_row now u a i f pk)) (execution_fills d)"
    by (rule insert_normalized_fill_Inr)
  have "0 < q" "0 < p" using r(3) by (simp_all add: fill_check_def)
  then have "number_fits (nf_quantity f)" "number_fits (nf_price f)"
    using numeric_18_4_positive assms(1,2) r(1,2) by blast+
  moreover have "\<forall>x\<in>set (execution_fills d). x_fill_id x = Some (nf_broker_trade_id f) \<longrightarrow>
       x_broker x \<noteq> nf_broker f \<and> x_account_id x \<noteq> Some a"
    using r(4) by (simp add: list_ex_iff fill_conflict_def fill_row_def)
  ultimately show "number_fits (nf_quantity f) \<and> number_fits (nf_price f) \<and>
    length (nf_broker_trade_id f) \<le> 64 \<and> length (nf_broker_order_id f) \<le> 64 \<and>
    (\<forall>x\<in>set (execution_fills d). x_fill_id x = Some (nf_broker_trade_id f) \<longrightarrow>
       x_broker x \<noteq> nf_broker f \<and> x_account_id x \<noteq> Some a)" using ids by blast
next
  assume h: "number_fits (nf_quantity f) \<and> number_fits (nf_price f) \<and>
    length (nf_broker_trade_id f) \<le> 64 \<and> length (nf_broker_order_id f) \<le> 64 \<and>
    (\<forall>x\<in>set (execution_fills d). x_fill_id x = Some (nf_broker_trade_id f) \<longrightarrow>
       x_broker x \<noteq> nf_broker f \<and> x_account_id x \<noteq> Some a)"
  let ?x = "fill_row now u a i f (next_uuid d)"
  have "x_quantity ?x = nf_quantity f" "x_price ?x = nf_price f" by (simp_all add: fill_row_def)
  then obtain q p where q: "numeric_18_4 (x_quantity ?x) = Inr q" "0 < q"
    and p: "numeric_18_4 (x_price ?x) = Inr p" "0 < p"
    using h numeric_18_4_positive [OF assms(1)] numeric_18_4_positive [OF assms(2)] by metis
  have "fill_ids_fit ?x" using h by (simp add: fill_ids_fit_def fill_row_def)
  moreover have "fill_check (?x\<lparr>x_quantity := q, x_price := p\<rparr>)" by (rule assms(3) [OF q(2) p(2)])
  moreover have "\<not> list_ex (fill_conflict (?x\<lparr>x_quantity := q, x_price := p\<rparr>)) (execution_fills d)"
    using h by (auto simp: list_ex_iff fill_conflict_def fill_row_def)
  ultimately show "\<exists>s. insert_normalized_fill now u a i f d = Inr s"
    by (simp add: insert_normalized_fill_def uuid4_def Let_def flush_fill_def q p check_def)
qed

end
