(* ===== verification/Trade_Service.thy ===== *)
theory Trade_Service
  imports Reconstruction Accounts Fill_Store
begin

text \<open>
  \<open>application/trade_service.py\<close>: manual trades. \<open>create_trade\<close> records fills, runs the
  reconstruction engine over their processing unit and writes the plan; \<open>add_fill\<close> adds one
  fill to an open trade; \<open>soft_delete_trade\<close> excludes the fills of a manual trade and marks it.
  An error carries no database: the router commits only after a successful return.
\<close>

section \<open>Helpers\<close>

definition derive_fill_session :: "timestamp \<Rightarrow> string" where
  "derive_fill_session fill_timestamp =
     (let t = ist_time fill_timestamp
      in if t < time_of_day 9 15 0 then ''PRE_OPEN''
         else if t \<le> time_of_day 15 30 0 then ''REGULAR''
         else ''POST_CLOSE'')"

definition derive_trade_date :: "timestamp \<Rightarrow> day" where
  "derive_trade_date fill_timestamp = ist_date fill_timestamp"

text \<open>The fills of a request: \<open>{side, quantity, price, fill_timestamp}\<close>.\<close>

record fill_input =
  fi_side :: string
  fi_quantity :: rat
  fi_price :: rat
  fi_fill_timestamp :: timestamp

text \<open>The engine with the two exceptions the service turns into its own.\<close>

definition reconstruct ::
  "uuid \<Rightarrow> uuid \<Rightarrow> uuid \<Rightarrow> string \<Rightarrow> string \<Rightarrow> db \<Rightarrow> exn + db \<times> reconstruction_result" where
  "reconstruct user_id account_id instrument_id product_type instrument_type d =
     (case run True user_id account_id instrument_id product_type instrument_type d of
        Inl (Recon (ReconstructionDataError r)) \<Rightarrow>
          Inl (Svc (ReconstructionFailedError (Some (ReconstructionDataError r))))
      | Inl (Recon (ReconstructionConsistencyError r)) \<Rightarrow>
          Inl (Svc (ReconstructionFailedError (Some (ReconstructionConsistencyError r))))
      | result \<Rightarrow> result)"

definition stop_on_wrong_side :: "string \<Rightarrow> rat \<Rightarrow> rat \<Rightarrow> bool" where
  "stop_on_wrong_side direction planned_stop avg_entry \<longleftrightarrow>
     direction = ''LONG'' \<and> avg_entry \<le> planned_stop \<or>
     direction = ''SHORT'' \<and> planned_stop \<le> avg_entry"

definition planned_risk :: "rat \<Rightarrow> rat \<Rightarrow> rat \<Rightarrow> rat" where
  "planned_risk avg_entry planned_stop total_qty = dmul (dabs (dsub avg_entry planned_stop)) total_qty"

section \<open>create_trade\<close>

definition manual_fill ::
  "string \<Rightarrow> string \<Rightarrow> string \<Rightarrow> string \<Rightarrow> string \<Rightarrow> string \<Rightarrow> day option \<Rightarrow> rat option \<Rightarrow> string \<Rightarrow>
   fill_input \<Rightarrow> normalized_fill" where
  "manual_fill broker_trade_id broker_order_id symbol_raw exchange exchange_segment
     instrument_type expiry_date strike_price product_type f = \<lparr>
     nf_broker_trade_id = broker_trade_id, nf_broker_order_id = broker_order_id,
     nf_broker = ''MANUAL'', nf_import_source = ''MANUAL'', nf_symbol_raw = symbol_raw,
     nf_exchange = exchange, nf_exchange_segment = exchange_segment,
     nf_instrument_type = instrument_type, nf_expiry_date = expiry_date,
     nf_strike_price = strike_price, nf_trade_date = derive_trade_date (fi_fill_timestamp f),
     nf_fill_timestamp = fi_fill_timestamp f,
     nf_session = derive_fill_session (fi_fill_timestamp f),
     nf_side = fi_side f, nf_quantity = fi_quantity f, nf_price = fi_price f,
     nf_product_type = product_type, nf_is_auction = False, nf_is_expiry_squareoff = False\<rparr>"

fun insert_manual_fills ::
  "timestamp \<Rightarrow> uuid \<Rightarrow> uuid \<Rightarrow> uuid \<Rightarrow> string \<Rightarrow> string \<Rightarrow> string \<Rightarrow> day option \<Rightarrow> rat option \<Rightarrow>
   string \<Rightarrow> fill_input list \<Rightarrow> db \<Rightarrow> exn + db" where
  "insert_manual_fills now user_id account_id instrument_id instrument_symbol exchange_segment
     instrument_type expiry_date strike_price product_type [] d = Inr d"
| "insert_manual_fills now user_id account_id instrument_id instrument_symbol exchange_segment
     instrument_type expiry_date strike_price product_type (f # fs) d =
     (let (trade_uuid, d1) = uuid4 d;
          (order_uuid, d2) = uuid4 d1;
          normalized = manual_fill (uuid_str trade_uuid) (uuid_str order_uuid)
            (upper instrument_symbol) (hd (split_at CHR ''_'' exchange_segment)) exchange_segment
            instrument_type expiry_date strike_price product_type f
      in rbind (insert_normalized_fill now user_id account_id instrument_id normalized d2) (\<lambda>(pk, d3).
         insert_manual_fills now user_id account_id instrument_id instrument_symbol
           exchange_segment instrument_type expiry_date strike_price product_type fs d3))"

text \<open>
  A row is checked when it is added; the code adds all of them and flushes once, which ends with the
  error of the first row that the table refuses.
\<close>

text \<open>Step 8: the plan of the affected trade. The columns are \<open>NUMERIC(18, 4)\<close>.\<close>

definition write_plan :: "uuid \<Rightarrow> rat option \<Rightarrow> rat option \<Rightarrow> db \<Rightarrow> exn + db" where
  "write_plan trade_id planned_stop planned_target d =
     (if planned_stop = None \<and> planned_target = None then Inr d
      else case get_by t_id (trades d) trade_id of
        None \<Rightarrow> Inl (Svc (ReconstructionFailedError None))
      | Some trade_row \<Rightarrow>
          rbind (case planned_stop of
                   None \<Rightarrow> Inr (\<lambda>t. t)
                 | Some stop \<Rightarrow>
                     (case t_average_entry trade_row of
                        None \<Rightarrow> Inl (Py InvalidOperation)
                      | Some avg_entry \<Rightarrow>
                          if stop_on_wrong_side (t_direction trade_row) stop avg_entry
                          then Inl (Svc (PlannedStopWrongSideError (t_direction trade_row)))
                          else
                            rbind (numeric_18_4 stop) (\<lambda>stored_stop.
                            rbind (numeric_18_4 (planned_risk avg_entry stop
                                     (t_total_entry_quantity trade_row))) (\<lambda>risk.
                            Inr (\<lambda>t. t\<lparr>t_planned_stop := Some stored_stop,
                                         t_planned_risk_amount := Some risk\<rparr>)))))
            (\<lambda>set_stop.
          rbind (case planned_target of
                   None \<Rightarrow> Inr (\<lambda>t. t)
                 | Some target \<Rightarrow>
                     rbind (numeric_18_4 target) (\<lambda>stored_target.
                     Inr (\<lambda>t. t\<lparr>t_planned_target := Some stored_target\<rparr>)))
            (\<lambda>set_target.
          Inr (update_trade trade_id (\<lambda>t. set_target (set_stop t)) d))))"

definition backfill_after :: "uuid \<Rightarrow> reconstruction_result \<Rightarrow> db \<Rightarrow> db" where
  "backfill_after user_id result d =
     (if 0 < trades_closed result then fst (backfill_all_closed user_id d) else d)"

definition resolve_account :: "uuid \<Rightarrow> uuid \<Rightarrow> db \<Rightarrow> exn + trading_account_row" where
  "resolve_account user_id account_id d =
     (case get_active user_id account_id d of
        Inl (Imp (AccountInactiveError _)) \<Rightarrow> Inl (Imp (AccountNotFoundError account_id))
      | result \<Rightarrow> result)"

definition create_trade ::
  "timestamp \<Rightarrow> uuid \<Rightarrow> uuid \<Rightarrow> string \<Rightarrow> string \<Rightarrow> string \<Rightarrow> string \<Rightarrow> fill_input list \<Rightarrow>
   day option \<Rightarrow> rat option \<Rightarrow> rat option \<Rightarrow> rat option \<Rightarrow> db \<Rightarrow> exn + trade_row \<times> db" where
  "create_trade now user_id account_id instrument_symbol exchange_segment instrument_type
     product_type fills expiry_date strike_price planned_stop planned_target d =
     rbind (resolve_account user_id account_id d) (\<lambda>account.
     rbind (get_or_create instrument_symbol exchange_segment instrument_type expiry_date
              strike_price d) (\<lambda>(instrument_id, d1).
     rbind (insert_manual_fills now user_id (a_id account) instrument_id instrument_symbol
              exchange_segment instrument_type expiry_date strike_price product_type fills d1) (\<lambda>d2.
     rbind (reconstruct user_id (a_id account) instrument_id product_type instrument_type d2)
       (\<lambda>(d3, result).
     case affected_trade_id result of
       None \<Rightarrow> Inl (Svc (ReconstructionFailedError None))
     | Some affected \<Rightarrow>
         rbind (write_plan affected planned_stop planned_target d3) (\<lambda>d4.
         let d5 = backfill_after user_id result d4 in
         case get_by t_id (trades d5) affected of
           None \<Rightarrow> Inl (Py UnmappedInstanceError)  \<comment> \<open>\<open>session.refresh(None)\<close>\<close>
         | Some trade \<Rightarrow> Inr (trade, d5))))))"

section \<open>add_fill\<close>

text \<open>
  The ownership query on \<open>trading_accounts\<close>; a trade without account binds the text \<open>None\<close>,
  which PostgreSQL rejects.
\<close>

definition owns_account :: "uuid \<Rightarrow> uuid option \<Rightarrow> db \<Rightarrow> exn + bool" where
  "owns_account user_id account_id d =
     (case account_id of
        None \<Rightarrow> Inl (Py DataError)
      | Some a \<Rightarrow> Inr (get_account_for_user user_id a d \<noteq> None))"

definition refresh_planned_risk :: "uuid \<Rightarrow> db \<Rightarrow> exn + db" where
  "refresh_planned_risk trade_id d =
     (case get_by t_id (trades d) trade_id of
        None \<Rightarrow> Inr d
      | Some t \<Rightarrow>
          (case (t_average_entry t, t_planned_stop t) of
             (Some avg_entry, Some stop) \<Rightarrow>
               if stop_on_wrong_side (t_direction t) stop avg_entry
               then Inl (Svc (PlannedStopWrongSideError (t_direction t)))
               else rbind (numeric_18_4 (planned_risk avg_entry stop (t_total_entry_quantity t)))
                      (\<lambda>risk. Inr (update_trade trade_id
                                 (\<lambda>t. t\<lparr>t_planned_risk_amount := Some risk\<rparr>) d))
           | (Some avg_entry, None) \<Rightarrow> Inl (Py InvalidOperation)  \<comment> \<open>\<open>Decimal('None')\<close>\<close>
           | (None, _) \<Rightarrow> Inr d))"

definition live_trade :: "uuid \<Rightarrow> db \<Rightarrow> exn + trade_row" where
  "live_trade trade_id d =
     (case get_by t_id (trades d) trade_id of
        None \<Rightarrow> Inl (Svc (TradeNotFoundError trade_id))
      | Some t \<Rightarrow> if t_is_deleted t then Inl (Svc (TradeNotFoundError trade_id)) else Inr t)"

definition add_fill ::
  "timestamp \<Rightarrow> uuid \<Rightarrow> uuid \<Rightarrow> fill_input \<Rightarrow> db \<Rightarrow> exn + trade_row \<times> db" where
  "add_fill now user_id trade_id f d =
     rbind (live_trade trade_id d) (\<lambda>trade_row.
     rbind (owns_account user_id (t_account_id trade_row) d) (\<lambda>owned.
     rbind (check owned (Svc (TradeNotOwnedError trade_id))) (\<lambda>_.
     rbind (check (t_status trade_row \<noteq> ''CLOSED'') (Svc (TradeAlreadyClosedError trade_id)))
       (\<lambda>_.
     rbind (check (\<not> fi_fill_timestamp f < t_first_fill_at trade_row)
              (Svc (FillTimestampBeforeTradeOpenError (fi_fill_timestamp f)
                      (t_first_fill_at trade_row)))) (\<lambda>_.
     rbind (case get_by i_id (instruments d) (t_instrument_id trade_row) of
              None \<Rightarrow> Inl (Svc (ReconstructionFailedError None))
            | Some i \<Rightarrow> Inr (i_instrument_type i)) (\<lambda>instrument_type.
     rbind (product_type_from_trade_type (t_trade_type trade_row)) (\<lambda>product_type.
     let account_id = the (t_account_id trade_row);
         (trade_uuid, d1) = uuid4 d;
         (order_uuid, d2) = uuid4 d1;
         normalized = manual_fill (uuid_str trade_uuid) (uuid_str order_uuid) ''MANUAL''
           ''MANUAL'' ''MANUAL'' instrument_type None None product_type f in
     rbind (insert_normalized_fill now user_id account_id (t_instrument_id trade_row) normalized d2)
       (\<lambda>(pk, d3).
     rbind (reconstruct user_id account_id (t_instrument_id trade_row) product_type
              instrument_type d3) (\<lambda>(d4, result).
     rbind (if t_planned_stop trade_row \<noteq> None then refresh_planned_risk trade_id d4 else Inr d4)
       (\<lambda>d5.
     let d6 = backfill_after user_id result d5 in
     case get_by t_id (trades d6) trade_id of
       None \<Rightarrow> Inl (Svc (ReconstructionFailedError None))
     | Some trade_final \<Rightarrow> Inr (trade_final, d6)))))))))))"

section \<open>soft_delete_trade\<close>

fun exclude_fills :: "uuid \<Rightarrow> uuid list \<Rightarrow> db \<Rightarrow> db" where
  "exclude_fills user_id [] d = d"
| "exclude_fills user_id (x # xs) d =
     exclude_fills user_id xs (snd (create_exclusion x ''USER_DELETED_TRADE'' [] user_id d))"

definition soft_delete_trade :: "uuid \<Rightarrow> uuid \<Rightarrow> db \<Rightarrow> exn + db" where
  "soft_delete_trade user_id trade_id d =
     rbind (live_trade trade_id d) (\<lambda>trade_row.
     rbind (owns_account user_id (t_account_id trade_row) d) (\<lambda>owned.
     rbind (check owned (Svc (TradeNotOwnedError trade_id))) (\<lambda>_.
     let fills = filter (\<lambda>x. x_trade_id x = Some trade_id) (execution_fills d);
         non_manual = filter (\<lambda>x. x_import_source x \<noteq> ''MANUAL'') fills;
         excluded_ids = get_excluded_fill_ids_for_trade trade_id d;
         fills_to_exclude = filter (\<lambda>x. x_id x \<notin> set excluded_ids) fills in
     rbind (check (non_manual = []) (Svc (TradeNotManualError trade_id))) (\<lambda>_.
     Inr (update_trade trade_id (\<lambda>t. t\<lparr>t_is_deleted := True\<rparr>)
            (exclude_fills user_id (map x_id fills_to_exclude) d))))))"

end
