(* ===== verification/Trade_Service_Facts.thy ===== *)
theory Trade_Service_Facts
  imports Trade_Service Recon_Engine
begin

text \<open>
  What the operations of the trade service leave alone: a run writes only the trade it resumed and
  trades it created itself, and links fills only to them; the plan is written to the affected
  trade, the backfill writes P and L rows. So an operation on an account spares every other account,
  and every deleted trade with its fills, the identifiers being distinct.
\<close>

section \<open>The trades a run can write\<close>

definition kept :: "uuid set \<Rightarrow> uuid \<Rightarrow> trade_row list \<Rightarrow> trade_row list \<Rightarrow> bool" where
  "kept S n0 ts ts' \<longleftrightarrow>
     filter (\<lambda>t. t_id t \<notin> S \<and> t_id t < n0) ts' = filter (\<lambda>t. t_id t \<notin> S \<and> t_id t < n0) ts"

lemma kept_refl [simp]: "kept S n0 ts ts"
  by (simp add: kept_def)

lemma kept_append: "kept S n0 ts ts' \<Longrightarrow> n0 \<le> t_id r \<Longrightarrow> kept S n0 ts (append_row ts' r)"
  by (simp add: kept_def append_row_def)

lemma filter_update_by_other:
  assumes "\<And>t. key (f t) = key t" and "\<And>t. t \<in> set ts \<Longrightarrow> key t = k \<Longrightarrow> \<not> P t \<and> \<not> P (f t)"
  shows "filter P (update_by key k f ts) = filter P ts"
  using assms(2) by (induction ts) (auto simp: update_by_def)

lemma kept_update:
  assumes "kept S n0 ts ts'" and "k \<in> S \<or> n0 \<le> k" and "\<And>t. t_id (f t) = t_id t"
  shows "kept S n0 ts (update_by t_id k f ts')"
  using assms(1) filter_update_by_other [of t_id f ts' k "\<lambda>t. t_id t \<notin> S \<and> t_id t < n0"] assms(2,3)
  unfolding kept_def by auto

text \<open>The account of each trade stays, and the trades that are added are of the account of the run.\<close>

definition owner :: "trade_row \<Rightarrow> uuid \<times> uuid option" where
  "owner t = (t_id t, t_account_id t)"

definition owned :: "uuid \<Rightarrow> trade_row list \<Rightarrow> trade_row list \<Rightarrow> bool" where
  "owned a ts ts' \<longleftrightarrow> (\<exists>new. map owner ts' = map owner ts @ new \<and> snd ` set new \<subseteq> {Some a})"

lemma owned_refl [simp]: "owned a ts ts"
  by (simp add: owned_def)

lemma owned_append: "owned a ts ts' \<Longrightarrow> t_account_id r = Some a \<Longrightarrow> owned a ts (append_row ts' r)"
  by (auto simp: owned_def append_row_def owner_def)

lemma owners_update: "(\<And>t. owner (f t) = owner t) \<Longrightarrow> map owner (update_by t_id k f ts) = map owner ts"
  by (induction ts) (auto simp: update_by_def)

lemma owned_update: "owned a ts ts' \<Longrightarrow> (\<And>t. owner (f t) = owner t) \<Longrightarrow> owned a ts (update_by t_id k f ts')"
  by (simp add: owned_def owners_update)

text \<open>Trade identifiers are distinct and below the next fresh one.\<close>

definition trade_ids_ok :: "db \<Rightarrow> bool" where
  "trade_ids_ok d \<longleftrightarrow> distinct (map t_id (trades d)) \<and> (\<forall>t\<in>set (trades d). t_id t < next_uuid d)"

lemma trade_ids_ok_same: "trades d' = trades d \<Longrightarrow> next_uuid d \<le> next_uuid d' \<Longrightarrow> trade_ids_ok d \<Longrightarrow> trade_ids_ok d'"
  by (auto simp: trade_ids_ok_def)

lemma trade_ids_ok_update:
  "trades d' = update_by t_id k f (trades d) \<Longrightarrow> next_uuid d' = next_uuid d \<Longrightarrow>
   (\<And>t. t_id (f t) = t_id t) \<Longrightarrow> trade_ids_ok d \<Longrightarrow> trade_ids_ok d'"
  by (auto simp: trade_ids_ok_def in_update_by)

lemma trade_ids_ok_append:
  "trades d' = append_row (trades d) r \<Longrightarrow> next_uuid d < next_uuid d' \<Longrightarrow> t_id r = next_uuid d \<Longrightarrow>
   trade_ids_ok d \<Longrightarrow> trade_ids_ok d'"
  by (auto simp: trade_ids_ok_def append_row_def dest: less_trans)

definition writes_only :: "uuid \<Rightarrow> uuid set \<Rightarrow> uuid \<Rightarrow> trade_row list \<Rightarrow> run_state \<Rightarrow> bool" where
  "writes_only a S n0 ts s \<longleftrightarrow>
     (\<forall>c. rs_current s = Some c \<longrightarrow> ot_id c \<in> S \<or> n0 \<le> ot_id c) \<and>
     (\<forall>k. affected_trade_id (rs_result s) = Some k \<longrightarrow> k \<in> S \<or> n0 \<le> k) \<and>
     n0 \<le> next_uuid (rs_db s) \<and> kept S n0 ts (trades (rs_db s)) \<and>
     owned a ts (trades (rs_db s)) \<and> trade_ids_ok (rs_db s)"

lemma trades_writes [simp]:
  "trades (update_lot l h d) = trades d" "next_uuid (update_lot l h d) = next_uuid d"
  "trades (create_lot pk tid uid iid day q q' c d) = trades d"
  "next_uuid (create_lot pk tid uid iid day q q' c d) = next_uuid d"
  "trades (create_trade_row r d) = append_row (trades d) r"
  "next_uuid (create_trade_row r d) = next_uuid d"
  "trades (update_trade k g d) = update_by t_id k g (trades d)"
  "next_uuid (update_trade k g d) = next_uuid d"
  "trades (assign_trade x k role d) = trades d"
  "next_uuid (assign_trade x k role d) = next_uuid d"
  by (simp_all add: update_lot_def create_lot_def create_trade_row_def update_trade_def assign_trade_def)

lemma scale_in_lot_trades:
  assumes "update_lot_on_scale_in t q avg d res = Inr (d', res')"
  shows "trades d' = trades d" "next_uuid d' = next_uuid d" "affected_trade_id res' = affected_trade_id res"
  using assms by (auto simp: update_lot_on_scale_in_def result_simps Let_def split: option.splits)

lemma exit_lot_trades:
  assumes "decrement_lot_on_exit u i f d res = Inr (d', res')"
  shows "trades d' = trades d" "next_uuid d' = next_uuid d" "affected_trade_id res' = affected_trade_id res"
  using assms
  by (auto simp: decrement_lot_on_exit_def result_simps Let_def split: option.splits if_splits)

lemma open_new_trade_row:
  assumes "open_new_trade u i fam itype f s = Inr (tid, role, s')"
  shows "tid = next_uuid (rs_db s) \<and> (\<exists>r. t_id r = tid \<and> t_account_id r = fr_account_id f \<and>
    trades (rs_db s') = append_row (trades (rs_db s)) r) \<and> next_uuid (rs_db s) < next_uuid (rs_db s') \<and>
    (\<exists>c. rs_current s' = Some c \<and> ot_id c = tid) \<and> affected_trade_id (rs_result s') = Some tid"
  using assms
  by (auto simp: open_new_trade_def result_simps Let_def uuid4_def split: prod.splits if_splits)
    (auto simp: new_trade_row_def append_row_def)

lemma open_new_trade_writes:
  assumes "open_new_trade u i fam itype f s = Inr (tid, role, s')" and "writes_only a S n0 ts s"
    and "fr_account_id f = Some a"
  shows "writes_only a S n0 ts s' \<and> n0 \<le> tid"
  using open_new_trade_row [OF assms(1)] assms(2,3)
  by (auto simp: writes_only_def intro!: kept_append owned_append elim!: trade_ids_ok_append [rotated -1])

lemma scale_in_writes:
  assumes "scale_in fam c f s = Inr s'" and "writes_only a S n0 ts s" and "ot_id c \<in> S \<or> n0 \<le> ot_id c"
  shows "writes_only a S n0 ts s'"
  using assms
  by (auto simp: scale_in_def result_simps Let_def writes_only_def scale_in_lot_trades owner_def
      split: prod.splits if_splits intro!: kept_update owned_update elim!: trade_ids_ok_update [rotated -1])

lemma exit_fill_writes:
  assumes "exit_fill b u i fam c f s = Inr s'" and "writes_only a S n0 ts s"
    and "rs_current s = Some c"
  shows "writes_only a S n0 ts s'"
proof -
  have id: "ot_id c \<in> S \<or> n0 \<le> ot_id c" using assms(2,3) by (simp add: writes_only_def)
  obtain new_exit new_net d1 res where
    d1: "(if fam = DELIVERY then decrement_lot_on_exit u i f (rs_db s) (rs_result s)
      else Inr (rs_db s, rs_result s)) = Inr (d1, res)"
    and rest: "(if new_net = 0 then
        rbind (compute_average_exit (rs_exit_fills s @ [f])) (\<lambda>avg.
        rbind (quantize PRICE avg) (\<lambda>avg_exit.
        let final_trade_type =
              finalize_trade_type (ot_trade_type c) (ot_trade_date c) (fr_trade_date f);
            d2 = update_trade (ot_id c)
                   (\<lambda>t. t\<lparr>t_status := ''CLOSED'', t_last_fill_at := Some (fr_fill_timestamp f),
                          t_average_exit := Some avg_exit, t_net_position := 0,
                          t_total_exit_quantity := new_exit,
                          t_trade_type := final_trade_type\<rparr>) d1
        in
        rbind (if fam = DELIVERY then assert_lot_closed (ot_id c) f d2 else Inr ()) (\<lambda>_.
        rbind (trigger_pnl b (ot_id c) u d2) (\<lambda>d3.
        Inr (s\<lparr>
          rs_db := d3,
          rs_result := res\<lparr>trades_closed := Suc (trades_closed res)\<rparr>,
          rs_current := None,
          rs_entry_value := 0,
          rs_entry_qty := 0,
          rs_exit_fills := []\<rparr>)))))
      else
        Inr (s\<lparr>
          rs_db := update_trade (ot_id c)
                     (\<lambda>t. t\<lparr>t_status := ''PARTIAL'',
                            t_last_fill_at := Some (fr_fill_timestamp f),
                            t_total_exit_quantity := new_exit,
                            t_net_position := new_net\<rparr>) d1,
          rs_result := res,
          rs_current := Some (c\<lparr>ot_status := ''PARTIAL'',
            ot_total_exit_quantity := new_exit, ot_net_position := new_net\<rparr>),
          rs_exit_fills := rs_exit_fills s @ [f]\<rparr>)) = Inr s'"
    using assms(1) unfolding exit_fill_def Let_def rbind_eq_Inr by auto
  have d1': "trades d1 = trades (rs_db s)" "next_uuid d1 = next_uuid (rs_db s)"
    "affected_trade_id res = affected_trade_id (rs_result s)"
    using d1 by (auto split: if_splits dest: exit_lot_trades)
  show ?thesis
  proof (cases "new_net = 0")
    case True
    define g where "g avg_exit t = t\<lparr>t_status := ''CLOSED'',
        t_last_fill_at := Some (fr_fill_timestamp f), t_average_exit := Some avg_exit,
        t_net_position := 0, t_total_exit_quantity := new_exit,
        t_trade_type := finalize_trade_type (ot_trade_type c) (ot_trade_date c) (fr_trade_date f)\<rparr>"
      for avg_exit :: rat and t :: trade_row
    have g: "t_id (g avg t) = t_id t" "owner (g avg t) = owner t" for avg t by (simp_all add: g_def owner_def)
    from True rest obtain avg d3 where
      d3: "trigger_pnl b (ot_id c) u (update_trade (ot_id c) (g avg) d1) = Inr d3"
      and s': "rs_db s' = d3" "rs_current s' = None"
        "affected_trade_id (rs_result s') = affected_trade_id res"
      by (auto simp: rbind_eq_Inr Let_def g_def [abs_def])
    note d3' = trigger_pnl_same [OF d3]
    have "kept S n0 ts (update_by t_id (ot_id c) (g avg) (trades (rs_db s)))"
      "owned a ts (update_by t_id (ot_id c) (g avg) (trades (rs_db s)))"
      using assms(2) id g by (auto intro!: kept_update owned_update simp: writes_only_def)
    moreover have "trade_ids_ok d3"
      by (rule trade_ids_ok_update [of d3 "ot_id c" "g avg" "rs_db s"])
        (use assms(2) d3' d1' g in \<open>simp_all add: writes_only_def\<close>)
    ultimately show ?thesis using assms(2) s' d3' d1' by (simp add: writes_only_def)
  next
    case False
    with rest have s': "s' = s\<lparr>
          rs_db := update_trade (ot_id c)
                     (\<lambda>t. t\<lparr>t_status := ''PARTIAL'',
                            t_last_fill_at := Some (fr_fill_timestamp f),
                            t_total_exit_quantity := new_exit,
                            t_net_position := new_net\<rparr>) d1,
          rs_result := res,
          rs_current := Some (c\<lparr>ot_status := ''PARTIAL'',
            ot_total_exit_quantity := new_exit, ot_net_position := new_net\<rparr>),
          rs_exit_fills := rs_exit_fills s @ [f]\<rparr>" by simp
    show ?thesis using assms(2) id d1' unfolding s' writes_only_def
      by (auto intro!: kept_update owned_update simp: owner_def elim!: trade_ids_ok_update [rotated -1])
  qed
qed

text \<open>A fill that a run links is linked to a trade it resumed or created.\<close>

definition new_links :: "uuid set \<Rightarrow> uuid \<Rightarrow> execution_fill_row list \<Rightarrow> execution_fill_row list \<Rightarrow> bool" where
  "new_links S n0 xs xs' \<longleftrightarrow>
     (\<forall>y k. y \<in> set xs' \<and> x_trade_id y = Some k \<and> k \<notin> S \<and> k < n0 \<longrightarrow> y \<in> set xs)"

lemma new_links_assign:
  "new_links S n0 xs xs' \<Longrightarrow> k \<in> S \<or> n0 \<le> k \<Longrightarrow>
   new_links S n0 xs (update_by x_id i (\<lambda>x. x\<lparr>x_trade_id := Some k, x_fill_role := Some role\<rparr>) xs')"
  by (auto simp: new_links_def in_update_by split: if_splits)

lemma process_fill_writes:
  assumes "process_fill b u i fam itype f s = Inr s'" and "writes_only a S n0 ts s"
    and "new_links S n0 xs (execution_fills (rs_db s))" and "fr_account_id f = Some a"
  shows "writes_only a S n0 ts s' \<and> new_links S n0 xs (execution_fills (rs_db s'))"
proof -
  obtain tid role s1 np where step: "(case rs_current s of
      None \<Rightarrow> open_new_trade u i fam itype f s
    | Some cur \<Rightarrow>
        rbind (fill_role_for (ot_direction cur) (fr_side f)) (\<lambda>fill_role.
        rbind (if fill_role = ''ENTRY'' then scale_in fam cur f s
               else exit_fill b u i fam cur f s)
          (\<lambda>s'. Inr (ot_id cur, fill_role, s')))) = Inr (tid, role, s1)"
    and s': "s' = s1\<lparr>
       rs_db := assign_trade (fr_id f) tid role (rs_db s1),
       rs_position := np,
       rs_result := (rs_result s1)\<lparr>fills_processed := Suc (fills_processed (rs_result s1))\<rparr>\<rparr>"
    using assms(1) unfolding process_fill_def rbind_eq_Inr Let_def by auto
  have "writes_only a S n0 ts s1 \<and> (tid \<in> S \<or> n0 \<le> tid) \<and> same_fills (rs_db s) (rs_db s1)"
  proof (cases "rs_current s")
    case None
    with step show ?thesis
      using open_new_trade_writes [OF _ assms(2,4)] by (auto dest: open_new_trade_frame)
  next
    case (Some c)
    with step have "(scale_in fam c f s = Inr s1 \<or> exit_fill b u i fam c f s = Inr s1) \<and> tid = ot_id c"
      by (auto simp: rbind_eq_Inr split: if_splits)
    moreover have "ot_id c \<in> S \<or> n0 \<le> ot_id c" using assms(2) Some by (simp add: writes_only_def)
    ultimately show ?thesis
      using scale_in_writes [OF _ assms(2)] exit_fill_writes [OF _ assms(2) Some]
      by (auto dest: scale_in_frame exit_fill_frame)
  qed
  then show ?thesis
    using assms(3) by (auto simp: s' writes_only_def same_fills_def assign_trade_def intro!: new_links_assign
        elim!: trade_ids_ok_same [rotated -1])
qed

text \<open>The identifiers of open trades of a unit.\<close>

definition open_ids :: "uuid \<Rightarrow> uuid \<Rightarrow> uuid \<Rightarrow> product_type_family \<Rightarrow> db \<Rightarrow> uuid set" where
  "open_ids u a i fam d = t_id ` set (filter (is_open_trade u a i fam) (trades d))"

lemma open_trade_id:
  "get_open_trade_with_lock u a i fam d = Inr (Some c) \<Longrightarrow> ot_id c \<in> open_ids u a i fam d"
proof -
  assume "get_open_trade_with_lock u a i fam d = Inr (Some c)"
  then obtain row where row: "scalar_one_or_none (Py MultipleResultsFound)
      (filter (is_open_trade u a i fam) (trades d)) = Inr row"
    and c: "(case row of None \<Rightarrow> Inr None | Some r \<Rightarrow> rbind (to_snapshot r) (\<lambda>s. Inr (Some s))) = Inr (Some c)"
    unfolding get_open_trade_with_lock_def rbind_eq_Inr by blast
  from c obtain r where r: "row = Some r" "to_snapshot r = Inr c"
    by (cases row) (auto simp: rbind_eq_Inr)
  from r(2) have "ot_id c = t_id r" unfolding to_snapshot_def by (cases "t_average_entry r") auto
  moreover from row r(1) have "filter (is_open_trade u a i fam) (trades d) = [r]"
    by (simp add: scalar_one_or_none_Some)
  ultimately show ?thesis by (simp add: open_ids_def)
qed

lemma run_writes:
  assumes "run b u a i p itype d = Inr (d', res)" and "product_type_family_for p = Inr fam"
    and "trade_ids_ok d"
  shows "kept (open_ids u a i fam d) (next_uuid d) (trades d) (trades d')"
    and "owned a (trades d) (trades d')"
    and "affected_trade_id res = Some k \<Longrightarrow> k \<in> open_ids u a i fam d \<or> next_uuid d \<le> k"
    and "next_uuid d \<le> next_uuid d'" and "trade_ids_ok d'"
    and "new_links (open_ids u a i fam d) (next_uuid d) (execution_fills d) (execution_fills d')"
proof -
  let ?S = "open_ids u a i fam d"
  let ?P = "\<lambda>s. writes_only a ?S (next_uuid d) (trades d) s \<and>
    new_links ?S (next_uuid d) (execution_fills d) (execution_fills (rs_db s))"
  have "kept ?S (next_uuid d) (trades d) (trades d') \<and> owned a (trades d) (trades d') \<and>
    next_uuid d \<le> next_uuid d' \<and> trade_ids_ok d' \<and>
    (\<forall>k. affected_trade_id res = Some k \<longrightarrow> k \<in> ?S \<or> next_uuid d \<le> k) \<and>
    new_links ?S (next_uuid d) (execution_fills d) (execution_fills d')"
  proof (cases "get_unprocessed_fills u a i p d = []")
    case True
    with assms show ?thesis by (auto simp: run_def result_simps empty_result_def new_links_def)
  next
    case False
    with assms obtain cur s where cur: "get_open_trade_with_lock u a i fam d = Inr cur"
      and fold: "rfold (process_fill b u i fam itype) (get_unprocessed_fills u a i p d)
        (init_run_state cur d) = Inr s" and d': "d' = rs_db s" "res = rs_result s"
      unfolding run_def Let_def by (auto simp: rbind_eq_Inr)
    have init: "?P (init_run_state cur d)"
      using cur assms(3) by (cases cur) (auto simp: init_run_state_def writes_only_def empty_result_def
          new_links_def dest: open_trade_id)
    have acc: "fr_account_id f = Some a" if "f \<in> set (get_unprocessed_fills u a i p d)" for f
      using that by (auto simp: get_unprocessed_fills_def is_unprocessed_def to_record_def)
    have "?P s"
      by (rule rfold_invariant [OF fold, of ?P]) (use init acc process_fill_writes in blast)+
    then show ?thesis by (simp add: d' writes_only_def)
  qed
  then show "kept ?S (next_uuid d) (trades d) (trades d')" "owned a (trades d) (trades d')"
    "next_uuid d \<le> next_uuid d'" "trade_ids_ok d'"
    "affected_trade_id res = Some k \<Longrightarrow> k \<in> ?S \<or> next_uuid d \<le> k"
    "new_links ?S (next_uuid d) (execution_fills d) (execution_fills d')" by auto
qed

lemma run_family: "run b u a i p itype d = Inr r \<Longrightarrow> \<exists>fam. product_type_family_for p = Inr fam"
  by (auto simp: run_def result_simps)

lemma run_same_inputs:
  assumes "run b u a i p itype d = Inr (d', res)"
  shows "same_inputs d d'"
proof (cases "get_unprocessed_fills u a i p d = []")
  case True
  with assms show ?thesis by (auto simp: run_def result_simps)
next
  case False
  with assms obtain fam cur s where
    fold: "rfold (process_fill b u i fam itype) (get_unprocessed_fills u a i p d)
      (init_run_state cur d) = Inr s" and d': "d' = rs_db s"
    unfolding run_def Let_def by (auto simp: rbind_eq_Inr)
  have "rs_db (init_run_state cur d) = d" by (cases cur) (simp_all add: init_run_state_def)
  with rfold_fills [OF fold] d' show ?thesis by simp
qed

lemma reconstruct_Inr:
  "reconstruct u a i p itype d = Inr r \<longleftrightarrow> run True u a i p itype d = Inr r"
  by (auto simp: reconstruct_def split: sum.splits exn.splits reconstruction_error.splits)

section \<open>Fills, plan and backfill\<close>

lemma insert_manual_fills_frame:
  assumes "insert_manual_fills now u a i sb seg ty e k p fs d = Inr d'"
  shows "trades d' = trades d \<and> fill_exclusions d' = fill_exclusions d \<and> next_uuid d \<le> next_uuid d' \<and>
    trading_accounts d' = trading_accounts d \<and>
    (\<exists>new. execution_fills d' = execution_fills d @ new \<and> distinct (map x_id new) \<and>
       (\<forall>x\<in>set new. next_uuid d \<le> x_id x \<and> x_id x < next_uuid d' \<and> x_trade_id x = None \<and> x_account_id x = Some a))"
  using assms
proof (induction fs arbitrary: d)
  case (Cons f fs)
  then obtain nf pk d1 where ins: "insert_normalized_fill now u a i nf (d\<lparr>next_uuid := Suc (Suc (next_uuid d))\<rparr>) = Inr (pk, d1)"
    and rest: "insert_manual_fills now u a i sb seg ty e k p fs d1 = Inr d'"
    by (auto simp: uuid4_def Let_def rbind_eq_Inr)
  note f = insert_normalized_fill_frame [OF ins]
  obtain x where x: "execution_fills d1 = execution_fills d @ [x]" "x_id x = Suc (Suc (next_uuid d))"
    "x_trade_id x = None" "x_account_id x = Some a" using f(7) by auto
  note r = Cons.IH [OF rest]
  then obtain new where new: "execution_fills d' = execution_fills d1 @ new" "distinct (map x_id new)"
    "\<forall>x\<in>set new. next_uuid d1 \<le> x_id x \<and> x_id x < next_uuid d' \<and> x_trade_id x = None \<and> x_account_id x = Some a"
    by blast
  have "execution_fills d' = execution_fills d @ (x # new)" "distinct (map x_id (x # new))"
    "\<forall>y\<in>set (x # new). next_uuid d \<le> x_id y \<and> x_id y < next_uuid d' \<and> x_trade_id y = None \<and> x_account_id y = Some a"
    using new x f(2) r by fastforce+
  moreover have "execution_fills d1 = execution_fills d @ [x]" by (rule x(1))
  ultimately have "\<exists>new. execution_fills d' = execution_fills d @ new \<and> distinct (map x_id new) \<and>
       (\<forall>x\<in>set new. next_uuid d \<le> x_id x \<and> x_id x < next_uuid d' \<and> x_trade_id x = None \<and> x_account_id x = Some a)"
    by blast
  moreover have "trades d' = trades d" "fill_exclusions d' = fill_exclusions d" "next_uuid d \<le> next_uuid d'"
    "trading_accounts d' = trading_accounts d"
    using r f(1-4) by simp_all
  ultimately show ?case by blast
qed simp

lemma backfill_loop_frame:
  "backfill_loop u ts (d, s, f) = (d', r) \<Longrightarrow> d' = d\<lparr>trade_pnls := trade_pnls d'\<rparr>"
proof (induction ts arbitrary: d s f)
  case (Cons t ts)
  show ?case
  proof (cases "calculate_and_store t u d")
    case (Inl e)
    with Cons show ?thesis by simp
  next
    case (Inr d1)
    with Cons have "d' = d1\<lparr>trade_pnls := trade_pnls d'\<rparr>" by simp
    moreover have "d1 = d\<lparr>trade_pnls := trade_pnls d1\<rparr>" using Inr by (rule calculate_and_store_frame)
    ultimately show ?thesis by (metis (no_types, lifting) db.surjective db.update_convs(9) db.select_convs(9))
  qed
qed simp

lemma backfill_after_frame:
  "backfill_after u res d = d\<lparr>trade_pnls := trade_pnls (backfill_after u res d)\<rparr>"
  unfolding backfill_after_def backfill_all_closed_def
  by (auto intro: backfill_loop_frame [of u _ d 0 0 _ "snd (backfill_loop u (backfill_pending u d) (d, 0, 0))"])

lemma backfill_after_trades [simp]:
  "trades (backfill_after u res d) = trades d" "next_uuid (backfill_after u res d) = next_uuid d"
  "execution_fills (backfill_after u res d) = execution_fills d"
  "fill_exclusions (backfill_after u res d) = fill_exclusions d"
  by (subst backfill_after_frame, simp)+

text \<open>Success of the operations, as the chain of its stages.\<close>

lemma resolve_account_Inr:
  "resolve_account u a d = Inr acc \<longleftrightarrow> get_account_for_user u a d = Some acc \<and> a_status acc = ''ACTIVE''"
  unfolding resolve_account_def get_active_Inr [symmetric]
  by (cases "get_active u a d") (auto split: exn.splits import_error.splits)

lemma get_or_create_trades:
  assumes "get_or_create sb seg ty e k d = Inr (i, d')"
  shows "trades d' = trades d" "next_uuid d \<le> next_uuid d'" "trading_accounts d' = trading_accounts d"
    "execution_fills d' = execution_fills d" "tax_lots d' = tax_lots d"
  using assms by (auto elim!: get_or_create_cases)

lemma create_trade_stages:
  assumes "create_trade now u a sb seg ty p fs e k stop target d = Inr (r, d')"
  obtains acc i d1 d2 d3 res affected d4 where
    "get_account_for_user u a d = Some acc" "a_status acc = ''ACTIVE''"
    "get_or_create sb seg ty e k d = Inr (i, d1)"
    "insert_manual_fills now u (a_id acc) i sb seg ty e k p fs d1 = Inr d2"
    "run True u (a_id acc) i p ty d2 = Inr (d3, res)"
    "affected_trade_id res = Some affected"
    "write_plan affected stop target d3 = Inr d4"
    "d' = backfill_after u res d4" "get_by t_id (trades d') affected = Some r"
  using assms unfolding create_trade_def rbind_eq_Inr resolve_account_Inr Let_def
  by (auto simp: rbind_eq_Inr reconstruct_Inr split: option.splits)

lemma create_trade_fails:
  assumes "resolve_account u a d = Inr acc" and "get_or_create sb seg ty e k d = Inr (i, d1)"
    and "rbind (insert_manual_fills now u (a_id acc) i sb seg ty e k p fs d1)
      (reconstruct u (a_id acc) i p ty) = Inl x"
  shows "create_trade now u a sb seg ty p fs e k stop target d = Inl x"
  using assms by (cases "insert_manual_fills now u (a_id acc) i sb seg ty e k p fs d1") (simp_all add: create_trade_def)

lemma create_trade_succeeds:
  assumes "resolve_account u a d = Inr acc" and "get_or_create sb seg ty e k d = Inr (i, d1)"
    and "rbind (insert_manual_fills now u (a_id acc) i sb seg ty e k p fs d1)
      (reconstruct u (a_id acc) i p ty) = Inr (d3, res)"
    and "affected_trade_id res = Some x" and "get_by t_id (trades (backfill_after u res d3)) x = Some t"
  shows "create_trade now u a sb seg ty p fs e k None None d = Inr (t, backfill_after u res d3)"
  using assms by (cases "insert_manual_fills now u (a_id acc) i sb seg ty e k p fs d1")
    (simp_all add: create_trade_def write_plan_def)

lemma live_trade_Inr:
  "live_trade k d = Inr t \<longleftrightarrow> get_by t_id (trades d) k = Some t \<and> \<not> t_is_deleted t"
  by (auto simp: live_trade_def split: option.splits)

lemma owns_account_Inr:
  "owns_account u a d = Inr b \<longleftrightarrow> (\<exists>i. a = Some i \<and> b = (get_account_for_user u i d \<noteq> None))"
  by (auto simp: owns_account_def split: option.splits)

lemma add_fill_stages:
  assumes "add_fill now u k f d = Inr (r, d')"
  obtains t a acc ty p nf pk d3 d4 res d5 where
    "get_by t_id (trades d) k = Some t" "\<not> t_is_deleted t" "t_account_id t = Some a"
    "get_account_for_user u a d = Some acc" "t_status t \<noteq> ''CLOSED''"
    "t_first_fill_at t \<le> fi_fill_timestamp f" "product_type_from_trade_type (t_trade_type t) = Inr p"
    "insert_normalized_fill now u a (t_instrument_id t) nf (d\<lparr>next_uuid := Suc (Suc (next_uuid d))\<rparr>) = Inr (pk, d3)"
    "run True u a (t_instrument_id t) p ty d3 = Inr (d4, res)"
    "(if t_planned_stop t \<noteq> None then refresh_planned_risk k d4 else Inr d4) = Inr d5"
    "d' = backfill_after u res d5" "get_by t_id (trades d') k = Some r"
proof -
  let ?nf = "\<lambda>ty p. manual_fill (uuid_str (next_uuid d)) (uuid_str (Suc (next_uuid d))) ''MANUAL''
      ''MANUAL'' ''MANUAL'' ty None None p f"
  let ?ins = "\<lambda>t a ty p. insert_normalized_fill now u a (t_instrument_id t) (?nf ty p)
      (d\<lparr>next_uuid := Suc (Suc (next_uuid d))\<rparr>)"
  obtain t where t: "live_trade k d = Inr t"
    using assms by (cases "live_trade k d") (simp_all add: add_fill_def)
  obtain a acc where a: "t_account_id t = Some a" "get_account_for_user u a d = Some acc"
    using assms t by (cases "t_account_id t")
      (auto simp: add_fill_def owns_account_def check_def split: if_splits)
  have g: "t_status t \<noteq> ''CLOSED''" "t_first_fill_at t \<le> fi_fill_timestamp f"
    using assms t a by (auto simp: add_fill_def owns_account_def check_def split: if_splits)
  obtain y where y: "get_by i_id (instruments d) (t_instrument_id t) = Some y"
    using assms t a g by (cases "get_by i_id (instruments d) (t_instrument_id t)")
      (simp_all add: add_fill_def owns_account_def check_def)
  obtain p where p: "product_type_from_trade_type (t_trade_type t) = Inr p"
    using assms t a g y by (cases "product_type_from_trade_type (t_trade_type t)")
      (simp_all add: add_fill_def owns_account_def check_def)
  have rest: "rbind (?ins t a (i_instrument_type y) p) (\<lambda>(pk, d3).
      rbind (reconstruct u a (t_instrument_id t) p (i_instrument_type y) d3) (\<lambda>(d4, result).
       rbind (if t_planned_stop t \<noteq> None then refresh_planned_risk k d4 else Inr d4)
         (\<lambda>d5. case get_by t_id (trades (backfill_after u result d5)) k of
            None \<Rightarrow> Inl (Svc (ReconstructionFailedError None))
          | Some r \<Rightarrow> Inr (r, backfill_after u result d5)))) = Inr (r, d')"
    using assms t a g y p
    by (simp add: add_fill_def owns_account_def check_def uuid4_def Let_def split_def)
  then obtain pk d3 d4 res d5 where "?ins t a (i_instrument_type y) p = Inr (pk, d3)"
    "run True u a (t_instrument_id t) p (i_instrument_type y) d3 = Inr (d4, res)"
    "(if t_planned_stop t \<noteq> None then refresh_planned_risk k d4 else Inr d4) = Inr d5"
    "d' = backfill_after u res d5" "get_by t_id (trades d') k = Some r"
    unfolding rbind_eq_Inr by (auto simp: rbind_eq_Inr reconstruct_Inr split: option.splits)
  with t a g p show thesis unfolding live_trade_Inr by (intro that) auto
qed

lemma soft_delete_stages:
  assumes "soft_delete_trade u k d = Inr d'"
  obtains t a acc where
    "get_by t_id (trades d) k = Some t" "\<not> t_is_deleted t" "t_account_id t = Some a"
    "get_account_for_user u a d = Some acc"
    "\<forall>x\<in>set (execution_fills d). x_trade_id x = Some k \<longrightarrow> x_import_source x = ''MANUAL''"
    "d' = update_trade k (\<lambda>t. t\<lparr>t_is_deleted := True\<rparr>) (exclude_fills u
       (map x_id (filter (\<lambda>x. x_trade_id x = Some k \<and> x_id x \<notin> set (get_excluded_fill_ids_for_trade k d))
         (execution_fills d))) d)"
  using assms unfolding soft_delete_trade_def rbind_eq_Inr live_trade_Inr owns_account_Inr check_eq_Inr Let_def
  by (auto simp: rbind_eq_Inr result_simps filter_empty_conv conj_commute)

definition writes_trade :: "uuid \<Rightarrow> db \<Rightarrow> db \<Rightarrow> bool" where
  "writes_trade k d d' \<longleftrightarrow> d' = d \<or> (\<exists>g. (\<forall>t. owner (g t) = owner t) \<and> d' = update_trade k g d)"

lemma writes_tradeI: "(\<And>t. owner (g t) = owner t) \<Longrightarrow> writes_trade k d (update_trade k g d)"
  by (auto simp: writes_trade_def)

lemma writes_trade_refl [simp]: "writes_trade k d d"
  by (simp add: writes_trade_def)

lemma writes_trade_ids: "writes_trade k d d' \<Longrightarrow> trade_ids_ok d \<Longrightarrow> trade_ids_ok d' \<and> next_uuid d' = next_uuid d"
  by (auto simp: writes_trade_def owner_def elim!: trade_ids_ok_update [rotated -1])

lemma write_plan_frame: "write_plan k stop target d = Inr d' \<Longrightarrow> writes_trade k d d'"
  by (auto simp: write_plan_def result_simps owner_def split: if_splits option.splits intro!: writes_tradeI)

lemma refresh_planned_risk_frame: "refresh_planned_risk k d = Inr d' \<Longrightarrow> writes_trade k d d'"
  by (auto simp: refresh_planned_risk_def result_simps owner_def split: if_splits option.splits
      intro!: writes_tradeI)

lemma exclude_fills_frame:
  "exclude_fills u xs d = d\<lparr>fill_exclusions := fill_exclusions (exclude_fills u xs d),
     next_uuid := next_uuid d + length xs\<rparr>"
proof (induction xs arbitrary: d)
  case (Cons x xs)
  have "exclude_fills u (x # xs) d = exclude_fills u xs (snd (create_exclusion x ''USER_DELETED_TRADE'' [] u d))"
    by simp
  also have "\<dots> = (snd (create_exclusion x ''USER_DELETED_TRADE'' [] u d))
     \<lparr>fill_exclusions := fill_exclusions (exclude_fills u (x # xs) d),
      next_uuid := Suc (next_uuid d) + length xs\<rparr>"
    by (subst Cons.IH) (simp add: create_exclusion_def uuid4_def)
  also have "\<dots> = d\<lparr>fill_exclusions := fill_exclusions (exclude_fills u (x # xs) d),
     next_uuid := next_uuid d + length (x # xs)\<rparr>"
    by (simp add: create_exclusion_def uuid4_def)
  finally show ?case .
qed simp

lemma exclude_fills_exclusions:
  "\<exists>es. fill_exclusions (exclude_fills u xs d) = fill_exclusions d @ es \<and> map fe_fill_id es = xs \<and>
     (\<forall>e\<in>set es. fe_reason e = ''USER_DELETED_TRADE'' \<and> fe_excluded_by e = u \<and> fe_replacement_fill_ids e = [])"
proof (induction xs arbitrary: d)
  case (Cons x xs)
  let ?d = "snd (create_exclusion x ''USER_DELETED_TRADE'' [] u d)"
  obtain es where es: "fill_exclusions (exclude_fills u xs ?d) = fill_exclusions ?d @ es"
    "map fe_fill_id es = xs"
    "\<forall>e\<in>set es. fe_reason e = ''USER_DELETED_TRADE'' \<and> fe_excluded_by e = u \<and> fe_replacement_fill_ids e = []"
    using Cons.IH [of ?d] by blast
  obtain e where "fill_exclusions ?d = fill_exclusions d @ [e]" "fe_fill_id e = x"
    "fe_reason e = ''USER_DELETED_TRADE''" "fe_excluded_by e = u" "fe_replacement_fill_ids e = []"
    by (simp add: create_exclusion_def uuid4_def append_row_def)
  with es show ?case by (intro exI [of _ "e # es"]) simp
qed simp

section \<open>What an operation changes\<close>

text \<open>Identifiers of trades and of fills are distinct and below the next fresh one.\<close>

definition ids_ok :: "db \<Rightarrow> bool" where
  "ids_ok d \<longleftrightarrow> trade_ids_ok d \<and> distinct (map x_id (execution_fills d)) \<and>
     (\<forall>x\<in>set (execution_fills d). x_id x < next_uuid d)"

text \<open>Nothing but trades and fills of one account; not a given trade, and not the fills linked to it.\<close>

definition confined :: "uuid \<Rightarrow> db \<Rightarrow> db \<Rightarrow> bool" where
  "confined a d d' \<longleftrightarrow>
     filter (\<lambda>t. t_account_id t \<noteq> Some a) (trades d') = filter (\<lambda>t. t_account_id t \<noteq> Some a) (trades d) \<and>
     filter (\<lambda>x. x_account_id x \<noteq> Some a) (execution_fills d') =
       filter (\<lambda>x. x_account_id x \<noteq> Some a) (execution_fills d)"

definition undisturbed :: "uuid \<Rightarrow> db \<Rightarrow> db \<Rightarrow> bool" where
  "undisturbed k d d' \<longleftrightarrow>
     filter (\<lambda>t. t_id t = k) (trades d') = filter (\<lambda>t. t_id t = k) (trades d) \<and>
     filter (\<lambda>x. x_trade_id x = Some k) (execution_fills d') =
       filter (\<lambda>x. x_trade_id x = Some k) (execution_fills d)"

lemma confined_refl [simp]: "confined a d d"
  and confined_trans [trans]: "confined a d d' \<Longrightarrow> confined a d' d'' \<Longrightarrow> confined a d d''"
  by (simp_all add: confined_def)

lemma undisturbed_refl [simp]: "undisturbed k d d"
  and undisturbed_trans [trans]: "undisturbed k d d' \<Longrightarrow> undisturbed k d' d'' \<Longrightarrow> undisturbed k d d''"
  by (simp_all add: undisturbed_def)

lemma same_tables:
  assumes "trades d' = trades d" and "execution_fills d' = execution_fills d"
  shows "confined a d d'" and "undisturbed k d d'"
    and "next_uuid d \<le> next_uuid d' \<Longrightarrow> ids_ok d \<Longrightarrow> ids_ok d'"
  using assms by (auto simp: confined_def undisturbed_def ids_ok_def trade_ids_ok_def)

lemma added_fills:
  assumes "trades d' = trades d" and "next_uuid d \<le> next_uuid d'"
    and "execution_fills d' = execution_fills d @ new" and "distinct (map x_id new)"
    and "\<forall>x\<in>set new. next_uuid d \<le> x_id x \<and> x_id x < next_uuid d' \<and> x_trade_id x = None \<and> x_account_id x = Some a"
  shows "confined a d d'" and "undisturbed k d d'" and "ids_ok d \<Longrightarrow> ids_ok d'"
proof -
  show "confined a d d'" "undisturbed k d d'"
    using assms(1,3,5) by (simp_all add: confined_def undisturbed_def filter_empty_conv)
  assume ok: "ids_ok d"
  then have "x_id ` set (execution_fills d) \<inter> x_id ` set new = {}"
    using assms(5) by (fastforce simp: ids_ok_def)
  moreover have "x_id x < next_uuid d'" if "x \<in> set (execution_fills d')" for x
    using that ok assms(2,3,5) by (auto simp: ids_ok_def intro: less_le_trans)
  moreover have "trade_ids_ok d'" using ok assms(1,2) by (simp add: ids_ok_def trade_ids_ok_same)
  ultimately show "ids_ok d'" using ok assms(3,4) by (simp add: ids_ok_def)
qed

lemma writes_trade_effect:
  assumes "writes_trade k d d'"
  shows "k' \<noteq> k \<Longrightarrow> undisturbed k' d d'"
    and "(\<And>t. t \<in> set (trades d) \<Longrightarrow> t_id t = k \<Longrightarrow> t_account_id t = Some a) \<Longrightarrow> confined a d d'"
    and "ids_ok d \<Longrightarrow> ids_ok d'"
proof -
  have "d' = d \<or> (\<exists>g. (\<forall>t. t_id (g t) = t_id t \<and> t_account_id (g t) = t_account_id t) \<and>
      trades d' = update_by t_id k g (trades d) \<and> execution_fills d' = execution_fills d)"
    using assms by (auto simp: writes_trade_def owner_def update_trade_def)
  then consider "d' = d" | g where "\<And>t. t_id (g t) = t_id t" "\<And>t. t_account_id (g t) = t_account_id t"
      "trades d' = update_by t_id k g (trades d)" "execution_fills d' = execution_fills d" by blast
  note two = this
  show "undisturbed k' d d'" if "k' \<noteq> k"
    using two
  proof cases
    case (2 g)
    with that have "filter (\<lambda>t. t_id t = k') (trades d') = filter (\<lambda>t. t_id t = k') (trades d)"
      by (simp add: filter_update_by_other)
    with 2(4) show ?thesis by (simp add: undisturbed_def)
  qed simp
  show "confined a d d'" if "\<And>t. t \<in> set (trades d) \<Longrightarrow> t_id t = k \<Longrightarrow> t_account_id t = Some a"
    using two
  proof cases
    case (2 g)
    with that have "filter (\<lambda>t. t_account_id t \<noteq> Some a) (trades d') = filter (\<lambda>t. t_account_id t \<noteq> Some a) (trades d)"
      by (simp add: filter_update_by_other)
    with 2(4) show ?thesis by (simp add: confined_def)
  qed simp
  show "ids_ok d \<Longrightarrow> ids_ok d'"
    using writes_trade_ids [OF assms] assms by (auto simp: ids_ok_def writes_trade_def update_trade_def)
qed

section \<open>A run\<close>

text \<open>Owners are found again: a trade after the run is one of before, or one of the account.\<close>

lemma owned_cases:
  assumes "owned a ts ts'" and "t \<in> set ts'"
  shows "t_account_id t = Some a \<or> (\<exists>t0\<in>set ts. t_id t0 = t_id t \<and> t_account_id t0 = t_account_id t)"
proof -
  from assms(1) obtain new where new: "map owner ts' = map owner ts @ new" "snd ` set new \<subseteq> {Some a}"
    unfolding owned_def by blast
  from assms(2) have "owner t \<in> set (map owner ts')" by simp
  then have "owner t \<in> owner ` set ts \<or> snd (owner t) = Some a" using new by auto
  then show ?thesis by (auto simp: owner_def)
qed

lemma open_ids_account:
  assumes "trade_ids_ok d" and "t \<in> set (trades d)" and "t_id t \<in> open_ids u a i fam d"
  shows "t_account_id t = Some a \<and> \<not> t_is_deleted t"
proof -
  from assms(3) obtain t' where t': "t' \<in> set (trades d)" "is_open_trade u a i fam t'" "t_id t' = t_id t"
    by (auto simp: open_ids_def)
  then have "t' = t" using assms(1,2) by (auto simp: trade_ids_ok_def distinct_map inj_on_def)
  with t'(2) show ?thesis by (simp add: is_open_trade_def)
qed

lemma filter_of_kept:
  assumes "kept S n0 ts ts'" and "\<And>t. t \<in> set ts \<Longrightarrow> P t \<Longrightarrow> t_id t \<notin> S \<and> t_id t < n0"
    and "\<And>t. t \<in> set ts' \<Longrightarrow> P t \<Longrightarrow> t_id t \<notin> S \<and> t_id t < n0"
  shows "filter P ts' = filter P ts"
proof -
  let ?K = "\<lambda>t. t_id t \<notin> S \<and> t_id t < n0"
  have "filter P ts' = filter P (filter ?K ts')" using assms(3) by (auto intro: filter_cong)
  also have "\<dots> = filter P (filter ?K ts)" using assms(1) by (simp add: kept_def)
  also have "\<dots> = filter P ts" using assms(2) by (auto intro: filter_cong)
  finally show ?thesis .
qed

lemma filter_fill_steps:
  assumes "list_all2 (fill_step ids) xs ys"
    and "\<And>x y. x \<in> set xs \<Longrightarrow> y \<in> set ys \<Longrightarrow> fill_step ids x y \<Longrightarrow> x_id x \<in> ids \<Longrightarrow> \<not> P x \<and> \<not> P y"
  shows "filter P ys = filter P xs"
  using assms
proof (induction rule: list_all2_induct)
  case (Cons x xs y ys)
  then have "filter P ys = filter P xs" by (metis list.set_intros(2))
  moreover have "x_id x \<in> ids \<Longrightarrow> \<not> P x \<and> \<not> P y" using Cons.prems [of x y] Cons.hyps(1) by simp
  moreover have "x_id x \<notin> ids \<Longrightarrow> y = x" using Cons.hyps(1) by (simp add: fill_step_def)
  ultimately show ?case by (cases "x_id x \<in> ids") simp_all
qed simp

lemma run_effect:
  assumes "run b u a i p itype d = Inr (d', res)" and "ids_ok d"
  shows "confined a d d'" and "ids_ok d'" and "next_uuid d \<le> next_uuid d'"
    and "affected_trade_id res = Some k \<Longrightarrow> t \<in> set (trades d') \<Longrightarrow> t_id t = k \<Longrightarrow> t_account_id t = Some a"
    and "t0 \<in> set (trades d) \<Longrightarrow> t_is_deleted t0 \<Longrightarrow> undisturbed (t_id t0) d d'"
    and "t0 \<in> set (trades d) \<Longrightarrow> t_is_deleted t0 \<Longrightarrow> affected_trade_id res \<noteq> Some (t_id t0)"
proof -
  obtain fam where fam: "product_type_family_for p = Inr fam" using run_family [OF assms(1)] by blast
  have t_ok: "trade_ids_ok d" and x_dist: "distinct (map x_id (execution_fills d))"
    using assms(2) by (simp_all add: ids_ok_def)
  let ?S = "open_ids u a i fam d" and ?n = "next_uuid d"
  note w = run_writes [OF assms(1) fam t_ok]
  let ?ids = "fr_id ` set (get_unprocessed_fills u a i p d)"
  have steps: "list_all2 (fill_step ?ids) (execution_fills d) (execution_fills d')"
    using run_fills [OF assms(1)] by blast
  have fetched: "x_account_id x = Some a \<and> x_trade_id x = None"
    if "x \<in> set (execution_fills d)" "x_id x \<in> ?ids" for x
  proof -
    from that(2) obtain y where "y \<in> set (execution_fills d)" "is_unprocessed u a i p d y" "x_id y = x_id x"
      by (auto simp: get_unprocessed_fills_def to_record_def)
    then show ?thesis using that(1) x_dist by (auto simp: is_unprocessed_def distinct_map inj_on_def)
  qed
  have old: "t_id t < ?n" if "t \<in> set (trades d)" for t using t_ok that by (simp add: trade_ids_ok_def)
  have account: "t_account_id t = Some a" if "t \<in> set (trades d')" "t_id t \<in> ?S \<or> ?n \<le> t_id t" for t
    using owned_cases [OF w(2) that(1)] that(2) old open_ids_account [OF t_ok] by fastforce
  have "filter (\<lambda>t. t_account_id t \<noteq> Some a) (trades d') = filter (\<lambda>t. t_account_id t \<noteq> Some a) (trades d)"
    by (rule filter_of_kept [OF w(1)]) (use old account open_ids_account [OF t_ok] in \<open>auto simp: not_less [symmetric]\<close>)
  moreover have "filter (\<lambda>x. x_account_id x \<noteq> Some a) (execution_fills d') =
      filter (\<lambda>x. x_account_id x \<noteq> Some a) (execution_fills d)"
    by (rule filter_fill_steps [OF steps]) (use fetched in \<open>auto simp: fill_step_def\<close>)
  ultimately show "confined a d d'" by (simp add: confined_def)
  have ids: "map x_id ys = map x_id xs" if "list_all2 (fill_step ?ids) xs ys" for xs ys
    using that by (induction rule: list_all2_induct) (auto simp: fill_step_def split: if_splits)
  have "x_id ` set (execution_fills d') = x_id ` set (execution_fills d)"
    using ids [OF steps] by (metis list.set_map)
  then show "ids_ok d'"
    using ids [OF steps] w(4,5) assms(2) unfolding ids_ok_def by (metis (mono_tags, lifting) imageI imageE less_le_trans)
  show "next_uuid d \<le> next_uuid d'" by (rule w(4))
  show "t_account_id t = Some a" if "affected_trade_id res = Some k" "t \<in> set (trades d')" "t_id t = k"
    using account w(3) that by blast
  assume t0: "t0 \<in> set (trades d)" "t_is_deleted t0"
  have out: "t_id t0 \<notin> ?S" "t_id t0 < ?n" using open_ids_account [OF t_ok t0(1)] t0(2) old [OF t0(1)] by auto
  have "filter (\<lambda>t. t_id t = t_id t0) (trades d') = filter (\<lambda>t. t_id t = t_id t0) (trades d)"
    by (rule filter_of_kept [OF w(1)]) (use out in simp_all)
  moreover have "filter (\<lambda>x. x_trade_id x = Some (t_id t0)) (execution_fills d') =
      filter (\<lambda>x. x_trade_id x = Some (t_id t0)) (execution_fills d)"
  proof (rule filter_fill_steps [OF steps])
    fix x y
    assume x: "x \<in> set (execution_fills d)" and y: "y \<in> set (execution_fills d')" and xy: "fill_step ?ids x y"
      and id: "x_id x \<in> ?ids"
    have "x_trade_id y \<noteq> Some (t_id t0)"
    proof
      assume "x_trade_id y = Some (t_id t0)"
      with y out w(6) have "y \<in> set (execution_fills d)" unfolding new_links_def by blast
      moreover have "x_id y = x_id x" using xy id by (auto simp: fill_step_def)
      ultimately have "y = x" using x x_dist by (auto simp: distinct_map inj_on_def)
      with fetched [OF x id] \<open>x_trade_id y = Some (t_id t0)\<close> show False by simp
    qed
    with fetched [OF x id] show "x_trade_id x \<noteq> Some (t_id t0) \<and> x_trade_id y \<noteq> Some (t_id t0)" by simp
  qed
  ultimately show "undisturbed (t_id t0) d d'" by (simp add: undisturbed_def)
  show "affected_trade_id res \<noteq> Some (t_id t0)" using w(3) out by auto
qed

section \<open>The steps of the service\<close>

text \<open>One successful request of a user on an account, committed.\<close>

inductive service_step :: "uuid \<Rightarrow> uuid \<Rightarrow> db \<Rightarrow> db \<Rightarrow> bool" where
  created: "create_trade now u a sb seg ty p fs e k stop target d = Inr (r, d') \<Longrightarrow> service_step u a d d'"
| filled: "add_fill now u tid f d = Inr (r, d') \<Longrightarrow> get_by t_id (trades d) tid = Some t \<Longrightarrow>
    t_account_id t = Some a \<Longrightarrow> service_step u a d d'"
| deleted: "soft_delete_trade u tid d = Inr d' \<Longrightarrow> get_by t_id (trades d) tid = Some t \<Longrightarrow>
    t_account_id t = Some a \<Longrightarrow> service_step u a d d'"

text \<open>What an operation does to the rows that are not its own.\<close>

definition spares :: "uuid \<Rightarrow> db \<Rightarrow> db \<Rightarrow> bool" where
  "spares a d d' \<longleftrightarrow> confined a d d' \<and> (ids_ok d \<longrightarrow> ids_ok d') \<and>
     (\<forall>t0\<in>set (trades d). t_is_deleted t0 \<longrightarrow> undisturbed (t_id t0) d d')"

lemma undisturbed_trade:
  assumes "undisturbed (t_id t) d d'" and "t \<in> set (trades d)"
  shows "t \<in> set (trades d')"
proof -
  have "t \<in> set (filter (\<lambda>x. t_id x = t_id t) (trades d))" using assms(2) by simp
  also have "\<dots> = set (filter (\<lambda>x. t_id x = t_id t) (trades d'))"
    using assms(1) by (simp add: undisturbed_def)
  finally show ?thesis by simp
qed

lemma spares_trans [trans]: "spares a d d' \<Longrightarrow> spares a d' d'' \<Longrightarrow> spares a d d''"
  unfolding spares_def by (meson confined_trans undisturbed_trans undisturbed_trade)

lemma spares_same: "trades d' = trades d \<Longrightarrow> execution_fills d' = execution_fills d \<Longrightarrow>
    next_uuid d \<le> next_uuid d' \<Longrightarrow> spares a d d'"
  by (simp add: spares_def same_tables)

lemma spares_run: "run b u a i p itype d = Inr (d', res) \<Longrightarrow> ids_ok d \<Longrightarrow> spares a d d'"
  using run_effect by (simp add: spares_def)

lemma live_trade_id:
  assumes "ids_ok d" and "get_by t_id (trades d) k = Some t" and "\<not> t_is_deleted t"
    and "t0 \<in> set (trades d)" and "t_is_deleted t0"
  shows "t_id t0 \<noteq> k"
proof
  assume "t_id t0 = k"
  moreover have "t \<in> set (trades d)" "t_id t = k" using get_by_Some [OF assms(2)] by auto
  ultimately have "t = t0" using assms(1,4) by (auto simp: ids_ok_def trade_ids_ok_def distinct_map inj_on_def)
  with assms(3,5) show False by simp
qed

lemma spares_write:
  assumes "writes_trade k d d'" and "ids_ok d"
    and "\<And>t. t \<in> set (trades d) \<Longrightarrow> t_id t = k \<Longrightarrow> t_account_id t = Some a"
    and "\<And>t. t \<in> set (trades d) \<Longrightarrow> t_is_deleted t \<Longrightarrow> t_id t \<noteq> k"
  shows "spares a d d'"
  using writes_trade_effect [OF assms(1)] assms(3,4) by (auto simp: spares_def)

lemma key_account:
  assumes "ids_ok d" and "get_by t_id (trades d) k = Some t" and "t_account_id t = Some a"
    and "t' \<in> set (trades d)" and "t_id t' = k"
  shows "t_account_id t' = Some a"
proof -
  have "t \<in> set (trades d)" "t_id t = k" using get_by_Some [OF assms(2)] by auto
  then have "t' = t" using assms(1,4,5) by (auto simp: ids_ok_def trade_ids_ok_def distinct_map inj_on_def)
  with assms(3) show ?thesis by simp
qed

text \<open>An added fill.\<close>

lemma spares_added:
  assumes "trades d' = trades d" and "next_uuid d \<le> next_uuid d'"
    and "execution_fills d' = execution_fills d @ new" and "distinct (map x_id new)"
    and "\<forall>x\<in>set new. next_uuid d \<le> x_id x \<and> x_id x < next_uuid d' \<and> x_trade_id x = None \<and> x_account_id x = Some a"
  shows "spares a d d'"
  using added_fills [OF assms] by (simp add: spares_def)

lemma spares_manual_fills:
  "insert_manual_fills now u a i sb seg ty e k p fs d = Inr d' \<Longrightarrow> spares a d d'"
  by (drule insert_manual_fills_frame) (auto intro: spares_added)

lemma spares_create:
  assumes "create_trade now u a sb seg ty p fs e k stop target d = Inr (r, d')" and "ids_ok d"
  shows "spares a d d' \<and> get_account_for_user u a d \<noteq> None"
  using assms(1)
proof (rule create_trade_stages)
  fix acc i d1 d2 d3 res affected d4
  assume acc: "get_account_for_user u a d = Some acc"
    and d1: "get_or_create sb seg ty e k d = Inr (i, d1)"
    and d2: "insert_manual_fills now u (a_id acc) i sb seg ty e k p fs d1 = Inr d2"
    and d3: "run True u (a_id acc) i p ty d2 = Inr (d3, res)" "affected_trade_id res = Some affected"
    and d4: "write_plan affected stop target d3 = Inr d4"
    and d': "d' = backfill_after u res d4"
  have a: "a_id acc = a" using get_account_cases [OF acc] by simp
  have s1: "spares a d d1" by (rule spares_same) (simp_all add: get_or_create_trades [OF d1])
  have s2: "spares a d1 d2" using spares_manual_fills [OF d2] a by simp
  have s12: "spares a d d2" using s1 s2 by (rule spares_trans)
  then have ok2: "ids_ok d2" using assms(2) by (simp add: spares_def)
  note run = d3(1) [unfolded a]
  have s3: "spares a d2 d3" by (rule spares_run [OF run ok2])
  then have ok3: "ids_ok d3" using ok2 by (simp add: spares_def)
  have s123: "spares a d d3" using s12 s3 by (rule spares_trans)
  have "spares a d d4" unfolding spares_def
  proof (intro conjI ballI impI)
    note w = writes_trade_effect [OF write_plan_frame [OF d4]]
    have "confined a d3 d4" by (rule w(2)) (rule run_effect(4) [OF run ok2 d3(2)])
    with s123 show "confined a d d4" unfolding spares_def by (blast intro: confined_trans)
    show "ids_ok d4" by (rule w(3) [OF ok3])
    fix t0
    assume t0: "t0 \<in> set (trades d)" "t_is_deleted t0"
    have "t0 \<in> set (trades d2)" using s12 t0 undisturbed_trade unfolding spares_def by blast
    then have "t_id t0 \<noteq> affected" using run_effect(6) [OF run ok2 _ t0(2)] d3(2) by auto
    then have "undisturbed (t_id t0) d3 d4" by (rule w(1))
    with s123 t0 show "undisturbed (t_id t0) d d4" unfolding spares_def by (blast intro: undisturbed_trans)
  qed
  moreover have "spares a d4 d'" by (rule spares_same) (simp_all add: d')
  ultimately have "spares a d d'" by (rule spares_trans)
  with acc show ?thesis by simp
qed

lemma spares_add_fill:
  assumes "add_fill now u k f d = Inr (r, d')" and "ids_ok d"
    and "get_by t_id (trades d) k = Some t" and "t_account_id t = Some a"
  shows "spares a d d' \<and> get_account_for_user u a d \<noteq> None"
  using assms(1)
proof (rule add_fill_stages)
  fix t' a' acc ty p nf pk d3 d4 res d5
  assume t': "get_by t_id (trades d) k = Some t'" "\<not> t_is_deleted t'" "t_account_id t' = Some a'"
    and acc: "get_account_for_user u a' d = Some acc"
    and d3: "insert_normalized_fill now u a' (t_instrument_id t') nf
      (d\<lparr>next_uuid := Suc (Suc (next_uuid d))\<rparr>) = Inr (pk, d3)"
    and d4: "run True u a' (t_instrument_id t') p ty d3 = Inr (d4, res)"
    and d5: "(if t_planned_stop t' \<noteq> None then refresh_planned_risk k d4 else Inr d4) = Inr d5"
    and d': "d' = backfill_after u res d5"
  have t: "t' = t" "a' = a" using t' assms(3,4) by simp_all
  obtain x where x: "execution_fills d3 = execution_fills d @ [x]" "x_id x = Suc (Suc (next_uuid d))"
    "x_trade_id x = None" "x_account_id x = Some a" and same: "trades d3 = trades d"
    "next_uuid d3 = Suc (Suc (Suc (next_uuid d)))"
    using insert_normalized_fill_frame [OF d3] t(2) by auto
  have s1: "spares a d d3" by (rule spares_added [where new = "[x]"]) (use x same in simp_all)
  then have ok3: "ids_ok d3" using assms(2) by (simp add: spares_def)
  note run = d4 [unfolded t(2)]
  have s2: "spares a d3 d4" by (rule spares_run [OF run ok3])
  have s12: "spares a d d4" using s1 s2 by (rule spares_trans)
  then have ok4: "ids_ok d4" using assms(2) by (simp add: spares_def)
  have w: "writes_trade k d4 d5"
    using d5 refresh_planned_risk_frame by (auto split: if_splits)
  have key: "t_account_id y = Some a" if "y \<in> set (trades d4)" "t_id y = k" for y
  proof (rule ccontr)
    assume "t_account_id y \<noteq> Some a"
    with that(1) have "y \<in> set (filter (\<lambda>t. t_account_id t \<noteq> Some a) (trades d4))" by simp
    also have "\<dots> = set (filter (\<lambda>t. t_account_id t \<noteq> Some a) (trades d))"
      using s12 by (simp add: spares_def confined_def)
    finally have "y \<in> set (trades d)" "t_account_id y \<noteq> Some a" by auto
    with key_account [OF assms(2-4) _ that(2)] show False by simp
  qed
  have "spares a d d5" unfolding spares_def
  proof (intro conjI ballI impI)
    note w = writes_trade_effect [OF w]
    have "confined a d4 d5" by (rule w(2)) (rule key)
    with s12 show "confined a d d5" unfolding spares_def by (blast intro: confined_trans)
    show "ids_ok d5" by (rule w(3) [OF ok4])
    fix t0
    assume t0: "t0 \<in> set (trades d)" "t_is_deleted t0"
    have "undisturbed (t_id t0) d4 d5" using live_trade_id [OF assms(2) t'(1,2) t0] by (rule w(1))
    with s12 t0 show "undisturbed (t_id t0) d d5" unfolding spares_def by (blast intro: undisturbed_trans)
  qed
  moreover have "spares a d5 d'" by (rule spares_same) (simp_all add: d')
  ultimately have "spares a d d'" by (rule spares_trans)
  with acc t show ?thesis by simp
qed

lemma spares_soft_delete:
  assumes "soft_delete_trade u k d = Inr d'" and "ids_ok d"
    and "get_by t_id (trades d) k = Some t" and "t_account_id t = Some a"
  shows "spares a d d' \<and> get_account_for_user u a d \<noteq> None"
  using assms(1)
proof (rule soft_delete_stages)
  fix t' a' acc
  let ?x = "exclude_fills u (map x_id (filter (\<lambda>x. x_trade_id x = Some k \<and>
    x_id x \<notin> set (get_excluded_fill_ids_for_trade k d)) (execution_fills d))) d"
  assume t': "get_by t_id (trades d) k = Some t'" "\<not> t_is_deleted t'" "t_account_id t' = Some a'"
    and acc: "get_account_for_user u a' d = Some acc"
    and d': "d' = update_trade k (\<lambda>t. t\<lparr>t_is_deleted := True\<rparr>) ?x"
  have f: "trades ?x = trades d" "execution_fills ?x = execution_fills d" "next_uuid d \<le> next_uuid ?x"
    by (subst exclude_fills_frame, simp)+
  have s: "spares a d ?x" by (rule spares_same [OF f])
  have "spares a ?x d'"
  proof (rule spares_write [of k])
    show "writes_trade k ?x d'" unfolding d' by (rule writes_tradeI) (simp add: owner_def)
    show "ids_ok ?x" using s assms(2) by (simp add: spares_def)
    show "t_account_id y = Some a" if "y \<in> set (trades ?x)" "t_id y = k" for y
      using key_account [OF assms(2-4) _ that(2)] that(1) f(1) by simp
    show "t_id y \<noteq> k" if "y \<in> set (trades ?x)" "t_is_deleted y" for y
      using live_trade_id [OF assms(2) t'(1,2) _ that(2)] that(1) f(1) by simp
  qed
  with s have "spares a d d'" by (rule spares_trans)
  with acc t' assms(3,4) show ?thesis by simp
qed

lemma service_step_effect:
  assumes "service_step u a d d'" and "ids_ok d"
  shows "spares a d d' \<and> get_account_for_user u a d \<noteq> None"
  using assms(1)
proof cases
  case created
  from spares_create [OF created assms(2)] show ?thesis .
next
  case filled
  from spares_add_fill [OF filled(1) assms(2) filled(2,3)] show ?thesis .
next
  case deleted
  from spares_soft_delete [OF deleted(1) assms(2) deleted(2,3)] show ?thesis .
qed

definition any_step :: "db \<Rightarrow> db \<Rightarrow> bool" where
  "any_step d d' \<longleftrightarrow> (\<exists>u a. service_step u a d d')"

lemma any_steps_effect:
  assumes "any_step\<^sup>*\<^sup>* d d'" and "ids_ok d" and "t0 \<in> set (trades d)" and "t_is_deleted t0"
  shows "undisturbed (t_id t0) d d' \<and> ids_ok d'"
  using assms
proof (induction rule: rtranclp_induct)
  case (step d1 d2)
  then have one: "undisturbed (t_id t0) d d1" "ids_ok d1" by auto
  obtain u a where "service_step u a d1 d2" using step.hyps(2) by (auto simp: any_step_def)
  from service_step_effect [OF this one(2)] undisturbed_trade [OF one(1) step.prems(2)] step.prems(3) one
  show ?case unfolding spares_def by (blast intro: undisturbed_trans)
qed simp

end
