(* ===== verification/Trade_Service_Properties.thy ===== *)
theory Trade_Service_Properties
  imports Trade_Service_Facts Recon_Properties Pnl_Properties
begin

text \<open>
  The properties of the account, instrument and trade services. The samples are one MANUAL
  account and intraday and delivery fills of one equity on one day.
\<close>

section \<open>Sample data\<close>

definition at_time :: "int \<Rightarrow> int \<Rightarrow> timestamp" where
  "at_time h m = ist_timestamp 19800 (time_of_day h m 0)"

definition sample_account :: trading_account_row where
  "sample_account = \<lparr>a_id = 8, a_user_id = 7, a_broker = ''MANUAL'', a_display_name = ''Own'',
     a_account_type = ''INDIVIDUAL'', a_base_currency = ''INR'', a_status = ''ACTIVE'',
     a_starting_capital = None, a_created_at = 0, a_updated_at = 0\<rparr>"

definition no_charges :: charge_schedule_row where
  "no_charges = sample_schedule\<lparr>cs_broker := ''MANUAL'', cs_brokerage_pct := Some 0,
     cs_stt_sell_rate := 0, cs_exchange_charge_rate := 0, cs_sebi_charge_rate := 0,
     cs_stamp_duty_rate := 0, cs_gst_rate := 0, cs_ipft_rate := 0\<rparr>"

definition service_db :: db where
  "service_db = empty_db\<lparr>trading_accounts := [sample_account], charge_schedules := [no_charges]\<rparr>"

definition buy :: "rat \<Rightarrow> rat \<Rightarrow> timestamp \<Rightarrow> fill_input" where
  "buy q p ts = \<lparr>fi_side = ''BUY'', fi_quantity = q, fi_price = p, fi_fill_timestamp = ts\<rparr>"

definition sell :: "rat \<Rightarrow> rat \<Rightarrow> timestamp \<Rightarrow> fill_input" where
  "sell q p ts = \<lparr>fi_side = ''SELL'', fi_quantity = q, fi_price = p, fi_fill_timestamp = ts\<rparr>"

section \<open>A plan written too late\<close>

text \<open>An intraday round trip entered at once, with a planned stop.\<close>

definition late_fills :: "fill_input list" where
  "late_fills = [buy 10 100 (at_time 10 0), sell 10 110 (at_time 11 0)]"

definition late_db1 :: "uuid \<times> db" where
  "late_db1 = projr (get_or_create ''INFY'' ''NSE_EQ'' ''EQ'' None None service_db)"

definition late_db2 :: "exn + db" where
  "late_db2 = insert_manual_fills 0 7 8 50 ''INFY'' ''NSE_EQ'' ''EQ'' None None ''MIS'' late_fills
     (snd late_db1)"

definition late_run :: "exn + db \<times> reconstruction_result" where
  "late_run = rbind late_db2 (reconstruct 7 8 50 ''MIS'' ''EQ'')"

definition after_run :: "db \<Rightarrow> reconstruction_result \<Rightarrow> exn + trade_row \<times> db" where
  "after_run d3 res =
     (case affected_trade_id res of
        None \<Rightarrow> Inl (Svc (ReconstructionFailedError None))
      | Some affected \<Rightarrow>
          rbind (write_plan affected (Some 95) None d3) (\<lambda>d4.
          let d5 = backfill_after 7 res d4 in
          case get_by t_id (trades d5) affected of
            None \<Rightarrow> Inl (Py UnmappedInstanceError)
          | Some trade \<Rightarrow> Inr (trade, d5)))"

definition without_r_multiple :: "exn + trade_row \<times> db \<Rightarrow> bool" where
  "without_r_multiple outcome =
     (case outcome of
        Inl e \<Rightarrow> False
      | Inr (t, d) \<Rightarrow> t_status t = ''CLOSED'' \<and> t_planned_risk_amount t = Some 50 \<and>
          map p_net_pnl (trade_pnls d) = [100] \<and> map p_r_multiple (trade_pnls d) = [None] \<and>
          backfill_pending 7 d = [])"

lemma late_account: "resolve_account 7 8 service_db = Inr sample_account"
  by (simp add: resolve_account_def get_active_def account_service_get_def
      get_account_for_user_def get_by_def first_row_def service_db_def sample_account_def)

lemma late_first: "get_or_create ''INFY'' ''NSE_EQ'' ''EQ'' None None service_db = Inr (50, snd late_db1)"
proof -
  have "case get_or_create ''INFY'' ''NSE_EQ'' ''EQ'' None None service_db of
    Inr r \<Rightarrow> fst r = 50 | Inl e \<Rightarrow> False" by code_simp
  then show ?thesis by (auto simp: late_db1_def split: sum.splits)
qed

lemma late_evaluation:
  "case late_run of Inr (d3, res) \<Rightarrow> without_r_multiple (after_run d3 res) | Inl e \<Rightarrow> False"
  by code_simp

text \<open>
  The R-multiple of a trade that is entered and closed in one request is lost. The service
  writes the planned risk before its own backfill, but the engine has already stored the P and L
  row at the close, and the backfill skips trades that have one: the trade has a planned risk of
  50 and a net result of 100, its row has no R-multiple, and no later backfill selects it.
\<close>

theorem plan_written_too_late:
  "without_r_multiple (create_trade 0 7 8 ''INFY'' ''NSE_EQ'' ''EQ'' ''MIS'' late_fills
     None None (Some 95) None service_db)"
proof -
  obtain d3 res where r: "late_run = Inr (d3, res)" "without_r_multiple (after_run d3 res)"
    using late_evaluation by (auto split: sum.splits prod.splits)
  then obtain d2 where "late_db2 = Inr d2" "reconstruct 7 8 50 ''MIS'' ''EQ'' d2 = Inr (d3, res)"
    unfolding late_run_def rbind_eq_Inr by blast
  then have "create_trade 0 7 8 ''INFY'' ''NSE_EQ'' ''EQ'' ''MIS'' late_fills
     None None (Some 95) None service_db = after_run d3 res"
    by (simp add: create_trade_def late_account late_first sample_account_def
        late_db2_def after_run_def del: insert_manual_fills.simps)
  with r(2) show ?thesis by simp
qed

section \<open>A lot left behind\<close>

text \<open>A delivery buy, deleted again; then the same shares bought and sold.\<close>

definition round_trip :: "fill_input list" where
  "round_trip = [buy 5 100 (at_time 11 0), sell 5 101 (at_time 12 0)]"

definition bought_and_deleted :: "exn + db" where
  "bought_and_deleted =
     rbind (create_trade 0 7 8 ''INFY'' ''NSE_EQ'' ''EQ'' ''CNC'' [buy 5 100 (at_time 10 0)]
              None None None None service_db)
       (\<lambda>(t, d). soft_delete_trade 7 (t_id t) d)"

definition lot_error :: exn where
  "lot_error = Svc (ReconstructionFailedError (Some
     (ReconstructionConsistencyError (LotNotClosed 64 63 5 ''OPEN''))))"

lemma stale_evaluation:
  "case bought_and_deleted of
     Inl e \<Rightarrow> False
   | Inr d \<Rightarrow>
       (case resolve_account 7 8 d of Inl e \<Rightarrow> False | Inr a \<Rightarrow> a_id a = 8) \<and>
       (case find_for_fill ''INFY'' ''NSE_EQ'' ''EQ'' None None d of
          Inl e \<Rightarrow> False | Inr i \<Rightarrow> i = Some 50) \<and>
       (case rbind (insert_manual_fills 0 7 8 50 ''INFY'' ''NSE_EQ'' ''EQ'' None None ''CNC''
               round_trip d) (reconstruct 7 8 50 ''CNC'' ''EQ'') of
          Inl e \<Rightarrow> e = lot_error | Inr r \<Rightarrow> False)"
  by code_simp

lemma fresh_evaluation:
  "case rbind (insert_manual_fills 0 7 8 50 ''INFY'' ''NSE_EQ'' ''EQ'' None None ''CNC''
          round_trip (snd late_db1)) (reconstruct 7 8 50 ''CNC'' ''EQ'') of
     Inl e \<Rightarrow> False
   | Inr (d, res) \<Rightarrow>
       (case affected_trade_id res of
          None \<Rightarrow> False
        | Some k \<Rightarrow> (case get_by t_id (trades d) k of None \<Rightarrow> False | Some t \<Rightarrow> True))"
  by code_simp

text \<open>
  Deleting an open delivery trade leaves its tax lot open, and the engine takes the oldest
  open lot of the user and instrument whether or not its trade is deleted: the next complete
  round trip in the instrument, which succeeds on a database without the deleted trade, is
  refused with a consistency error.
\<close>

theorem deleted_trade_blocks_instrument:
  "rbind bought_and_deleted (\<lambda>d. create_trade 0 7 8 ''INFY'' ''NSE_EQ'' ''EQ'' ''CNC'' round_trip
       None None None None d) = Inl lot_error \<and>
   \<not> isl bought_and_deleted \<and>
   \<not> isl (create_trade 0 7 8 ''INFY'' ''NSE_EQ'' ''EQ'' ''CNC'' round_trip None None None None service_db)"
proof -
  obtain d acc where d: "bought_and_deleted = Inr d" "resolve_account 7 8 d = Inr acc" "a_id acc = 8"
    "find_for_fill ''INFY'' ''NSE_EQ'' ''EQ'' None None d = Inr (Some 50)"
    "rbind (insert_manual_fills 0 7 8 50 ''INFY'' ''NSE_EQ'' ''EQ'' None None ''CNC''
               round_trip d) (reconstruct 7 8 50 ''CNC'' ''EQ'') = Inl lot_error"
    using stale_evaluation by (auto split: sum.splits)
  from d(5) have "create_trade 0 7 8 ''INFY'' ''NSE_EQ'' ''EQ'' ''CNC'' round_trip None None None None d =
      Inl lot_error"
    by (intro create_trade_fails [OF d(2) get_or_create_found [OF d(4)]]) (simp only: d(3))
  then have 1: "rbind bought_and_deleted (\<lambda>d. create_trade 0 7 8 ''INFY'' ''NSE_EQ'' ''EQ'' ''CNC''
      round_trip None None None None d) = Inl lot_error"
    by (simp only: d(1) rbind.simps)
  obtain d3 res k t where f: "rbind (insert_manual_fills 0 7 8 50 ''INFY'' ''NSE_EQ'' ''EQ'' None None
      ''CNC'' round_trip (snd late_db1)) (reconstruct 7 8 50 ''CNC'' ''EQ'') = Inr (d3, res)"
    "affected_trade_id res = Some k" "get_by t_id (trades d3) k = Some t"
    using fresh_evaluation by (auto split: sum.splits prod.splits option.splits)
  have "create_trade 0 7 8 ''INFY'' ''NSE_EQ'' ''EQ'' ''CNC'' round_trip None None None None service_db =
      Inr (t, backfill_after 7 res d3)"
    by (rule create_trade_succeeds [OF late_account late_first _ f(2)])
      (simp_all only: f(1,3) sample_account_def trading_account_row.select_convs backfill_after_trades)
  then have "\<not> isl (create_trade 0 7 8 ''INFY'' ''NSE_EQ'' ''EQ'' ''CNC'' round_trip None None None None
      service_db)" by simp
  moreover have "\<not> isl bought_and_deleted" unfolding d(1) by simp
  ultimately show ?thesis using 1 by blast
qed

section \<open>Deletion\<close>

text \<open>
  C14: what a successful deletion does. The trade was live and in an account of the user, all
  its fills were entered by hand, and of the database only two things change: the flag of that
  trade, its status included in what stays, and new exclusion records, one for each fill of the
  trade that had none. Afterwards every fill of the trade is excluded, and the trade can neither be
  deleted again nor be added to, by anybody.
\<close>

theorem soft_delete_effect:
  assumes "soft_delete_trade u k d = Inr d'"
  shows "\<exists>t a es. get_by t_id (trades d) k = Some t \<and> \<not> t_is_deleted t \<and> t_account_id t = Some a \<and>
      get_account_for_user u a d \<noteq> None \<and>
      list_all (\<lambda>x. x_trade_id x = Some k \<longrightarrow> x_import_source x = ''MANUAL'') (execution_fills d) \<and>
      d' = d\<lparr>trades := update_by t_id k (\<lambda>t. t\<lparr>t_is_deleted := True\<rparr>) (trades d),
             fill_exclusions := fill_exclusions d @ es, next_uuid := next_uuid d + length es\<rparr> \<and>
      map fe_fill_id es = map x_id (filter (\<lambda>x. x_trade_id x = Some k \<and>
        x_id x \<notin> set (get_excluded_fill_ids_for_trade k d)) (execution_fills d)) \<and>
      list_all (\<lambda>x. x_trade_id x = Some k \<longrightarrow> exists_by_fill_id (x_id x) d') (execution_fills d) \<and>
      soft_delete_trade v k d' = Inl (Svc (TradeNotFoundError k)) \<and>
      add_fill now v k f d' = Inl (Svc (TradeNotFoundError k))"
  using assms
proof (rule soft_delete_stages)
  fix t a acc
  let ?xs = "map x_id (filter (\<lambda>x. x_trade_id x = Some k \<and>
        x_id x \<notin> set (get_excluded_fill_ids_for_trade k d)) (execution_fills d))"
  assume t: "get_by t_id (trades d) k = Some t" "\<not> t_is_deleted t" "t_account_id t = Some a"
    "get_account_for_user u a d = Some acc"
    and manual: "\<forall>x\<in>set (execution_fills d). x_trade_id x = Some k \<longrightarrow> x_import_source x = ''MANUAL''"
    and d': "d' = update_trade k (\<lambda>t. t\<lparr>t_is_deleted := True\<rparr>) (exclude_fills u ?xs d)"
  obtain es where es: "fill_exclusions (exclude_fills u ?xs d) = fill_exclusions d @ es"
    "map fe_fill_id es = ?xs"
    using exclude_fills_exclusions [of u ?xs d] by blast
  have len: "length ?xs = length es" using es(2) by (metis length_map)
  have d'': "d' = d\<lparr>trades := update_by t_id k (\<lambda>t. t\<lparr>t_is_deleted := True\<rparr>) (trades d),
      fill_exclusions := fill_exclusions d @ es, next_uuid := next_uuid d + length es\<rparr>"
    using exclude_fills_frame [of u ?xs d] unfolding d' update_trade_def es(1) len by simp
  have excl: "exists_by_fill_id (x_id x) d'" if "x \<in> set (execution_fills d)" "x_trade_id x = Some k" for x
  proof (cases "x_id x \<in> set (get_excluded_fill_ids_for_trade k d)")
    case True
    then show ?thesis
      by (auto simp: get_excluded_fill_ids_for_trade_def exists_by_fill_id_def d'' filter_empty_conv)
  next
    case False
    with that have "x_id x \<in> set (map fe_fill_id es)" unfolding es(2) by auto
    then show ?thesis by (auto simp: exists_by_fill_id_def d'' filter_empty_conv)
  qed
  have gone: "live_trade k d' = Inl (Svc (TradeNotFoundError k))"
    using t(1) by (simp add: live_trade_def d'' get_by_update_by)
  show ?thesis
    using t manual d'' es(2) excl gone
    by (intro exI [of _ t] exI [of _ a] exI [of _ es])
      (simp add: list_all_iff soft_delete_trade_def add_fill_def)
qed

lemma sample_deletion: "case bought_and_deleted of Inr d \<Rightarrow>
    map t_is_deleted (trades d) = [True] \<and> length (fill_exclusions d) = 1 | Inl e \<Rightarrow> False"
  by code_simp

definition bought_db :: db where
  "bought_db = snd (projr (create_trade 0 7 8 ''INFY'' ''NSE_EQ'' ''EQ'' ''CNC''
     [buy 5 100 (at_time 10 0)] None None None None service_db))"

definition bought_trade :: uuid where
  "bought_trade = t_id (fst (projr (create_trade 0 7 8 ''INFY'' ''NSE_EQ'' ''EQ'' ''CNC''
     [buy 5 100 (at_time 10 0)] None None None None service_db)))"

definition deleted_db :: db where "deleted_db = projr bought_and_deleted"

lemma deleted_db: "soft_delete_trade 7 bought_trade bought_db = Inr deleted_db"
proof -
  obtain d where d: "bought_and_deleted = Inr d" using sample_deletion by (auto split: sum.splits)
  then obtain t d1 where "create_trade 0 7 8 ''INFY'' ''NSE_EQ'' ''EQ'' ''CNC''
     [buy 5 100 (at_time 10 0)] None None None None service_db = Inr (t, d1)"
    "soft_delete_trade 7 (t_id t) d1 = Inr d"
    by (auto simp: bought_and_deleted_def result_simps)
  then show ?thesis by (simp add: deleted_db_def bought_db_def bought_trade_def d)
qed

theorem soft_delete_effect_witness:
  "soft_delete_trade 9 bought_trade deleted_db = Inl (Svc (TradeNotFoundError bought_trade))"
  using soft_delete_effect [OF deleted_db, of 9 0 "buy 1 1 0"] by blast

text \<open>
  C15: deletion is final. Whatever requests follow, by whatever users and on whatever accounts, a
  deleted trade stays in the table exactly as the deletion left it, the fills linked to it stay the
  same rows, none is added to them, and none of them is ever handed to the engine again.
\<close>

theorem deletion_is_final:
  assumes "any_step\<^sup>*\<^sup>* d d'" and "ids_ok d" and "get_by t_id (trades d) k = Some t"
    and "t_is_deleted t"
  shows "get_by t_id (trades d') k = Some t \<and>
    filter (\<lambda>x. x_trade_id x = Some k) (execution_fills d') =
      filter (\<lambda>x. x_trade_id x = Some k) (execution_fills d) \<and>
    (\<forall>x\<in>set (execution_fills d). x_trade_id x = Some k \<longrightarrow>
       x_id x \<notin> fr_id ` set (get_unprocessed_fills u a i p d'))"
proof -
  have t: "t \<in> set (trades d)" "t_id t = k" using get_by_Some [OF assms(3)] by auto
  from any_steps_effect [OF assms(1,2) t(1) assms(4)] have un: "undisturbed k d d'" and ok: "ids_ok d'"
    by (simp_all add: t(2))
  have "t \<in> set (trades d')" using undisturbed_trade [of t] un t by simp
  then have "get_by t_id (trades d') k = Some t"
    using ok distinct_get_by [of t_id "trades d'" t] t(2) by (simp add: ids_ok_def trade_ids_ok_def)
  moreover have fills: "filter (\<lambda>x. x_trade_id x = Some k) (execution_fills d') =
      filter (\<lambda>x. x_trade_id x = Some k) (execution_fills d)" using un by (simp add: undisturbed_def)
  moreover have "x_id x \<notin> fr_id ` set (get_unprocessed_fills u a i p d')"
    if x: "x \<in> set (execution_fills d)" "x_trade_id x = Some k" for x
  proof -
    have "x \<in> set (filter (\<lambda>x. x_trade_id x = Some k) (execution_fills d'))"
      unfolding fills using x by simp
    then have "x \<in> set (execution_fills d')" by simp
    then show ?thesis using ok x(2)
      by (auto simp: get_unprocessed_fills_def is_unprocessed_def to_record_def ids_ok_def
          distinct_map inj_on_def)
  qed
  ultimately show ?thesis by blast
qed

lemma sample_final:
  "case bought_and_deleted of
     Inl e \<Rightarrow> False
   | Inr d \<Rightarrow>
       (case trades d of [t] \<Rightarrow> t_is_deleted t \<and> t_id t < next_uuid d | _ \<Rightarrow> False) \<and>
       distinct (map x_id (execution_fills d)) \<and> list_all (\<lambda>x. x_id x < next_uuid d) (execution_fills d) \<and>
       (case rbind (insert_manual_fills 0 7 8 50 ''INFY'' ''NSE_EQ'' ''EQ'' None None ''MIS''
               [buy 1 100 (at_time 13 0)] d) (reconstruct 7 8 50 ''MIS'' ''EQ'') of
          Inl e \<Rightarrow> False
        | Inr (d3, res) \<Rightarrow>
            (case affected_trade_id res of
               None \<Rightarrow> False
             | Some k \<Rightarrow> (case get_by t_id (trades d3) k of None \<Rightarrow> False | Some t \<Rightarrow> True)))"
  by code_simp

theorem deletion_is_final_witness:
  "\<exists>t d'. get_by t_id (trades deleted_db) (t_id t) = Some t \<and> service_step 7 8 deleted_db d' \<and>
     get_by t_id (trades d') (t_id t) = Some t"
proof -
  obtain d acc where d: "bought_and_deleted = Inr d" "resolve_account 7 8 d = Inr acc" "a_id acc = 8"
    "find_for_fill ''INFY'' ''NSE_EQ'' ''EQ'' None None d = Inr (Some 50)"
    using stale_evaluation by (auto split: sum.splits)
  have dd: "deleted_db = d" unfolding deleted_db_def d(1) by simp
  note final = sample_final [unfolded d(1) sum.case]
  obtain t where t: "trades deleted_db = [t]" "t_is_deleted t" "t_id t < next_uuid deleted_db"
    using final [THEN conjunct1] unfolding dd by (auto split: list.splits)
  have ok: "ids_ok deleted_db"
    using final [THEN conjunct2, THEN conjunct1] final [THEN conjunct2, THEN conjunct2, THEN conjunct1] t(3)
    unfolding dd by (simp add: ids_ok_def trade_ids_ok_def t(1) [unfolded dd] list_all_iff)
  obtain d3 res k t3 where f: "rbind (insert_manual_fills 0 7 8 50 ''INFY'' ''NSE_EQ'' ''EQ'' None None
      ''MIS'' [buy 1 100 (at_time 13 0)] d) (reconstruct 7 8 50 ''MIS'' ''EQ'') = Inr (d3, res)"
    "affected_trade_id res = Some k" "get_by t_id (trades d3) k = Some t3"
    using final [THEN conjunct2, THEN conjunct2, THEN conjunct2]
    by (auto simp del: insert_manual_fills.simps rbind.simps split: prod.splits sum.splits option.splits)
  have "create_trade 0 7 8 ''INFY'' ''NSE_EQ'' ''EQ'' ''MIS'' [buy 1 100 (at_time 13 0)] None None None None d =
      Inr (t3, backfill_after 7 res d3)"
    by (rule create_trade_succeeds [OF d(2) get_or_create_found [OF d(4)] _ f(2)])
      (simp_all only: f(1,3) d(3) backfill_after_trades)
  then have step: "service_step 7 8 deleted_db (backfill_after 7 res d3)"
    unfolding dd by (rule service_step.created)
  then have "any_step\<^sup>*\<^sup>* deleted_db (backfill_after 7 res d3)"
    by (intro r_into_rtranclp) (auto simp: any_step_def)
  moreover have g: "get_by t_id (trades deleted_db) (t_id t) = Some t" by (simp add: t get_by_Cons)
  ultimately have "get_by t_id (trades (backfill_after 7 res d3)) (t_id t) = Some t"
    using deletion_is_final [OF _ ok _ t(2), of _ "t_id t" 0 0 0 "[]"] by blast
  with step g show ?thesis by blast
qed

text \<open>
  C16: accounts are isolated. A request that succeeds is on an account of the user who makes it, and
  the trades and the fills of every other account, of the same user or of others, are the same
  rows in the same order; identifiers stay distinct and fresh ones unused.
\<close>

theorem other_accounts_untouched:
  assumes "service_step u a d d'" and "ids_ok d"
  shows "get_account_for_user u a d \<noteq> None \<and>
    filter (\<lambda>t. t_account_id t \<noteq> Some a) (trades d') = filter (\<lambda>t. t_account_id t \<noteq> Some a) (trades d) \<and>
    filter (\<lambda>x. x_account_id x \<noteq> Some a) (execution_fills d') =
      filter (\<lambda>x. x_account_id x \<noteq> Some a) (execution_fills d) \<and>
    ids_ok d'"
  using service_step_effect [OF assms] assms(2) by (auto simp: spares_def confined_def)

definition foreign_trade :: trade_row where
  "foreign_trade = new_trade_row 3 12 (Some 13) 9 ''MIS'' ''LONG'' ''OPEN'' 19800 0 1 0 1 100"

definition shared_db :: db where
  "shared_db = service_db\<lparr>trades := [foreign_trade]\<rparr>"

theorem other_accounts_untouched_witness:
  "\<exists>d'. service_step 7 8 shared_db d' \<and> foreign_trade \<in> set (trades d')"
proof -
  have "case create_trade 0 7 8 ''INFY'' ''NSE_EQ'' ''EQ'' ''MIS'' [buy 1 100 (at_time 13 0)]
      None None None None shared_db of Inl e \<Rightarrow> False | Inr r \<Rightarrow> True"
    by code_simp
  then obtain t d' where "create_trade 0 7 8 ''INFY'' ''NSE_EQ'' ''EQ'' ''MIS'' [buy 1 100 (at_time 13 0)]
      None None None None shared_db = Inr (t, d')" by (auto split: sum.splits)
  then have step: "service_step 7 8 shared_db d'" by (rule service_step.created)
  have ok: "ids_ok shared_db"
    by (simp add: ids_ok_def trade_ids_ok_def shared_db_def service_db_def empty_db_def foreign_trade_def
        new_trade_row_def)
  have "foreign_trade \<in> set (filter (\<lambda>t. t_account_id t \<noteq> Some 8) (trades shared_db))"
    by (simp add: shared_db_def foreign_trade_def new_trade_row_def)
  also have "\<dots> = set (filter (\<lambda>t. t_account_id t \<noteq> Some 8) (trades d'))"
    using other_accounts_untouched [OF step ok] by simp
  finally show ?thesis using step by auto
qed

section \<open>The plan\<close>

text \<open>
  C17: the plan of a created trade. When a request with a planned stop succeeds, the account was
  the user's and active, the returned row is the stored one, the stop is on the losing side of the
  average entry, and the planned risk is the distance between them times the entered quantity,
  both as the database rounds them.
\<close>

theorem create_trade_plan:
  assumes "create_trade now u a sb seg ty p fs e k (Some stop) target d = Inr (r, d')"
  shows "get_by t_id (trades d') (t_id r) = Some r \<and>
    (\<exists>acc. get_active u a d = Inr acc \<and> a_user_id acc = u \<and> a_id acc = a) \<and>
    (\<exists>avg. t_average_entry r = Some avg \<and>
       (t_direction r = ''LONG'' \<longrightarrow> stop < avg) \<and> (t_direction r = ''SHORT'' \<longrightarrow> avg < stop) \<and>
       Option.map_option Inr (t_planned_stop r) = Some (numeric_18_4 stop) \<and>
       Option.map_option Inr (t_planned_risk_amount r) =
         Some (numeric_18_4 (planned_risk avg stop (t_total_entry_quantity r))))"
  using assms
proof (rule create_trade_stages)
  fix acc i d1 d3 res affected d4
  assume acc: "get_account_for_user u a d = Some acc" "a_status acc = ''ACTIVE''"
    and plan: "write_plan affected (Some stop) target d3 = Inr d4"
    and d': "d' = backfill_after u res d4" and r: "get_by t_id (trades d') affected = Some r"
  have id: "t_id r = affected" using get_by_Some [OF r] by simp
  obtain row avg stored risk where row: "get_by t_id (trades d3) affected = Some row"
    "t_average_entry row = Some avg" "\<not> stop_on_wrong_side (t_direction row) stop avg"
    "numeric_18_4 stop = Inr stored"
    "numeric_18_4 (planned_risk avg stop (t_total_entry_quantity row)) = Inr risk"
    using plan by (auto simp: write_plan_def result_simps split: option.splits if_splits)
  obtain g where d4: "d4 = update_trade affected (\<lambda>t. g (t\<lparr>t_planned_stop := Some stored,
        t_planned_risk_amount := Some risk\<rparr>)) d3"
    and g: "g = (\<lambda>t. t) \<or> (\<exists>x. g = (\<lambda>t. t\<lparr>t_planned_target := Some x\<rparr>))"
  proof (cases target)
    case None
    with plan row have "d4 = update_trade affected (\<lambda>t. t\<lparr>t_planned_stop := Some stored,
          t_planned_risk_amount := Some risk\<rparr>) d3" by (simp add: write_plan_def)
    then show ?thesis by (intro that [of "\<lambda>t. t"]) simp_all
  next
    case (Some tg)
    with plan row obtain x where "d4 = update_trade affected (\<lambda>t. t\<lparr>t_planned_stop := Some stored,
          t_planned_risk_amount := Some risk, t_planned_target := Some x\<rparr>) d3"
      by (cases "numeric_18_4 tg") (auto simp: write_plan_def)
    then show ?thesis by (intro that [of "\<lambda>t. t\<lparr>t_planned_target := Some x\<rparr>"]) auto
  qed
  have gid: "t_id (g t) = t_id t" for t using g by auto
  have "get_by t_id (trades d4) affected = Some (g (row\<lparr>t_planned_stop := Some stored,
        t_planned_risk_amount := Some risk\<rparr>))"
    unfolding d4 update_trade_def using row(1) by (simp add: get_by_update_by gid)
  with r d' have "r = g (row\<lparr>t_planned_stop := Some stored, t_planned_risk_amount := Some risk\<rparr>)"
    by simp
  with g row have "t_average_entry r = Some avg" "t_planned_stop r = Some stored"
    "t_planned_risk_amount r = Some risk" "t_direction r = t_direction row"
    "t_total_entry_quantity r = t_total_entry_quantity row" by auto
  with row(3-5) r id acc get_account_cases [OF acc(1)] show ?thesis
    by (auto simp: stop_on_wrong_side_def get_active_Inr not_le)
qed

lemma plan_evaluation:
  "case create_trade 0 7 8 ''INFY'' ''NSE_EQ'' ''EQ'' ''MIS'' [buy 10 100 (at_time 10 0)] None None
     (Some 95) None service_db of
     Inl e \<Rightarrow> False | Inr (t, d) \<Rightarrow> t_direction t = ''LONG'' \<and> t_total_entry_quantity t = 10"
  by code_simp

theorem create_trade_plan_witness:
  "\<exists>t d'. create_trade 0 7 8 ''INFY'' ''NSE_EQ'' ''EQ'' ''MIS'' [buy 10 100 (at_time 10 0)] None None
     (Some 95) None service_db = Inr (t, d') \<and> (\<exists>avg. t_average_entry t = Some avg \<and> 95 < avg)"
proof -
  obtain t d' where c: "create_trade 0 7 8 ''INFY'' ''NSE_EQ'' ''EQ'' ''MIS'' [buy 10 100 (at_time 10 0)]
     None None (Some 95) None service_db = Inr (t, d')" "t_direction t = ''LONG''"
    using plan_evaluation by (auto split: sum.splits prod.splits)
  from create_trade_plan [OF c(1)] c(2) have "\<exists>avg. t_average_entry t = Some avg \<and> 95 < avg" by auto
  with c(1) show ?thesis by blast
qed

section \<open>Accounts\<close>

text \<open>The operations of the account service, by any user.\<close>

inductive account_step :: "db \<Rightarrow> db \<Rightarrow> bool" where
  created: "account_service_create now u b n ty cur cap d = Inr (a, d') \<Longrightarrow> account_step d d'"
| updated: "account_service_update now u i n ty cap d = Inr (a, d') \<Longrightarrow> account_step d d'"
| deactivated: "account_service_deactivate now u i d = (found, d') \<Longrightarrow> account_step d d'"

lemma account_service_update_Inr:
  assumes "account_service_update now u i n ty cap d = Inr (a, d')"
  shows "d' = update_own_account u i (account_values now (map_option strip n) ty cap) d"
    and "\<And>t. ty = Some t \<Longrightarrow> t \<in> set VALID_ACCOUNT_TYPES"
  using assms by (auto simp: account_service_update_def update_account_def Let_def split: if_splits option.splits)

lemma account_step_ok:
  assumes "account_step d d'" and "accounts_ok d"
  shows "accounts_ok d'"
  using assms(1)
proof cases
  case created
  then show ?thesis by (rule accounts_ok_create [OF assms(2)])
next
  case updated
  note up = account_service_update_Inr [OF updated]
  show ?thesis unfolding up(1)
    by (rule accounts_ok_update [OF assms(2)])
      (use up(2) in \<open>auto simp: account_values_def account_check_def split: option.splits\<close>)
next
  case deactivated
  then show ?thesis
    by (auto simp: account_service_deactivate_def deactivate_account_def account_check_def
        intro!: accounts_ok_update [OF assms(2)])
qed

lemma account_step_inactive:
  assumes "account_step d d'" and "accounts_ok d" and "get_account_for_user u i d = Some a"
    and "a_status a = ''INACTIVE''"
  shows "\<exists>a'. get_account_for_user u i d' = Some a' \<and> a_status a' = ''INACTIVE''"
  using assms(1)
proof cases
  case (created now v b n ty cur cap x)
  have "a_id a < next_uuid d" "a_id a = i"
    using get_account_cases [OF assms(3)] assms(2) by (auto simp: accounts_ok_def)
  then show ?thesis
    using get_account_create [OF assms(2) created] account_service_create_Inr(2) [OF created] assms(3,4)
    by simp
next
  case (updated now v j n ty cap x)
  have "get_account_for_user u i d' = (if u = v \<and> i = j
      then map_option (account_values now (map_option strip n) ty cap) (get_account_for_user u i d)
      else get_account_for_user u i d)"
    unfolding account_service_update_Inr(1) [OF updated]
    by (rule get_account_update) (simp_all add: account_values_def)
  with assms(3,4) show ?thesis
    by (cases "u = v \<and> i = j") (auto simp: account_values_def)
next
  case (deactivated now v j found)
  then have d': "d' = update_own_account v j (\<lambda>a. a\<lparr>a_status := ''INACTIVE'', a_updated_at := now\<rparr>) d"
    by (simp add: account_service_deactivate_def deactivate_account_def)
  have "get_account_for_user u i d' = (if u = v \<and> i = j
      then map_option (\<lambda>a. a\<lparr>a_status := ''INACTIVE'', a_updated_at := now\<rparr>) (get_account_for_user u i d)
      else get_account_for_user u i d)"
    unfolding d' by (rule get_account_update) simp_all
  with assms(3,4) show ?thesis by (cases "u = v \<and> i = j") auto
qed

lemma account_steps_inactive:
  assumes "account_step\<^sup>*\<^sup>* d d'" and "accounts_ok d" and "get_account_for_user u i d = Some a"
    and "a_status a = ''INACTIVE''"
  shows "accounts_ok d' \<and> (\<exists>a'. get_account_for_user u i d' = Some a' \<and> a_status a' = ''INACTIVE'')"
  using assms
proof (induction rule: rtranclp_induct)
  case (step d1 d2)
  then obtain a1 where "accounts_ok d1" "get_account_for_user u i d1 = Some a1" "a_status a1 = ''INACTIVE''"
    by blast
  with step.hyps(2) show ?case using account_step_ok account_step_inactive by blast
qed simp

text \<open>
  C18: the life of an account. A created account is found by its owner with the trimmed name, is
  active and is the one row added to the owner's list; deactivating it reports that it was found;
  afterwards it is still found and still listed but no longer active, and no operation of the
  account service, whoever runs it, makes it active again. To every other user it is absent throughout,
  no other account and no other user's list is changed, and the constraints of the table hold at
  every point.
\<close>

theorem account_lifecycle:
  assumes "accounts_ok d" and "account_service_create now u b n ty cur cap d = Inr (a, d1)"
    and "account_service_deactivate now' u (a_id a) d1 = (found, d2)" and "account_step\<^sup>*\<^sup>* d2 d3"
  shows "get_active u (a_id a) d1 = Inr a \<and> a_display_name a = strip n \<and> strip n \<noteq> [] \<and>
    mset (account_service_list u d1) = add_mset a (mset (account_service_list u d)) \<and>
    found \<and> get_active u (a_id a) d2 = Inl (Imp (AccountInactiveError (a_id a))) \<and>
    account_service_get u (a_id a) d2 = Inr (a\<lparr>a_status := ''INACTIVE'', a_updated_at := now'\<rparr>) \<and>
    mset (account_service_list u d2) =
      add_mset (a\<lparr>a_status := ''INACTIVE'', a_updated_at := now'\<rparr>) (mset (account_service_list u d)) \<and>
    get_active u (a_id a) d3 = Inl (Imp (AccountInactiveError (a_id a))) \<and>
    (v \<noteq> u \<longrightarrow> account_service_get v (a_id a) d2 = Inl (Imp (AccountNotFoundError (a_id a))) \<and>
       account_service_list v d1 = account_service_list v d \<and>
       account_service_list v d2 = account_service_list v d) \<and>
    (i \<noteq> a_id a \<longrightarrow> account_service_get v i d2 = account_service_get v i d) \<and>
    accounts_ok d1 \<and> accounts_ok d2 \<and> accounts_ok d3"
proof -
  note c = account_service_create_Inr [OF assms(2)]
  note g = get_account_create [OF assms(1,2)]
  let ?f = "\<lambda>a. a\<lparr>a_status := ''INACTIVE'', a_updated_at := now'\<rparr>"
  have ok1: "accounts_ok d1" by (rule accounts_ok_create [OF assms(1,2)])
  have d2: "d2 = update_own_account u (a_id a) ?f d1"
    and found: "found = (filter (\<lambda>x. a_id x = a_id a \<and> a_user_id x = u) (trading_accounts d1) \<noteq> [])"
    using assms(3) by (auto simp: account_service_deactivate_def deactivate_account_def)
  have g2: "get_account_for_user u' i' d2 =
    (if u' = u \<and> i' = a_id a then map_option ?f (get_account_for_user u' i' d1)
     else get_account_for_user u' i' d1)" for u' i'
    unfolding d2 by (rule get_account_update) simp_all
  have a: "a_user_id a = u" "a_status a = ''ACTIVE''" "a_display_name a = strip n" "a \<in> set (trading_accounts d1)"
    using c(1,2) by simp_all
  have ok2: "accounts_ok d2" using account_step.deactivated [OF assms(3)] account_step_ok ok1 by blast
  have ok3: "accounts_ok d3" and final: "\<exists>a'. get_account_for_user u (a_id a) d3 = Some a' \<and> a_status a' = ''INACTIVE''"
    using account_steps_inactive [OF assms(4) ok2, of u "a_id a" "?f a"] g2 [of u "a_id a"] g [of u "a_id a"] by auto
  have absent: "get_account_for_user v (a_id a) d = None" for v
    using assms(1) c(2) by (auto simp: get_account_None accounts_ok_def)
  have old: "a_id x \<noteq> a_id a" if "x \<in> set (trading_accounts d)" for x
    using that assms(1) c(2) by (auto simp: accounts_ok_def)
  have rows: "trading_accounts d1 = trading_accounts d @ [a]" using c(1) by simp
  have rows2: "trading_accounts d2 = trading_accounts d @ [?f a]"
  proof -
    have "update_where (\<lambda>x. a_id x = a_id a \<and> a_user_id x = u) ?f (trading_accounts d) = trading_accounts d"
      using old by (intro update_where_none) auto
    then show ?thesis using a(1) by (simp add: d2 update_own_account_def rows)
  qed
  have "found" unfolding found using a(1,4) by (auto simp: filter_empty_conv)
  then show ?thesis
    using g g2 a c(4) ok1 ok2 ok3 final absent
    by (auto simp add: get_active_def account_service_get_def account_service_list_def
        list_accounts_for_user_def rows rows2 mset_order_by)
qed

theorem account_lifecycle_witness:
  "\<exists>a d1. account_service_create 1 7 ''ZERODHA'' '' Main '' ''HUF'' ''INR'' None service_db = Inr (a, d1) \<and>
     a_display_name a = ''Main'' \<and> get_active 7 (a_id a) d1 = Inr a"
proof -
  have ok: "accounts_ok service_db"
    by (simp add: accounts_ok_def service_db_def empty_db_def sample_account_def account_check_def
        VALID_BROKERS_def VALID_ACCOUNT_TYPES_def)
  have s: "strip '' Main '' = ''Main''" by code_simp
  then obtain a d1 where c: "account_service_create 1 7 ''ZERODHA'' '' Main '' ''HUF'' ''INR'' None service_db = Inr (a, d1)"
    by (auto simp: account_service_create_def VALID_BROKERS_def VALID_ACCOUNT_TYPES_def create_account_def
        uuid4_def Let_def)
  obtain found d2 where "account_service_deactivate 2 7 (a_id a) d1 = (found, d2)" by fastforce
  from account_lifecycle [OF ok c this rtranclp.rtrancl_refl, of 0 0] c s show ?thesis by auto
qed

section \<open>Instruments\<close>

text \<open>
  C19: finding or creating an instrument. A success names a row that is exactly the contract asked
  for; asking again returns the same identifier and changes nothing; rows are only ever added,
  at most one, and one that was there for the contract is reused.
\<close>

theorem get_or_create_idempotent:
  assumes "get_or_create sb seg ty e k d = Inr (i, d')"
  shows "get_or_create sb seg ty e k d' = Inr (i, d') \<and>
    (\<exists>r\<in>set (instruments d'). is_contract sb seg ty e k r \<and> i_id r = i) \<and>
    (d' = d \<or> filter (is_contract sb seg ty e k) (instruments d) = [] \<and>
       (\<exists>r. instruments d' = instruments d @ [r] \<and> instrument_check r))"
  using assms
proof (cases rule: get_or_create_cases)
  case (found r)
  with assms show ?thesis by auto
next
  case (created row)
  have none: "filter (is_contract sb seg ty e k) (instruments d) = []"
    using created(5) by (simp add: filter_empty_conv)
  from assms have "\<exists>x. find_for_fill sb seg ty e k d = Inr x" by (auto simp: get_or_create_def result_simps)
  then obtain x where "find_for_fill sb seg ty e k d' = Inr x" using find_for_fill_total by blast
  moreover from find_for_fill_Inr [OF this] have "x = Some i"
    using none created(2,3,6) by (simp add: first_row_def)
  ultimately have "get_or_create sb seg ty e k d' = Inr (i, d')" by (simp add: get_or_create_found)
  with created none show ?thesis by auto
qed

theorem get_or_create_idempotent_witness:
  "get_or_create ''INFY'' ''NSE_EQ'' ''EQ'' None None (snd late_db1) = Inr (50, snd late_db1)"
  using get_or_create_idempotent [OF late_first] by blast

text \<open>
  A strike with more than four decimal places is not usable: the row is stored with the
  strike rounded, the lookup that follows compares with the strike as given, and the request ends
  in an internal error, whatever the table held.
\<close>

definition odd_strike :: rat where "odd_strike = 10000001 / 100000"

theorem strike_with_five_places_fails:
  "get_or_create ''NIFTY'' ''NSE_FO'' ''CE'' (Some 20000) (Some odd_strike) service_db = Inl (Py RuntimeError) \<and>
   \<not> isl (get_or_create ''NIFTY'' ''NSE_FO'' ''CE'' (Some 20000) (Some 100) service_db)"
  by code_simp

end
