(* ===== verification/Trades_Api.thy ===== *)
theory Trades_Api
  imports Trade_Service
begin

text \<open>
  \<open>api/v1/trades.py\<close>: request validation, the list and detail queries, and the routes over the
  trade service. A route answers with a value, with an HTTP error of a status and a detail, or
  with an exception nobody catches (which the server turns into status 500); the database is the
  new one only after a successful answer, since the router commits last.
\<close>

section \<open>Requests and responses\<close>

text \<open>A \<open>datetime\<close> of a request may be naive: it carries the offset as an option.\<close>

record api_fill =
  af_side :: string
  af_quantity :: rat
  af_price :: rat
  af_fill_timestamp :: timestamp
  af_tz_aware :: bool

record instrument_input =
  in_symbol :: string
  in_exchange_segment :: string
  in_instrument_type :: string
  in_expiry_date :: "day option"
  in_strike_price :: "rat option"

record create_trade_request =
  cr_account_id :: uuid
  cr_instrument :: instrument_input
  cr_product_type :: string
  cr_fills :: "api_fill list"
  cr_planned_stop :: "rat option"
  cr_planned_target :: "rat option"

text \<open>The constraints of the models themselves (\<open>Literal\<close>, \<open>gt\<close>, \<open>min_length\<close>, \<open>max_length\<close>).\<close>

definition fill_input_ok :: "api_fill \<Rightarrow> bool" where
  "fill_input_ok f \<longleftrightarrow> af_side f \<in> {''BUY'', ''SELL''} \<and> 0 < af_quantity f \<and> 0 < af_price f"

definition instrument_input_ok :: "instrument_input \<Rightarrow> bool" where
  "instrument_input_ok i \<longleftrightarrow>
     1 \<le> length (in_symbol i) \<and> length (in_symbol i) \<le> 50 \<and>
     in_exchange_segment i \<in> {''NSE_EQ'', ''NSE_FO'', ''BSE_EQ''} \<and>
     in_instrument_type i \<in> {''EQ'', ''FUT'', ''CE'', ''PE''}"

definition create_request_ok :: "create_trade_request \<Rightarrow> bool" where
  "create_request_ok b \<longleftrightarrow>
     instrument_input_ok (cr_instrument b) \<and>
     cr_product_type b \<in> {''MIS'', ''CNC'', ''NRML''} \<and>
     list_all fill_input_ok (cr_fills b) \<and>
     1 \<le> length (cr_fills b) \<and> length (cr_fills b) \<le> 20 \<and>
     (case cr_planned_stop b of None \<Rightarrow> True | Some x \<Rightarrow> 0 < x) \<and>
     (case cr_planned_target b of None \<Rightarrow> True | Some x \<Rightarrow> 0 < x)"

datatype 'a response =
    Answer 'a
  | HttpError nat string
  | Unhandled exn

section \<open>Validation helpers\<close>

type_synonym http_error = "nat \<times> string"

fun check_chronological :: "api_fill list \<Rightarrow> http_error + unit" where
  "check_chronological (a # b # fs) =
     (if af_fill_timestamp b \<le> af_fill_timestamp a then Inl (422, ''FILLS_NOT_CHRONOLOGICAL'')
      else check_chronological (b # fs))"
| "check_chronological _ = Inr ()"

definition validate_create_request :: "create_trade_request \<Rightarrow> http_error + unit" where
  "validate_create_request b =
     (let i = cr_instrument b in
      rbind (check (list_all af_tz_aware (cr_fills b)) (422, ''FILL_TIMESTAMP_NOT_TZ_AWARE'')) (\<lambda>_.
      rbind (check_chronological (cr_fills b)) (\<lambda>_.
      rbind (check (\<not> (in_instrument_type i \<in> {''FUT'', ''CE'', ''PE''} \<and> in_expiry_date i = None))
               (422, ''EXPIRY_DATE_REQUIRED'')) (\<lambda>_.
      rbind (check (\<not> (in_instrument_type i \<in> {''CE'', ''PE''} \<and> in_strike_price i = None))
               (422, ''STRIKE_PRICE_REQUIRED'')) (\<lambda>_.
      rbind (check (\<not> (in_instrument_type i = ''EQ'' \<and> cr_product_type b = ''NRML''))
               (422, ''INVALID_PRODUCT_TYPE_FOR_INSTRUMENT'')) (\<lambda>_.
      check (\<not> (in_instrument_type i \<in> {''FUT'', ''CE'', ''PE''} \<and> cr_product_type b = ''CNC''))
        (422, ''INVALID_PRODUCT_TYPE_FOR_INSTRUMENT'')))))))"

definition validate_add_fill_request :: "api_fill \<Rightarrow> http_error + unit" where
  "validate_add_fill_request f = check (af_tz_aware f) (422, ''FILL_TIMESTAMP_NOT_TZ_AWARE'')"

section \<open>GET /v1/trades\<close>

datatype sort_column = Sort_last_fill_at | Sort_trade_date | Sort_net_pnl | Sort_r_multiple

definition SORT_COLUMNS :: "string \<rightharpoonup> sort_column" where
  "SORT_COLUMNS = [''last_fill_at'' \<mapsto> Sort_last_fill_at, ''trade_date'' \<mapsto> Sort_trade_date,
     ''net_pnl'' \<mapsto> Sort_net_pnl, ''r_multiple'' \<mapsto> Sort_r_multiple]"

definition VALID_STATUSES :: "string list" where
  "VALID_STATUSES = [''OPEN'', ''CLOSED'', ''PARTIAL'']"

definition VALID_DIRECTIONS :: "string list" where
  "VALID_DIRECTIONS = [''LONG'', ''SHORT'']"

definition VALID_TRADE_TYPES :: "string list" where
  "VALID_TRADE_TYPES = [''MIS'', ''CNC'', ''CNC_SAME_DAY'', ''NRML_FUT'', ''NRML_OPT'']"

record list_query =
  lq_status :: "string option"
  lq_account_id :: "uuid option"
  lq_direction :: "string option"
  lq_trade_type :: "string option"
  lq_from_date :: "day option"
  lq_to_date :: "day option"
  lq_instrument :: "string option"
  lq_sort_by :: string
  lq_sort_dir :: string
  lq_limit :: nat
  lq_offset :: nat

record trade_list_item =
  li_id :: uuid
  li_account_id :: "uuid option"
  li_symbol :: string
  li_instrument_type :: string
  li_direction :: string
  li_status :: string
  li_trade_date :: day
  li_last_fill_at :: "timestamp option"
  li_net_pnl :: "rat option"
  li_r_multiple :: "rat option"

record trade_list_page =
  lp_items :: "trade_list_item list"
  lp_total :: nat
  lp_limit :: nat
  lp_offset :: nat

definition matches :: "'a option \<Rightarrow> 'a \<Rightarrow> bool" where
  "matches f x = (case f of None \<Rightarrow> True | Some y \<Rightarrow> x = y)"

fun starts_with :: "string \<Rightarrow> string \<Rightarrow> bool" where
  "starts_with _ [] = True"
| "starts_with [] (y # ys) = False"
| "starts_with (x # xs) (y # ys) = (x = y \<and> starts_with xs ys)"

definition list_where :: "uuid \<Rightarrow> list_query \<Rightarrow> trade_row \<Rightarrow> instrument_row \<Rightarrow> bool" where
  "list_where user_id q t i \<longleftrightarrow>
     t_user_id t = user_id \<and> \<not> t_is_deleted t \<and>
     matches (lq_status q) (t_status t) \<and>
     (case lq_account_id q of None \<Rightarrow> True | Some a \<Rightarrow> t_account_id t = Some a) \<and>
     matches (lq_direction q) (t_direction t) \<and>
     matches (lq_trade_type q) (t_trade_type t) \<and>
     (case lq_from_date q of None \<Rightarrow> True | Some x \<Rightarrow> x \<le> t_trade_date t) \<and>
     (case lq_to_date q of None \<Rightarrow> True | Some x \<Rightarrow> t_trade_date t \<le> x) \<and>
     (case lq_instrument q of
        None \<Rightarrow> True
      | Some s \<Rightarrow> strip s = [] \<or> starts_with (upper (i_symbol i)) (upper (strip s)))"

text \<open>\<open>trades JOIN instruments LEFT JOIN trade_pnl\<close>\<close>

definition left_join_pnl :: "trade_row \<Rightarrow> db \<Rightarrow> trade_pnl_row option list" where
  "left_join_pnl t d =
     (let ps = filter (\<lambda>p. p_trade_id p = t_id t) (trade_pnls d)
      in if ps = [] then [None] else map Some ps)"

definition joined_rows ::
  "uuid \<Rightarrow> list_query \<Rightarrow> db \<Rightarrow> (trade_row \<times> instrument_row \<times> trade_pnl_row option) list" where
  "joined_rows user_id q d =
     [(t, i, p). t \<leftarrow> trades d, i \<leftarrow> filter (\<lambda>i. i_id i = t_instrument_id t) (instruments d),
        list_where user_id q t i, p \<leftarrow> left_join_pnl t d]"

text \<open>\<open>ORDER BY c ASC\<close> puts NULL last, \<open>DESC\<close> first.\<close>

definition null_last_le :: "('a \<Rightarrow> 'a \<Rightarrow> bool) \<Rightarrow> 'a option \<Rightarrow> 'a option \<Rightarrow> bool" where
  "null_last_le le x y =
     (case (x, y) of (_, None) \<Rightarrow> True | (None, Some _) \<Rightarrow> False | (Some a, Some b) \<Rightarrow> le a b)"

definition sort_le ::
  "sort_column \<Rightarrow> trade_row \<times> instrument_row \<times> trade_pnl_row option \<Rightarrow>
   trade_row \<times> instrument_row \<times> trade_pnl_row option \<Rightarrow> bool" where
  "sort_le c x y =
     (case (x, y) of ((t, _, p), (t', _, p')) \<Rightarrow>
        (case c of
           Sort_last_fill_at \<Rightarrow> null_last_le (\<le>) (t_last_fill_at t) (t_last_fill_at t')
         | Sort_trade_date \<Rightarrow> t_trade_date t \<le> t_trade_date t'
         | Sort_net_pnl \<Rightarrow> null_last_le (\<le>) (map_option p_net_pnl p) (map_option p_net_pnl p')
         | Sort_r_multiple \<Rightarrow>
             null_last_le (\<le>) (Option.bind p p_r_multiple) (Option.bind p' p_r_multiple)))"

definition list_item :: "trade_row \<times> instrument_row \<times> trade_pnl_row option \<Rightarrow> trade_list_item" where
  "list_item r = (case r of (t, i, p) \<Rightarrow> \<lparr>
     li_id = t_id t, li_account_id = t_account_id t, li_symbol = i_symbol i,
     li_instrument_type = i_instrument_type i, li_direction = t_direction t,
     li_status = t_status t, li_trade_date = t_trade_date t,
     li_last_fill_at = t_last_fill_at t, li_net_pnl = map_option p_net_pnl p,
     li_r_multiple = Option.bind p p_r_multiple\<rparr>)"

text \<open>
  The sort column is not unique and the query has no further one, so the order of rows with equal
  keys is the database's, query by query: \<open>scan\<close> is the order in which it meets the joined rows.
\<close>

type_synonym joined_row = "trade_row \<times> instrument_row \<times> trade_pnl_row option"

definition ordered_rows ::
  "(joined_row list \<Rightarrow> joined_row list) \<Rightarrow> uuid \<Rightarrow> list_query \<Rightarrow> db \<Rightarrow> joined_row list" where
  "ordered_rows scan user_id q d =
     (let sort_col = (case SORT_COLUMNS (lq_sort_by q) of None \<Rightarrow> Sort_last_fill_at | Some c \<Rightarrow> c)
      in order_by (if lq_sort_dir q = ''asc'' then sort_le sort_col else (\<lambda>x y. sort_le sort_col y x))
           (scan (joined_rows user_id q d)))"

definition not_among :: "string list \<Rightarrow> string option \<Rightarrow> bool" where
  "not_among valid x = (case x of None \<Rightarrow> False | Some s \<Rightarrow> s \<notin> set valid)"

definition list_trades ::
  "(joined_row list \<Rightarrow> joined_row list) \<Rightarrow> uuid \<Rightarrow> list_query \<Rightarrow> db \<Rightarrow> http_error + trade_list_page" where
  "list_trades scan user_id q d =
     (if not_among VALID_STATUSES (lq_status q)
        then Inl (422, ''INVALID_STATUS'')
      else if not_among VALID_DIRECTIONS (lq_direction q)
        then Inl (422, ''INVALID_DIRECTION'')
      else if not_among VALID_TRADE_TYPES (lq_trade_type q)
        then Inl (422, ''INVALID_TRADE_TYPE'')
      else if (case (lq_from_date q, lq_to_date q) of (Some a, Some b) \<Rightarrow> b < a | _ \<Rightarrow> False)
        then Inl (422, ''INVALID_DATE_RANGE'')
      else Inr \<lparr>
        lp_items = map list_item (take (lq_limit q) (drop (lq_offset q) (ordered_rows scan user_id q d))),
        lp_total = length (joined_rows user_id q d),
        lp_limit = lq_limit q, lp_offset = lq_offset q\<rparr>)"

section \<open>GET /v1/trades/{trade_id}\<close>

record fill_item =
  fo_id :: uuid
  fo_side :: string
  fo_quantity :: rat
  fo_price :: rat
  fo_fill_role :: "string option"
  fo_fill_timestamp :: timestamp
  fo_import_source :: string
  fo_broker :: string

record pnl_breakdown =
  pb_gross_pnl :: rat
  pb_net_pnl :: rat
  pb_total_charges :: rat
  pb_brokerage :: rat
  pb_stt :: rat
  pb_exchange_charges :: rat
  pb_sebi_charges :: rat
  pb_stamp_duty :: rat
  pb_gst :: rat
  pb_ipft :: rat
  pb_r_multiple :: "rat option"

record trade_detail =
  td_trade :: trade_row
  td_symbol :: string
  td_instrument_name :: string
  td_exchange_segment :: string
  td_instrument_type :: string
  td_expiry_date :: "day option"
  td_strike_price :: "rat option"
  td_hold_duration_seconds :: "int option"
  td_fills :: "fill_item list"
  td_pnl :: "pnl_breakdown option"

text \<open>\<open>int((last_fill_at - first_fill_at).total_seconds())\<close>\<close>

definition hold_duration_seconds :: "trade_row \<Rightarrow> int option" where
  "hold_duration_seconds t =
     map_option (\<lambda>l. round_down (of_int (l - t_first_fill_at t) / 1000000)) (t_last_fill_at t)"

definition fill_item_of :: "execution_fill_row \<Rightarrow> fill_item" where
  "fill_item_of x = \<lparr>
     fo_id = x_id x, fo_side = x_side x, fo_quantity = x_quantity x, fo_price = x_price x,
     fo_fill_role = x_fill_role x, fo_fill_timestamp = x_fill_timestamp x,
     fo_import_source = x_import_source x, fo_broker = x_broker x\<rparr>"

definition pnl_breakdown_of :: "trade_pnl_row \<Rightarrow> pnl_breakdown" where
  "pnl_breakdown_of p = \<lparr>
     pb_gross_pnl = p_gross_pnl p, pb_net_pnl = p_net_pnl p,
     pb_total_charges = p_total_charges p, pb_brokerage = p_brokerage p, pb_stt = p_stt p,
     pb_exchange_charges = p_exchange_charges p, pb_sebi_charges = p_sebi_charges p,
     pb_stamp_duty = p_stamp_duty p, pb_gst = p_gst p, pb_ipft = p_ipft p,
     pb_r_multiple = p_r_multiple p\<rparr>"

definition get_trade_detail :: "uuid \<Rightarrow> uuid \<Rightarrow> db \<Rightarrow> http_error + trade_detail" where
  "get_trade_detail trade_id user_id d =
     (case [(t, i). t \<leftarrow> trades d, i \<leftarrow> instruments d,
              i_id i = t_instrument_id t \<and> t_id t = trade_id \<and> t_user_id t = user_id \<and> \<not> t_is_deleted t] of
        [] \<Rightarrow> Inl (404, ''TRADE_NOT_FOUND'')
      | (t, i) # _ \<Rightarrow> Inr \<lparr>
          td_trade = t, td_symbol = i_symbol i, td_instrument_name = i_name i,
          td_exchange_segment = i_exchange_segment i, td_instrument_type = i_instrument_type i,
          td_expiry_date = i_expiry_date i, td_strike_price = i_strike_price i,
          td_hold_duration_seconds = hold_duration_seconds t,
          td_fills = map fill_item_of
            (order_by (\<lambda>x y. x_fill_timestamp x \<le> x_fill_timestamp y)
              (filter (\<lambda>x. x_trade_id x = Some trade_id) (execution_fills d))),
          td_pnl = map_option pnl_breakdown_of (get_for_trade trade_id d)\<rparr>)"

section \<open>The writing routes\<close>

definition fill_input_of :: "api_fill \<Rightarrow> fill_input" where
  "fill_input_of f = \<lparr>fi_side = af_side f, fi_quantity = af_quantity f, fi_price = af_price f,
     fi_fill_timestamp = af_fill_timestamp f\<rparr>"

definition create_trade_route ::
  "timestamp \<Rightarrow> uuid \<Rightarrow> create_trade_request \<Rightarrow> db \<Rightarrow> trade_row response \<times> db" where
  "create_trade_route now user_id body d =
     (case validate_create_request body of
        Inl (status, detail) \<Rightarrow> (HttpError status detail, d)
      | Inr _ \<Rightarrow>
          (case create_trade now user_id (cr_account_id body) (upper (in_symbol (cr_instrument body)))
                  (in_exchange_segment (cr_instrument body)) (in_instrument_type (cr_instrument body))
                  (cr_product_type body) (map fill_input_of (cr_fills body))
                  (in_expiry_date (cr_instrument body)) (in_strike_price (cr_instrument body))
                  (cr_planned_stop body) (cr_planned_target body) d of
             Inr (trade, d') \<Rightarrow> (Answer trade, d')
           | Inl (Imp (AccountNotFoundError _)) \<Rightarrow> (HttpError 404 ''ACCOUNT_NOT_FOUND'', d)
           | Inl (Svc (PlannedStopWrongSideError _)) \<Rightarrow> (HttpError 422 ''PLANNED_STOP_WRONG_SIDE'', d)
           | Inl (Svc (ReconstructionFailedError _)) \<Rightarrow> (HttpError 422 ''RECONSTRUCTION_FAILED'', d)
           | Inl e \<Rightarrow> (Unhandled e, d)))"

definition add_fill_route ::
  "timestamp \<Rightarrow> uuid \<Rightarrow> uuid \<Rightarrow> api_fill \<Rightarrow> db \<Rightarrow> trade_row response \<times> db" where
  "add_fill_route now user_id trade_id fill d =
     (case validate_add_fill_request fill of
        Inl (status, detail) \<Rightarrow> (HttpError status detail, d)
      | Inr _ \<Rightarrow>
          (case add_fill now user_id trade_id (fill_input_of fill) d of
             Inr (trade, d') \<Rightarrow> (Answer trade, d')
           | Inl (Svc (TradeNotFoundError _)) \<Rightarrow> (HttpError 404 ''TRADE_NOT_FOUND'', d)
           | Inl (Svc (TradeNotOwnedError _)) \<Rightarrow> (HttpError 403 ''TRADE_NOT_OWNED'', d)
           | Inl (Svc (TradeAlreadyClosedError _)) \<Rightarrow> (HttpError 422 ''TRADE_ALREADY_CLOSED'', d)
           | Inl (Svc (FillTimestampBeforeTradeOpenError _ _)) \<Rightarrow>
               (HttpError 422 ''FILL_TIMESTAMP_BEFORE_TRADE_OPEN'', d)
           | Inl (Svc (PlannedStopWrongSideError _)) \<Rightarrow> (HttpError 422 ''PLANNED_STOP_WRONG_SIDE'', d)
           | Inl (Svc (ReconstructionFailedError _)) \<Rightarrow> (HttpError 422 ''RECONSTRUCTION_FAILED'', d)
           | Inl e \<Rightarrow> (Unhandled e, d)))"

definition soft_delete_route :: "uuid \<Rightarrow> uuid \<Rightarrow> db \<Rightarrow> unit response \<times> db" where
  "soft_delete_route user_id trade_id d =
     (case soft_delete_trade user_id trade_id d of
        Inr d' \<Rightarrow> (Answer (), d')
      | Inl (Svc (TradeNotFoundError _)) \<Rightarrow> (HttpError 404 ''TRADE_NOT_FOUND'', d)
      | Inl (Svc (TradeNotOwnedError _)) \<Rightarrow> (HttpError 403 ''TRADE_NOT_OWNED'', d)
      | Inl (Svc (TradeNotManualError _)) \<Rightarrow> (HttpError 422 ''TRADE_NOT_MANUAL'', d)
      | Inl e \<Rightarrow> (Unhandled e, d))"

section \<open>Facts\<close>

lemma check_chronological_iff:
  "check_chronological fs = Inr () \<longleftrightarrow> sorted_wrt (<) (map af_fill_timestamp fs)"
proof (induction fs rule: check_chronological.induct)
  case (1 a b fs)
  have "sorted_wrt (<) (map af_fill_timestamp (a # b # fs)) \<longleftrightarrow>
    af_fill_timestamp a < af_fill_timestamp b \<and> sorted_wrt (<) (map af_fill_timestamp (b # fs))"
    by auto
  with 1 show ?case by auto
qed auto

lemma validate_create_request_Inr:
  "validate_create_request b = Inr () \<longleftrightarrow>
     list_all af_tz_aware (cr_fills b) \<and> sorted_wrt (<) (map af_fill_timestamp (cr_fills b)) \<and>
     (in_instrument_type (cr_instrument b) \<in> {''FUT'', ''CE'', ''PE''} \<longrightarrow>
        in_expiry_date (cr_instrument b) \<noteq> None \<and> cr_product_type b \<noteq> ''CNC'') \<and>
     (in_instrument_type (cr_instrument b) \<in> {''CE'', ''PE''} \<longrightarrow> in_strike_price (cr_instrument b) \<noteq> None) \<and>
     (in_instrument_type (cr_instrument b) = ''EQ'' \<longrightarrow> cr_product_type b \<noteq> ''NRML'')"
  unfolding validate_create_request_def Let_def rbind_eq_Inr check_eq_Inr
  by (auto simp: check_chronological_iff)

end
