(* ===== verification/Trades_Api_Properties.thy ===== *)
theory Trades_Api_Properties
  imports Trades_Api Trade_Service_Properties
begin

text \<open>
  The properties of the trade routes: what validation accepts, what a page of the list holds, and
  an error of the engine that no route catches.
\<close>

section \<open>Validation\<close>

definition sample_request :: create_trade_request where
  "sample_request = \<lparr>cr_account_id = 8,
     cr_instrument = \<lparr>in_symbol = ''infy'', in_exchange_segment = ''NSE_EQ'',
       in_instrument_type = ''EQ'', in_expiry_date = None, in_strike_price = None\<rparr>,
     cr_product_type = ''MIS'',
     cr_fills = [
       \<lparr>af_side = ''SELL'', af_quantity = 5, af_price = 100, af_fill_timestamp = at_time 10 0,
        af_tz_aware = True\<rparr>,
       \<lparr>af_side = ''BUY'', af_quantity = 10, af_price = 99, af_fill_timestamp = at_time 11 0,
        af_tz_aware = True\<rparr>],
     cr_planned_stop = None, cr_planned_target = None\<rparr>"

text \<open>
  C20: a request that passes validation always has what its instrument type needs: the instrument
  lookup cannot fail for a missing expiry or strike, the product type is one the type allows,
  and each of its fills is strictly later than the one before it, so the engine cannot find them ambiguous.
\<close>

theorem validated_request_sound:
  assumes "create_request_ok b" and "validate_create_request b = Inr ()"
  shows "(\<exists>r. find_for_fill (upper (in_symbol (cr_instrument b))) (in_exchange_segment (cr_instrument b))
       (in_instrument_type (cr_instrument b)) (in_expiry_date (cr_instrument b))
       (in_strike_price (cr_instrument b)) d = Inr r) \<and>
    cr_product_type b \<in> (if in_instrument_type (cr_instrument b) = ''EQ'' then {''MIS'', ''CNC''}
       else {''MIS'', ''NRML''}) \<and>
    (\<exists>fam tt. product_type_family_for (cr_product_type b) = Inr fam \<and>
       provisional_trade_type fam (in_instrument_type (cr_instrument b)) = Inr tt) \<and>
    sorted_wrt (<) (map af_fill_timestamp (cr_fills b)) \<and> cr_fills b \<noteq> []"
proof -
  let ?i = "cr_instrument b"
  let ?ty = "in_instrument_type ?i"
  let ?find = "find_for_fill (upper (in_symbol ?i)) (in_exchange_segment ?i) ?ty (in_expiry_date ?i)
    (in_strike_price ?i) d"
  note v = assms(2) [unfolded validate_create_request_Inr]
  from v have v1: "sorted_wrt (<) (map af_fill_timestamp (cr_fills b))" by (elim conjE)
  from v have v2: "?ty \<in> {''FUT'', ''CE'', ''PE''} \<longrightarrow> in_expiry_date ?i \<noteq> None \<and> cr_product_type b \<noteq> ''CNC''"
    by (elim conjE)
  from v have v3: "?ty \<in> {''CE'', ''PE''} \<longrightarrow> in_strike_price ?i \<noteq> None" by (elim conjE)
  from v have v4: "?ty = ''EQ'' \<longrightarrow> cr_product_type b \<noteq> ''NRML''" by (elim conjE)
  note c = assms(1) [unfolded create_request_ok_def instrument_input_ok_def]
  from c have c1: "?ty \<in> {''EQ'', ''FUT'', ''CE'', ''PE''}" by (elim conjE)
  from c have c2: "cr_product_type b \<in> {''MIS'', ''CNC'', ''NRML''}" by (elim conjE)
  from c have c3: "cr_fills b \<noteq> []" by force
  have find: "\<exists>r. ?find = Inr r"
  proof (cases ?find)
    case (Inl x)
    then have "?ty = ''FUT'' \<and> in_expiry_date ?i = None \<or>
        ?ty \<in> {''CE'', ''PE''} \<and> (in_expiry_date ?i = None \<or> in_strike_price ?i = None)"
      unfolding find_for_fill_Inl by (elim conjE)
    moreover have "?ty = ''FUT'' \<or> ?ty \<in> {''CE'', ''PE''} \<Longrightarrow> in_expiry_date ?i \<noteq> None"
      using v2 by (metis insertCI)
    ultimately show ?thesis using v3 by metis
  qed simp
  have families: "cr_product_type b \<in> (if ?ty = ''EQ'' then {''MIS'', ''CNC''} else {''MIS'', ''NRML''})"
  proof (cases "?ty = ''EQ''")
    case True
    with v4 c2 show ?thesis by simp
  next
    case False
    with c1 have "?ty \<in> {''FUT'', ''CE'', ''PE''}" by blast
    then have "cr_product_type b \<noteq> ''CNC''" by (rule conjunct2 [OF mp [OF v2]])
    with c2 False show ?thesis by simp
  qed
  have "\<exists>fam tt. product_type_family_for (cr_product_type b) = Inr fam \<and>
      provisional_trade_type fam ?ty = Inr tt"
    using families c1
    by (cases "?ty = ''EQ''")
      (auto simp: product_type_family_for_def PRODUCT_TYPE_TO_FAMILY_def provisional_trade_type_def)
  then show ?thesis using c3 find families v1 by blast
qed

lemma sample_request_ok: "create_request_ok sample_request" "validate_create_request sample_request = Inr ()"
  by code_simp+

theorem validated_request_sound_witness:
  "sorted_wrt (<) (map af_fill_timestamp (cr_fills sample_request)) \<and> cr_product_type sample_request \<in> {''MIS'', ''CNC''}"
  using validated_request_sound [OF sample_request_ok, of service_db]
  by (auto simp: sample_request_def)

text \<open>
  A valid request that sells five and buys ten crosses through a flat position. The engine's
  exception for it is not among those the service or the route catch.
\<close>

lemma crossing_evaluation:
  "case rbind (insert_manual_fills 0 7 8 50 ''INFY'' ''NSE_EQ'' ''EQ'' None None ''MIS''
       (map fill_input_of (cr_fills sample_request)) (snd late_db1)) (reconstruct 7 8 50 ''MIS'' ''EQ'') of
     Inl e \<Rightarrow> e = Recon (PositionCrossingZeroError 56) | Inr r \<Rightarrow> False"
  by code_simp

theorem position_crossing_unhandled:
  "create_trade_route 0 7 sample_request service_db =
     (Unhandled (Recon (PositionCrossingZeroError 56)), service_db)"
proof -
  have r: "rbind (insert_manual_fills 0 7 8 50 ''INFY'' ''NSE_EQ'' ''EQ'' None None ''MIS''
       (map fill_input_of (cr_fills sample_request)) (snd late_db1)) (reconstruct 7 8 50 ''MIS'' ''EQ'') =
     Inl (Recon (PositionCrossingZeroError 56))"
    using crossing_evaluation by (auto split: sum.splits)
  have "create_trade 0 7 8 ''INFY'' ''NSE_EQ'' ''EQ'' ''MIS'' (map fill_input_of (cr_fills sample_request))
      None None None None service_db = Inl (Recon (PositionCrossingZeroError 56))"
    by (rule create_trade_fails [OF late_account late_first])
      (simp only: r sample_account_def trading_account_row.select_convs)
  moreover have "upper ''infy'' = ''INFY''" by code_simp
  ultimately show ?thesis using sample_request_ok(2)
    by (simp add: create_trade_route_def sample_request_def)
qed

text \<open>
  A price below half the last decimal place of its column is positive for the request model, and
  zero for the table: its CHECK fails at the flush, and nothing catches the error.
\<close>

definition tiny_request :: create_trade_request where
  "tiny_request = sample_request\<lparr>cr_fills :=
     [\<lparr>af_side = ''BUY'', af_quantity = 5, af_price = 1 / 100000, af_fill_timestamp = at_time 10 0,
       af_tz_aware = True\<rparr>]\<rparr>"

theorem tiny_price_unhandled:
  "create_request_ok tiny_request \<and>
   (case create_trade_route 0 7 tiny_request service_db of
      (Unhandled (Py IntegrityError), d) \<Rightarrow> trading_accounts d = [sample_account] | _ \<Rightarrow> False)"
  by code_simp

section \<open>The list of trades\<close>

lemma distinct_map_concat:
  assumes "distinct (map g xs)" and "\<And>x y. x \<in> set xs \<Longrightarrow> y \<in> set (f x) \<Longrightarrow> h y = g x"
    and "\<And>x. x \<in> set xs \<Longrightarrow> length (f x) \<le> 1"
  shows "distinct (map h (concat (map f xs)))"
  using assms
proof (induction xs)
  case (Cons x xs)
  have "distinct (map h (f x))" using Cons.prems(3) [of x]
    by (cases "f x" rule: list.exhaust) auto
  moreover have "h ` set (f x) \<inter> h ` set (concat (map f xs)) = {}"
    using Cons.prems(1,2) by fastforce
  moreover have "distinct (map h (concat (map f xs)))" using Cons by simp
  ultimately show ?case by (simp add: distinct_append)
qed simp

lemma filter_key_le_1:
  "distinct (map k xs) \<Longrightarrow> length (filter (\<lambda>x. k x = c) xs) \<le> 1"
proof (induction xs)
  case (Cons x xs)
  show ?case
  proof (cases "k x = c")
    case True
    have "k y \<noteq> c" if "y \<in> set xs" for y
      using that Cons.prems True by (metis distinct.simps(2) imageI list.set_map list.simps(9))
    then have "filter (\<lambda>x. k x = c) xs = []" by (simp add: filter_empty_conv)
    with True show ?thesis by simp
  qed (use Cons in simp)
qed simp

lemma length_concat_le_1:
  "length ys \<le> 1 \<Longrightarrow> (\<And>y. y \<in> set ys \<Longrightarrow> length (f y) \<le> 1) \<Longrightarrow> length (concat (map f ys)) \<le> 1"
  by (cases ys) auto

lemma length_left_join: "distinct (map p_trade_id (trade_pnls d)) \<Longrightarrow> length (left_join_pnl t d) \<le> 1"
  using filter_key_le_1 [of p_trade_id "trade_pnls d" "t_id t"]
  by (auto simp: left_join_pnl_def Let_def)

lemma left_join_nonempty [simp]: "left_join_pnl t d \<noteq> []"
  by (simp add: left_join_pnl_def Let_def)

lemma joined_rows_concat:
  "joined_rows u q d = concat (map (\<lambda>t. concat (map (\<lambda>i. if list_where u q t i
     then map (\<lambda>p. (t, i, p)) (left_join_pnl t d) else [])
       (filter (\<lambda>i. i_id i = t_instrument_id t) (instruments d)))) (trades d))"
  by (simp add: joined_rows_def map_concat comp_def)

lemma length_order_by: "length (order_by le xs) = length xs"
proof -
  have "length (insort_by le x ys) = Suc (length ys)" for x :: 'a and ys by (induction ys) auto
  then show ?thesis by (induction xs) (simp_all add: order_by_def)
qed

lemma in_joined_rows:
  "(t, i, p) \<in> set (joined_rows u q d) \<longleftrightarrow> t \<in> set (trades d) \<and> i \<in> set (instruments d) \<and>
     i_id i = t_instrument_id t \<and> list_where u q t i \<and> p \<in> set (left_join_pnl t d)"
  unfolding joined_rows_concat by auto

lemma joined_rows_distinct:
  assumes "distinct (map t_id (trades d))" and "distinct (map i_id (instruments d))"
    and "distinct (map p_trade_id (trade_pnls d))"
  shows "distinct (map (li_id \<circ> list_item) (joined_rows u q d))"
  unfolding joined_rows_concat
proof (rule distinct_map_concat [OF assms(1)])
  fix t y
  show "y \<in> set (concat (map (\<lambda>i. if list_where u q t i then map (\<lambda>p. (t, i, p)) (left_join_pnl t d) else [])
     (filter (\<lambda>i. i_id i = t_instrument_id t) (instruments d)))) \<Longrightarrow> (li_id \<circ> list_item) y = t_id t"
    by (auto simp: list_item_def split: if_splits)
  show "length (concat (map (\<lambda>i. if list_where u q t i then map (\<lambda>p. (t, i, p)) (left_join_pnl t d) else [])
     (filter (\<lambda>i. i_id i = t_instrument_id t) (instruments d)))) \<le> 1"
    by (rule length_concat_le_1 [OF filter_key_le_1 [OF assms(2)]])
      (simp add: length_left_join [OF assms(3), simplified])
qed

lemma li_id_list_item: "li_id (list_item x) = t_id (fst x)"
  by (cases x) (simp add: list_item_def)

lemma joined_rows_ids:
  "k \<in> (li_id \<circ> list_item) ` set (joined_rows u q d) \<longleftrightarrow>
     k \<in> {t_id t | t i. t \<in> set (trades d) \<and> i \<in> set (instruments d) \<and>
       i_id i = t_instrument_id t \<and> list_where u q t i}"
proof -
  have "\<exists>p. p \<in> set (left_join_pnl t d)" for t by (rule exI) (rule list.set_sel(1) [OF left_join_nonempty])
  then have "(\<exists>t i p. (t, i, p) \<in> set (joined_rows u q d) \<and> k = t_id t) \<longleftrightarrow>
    (\<exists>t i. t \<in> set (trades d) \<and> i \<in> set (instruments d) \<and> i_id i = t_instrument_id t \<and> list_where u q t i \<and> k = t_id t)"
    unfolding in_joined_rows by metis
  moreover have "k \<in> (li_id \<circ> list_item) ` set (joined_rows u q d) \<longleftrightarrow>
    (\<exists>t i p. (t, i, p) \<in> set (joined_rows u q d) \<and> k = t_id t)"
    unfolding image_iff comp_apply li_id_list_item by (metis fst_conv surj_pair)
  ultimately show ?thesis by blast
qed

lemma left_join_pnl_value:
  assumes "distinct (map p_trade_id (trade_pnls d))" and "p \<in> set (left_join_pnl t d)"
  shows "p = get_for_trade (t_id t) d"
proof (cases p)
  case None
  with assms(2) have "t_id t \<notin> p_trade_id ` set (trade_pnls d)"
    by (auto simp: left_join_pnl_def Let_def filter_empty_conv split: if_splits)
  then have "get_by p_trade_id (trade_pnls d) (t_id t) = None" by (simp only: get_by_None not_False_eq_True)
  with None show ?thesis by (simp add: get_for_trade_def)
next
  case (Some x)
  with assms(2) have "x \<in> set (trade_pnls d)" "p_trade_id x = t_id t"
    by (auto simp: left_join_pnl_def Let_def split: if_splits)
  with distinct_get_by [OF assms(1), of x] Some show ?thesis by (simp add: get_for_trade_def)
qed

text \<open>The trades a request is for: the user's own, not deleted, and those its filters let pass.\<close>

definition wanted :: "uuid \<Rightarrow> list_query \<Rightarrow> trade_row \<Rightarrow> instrument_row \<Rightarrow> bool" where
  "wanted u q t i \<longleftrightarrow> t_user_id t = u \<and> \<not> t_is_deleted t \<and>
     lq_status q \<in> {None, Some (t_status t)} \<and>
     (lq_account_id q = None \<or> lq_account_id q = t_account_id t) \<and>
     lq_direction q \<in> {None, Some (t_direction t)} \<and>
     lq_trade_type q \<in> {None, Some (t_trade_type t)} \<and>
     (\<forall>x. lq_from_date q = Some x \<longrightarrow> x \<le> t_trade_date t) \<and>
     (\<forall>x. lq_to_date q = Some x \<longrightarrow> t_trade_date t \<le> x) \<and>
     (\<forall>s. lq_instrument q = Some s \<longrightarrow> (\<exists>rest. upper (i_symbol i) = upper (strip s) @ rest))"

lemma starts_with_append: "starts_with xs ys \<longleftrightarrow> (\<exists>rest. xs = ys @ rest)"
  by (induction xs ys rule: starts_with.induct) auto

lemma list_where_wanted: "list_where u q t i \<longleftrightarrow> wanted u q t i"
proof -
  have "upper (strip s) = [] \<longleftrightarrow> strip s = []" for s by (simp add: upper_def)
  then show ?thesis
    unfolding list_where_def wanted_def starts_with_append matches_def by (auto split: option.splits)
qed

text \<open>
  The order of the list, over its items: ascending with missing values last, or descending with
  missing values first, as the request asks.
\<close>

definition item_key :: "string \<Rightarrow> trade_list_item \<Rightarrow> rat option" where
  "item_key sort_by r =
     (if sort_by = ''trade_date'' then Some (of_int (li_trade_date r))
      else if sort_by = ''net_pnl'' then li_net_pnl r
      else if sort_by = ''r_multiple'' then li_r_multiple r
      else map_option of_int (li_last_fill_at r))"

definition key_before :: "string \<Rightarrow> rat option \<Rightarrow> rat option \<Rightarrow> bool" where
  "key_before dir k l =
     (if dir = ''asc'' then l = None \<or> (\<exists>x y. k = Some x \<and> l = Some y \<and> x \<le> y)
      else k = None \<or> (\<exists>x y. k = Some x \<and> l = Some y \<and> y \<le> x))"

definition item_before :: "list_query \<Rightarrow> trade_list_item \<Rightarrow> trade_list_item \<Rightarrow> bool" where
  "item_before q r s = key_before (lq_sort_dir q) (item_key (lq_sort_by q) r) (item_key (lq_sort_by q) s)"

lemma key_before_total: "key_before dir k l \<or> key_before dir l k"
  by (cases k; cases l) (auto simp: key_before_def)

lemma key_before_trans: "key_before dir k l \<Longrightarrow> key_before dir l m \<Longrightarrow> key_before dir k m"
  by (auto simp: key_before_def split: if_splits)

lemma key_before_antisym: "key_before dir k l \<Longrightarrow> key_before dir l k \<Longrightarrow> k = l"
  by (auto simp: key_before_def split: if_splits)

lemma sort_le_item:
  "(if lq_sort_dir q = ''asc'' then sort_le c x y else sort_le c y x) \<longleftrightarrow> item_before q (list_item x) (list_item y)"
  if "c = (case SORT_COLUMNS (lq_sort_by q) of None \<Rightarrow> Sort_last_fill_at | Some c \<Rightarrow> c)"
  using that unfolding SORT_COLUMNS_def item_before_def key_before_def item_key_def sort_le_def
  by (cases x; cases y) (auto simp: list_item_def null_last_le_def split: option.splits)

lemma ordered_rows_order_by:
  "ordered_rows scan u q d =
     order_by (\<lambda>x y. item_before q (list_item x) (list_item y)) (scan (joined_rows u q d))"
  unfolding ordered_rows_def Let_def
  by (intro arg_cong [where f = "\<lambda>r. order_by r _"] ext) (simp add: sort_le_item [symmetric])

lemma ordered_rows_sorted: "sorted_wrt (item_before q) (map list_item (ordered_rows scan u q d))"
  unfolding ordered_rows_order_by sorted_wrt_map
  by (rule sorted_order_by) (use key_before_total key_before_trans in \<open>unfold item_before_def, blast+\<close>)

lemma ordered_rows_mset:
  "mset (scan (joined_rows u q d)) = mset (joined_rows u q d) \<Longrightarrow>
   mset (ordered_rows scan u q d) = mset (joined_rows u q d)"
  by (simp add: ordered_rows_order_by mset_order_by)

lemma list_trades_window:
  assumes "list_trades scan u q d = Inr page" and "q' = q\<lparr>lq_limit := lq_limit q', lq_offset := lq_offset q'\<rparr>"
    and "mset (scan' (joined_rows u q d)) = mset (joined_rows u q d)"
  shows "list_trades scan' u q' d = Inr \<lparr>
     lp_items = take (lq_limit q') (drop (lq_offset q') (map list_item (ordered_rows scan' u q d))),
     lp_total = length (map list_item (ordered_rows scan' u q d)), lp_limit = lq_limit q', lp_offset = lq_offset q'\<rparr>"
proof -
  from assms(2) obtain l off where q': "q' = q\<lparr>lq_limit := l, lq_offset := off\<rparr>" by blast
  have j: "joined_rows u q' d = joined_rows u q d" by (simp add: q' joined_rows_def list_where_def)
  have o: "ordered_rows scan' u q' d = ordered_rows scan' u q d" by (simp add: ordered_rows_def j) (simp add: q')
  have len: "length (map list_item (ordered_rows scan' u q d)) = length (joined_rows u q d)"
    using ordered_rows_mset [of scan' u q d, OF assms(3), THEN mset_eq_length] by simp
  show ?thesis using assms(1) unfolding list_trades_def j o len
    by (auto simp: q' take_map drop_map split: if_splits option.splits)
qed

text \<open>Another window, and another order of ties: a slice of the same rows, in the same order up to ties.\<close>

lemma other_orderings:
  assumes "\<And>xs. mset (scan xs) = mset xs" and "list_trades scan u q d = Inr page"
  defines "rows \<equiv> map list_item (ordered_rows scan u q d)"
  shows "\<forall>scan' q'. q' = q\<lparr>lq_limit := lq_limit q', lq_offset := lq_offset q'\<rparr> \<and> (\<forall>xs. mset (scan' xs) = mset xs) \<longrightarrow>
    (\<exists>rows'. list_trades scan' u q' d = Inr \<lparr>
        lp_items = take (lq_limit q') (drop (lq_offset q') rows'), lp_total = length rows',
        lp_limit = lq_limit q', lp_offset = lq_offset q'\<rparr> \<and>
      mset rows' = mset rows \<and> sorted_wrt (item_before q) rows' \<and>
      (distinct (map (item_key (lq_sort_by q)) rows) \<longrightarrow> rows' = rows))"
proof (intro allI impI, elim conjE)
  fix s :: "joined_row list \<Rightarrow> joined_row list" and q'
  assume q': "q' = q\<lparr>lq_limit := lq_limit q', lq_offset := lq_offset q'\<rparr>" and s: "\<forall>xs. mset (s xs) = mset xs"
  let ?rows' = "map list_item (ordered_rows s u q d)"
  have "list_trades s u q' d = Inr \<lparr>
        lp_items = take (lq_limit q') (drop (lq_offset q') ?rows'), lp_total = length ?rows',
        lp_limit = lq_limit q', lp_offset = lq_offset q'\<rparr>"
    by (rule list_trades_window [OF assms(2) q']) (simp add: s)
  moreover have same: "mset ?rows' = mset rows"
    using ordered_rows_mset [of s u q d] ordered_rows_mset [of scan u q d] assms(1) s by (simp add: rows_def)
  moreover have "?rows' = rows" if "distinct (map (item_key (lq_sort_by q)) rows)"
  proof -
    from that have "inj_on (item_key (lq_sort_by q)) (set rows)" unfolding distinct_map by (rule conjunct2)
    then have "x = y" if "x \<in> set rows" "y \<in> set rows" "item_before q x y" "item_before q y x" for x y
      using that key_before_antisym unfolding item_before_def by (blast dest: inj_onD)
    with same have "rows = ?rows'"
      by (intro sorted_wrt_unique [of "item_before q"]) (simp_all add: rows_def ordered_rows_sorted)
    then show ?thesis by simp
  qed
  moreover note ordered_rows_sorted
  ultimately show "\<exists>rows'. list_trades s u q' d = Inr \<lparr>
        lp_items = take (lq_limit q') (drop (lq_offset q') rows'), lp_total = length rows',
        lp_limit = lq_limit q', lp_offset = lq_offset q'\<rparr> \<and>
      mset rows' = mset rows \<and> sorted_wrt (item_before q) rows' \<and>
      (distinct (map (item_key (lq_sort_by q)) rows) \<longrightarrow> rows' = rows)" by blast
qed

text \<open>
  C21: the pages of the list. A page is the slice, named by its limit and offset, of an ordering of
  the user's matching rows: exactly the trades that are the user's, not deleted and match the
  filters, each once, with the figures of its P and L row, in the requested order of the requested
  column; the reported total is its length. Any other page of the same request, at whatever moment
  the database breaks ties between equal keys, is a slice of such an ordering of the same rows, and
  of the same ordering when no two rows have equal keys.
\<close>

theorem list_trades_pages:
  assumes "distinct (map t_id (trades d))" and "distinct (map i_id (instruments d))"
    and "distinct (map p_trade_id (trade_pnls d))" and "\<And>xs. mset (scan xs) = mset xs"
    and "list_trades scan u q d = Inr page"
  shows "\<exists>rows. lp_items page = take (lq_limit q) (drop (lq_offset q) rows) \<and>
    lp_total page = length rows \<and> distinct (map li_id rows) \<and>
    set (map li_id rows) = {t_id t | t i. t \<in> set (trades d) \<and> i \<in> set (instruments d) \<and>
      i_id i = t_instrument_id t \<and> wanted u q t i} \<and>
    list_all (\<lambda>r. li_net_pnl r = map_option p_net_pnl (get_for_trade (li_id r) d)) rows \<and>
    sorted_wrt (item_before q) rows \<and>
    (\<forall>scan' q'. q' = q\<lparr>lq_limit := lq_limit q', lq_offset := lq_offset q'\<rparr> \<and>
       (\<forall>xs. mset (scan' xs) = mset xs) \<longrightarrow>
       (\<exists>rows'. list_trades scan' u q' d = Inr \<lparr>
           lp_items = take (lq_limit q') (drop (lq_offset q') rows'), lp_total = length rows',
           lp_limit = lq_limit q', lp_offset = lq_offset q'\<rparr> \<and>
         mset rows' = mset rows \<and> sorted_wrt (item_before q) rows' \<and>
         (distinct (map (item_key (lq_sort_by q)) rows) \<longrightarrow> rows' = rows)))"
proof -
  let ?rows = "map list_item (ordered_rows scan u q d)"
  have ms: "mset (ordered_rows s u q d) = mset (joined_rows u q d)" if "\<And>xs. mset (s xs) = mset xs" for s
    using that by (intro ordered_rows_mset)
  have set_o: "set (ordered_rows scan u q d) = set (joined_rows u q d)"
    using ms [OF assms(4)] by (rule mset_eq_setD)
  have "distinct (map li_id ?rows)"
    using joined_rows_distinct [OF assms(1-3), of u q]
      mset_eq_imp_distinct_iff [of "map (li_id \<circ> list_item) (joined_rows u q d)" "map li_id ?rows"] ms [OF assms(4)]
    by (simp add: comp_def)
  moreover have "set (map li_id ?rows) = {t_id t | t i. t \<in> set (trades d) \<and> i \<in> set (instruments d) \<and>
      i_id i = t_instrument_id t \<and> wanted u q t i}"
    using joined_rows_ids [of _ u q d, unfolded list_where_wanted] by (intro set_eqI) (simp add: set_o image_comp)
  moreover have "list_all (\<lambda>r. li_net_pnl r = map_option p_net_pnl (get_for_trade (li_id r) d)) ?rows"
    unfolding list_all_iff using left_join_pnl_value [OF assms(3)] in_joined_rows
    by (fastforce simp: set_o list_item_def)
  moreover note ordered_rows_sorted
  moreover have "list_trades scan u q d = Inr \<lparr>lp_items = take (lq_limit q) (drop (lq_offset q) ?rows),
      lp_total = length ?rows, lp_limit = lq_limit q, lp_offset = lq_offset q\<rparr>"
    by (rule list_trades_window [OF assms(5)]) (simp_all add: assms(4))
  with assms(5) have "lp_items page = take (lq_limit q) (drop (lq_offset q) ?rows)" "lp_total page = length ?rows"
    by auto
  moreover note other_orderings [OF assms(4,5)]
  ultimately show ?thesis by blast
qed

definition open_trades_query :: list_query where
  "open_trades_query = \<lparr>lq_status = Some ''OPEN'', lq_account_id = None, lq_direction = None,
     lq_trade_type = None, lq_from_date = None, lq_to_date = None, lq_instrument = Some '' inf '',
     lq_sort_by = ''net_pnl'', lq_sort_dir = ''asc'', lq_limit = 25, lq_offset = 0\<rparr>"

definition listed_db :: db where
  "listed_db = service_db\<lparr>
     instruments := [\<lparr>i_id = 9, i_symbol = ''INFY'', i_exchange_segment = ''NSE_EQ'',
       i_instrument_type = ''EQ'', i_expiry_date = None, i_strike_price = None, i_name = ''INFY''\<rparr>],
     trades := [new_trade_row 3 7 (Some 8) 9 ''MIS'' ''LONG'' ''OPEN'' 19800 0 1 0 1 100]\<rparr>"

theorem list_trades_pages_witness:
  "\<exists>page. list_trades (\<lambda>xs. xs) 7 open_trades_query listed_db = Inr page \<and> lp_total page = 1"
proof -
  have "case list_trades (\<lambda>xs. xs) 7 open_trades_query listed_db of
      Inl e \<Rightarrow> False | Inr page \<Rightarrow> map li_id (lp_items page) = [3] \<and> lp_total page = 1" by code_simp
  then obtain page where page: "list_trades (\<lambda>xs. xs) 7 open_trades_query listed_db = Inr page" "lp_total page = 1"
    by (auto split: sum.splits)
  have "distinct (map t_id (trades listed_db))" "distinct (map i_id (instruments listed_db))"
    "distinct (map p_trade_id (trade_pnls listed_db))"
    by (simp_all add: listed_db_def service_db_def empty_db_def)
  from list_trades_pages [OF this _ page(1)] page show ?thesis by blast
qed

text \<open>
  Two trades with equal sort keys, listed one per page: the database may answer the two requests
  with different orders of the tie, and then one trade is shown twice and the other never.
\<close>

definition tied_db :: db where
  "tied_db = listed_db\<lparr>trades := [new_trade_row 3 7 (Some 8) 9 ''MIS'' ''LONG'' ''OPEN'' 19800 0 1 0 1 100,
     new_trade_row 4 7 (Some 8) 9 ''MIS'' ''LONG'' ''OPEN'' 19800 0 1 0 1 100]\<rparr>"

theorem pages_can_repeat_a_trade:
  "(case (list_trades (\<lambda>xs. xs) 7 (open_trades_query\<lparr>lq_limit := 1\<rparr>) tied_db,
          list_trades rev 7 (open_trades_query\<lparr>lq_limit := 1, lq_offset := 1\<rparr>) tied_db) of
      (Inr first, Inr second) \<Rightarrow> map li_id (lp_items first) = [3] \<and> map li_id (lp_items second) = [3] \<and>
        lp_total first = 2 \<and> lp_total second = 2
    | _ \<Rightarrow> False)"
  by code_simp

end
