(* ===== verification/Analytics_Types.thy ===== *)
theory Analytics_Types
  imports Decimals
begin

text \<open>
  The value classes of \<open>domain/analytics/types.py\<close> that the calculators take and return.
  Counts are integers in Python; they never become negative here and are naturals.
\<close>

record expectancy_result =
  ex_expectancy_r :: "rat option"
  ex_avg_r_win :: "rat option"
  ex_avg_r_loss :: "rat option"
  ex_r_coverage_count :: nat
  ex_total_count :: nat
  ex_r_coverage_pct :: rat
  ex_insufficient_sample :: bool

record equity_curve_point =
  ec_trade_date :: day
  ec_trade_id :: uuid
  ec_net_pnl :: rat
  ec_cumulative_net_pnl :: rat

record drawdown_stats =
  dd_max_drawdown_pct :: "rat option"
  dd_max_drawdown_inr :: "rat option"
  dd_avg_drawdown_pct :: "rat option"
  dd_current_drawdown_pct :: "rat option"
  dd_current_drawdown_inr :: "rat option"

record streak_stats =
  sk_current_win_streak :: nat
  sk_current_loss_streak :: nat
  sk_max_win_streak :: nat
  sk_max_loss_streak :: nat
  sk_avg_win_streak :: rat
  sk_avg_loss_streak :: rat

record monte_carlo_result =
  mc_n_simulations :: nat
  mc_n_trades :: nat
  mc_median_final_r :: rat
  mc_p5_final_r :: rat
  mc_p95_final_r :: rat
  mc_p5_max_drawdown_pct :: rat
  mc_p1_max_drawdown_pct :: rat
  mc_worst_max_drawdown_pct :: rat
  mc_risk_of_ruin_pct :: rat
  mc_p95_max_consecutive_losses :: nat

record sharpe_result =
  sh_sharpe_ratio :: "rat option"
  sh_mean_r :: "rat option"
  sh_std_r :: "rat option"
  sh_n_per_year :: nat
  sh_r_coverage_count :: nat
  sh_insufficient_sample :: bool

record sortino_result =
  so_sortino_ratio :: "rat option"
  so_mean_r :: "rat option"
  so_downside_dev :: "rat option"
  so_n_per_year :: nat
  so_r_coverage_count :: nat
  so_insufficient_sample :: bool
  so_no_downside_trades :: bool

record trade_series_point =
  ts_trade_date :: day
  ts_trade_id :: uuid
  ts_net_pnl :: rat
  ts_r_multiple :: "rat option"

record rolling_expectancy_point =
  re_trade_index :: nat
  re_trade_date :: day
  re_rolling_exp_r :: "rat option"
  re_rolling_exp_inr :: rat

record rolling_expectancy_result =
  rr_window :: nat
  rr_insufficient_sample :: bool
  rr_data :: "rolling_expectancy_point list"

end
