(* ===== verification/Calculators.thy ===== *)
theory Calculators
  imports Analytics_Types
begin

text \<open>
  \<open>domain/analytics/calculators.py\<close>: the pure functions behind the analytics metrics, in Decimal
  arithmetic. A division or a quantize that can raise in Python is a result here. The random
  resampling of the Monte Carlo simulation is a parameter: the index that the generator draws
  for each position of each simulation.
\<close>

section \<open>Decimal square root and square\<close>

text \<open>The integer square root: the largest \<open>r\<close> with \<open>r\<^sup>2 \<le> n\<close>.\<close>

function isqrt :: "int \<Rightarrow> int" where
  "isqrt n =
     (if n \<le> 0 then 0
      else let r = 2 * isqrt (n div 4) in if (r + 1) * (r + 1) \<le> n then r + 1 else r)"
  by auto
termination
  by (relation "measure nat") auto

declare isqrt.simps [simp del]

text \<open>
  \<open>Decimal.sqrt\<close> rounds the exact root to 28 digits, half even. \<open>u\<close> is the unit of the last
  digit of the root; a tie is impossible, since the root of a value of 28 digits never lies
  in the middle of two neighbours, so that the comparison with the middle decides.
\<close>

definition dsqrt :: "rat \<Rightarrow> exn + rat" where
  "dsqrt x =
     (if x < 0 then Inl (Py InvalidOperation)
      else if x = 0 then Inr 0
      else
        let u = 10 powi (adjusted x div 2 - 27);
            y = x / (u * u);
            n = isqrt \<lfloor>y\<rfloor>
        in Inr (of_int (if of_int (n * n + n) + 1 / 4 < y then n + 1 else n) * u))"

text \<open>\<open>x ** Decimal(2)\<close>: the square is computed with three extra digits and then rounded.\<close>

definition ctx_prec :: "int \<Rightarrow> rat \<Rightarrow> rat" where
  "ctx_prec p x =
     (if x = 0 then 0
      else let u = 10 powi (adjusted x - (p - 1)) in of_int (round_half_even (x / u)) * u)"

definition dsquare :: "rat \<Rightarrow> rat" where
  "dsquare x = ctx (ctx_prec 31 (x * x))"

section \<open>Helpers\<close>

definition pct :: "rat \<Rightarrow> rat \<Rightarrow> nat \<Rightarrow> exn + rat" where
  "pct numerator denominator places =
     (if denominator = 0 then Inr 0
      else rbind (ddiv numerator denominator) (\<lambda>x. quantize (places, ROUND_HALF_UP) (dmul x 100)))"

definition safe_div :: "rat \<Rightarrow> rat \<Rightarrow> exn + rat option" where
  "safe_div numerator denominator =
     (if denominator = 0 then Inr None
      else rbind (ddiv numerator denominator) (\<lambda>x. Inr (Some x)))"

section \<open>Expectancy\<close>

definition average_or_none :: "rat list \<Rightarrow> exn + rat option" where
  "average_or_none xs =
     (if xs = [] then Inr None
      else rbind (ddiv (dsum xs) (of_nat (length xs))) (\<lambda>a. Inr (Some a)))"

definition compute_expectancy :: "rat list \<Rightarrow> rat list \<Rightarrow> nat \<Rightarrow> exn + expectancy_result" where
  "compute_expectancy win_r_multiples loss_r_multiples total_count =
     (let r_coverage_count = length win_r_multiples + length loss_r_multiples
      in rbind (if total_count = 0 then Inr 0
                else pct (of_nat r_coverage_count) (of_nat total_count) 4) (\<lambda>coverage_pct.
         if r_coverage_count = 0 then
           Inr \<lparr>ex_expectancy_r = None, ex_avg_r_win = None, ex_avg_r_loss = None,
                ex_r_coverage_count = 0, ex_total_count = total_count,
                ex_r_coverage_pct = coverage_pct, ex_insufficient_sample = True\<rparr>
         else
           rbind (average_or_none win_r_multiples) (\<lambda>avg_r_win.
           rbind (average_or_none loss_r_multiples) (\<lambda>avg_loss.
           let avg_r_loss = map_option dabs avg_loss
           in rbind (ddiv (of_nat (length win_r_multiples)) (of_nat r_coverage_count)) (\<lambda>win_rate.
              rbind (ddiv (of_nat (length loss_r_multiples)) (of_nat r_coverage_count)) (\<lambda>loss_rate.
              let expectancy_r =
                (case (avg_r_win, avg_r_loss) of
                   (Some w, Some l) \<Rightarrow> dsub (dmul win_rate w) (dmul loss_rate l)
                 | (Some w, None) \<Rightarrow> w
                 | (None, Some l) \<Rightarrow> dneg l
                 | (None, None) \<Rightarrow> dneg 0)
              in Inr \<lparr>ex_expectancy_r = Some expectancy_r, ex_avg_r_win = avg_r_win,
                      ex_avg_r_loss = avg_r_loss, ex_r_coverage_count = r_coverage_count,
                      ex_total_count = total_count, ex_r_coverage_pct = coverage_pct,
                      ex_insufficient_sample = r_coverage_count < 30\<rparr>))))))"

section \<open>Drawdown of the equity curve\<close>

record drawdown_state =
  ds_peak :: rat
  ds_max_dd_inr :: rat
  ds_max_dd_pct :: "rat option"
  ds_drawdown_pcts :: "rat list"

definition or_zero :: "rat option \<Rightarrow> rat" where
  "or_zero x = (case x of None \<Rightarrow> 0 | Some v \<Rightarrow> v)"

definition drawdown_step :: "rat \<Rightarrow> drawdown_state \<Rightarrow> exn + drawdown_state" where
  "drawdown_step cum s =
     (let peak = (if ds_peak s < cum then cum else ds_peak s);
          s = s\<lparr>ds_peak := peak\<rparr>
      in if 0 < peak then
           rbind (ddiv (dsub peak cum) peak) (\<lambda>q.
           let dd_pct = dmul q 100;
               dd_inr = dsub peak cum;
               s = (if or_zero (ds_max_dd_pct s) < dd_pct
                    then s\<lparr>ds_max_dd_pct := Some dd_pct, ds_max_dd_inr := dd_inr\<rparr> else s)
           in Inr (if 0 < dd_pct then s\<lparr>ds_drawdown_pcts := ds_drawdown_pcts s @ [dd_pct]\<rparr> else s))
         else Inr s)"

definition compute_drawdown_stats :: "equity_curve_point list \<Rightarrow> exn + drawdown_stats" where
  "compute_drawdown_stats points =
     (if points = [] then
        Inr \<lparr>dd_max_drawdown_pct = None, dd_max_drawdown_inr = None, dd_avg_drawdown_pct = None,
             dd_current_drawdown_pct = None, dd_current_drawdown_inr = None\<rparr>
      else
        rbind (rfold drawdown_step (map ec_cumulative_net_pnl points)
                 \<lparr>ds_peak = ec_cumulative_net_pnl (hd points), ds_max_dd_inr = 0,
                  ds_max_dd_pct = None, ds_drawdown_pcts = []\<rparr>) (\<lambda>s.
        let last_cum = ec_cumulative_net_pnl (last points); peak = ds_peak s
        in rbind (if 0 < peak \<and> last_cum < peak
                  then rbind (ddiv (dsub peak last_cum) peak) (\<lambda>q. Inr (dmul q 100, dsub peak last_cum))
                  else Inr (0, 0)) (\<lambda>(current_pct, current_inr).
           rbind (average_or_none (ds_drawdown_pcts s)) (\<lambda>avg.
           Inr \<lparr>dd_max_drawdown_pct = ds_max_dd_pct s,
                dd_max_drawdown_inr =
                  (if ds_max_dd_pct s \<noteq> None then Some (ds_max_dd_inr s) else None),
                dd_avg_drawdown_pct = avg,
                dd_current_drawdown_pct = Some current_pct,
                dd_current_drawdown_inr = Some current_inr\<rparr>))))"

section \<open>Streaks\<close>

record streak_state =
  st_win_streaks :: "nat list"
  st_loss_streaks :: "nat list"
  st_cw :: nat
  st_cl :: nat

definition close_win :: "streak_state \<Rightarrow> streak_state" where
  "close_win s =
     (if 0 < st_cw s then s\<lparr>st_win_streaks := st_win_streaks s @ [st_cw s], st_cw := 0\<rparr> else s)"

definition close_loss :: "streak_state \<Rightarrow> streak_state" where
  "close_loss s =
     (if 0 < st_cl s then s\<lparr>st_loss_streaks := st_loss_streaks s @ [st_cl s], st_cl := 0\<rparr> else s)"

definition streak_step :: "rat \<Rightarrow> streak_state \<Rightarrow> streak_state" where
  "streak_step pnl s =
     (if 0 < pnl then close_loss (s\<lparr>st_cw := st_cw s + 1\<rparr>)
      else if pnl < 0 then close_win (s\<lparr>st_cl := st_cl s + 1\<rparr>)
      else close_loss (close_win s))"

definition max_default :: "nat list \<Rightarrow> nat" where
  "max_default xs = foldr max xs 0"

definition average_streak :: "nat list \<Rightarrow> exn + rat" where
  "average_streak xs =
     (if xs = [] then Inr 0 else ddiv (of_nat (sum_list xs)) (of_nat (length xs)))"

definition compute_streak_stats :: "rat list \<Rightarrow> exn + streak_stats" where
  "compute_streak_stats net_pnls =
     (if net_pnls = [] then
        Inr \<lparr>sk_current_win_streak = 0, sk_current_loss_streak = 0, sk_max_win_streak = 0,
             sk_max_loss_streak = 0, sk_avg_win_streak = 0, sk_avg_loss_streak = 0\<rparr>
      else
        let s = fold streak_step net_pnls
                  \<lparr>st_win_streaks = [], st_loss_streaks = [], st_cw = 0, st_cl = 0\<rparr>;
            win_streaks = (if 0 < st_cw s then st_win_streaks s @ [st_cw s] else st_win_streaks s);
            loss_streaks = (if 0 < st_cl s then st_loss_streaks s @ [st_cl s] else st_loss_streaks s)
        in rbind (average_streak win_streaks) (\<lambda>avg_win.
           rbind (average_streak loss_streaks) (\<lambda>avg_loss.
           Inr \<lparr>sk_current_win_streak = st_cw s, sk_current_loss_streak = st_cl s,
                sk_max_win_streak = max_default win_streaks,
                sk_max_loss_streak = max_default loss_streaks,
                sk_avg_win_streak = avg_win, sk_avg_loss_streak = avg_loss\<rparr>)))"

section \<open>Sharpe and Sortino\<close>

definition N_PER_YEAR_DEFAULT :: nat where "N_PER_YEAR_DEFAULT = 252"
definition MIN_SAMPLE :: nat where "MIN_SAMPLE = 30"

text \<open>The population variance around a mean, and its root.\<close>

definition std_dev :: "rat list \<Rightarrow> rat \<Rightarrow> exn + rat" where
  "std_dev xs mean =
     rbind (ddiv (dsum (map (\<lambda>r. dsquare (dsub r mean)) xs)) (of_nat (length xs))) dsqrt"

definition compute_sharpe_ratio :: "rat list \<Rightarrow> nat \<Rightarrow> exn + sharpe_result" where
  "compute_sharpe_ratio r_multiples n_per_year =
     (let r_coverage_count = length r_multiples
      in if r_coverage_count < MIN_SAMPLE then
           Inr \<lparr>sh_sharpe_ratio = None, sh_mean_r = None, sh_std_r = None,
                sh_n_per_year = n_per_year, sh_r_coverage_count = r_coverage_count,
                sh_insufficient_sample = True\<rparr>
         else
           rbind (ddiv (dsum r_multiples) (of_nat r_coverage_count)) (\<lambda>mean_r.
           rbind (std_dev r_multiples mean_r) (\<lambda>std_r.
           if std_r = 0 then
             Inr \<lparr>sh_sharpe_ratio = None, sh_mean_r = Some mean_r, sh_std_r = Some 0,
                  sh_n_per_year = n_per_year, sh_r_coverage_count = r_coverage_count,
                  sh_insufficient_sample = False\<rparr>
           else
             rbind (dsqrt (of_nat n_per_year)) (\<lambda>annualization.
             rbind (ddiv mean_r std_r) (\<lambda>q.
             Inr \<lparr>sh_sharpe_ratio = Some (dmul q annualization), sh_mean_r = Some mean_r,
                  sh_std_r = Some std_r, sh_n_per_year = n_per_year,
                  sh_r_coverage_count = r_coverage_count, sh_insufficient_sample = False\<rparr>)))))"

definition compute_sortino_ratio :: "rat list \<Rightarrow> nat \<Rightarrow> exn + sortino_result" where
  "compute_sortino_ratio r_multiples n_per_year =
     (let r_coverage_count = length r_multiples;
          result = (\<lambda>ratio mean dev insufficient no_downside.
            \<lparr>so_sortino_ratio = ratio, so_mean_r = mean, so_downside_dev = dev,
             so_n_per_year = n_per_year, so_r_coverage_count = r_coverage_count,
             so_insufficient_sample = insufficient, so_no_downside_trades = no_downside\<rparr>)
      in if r_coverage_count < MIN_SAMPLE then Inr (result None None None True False)
         else
           rbind (ddiv (dsum r_multiples) (of_nat r_coverage_count)) (\<lambda>mean_r.
           let downside_vals = filter (\<lambda>r. r < 0) r_multiples
           in if downside_vals = [] then Inr (result None (Some mean_r) None False True)
              else
                rbind (ddiv (dsum downside_vals) (of_nat (length downside_vals))) (\<lambda>mean_down.
                rbind (std_dev downside_vals mean_down) (\<lambda>downside_dev.
                if downside_dev = 0 then Inr (result None (Some mean_r) (Some 0) False False)
                else
                  rbind (dsqrt (of_nat n_per_year)) (\<lambda>annualization.
                  rbind (ddiv mean_r downside_dev) (\<lambda>q.
                  Inr (result (Some (dmul q annualization)) (Some mean_r) (Some downside_dev)
                         False False)))))))"

section \<open>Rolling expectancy\<close>

definition MIN_N_ROLLING :: nat where "MIN_N_ROLLING = 20"

definition rolling_exp_r :: "trade_series_point list \<Rightarrow> exn + rat option" where
  "rolling_exp_r window =
     (let win_r = List.map_filter (\<lambda>p. if 0 < ts_net_pnl p then ts_r_multiple p else None) window;
          loss_r = List.map_filter (\<lambda>p. if ts_net_pnl p < 0 then ts_r_multiple p else None) window
      in if win_r = [] \<and> loss_r = [] then Inr None
         else rbind (compute_expectancy win_r loss_r (length window))
                (\<lambda>result. Inr (ex_expectancy_r result)))"

definition rolling_point ::
  "trade_series_point list \<Rightarrow> nat \<Rightarrow> nat \<Rightarrow> exn + rolling_expectancy_point" where
  "rolling_point points window i =
     (let slice = take window (drop (i - window) points)
      in rbind (ddiv (dsum (map ts_net_pnl slice)) (of_nat window)) (\<lambda>exp_inr.
         rbind (check (slice \<noteq> []) (Py IndexError)) (\<lambda>_.
         rbind (rolling_exp_r slice) (\<lambda>exp_r.
         Inr \<lparr>re_trade_index = i, re_trade_date = ts_trade_date (last slice),
              re_rolling_exp_r = exp_r, re_rolling_exp_inr = exp_inr\<rparr>))))"

definition compute_rolling_expectancy ::
  "trade_series_point list \<Rightarrow> nat \<Rightarrow> exn + rolling_expectancy_result" where
  "compute_rolling_expectancy points window =
     (if length points < window then
        Inr \<lparr>rr_window = window, rr_insufficient_sample = True, rr_data = []\<rparr>
      else
        rbind (rfold (\<lambda>i acc. rbind (rolling_point points window i) (\<lambda>p. Inr (acc @ [p])))
                 [window ..< Suc (length points)] []) (\<lambda>pts.
        Inr \<lparr>rr_window = window, rr_insufficient_sample = False, rr_data = pts\<rparr>))"

section \<open>Monte Carlo\<close>

text \<open>
  \<open>random.choices(pool, k)\<close>: \<open>k\<close> elements of the pool, at the indices the generator draws.
\<close>

definition random_choices :: "(nat \<Rightarrow> nat) \<Rightarrow> rat list \<Rightarrow> nat \<Rightarrow> rat list" where
  "random_choices draw pool k = map (\<lambda>j. pool ! (draw j mod length pool)) [0..<k]"

record simulation =
  sim_cum_r :: rat
  sim_peak_r :: rat
  sim_max_dd :: rat
  sim_consec_losses :: nat
  sim_max_consec :: nat
  sim_ruined :: bool

definition init_simulation :: simulation where
  "init_simulation = \<lparr>sim_cum_r = 0, sim_peak_r = 0, sim_max_dd = 0, sim_consec_losses = 0,
     sim_max_consec = 0, sim_ruined = False\<rparr>"

definition simulation_step :: "rat \<Rightarrow> rat \<Rightarrow> simulation \<Rightarrow> exn + simulation" where
  "simulation_step ruin_threshold_r r s =
     (let cum = dadd (sim_cum_r s) r;
          peak = (if sim_peak_r s < cum then cum else sim_peak_r s)
      in rbind (if 0 < peak
                then rbind (ddiv (dsub peak cum) peak) (\<lambda>q. Inr (max (sim_max_dd s) (dmul q 100)))
                else Inr (sim_max_dd s)) (\<lambda>max_dd.
         let consec = (if r < 0 then sim_consec_losses s + 1 else 0)
         in Inr \<lparr>sim_cum_r = cum, sim_peak_r = peak, sim_max_dd = max_dd,
                 sim_consec_losses = consec,
                 sim_max_consec = max (sim_max_consec s) consec,
                 sim_ruined = cum \<le> ruin_threshold_r\<rparr>))"

fun simulate :: "rat \<Rightarrow> rat list \<Rightarrow> simulation \<Rightarrow> exn + simulation" where
  "simulate ruin_threshold_r [] s = Inr s"
| "simulate ruin_threshold_r (r # rs) s =
     rbind (simulation_step ruin_threshold_r r s) (\<lambda>s'.
     if sim_ruined s' then Inr s' else simulate ruin_threshold_r rs s')"

definition percentile :: "'a list \<Rightarrow> nat \<Rightarrow> exn + 'a" where
  "percentile sorted_vals p =
     (let idx = min (length sorted_vals * p div 100) (length sorted_vals - 1)
      in if sorted_vals = [] then Inl (Py IndexError) else Inr (sorted_vals ! idx))"

definition run_simulations ::
  "(nat \<Rightarrow> nat \<Rightarrow> nat) \<Rightarrow> rat list \<Rightarrow> rat \<Rightarrow> nat \<Rightarrow> exn + simulation list" where
  "run_simulations draws pool ruin_threshold_r n_simulations =
     rfold (\<lambda>i sims.
       rbind (simulate ruin_threshold_r (random_choices (draws i) pool (length pool)) init_simulation)
         (\<lambda>s. Inr (sims @ [s]))) [0..<n_simulations] []"

definition compute_monte_carlo ::
  "(nat \<Rightarrow> nat \<Rightarrow> nat) \<Rightarrow> rat list \<Rightarrow> nat \<Rightarrow> rat \<Rightarrow> exn + monte_carlo_result" where
  "compute_monte_carlo draws r_multiples n_simulations ruin_threshold_r =
     (if r_multiples = [] then
        Inr \<lparr>mc_n_simulations = 0, mc_n_trades = 0, mc_median_final_r = 0, mc_p5_final_r = 0,
             mc_p95_final_r = 0, mc_p5_max_drawdown_pct = 0, mc_p1_max_drawdown_pct = 0,
             mc_worst_max_drawdown_pct = 0, mc_risk_of_ruin_pct = 0,
             mc_p95_max_consecutive_losses = 0\<rparr>
      else
        rbind (run_simulations draws r_multiples ruin_threshold_r n_simulations) (\<lambda>sims.
        let final_rs = sort (map sim_cum_r sims);
            max_drawdown_pcts = sort (map sim_max_dd sims);
            max_consecutive_losses = sort (map sim_max_consec sims);
            ruin_count = length (filter sim_ruined sims)
        in rbind (percentile final_rs 50) (\<lambda>median.
           rbind (percentile final_rs 5) (\<lambda>p5.
           rbind (percentile final_rs 95) (\<lambda>p95.
           rbind (percentile max_drawdown_pcts 95) (\<lambda>dd95.
           rbind (percentile max_drawdown_pcts 99) (\<lambda>dd99.
           rbind (ddiv (of_nat ruin_count) (of_nat n_simulations)) (\<lambda>ruin.
           rbind (percentile max_consecutive_losses 95) (\<lambda>losses.
           Inr \<lparr>mc_n_simulations = n_simulations, mc_n_trades = length r_multiples,
                mc_median_final_r = median, mc_p5_final_r = p5, mc_p95_final_r = p95,
                mc_p5_max_drawdown_pct = dd95, mc_p1_max_drawdown_pct = dd99,
                mc_worst_max_drawdown_pct =
                  (if max_drawdown_pcts = [] then 0 else last max_drawdown_pcts),
                mc_risk_of_ruin_pct = dmul ruin 100,
                mc_p95_max_consecutive_losses = losses\<rparr>)))))))))"

end
