(* ===== verification/Calculators_Facts.thy ===== *)
theory Calculators_Facts
  imports Calculators "HOL-Library.Sublist"
begin

text \<open>
  Facts of the calculators: the square root is the root rounded to 28 digits, no deviation or
  drawdown divides by zero, and each loop in terms of a closed description of its list.
\<close>

section \<open>Square roots and squares\<close>

lemma isqrt_bounds:
  "0 \<le> n \<Longrightarrow> 0 \<le> isqrt n \<and> isqrt n * isqrt n \<le> n \<and> n < (isqrt n + 1) * (isqrt n + 1)"
proof (induction n rule: isqrt.induct)
  case (1 n)
  show ?case
  proof (cases "n \<le> 0")
    case True
    with 1 show ?thesis by (simp add: isqrt.simps)
  next
    case False
    define s where "s = isqrt (n div 4)"
    from 1 False have s: "0 \<le> s" "s * s \<le> n div 4" "n div 4 < (s + 1) * (s + 1)"
      unfolding s_def by auto
    have lo: "(2 * s) * (2 * s) \<le> n" 
    proof -
      have "4 * (s * s) \<le> n" using s(2) by linarith
      then show ?thesis by simp
    qed
    have "n < 4 * (n div 4) + 4" by linarith
    moreover have "4 * (n div 4) + 4 \<le> 4 * ((s + 1) * (s + 1))" using s(3) by linarith
    ultimately have hi: "n < (2 * s + 2) * (2 * s + 2)" by (simp add: algebra_simps)
    have e: "isqrt n = (if (2 * s + 1) * (2 * s + 1) \<le> n then 2 * s + 1 else 2 * s)"
      using False by (subst isqrt.simps) (simp add: s_def Let_def)
    show ?thesis using s(1) lo hi unfolding e by (auto simp: algebra_simps)
  qed
qed

lemma floor_div2: "2 * (e div 2) \<le> (e::int) \<and> e \<le> 2 * (e div 2) + 1"
  by linarith

lemma powi_double: "(10::rat) powi (2 * k) = 10 powi k * 10 powi k"
  by (metis power_int_add mult_2 zero_neq_numeral)

text \<open>The root is within half a unit of its last place, and has 28 digits.\<close>

lemma dsqrt_correct:
  assumes "0 < x"
  obtains u m where "dsqrt x = Inr (of_int m * u)" and "u = 10 powi (adjusted x div 2 - 27)"
    and "10 ^ 27 \<le> m" and "m \<le> 10 ^ 28"
    and "((of_int m - 1 / 2) * u) ^ 2 \<le> x" and "x \<le> ((of_int m + 1 / 2) * u) ^ 2"
proof -
  define k where "k = adjusted x div 2"
  define u where "u = (10::rat) powi (k - 27)"
  define y where "y = x / (u * u)"
  define n where "n = isqrt \<lfloor>y\<rfloor>"
  define m where "m = (if of_int (n * n + n) + 1 / 4 < y then n + 1 else n)"
  have u: "0 < u" by (simp add: u_def)
  have x: "x = y * (u * u)" using u by (simp add: y_def)
  have sq: "dsqrt x = Inr (of_int m * u)"
    using assms by (simp add: dsqrt_def Let_def m_def n_def y_def u_def k_def)
  note b = adjusted_bounds [of x]
  have k: "2 * k \<le> adjusted x" "adjusted x \<le> 2 * k + 1" using floor_div2 [of "adjusted x"] by (simp_all add: k_def)
  have uu: "u * u * 10 ^ 54 = 10 powi (2 * k)"
  proof -
    have "u * 10 ^ 27 = 10 powi k" by (simp add: u_def power_int_diff)
    then have "(u * 10 ^ 27) * (u * 10 ^ 27) = 10 powi (2 * k)" by (simp only: powi_double)
    then show ?thesis by (simp add: mult_ac)
  qed
  have "10 powi (2 * k) \<le> (10::rat) powi adjusted x" using k by (intro power_int_increasing) auto
  then have "u * u * 10 ^ 54 \<le> x" using b assms uu by auto
  then have ylo: "10 ^ 54 \<le> y" using u by (simp add: y_def pos_le_divide_eq mult.commute)
  have "(10::rat) powi (adjusted x + 1) \<le> 10 powi (2 * k + 2)" using k by (intro power_int_increasing) auto
  also have "\<dots> = u * u * 10 ^ 54 * 10 ^ 2" unfolding uu by (simp add: power_int_add)
  finally have "x < u * u * 10 ^ 56" using b assms by auto
  then have yhi: "y < 10 ^ 56" using u by (simp add: y_def pos_divide_less_eq mult.commute)
  have fl: "0 \<le> \<lfloor>y\<rfloor>" using ylo by simp
  note n = isqrt_bounds [OF fl, folded n_def]
  have nlo: "10 ^ 27 \<le> n"
  proof (rule ccontr)
    assume "\<not> 10 ^ 27 \<le> n"
    then have "(n + 1) * (n + 1) \<le> 10 ^ 27 * 10 ^ 27" using n by (intro mult_mono) auto
    moreover have "(10::int) ^ 27 * 10 ^ 27 = 10 ^ 54" by simp
    ultimately have "(n + 1) * (n + 1) \<le> 10 ^ 54" by (simp only:)
    then have "\<lfloor>y\<rfloor> < 10 ^ 54" using n by linarith
    moreover have "10 ^ 54 \<le> \<lfloor>y\<rfloor>" using ylo by simp
    ultimately show False by linarith
  qed
  have nhi: "n < 10 ^ 28"
  proof (rule ccontr)
    assume "\<not> n < 10 ^ 28"
    then have "10 ^ 28 * 10 ^ 28 \<le> n * n" by (intro mult_mono) auto
    moreover have "(10::int) ^ 28 * 10 ^ 28 = 10 ^ 56" by simp
    ultimately have "10 ^ 56 \<le> n * n" by (simp only:)
    then have "10 ^ 56 \<le> \<lfloor>y\<rfloor>" using n by linarith
    moreover have "\<lfloor>y\<rfloor> < 10 ^ 56" using yhi by (simp add: floor_less_iff)
    ultimately show False by linarith
  qed
  have y1: "of_int (n * n) \<le> y" using n by (metis le_floor_iff)
  have y2: "y < of_int ((n + 1) * (n + 1))" using n by (metis floor_less_iff)
  let ?M = "of_int m :: rat" and ?N = "of_int n :: rat"
  have y1': "?N * ?N \<le> y" and y2': "y < (?N + 1) * (?N + 1)" using y1 y2 by simp_all
  have N: "1 \<le> ?N" using nlo by simp
  have mlo: "(?M - 1 / 2) ^ 2 \<le> y"
    using y1' y2' N by (auto simp: m_def power2_eq_square algebra_simps)
  have mhi: "y \<le> (?M + 1 / 2) ^ 2"
    using y1' y2' N by (auto simp: m_def power2_eq_square algebra_simps)
  show thesis
  proof (rule that [OF sq])
    show "u = 10 powi (adjusted x div 2 - 27)" by (simp add: u_def k_def)
    show "10 ^ 27 \<le> m" "m \<le> 10 ^ 28" using nlo nhi by (auto simp: m_def)
    show "((of_int m - 1 / 2) * u) ^ 2 \<le> x"
      using mlo u unfolding x power_mult_distrib by (simp add: power2_eq_square mult_right_mono)
    show "x \<le> ((of_int m + 1 / 2) * u) ^ 2"
      using mhi u unfolding x power_mult_distrib by (simp add: power2_eq_square mult_right_mono)
  qed
qed

lemma dsqrt_total:
  assumes "0 \<le> x"
  obtains r where "dsqrt x = Inr r" and "0 \<le> r" and "r = 0 \<longleftrightarrow> x = 0"
proof (cases "x = 0")
  case True
  then show ?thesis by (intro that [of 0]) (simp_all add: dsqrt_def)
next
  case False
  with assms have "0 < x" by simp
  then show ?thesis
  proof (rule dsqrt_correct)
    fix u m
    assume "dsqrt x = Inr (of_int m * u)" "u = 10 powi (adjusted x div 2 - 27)" "10 ^ 27 \<le> m"
    moreover from this have "0 < of_int m * u" by simp
    ultimately show thesis using False by (intro that [of "of_int m * u"]) auto
  qed
qed

lemma ctx_prec_pos:
  assumes "0 < x" and "1 \<le> p"
  shows "0 < ctx_prec p x"
proof -
  let ?u = "10 powi (adjusted x - (p - 1)) :: rat"
  have u: "0 < ?u" by simp
  have "?u \<le> 10 powi adjusted x" using assms(2) by (intro power_int_increasing) auto
  also have "\<dots> \<le> x" using adjusted_bounds [of x] assms(1) by auto
  finally have "of_int 1 \<le> x / ?u" using u by (simp add: pos_le_divide_eq)
  then have "1 \<le> round_half_even (x / ?u)" by (rule half_even.r_ge)
  then have "0 < (of_int (round_half_even (x / ?u)) :: rat)" by simp
  with u assms(1) show ?thesis by (simp add: ctx_prec_def Let_def)
qed

lemma ctx_prec_zero: "ctx_prec p 0 = 0"
  by (simp add: ctx_prec_def)

lemma dsquare_eq_0 [simp]: "dsquare x = 0 \<longleftrightarrow> x = 0"
  and dsquare_nonneg [simp]: "0 \<le> dsquare x"
proof -
  have "0 < dsquare x" if "x \<noteq> 0"
  proof -
    from that have "0 < x * x" by (cases "0 < x") (auto simp: zero_less_mult_iff)
    from ctx_prec_pos [OF this, of 31] show ?thesis by (simp add: dsquare_def)
  qed
  moreover have "dsquare 0 = 0" by (simp add: dsquare_def ctx_prec_zero)
  ultimately show "dsquare x = 0 \<longleftrightarrow> x = 0" "0 \<le> dsquare x"
    by (cases "x = 0"; force)+
qed

section \<open>Sums\<close>

lemma dadd_nonneg: "0 \<le> a \<Longrightarrow> 0 \<le> b \<Longrightarrow> 0 \<le> dadd a b"
  by (simp add: dadd_def ctx_nonneg)

lemma foldl_dadd_nonneg:
  "0 \<le> a \<Longrightarrow> (\<And>x. x \<in> set xs \<Longrightarrow> 0 \<le> x) \<Longrightarrow>
   0 \<le> foldl dadd a xs \<and> (foldl dadd a xs = 0 \<longleftrightarrow> a = 0 \<and> (\<forall>x\<in>set xs. x = 0))"
proof (induction xs arbitrary: a)
  case (Cons x xs)
  have "0 \<le> x" using Cons.prems by simp
  then have "dadd a x = 0 \<longleftrightarrow> a = 0 \<and> x = 0" "0 \<le> dadd a x"
    using Cons.prems by (auto simp: dadd_def ctx_nonneg add_nonneg_eq_0_iff)
  with Cons.IH [of "dadd a x"] Cons.prems show ?case by auto
qed simp

lemma dsum_nonneg:
  "(\<And>x. x \<in> set xs \<Longrightarrow> 0 \<le> x) \<Longrightarrow> 0 \<le> dsum xs \<and> (dsum xs = 0 \<longleftrightarrow> (\<forall>x\<in>set xs. x = 0))"
  using foldl_dadd_nonneg [of 0 xs] by (simp add: dsum_def)

lemma foldl_dadd_exact:
  "(\<And>x. x \<in> set xs \<Longrightarrow> dp k x \<and> \<bar>x\<bar> \<le> b) \<Longrightarrow> dp k a \<Longrightarrow>
   (\<bar>a\<bar> + of_nat (length xs) * b) * 10 ^ k < 10 ^ 28 \<Longrightarrow> foldl dadd a xs = a + sum_list xs"
proof (induction xs arbitrary: a)
  case (Cons x xs)
  have b: "0 \<le> b" "dp k x" "\<bar>x\<bar> \<le> b" using Cons.prems(1) [of x] by auto
  have "\<bar>a + x\<bar> + of_nat (length xs) * b \<le> \<bar>a\<bar> + of_nat (length (x # xs)) * b"
    using b abs_triangle_ineq [of a x] by (simp add: algebra_simps)
  then have le: "(\<bar>a + x\<bar> + of_nat (length xs) * b) * 10 ^ k < 10 ^ 28"
    using Cons.prems(3) by (meson le_less_trans mult_right_mono zero_le_power zero_le_numeral)
  have "\<bar>a + x\<bar> * 10 ^ k \<le> (\<bar>a + x\<bar> + of_nat (length xs) * b) * 10 ^ k"
    using b by (intro mult_right_mono) auto
  with le have "\<bar>a + x\<bar> * 10 ^ k < 10 ^ 28" by linarith
  then have "dadd a x = a + x"
    unfolding dadd_def using Cons.prems(2) b by (intro ctx_dp [of k]) auto
  moreover have "foldl dadd (a + x) xs = a + x + sum_list xs"
    using Cons.prems(1,2) b by (intro Cons.IH le) auto
  ultimately show ?case by (simp add: add.assoc)
qed simp

lemma dsum_exact_bounded:
  "(\<And>x. x \<in> set xs \<Longrightarrow> dp k x \<and> \<bar>x\<bar> \<le> b) \<Longrightarrow>
   of_nat (length xs) * b * 10 ^ k < 10 ^ 28 \<Longrightarrow> dsum xs = sum_list xs"
  using foldl_dadd_exact [of xs k b 0] by (simp add: dsum_def)

lemma sum_list_constant: "(\<And>x. x \<in> set xs \<Longrightarrow> x = c) \<Longrightarrow> sum_list xs = of_nat (length xs) * (c::rat)"
  by (induction xs) (auto simp: algebra_simps)

lemma ddiv_length [simp]: "xs \<noteq> [] \<Longrightarrow> ddiv v (of_nat (length xs)) = Inr (ctx (v / of_nat (length xs)))"
  by (simp add: ddiv_def)

section \<open>Standard deviation\<close>

lemma std_dev_total:
  assumes "xs \<noteq> []"
  obtains s where "std_dev xs m = Inr s" and "0 \<le> s" and "s = 0 \<longleftrightarrow> (\<forall>x\<in>set xs. x = m)"
proof -
  let ?v = "dsum (map (\<lambda>r. dsquare (dsub r m)) xs)"
  have v: "0 \<le> ?v \<and> (?v = 0 \<longleftrightarrow> (\<forall>x\<in>set xs. x = m))"
  proof -
    have "0 \<le> x" if "x \<in> set (map (\<lambda>r. dsquare (dsub r m)) xs)" for x using that by auto
    from dsum_nonneg [of "map (\<lambda>r. dsquare (dsub r m)) xs", OF this] show ?thesis
      by (simp add: dsub_def)
  qed
  then have "0 \<le> ctx (?v / of_nat (length xs))" by (intro ctx_nonneg) simp
  then obtain s where "dsqrt (ctx (?v / of_nat (length xs))) = Inr s" "0 \<le> s"
    "s = 0 \<longleftrightarrow> ctx (?v / of_nat (length xs)) = 0" by (rule dsqrt_total)
  with v assms show thesis by (intro that) (simp_all add: std_dev_def)
qed

section \<open>Streaks\<close>

text \<open>
  The reference: the lengths of the maximal runs of elements that satisfy \<open>p\<close>. A run that
  reaches the end of the list is open; the others are closed.
\<close>

function runs :: "('a \<Rightarrow> bool) \<Rightarrow> 'a list \<Rightarrow> nat list" where
  "runs p [] = []"
| "runs p (x # xs) =
     (if p x then Suc (length (takeWhile p xs)) # runs p (dropWhile p xs) else runs p xs)"
  by pat_completeness auto
termination
  by (relation "measure (length \<circ> snd)") (auto simp: length_dropWhile_le less_Suc_eq_le)

definition open_run :: "('a \<Rightarrow> bool) \<Rightarrow> 'a list \<Rightarrow> nat" where
  "open_run p xs = length (takeWhile p (rev xs))"

definition closed_runs :: "('a \<Rightarrow> bool) \<Rightarrow> 'a list \<Rightarrow> nat list" where
  "closed_runs p xs = runs p (rev (dropWhile p (rev xs)))"

lemma runs_all: "list_all p xs \<Longrightarrow> runs p xs = (if xs = [] then [] else [length xs])"
proof (cases xs)
  case (Cons x ys)
  assume "list_all p xs"
  with Cons have p: "p x" "\<forall>y\<in>set ys. p y" by (auto simp: list_all_iff)
  from p(2) have "takeWhile p ys = ys" "dropWhile p ys = []"
    by (simp_all only: takeWhile_eq_all_conv dropWhile_eq_Nil_conv)
  then show ?thesis unfolding Cons runs.simps using p(1) by (simp only: if_True runs.simps) simp
qed simp

lemma runs_separator: "\<not> p y \<Longrightarrow> runs p (xs @ y # ys) = runs p xs @ runs p ys"
proof (induction p xs rule: runs.induct)
  case (2 p x xs)
  show ?case
  proof (cases "p x")
    case True
    have "takeWhile p (xs @ y # ys) = takeWhile p xs" using 2(3) by (induction xs) auto
    moreover have "dropWhile p (xs @ y # ys) = dropWhile p xs @ y # ys" using 2(3) by (induction xs) auto
    ultimately show ?thesis using True 2 by simp
  next
    case False
    with 2 show ?thesis by simp
  qed
qed simp

lemma runs_closed_open:
  "runs p xs = closed_runs p xs @ (if 0 < open_run p xs then [open_run p xs] else [])"
proof -
  define A where "A = rev (dropWhile p (rev xs))"
  define B where "B = rev (takeWhile p (rev xs))"
  have xs: "xs = A @ B" unfolding A_def B_def by (metis rev_append rev_rev_ident takeWhile_dropWhile_id)
  have B: "list_all p B" unfolding B_def list_all_iff by (auto dest: set_takeWhileD)
  have len: "length B = open_run p xs" by (simp add: B_def open_run_def)
  have cl: "closed_runs p xs = runs p A" by (simp add: closed_runs_def A_def)
  show ?thesis
  proof (cases "dropWhile p (rev xs)")
    case Nil
    then have A: "A = []" by (simp add: A_def)
    then have e: "closed_runs p xs = []" "runs p xs = runs p B" using xs cl by auto
    show ?thesis unfolding e runs_all [OF B] using len by (cases B) auto
  next
    case (Cons y ys)
    then have y: "\<not> p y" by (simp add: dropWhile_eq_Cons_conv)
    have "A = rev ys @ y # []" by (simp add: A_def Cons)
    then have "runs p xs = runs p (rev ys) @ runs p B" "runs p A = runs p (rev ys)"
      using runs_separator [of p y "rev ys" B] runs_separator [of p y "rev ys" "[]"] y xs by auto
    with runs_all [OF B] len cl show ?thesis by (cases B) auto
  qed
qed

lemma open_run_snoc: "open_run p (xs @ [x]) = (if p x then Suc (open_run p xs) else 0)"
  by (simp add: open_run_def)

lemma closed_runs_snoc: "closed_runs p (xs @ [x]) = (if p x then closed_runs p xs else runs p xs)"
  using runs_separator [of p x xs "[]"] by (simp add: closed_runs_def)

lemma sum_runs: "sum_list (runs p xs) = length (filter p xs)"
proof (induction p xs rule: runs.induct)
  case (2 p x xs)
  have "length (filter p xs) = length (takeWhile p xs) + length (filter p (dropWhile p xs))"
    by (induction xs) auto
  with 2 show ?case by simp
qed simp

lemma max_default_append: "max_default (xs @ ys) = max (max_default xs) (max_default ys)"
  by (induction xs) (auto simp: max_default_def)

lemma longest_run_snoc:
  "max_default (runs p (xs @ [x])) = max (max_default (runs p xs)) (open_run p (xs @ [x]))"
  by (simp add: runs_closed_open [of p "xs @ [x]"] runs_closed_open [of p xs] closed_runs_snoc
      open_run_snoc max_default_append) (auto simp: max_default_def)

text \<open>The longest run is the length of the longest segment of the list that satisfies \<open>p\<close>.\<close>

definition longest_segment :: "('a \<Rightarrow> bool) \<Rightarrow> 'a list \<Rightarrow> nat \<Rightarrow> bool" where
  "longest_segment p xs n \<longleftrightarrow>
     (\<exists>ys. sublist ys xs \<and> list_all p ys \<and> length ys = n) \<and>
     (\<forall>ys. sublist ys xs \<and> list_all p ys \<longrightarrow> length ys \<le> n)"

lemma suffix_le_open_run: "suffix ys xs \<Longrightarrow> list_all p ys \<Longrightarrow> length ys \<le> open_run p xs"
proof -
  assume "suffix ys xs" "list_all p ys"
  then obtain zs where "rev xs = rev ys @ zs" "list_all p (rev ys)"
    by (auto simp: suffix_def list_all_iff)
  moreover from this have "takeWhile p (rev ys @ zs) = rev ys @ takeWhile p zs"
    by (intro takeWhile_append2) (auto simp: list_all_iff)
  ultimately show ?thesis by (simp add: open_run_def)
qed

lemma open_run_suffix: "suffix (rev (takeWhile p (rev xs))) xs"
  by (metis suffix_to_prefix takeWhile_is_prefix rev_rev_ident)

lemma runs_longest: "longest_segment p xs (max_default (runs p xs))"
proof (induction xs rule: rev_induct)
  case Nil
  show ?case by (simp add: longest_segment_def max_default_def)
next
  case (snoc x xs)
  let ?m = "max_default (runs p (xs @ [x]))" and ?o = "open_run p (xs @ [x])"
  have m: "?m = max (max_default (runs p xs)) ?o" by (rule longest_run_snoc)
  have "length ys \<le> ?m" if "sublist ys (xs @ [x])" "list_all p ys" for ys
  proof -
    from that(1) consider "suffix ys (xs @ [x])" | "sublist ys xs" by (auto simp: sublist_snoc)
    then show ?thesis
    proof cases
      case 1
      from suffix_le_open_run [OF this that(2)] m show ?thesis by simp
    next
      case 2
      with snoc that(2) have "length ys \<le> max_default (runs p xs)" by (auto simp: longest_segment_def)
      with m show ?thesis by simp
    qed
  qed
  moreover have "\<exists>ys. sublist ys (xs @ [x]) \<and> list_all p ys \<and> length ys = ?m"
  proof (cases "?m = ?o")
    case True
    let ?ys = "rev (takeWhile p (rev (xs @ [x])))"
    have "sublist ?ys (xs @ [x])" using open_run_suffix [of p "xs @ [x]"] by (rule suffix_imp_sublist)
    moreover have "list_all p ?ys" by (auto simp: list_all_iff dest: set_takeWhileD)
    moreover have "length ?ys = ?m" using True by (simp add: open_run_def)
    ultimately show ?thesis by blast
  next
    case False
    with m have "?m = max_default (runs p xs)" by linarith
    with snoc show ?thesis unfolding longest_segment_def by (metis sublist_append_rightI sublist_order.order.trans)
  qed
  ultimately show ?case unfolding longest_segment_def by blast
qed

text \<open>The loop of the code against the reference.\<close>

definition win :: "rat \<Rightarrow> bool" where "win x \<longleftrightarrow> 0 < x"
definition loss :: "rat \<Rightarrow> bool" where "loss x \<longleftrightarrow> x < 0"

lemma streak_loop:
  "fold streak_step xs \<lparr>st_win_streaks = [], st_loss_streaks = [], st_cw = 0, st_cl = 0\<rparr> =
     \<lparr>st_win_streaks = closed_runs win xs, st_loss_streaks = closed_runs loss xs,
      st_cw = open_run win xs, st_cl = open_run loss xs\<rparr>"
proof (induction xs rule: rev_induct)
  case Nil
  show ?case by (simp add: closed_runs_def open_run_def)
next
  case (snoc x xs)
  consider "win x" "\<not> loss x" | "\<not> win x" "loss x" | "\<not> win x" "\<not> loss x"
    unfolding win_def loss_def by linarith
  then show ?case
  proof cases
    case 1
    then have "0 < x" by (simp add: win_def)
    with 1 snoc show ?thesis
      by (simp add: streak_step_def close_loss_def open_run_snoc closed_runs_snoc runs_closed_open [of loss xs])
  next
    case 2
    then have "x < 0" by (simp add: loss_def)
    with 2 snoc show ?thesis
      by (simp add: streak_step_def close_win_def open_run_snoc closed_runs_snoc runs_closed_open [of win xs])
  next
    case 3
    then have "x = 0" by (simp add: win_def loss_def)
    with 3 snoc show ?thesis
      by (simp add: streak_step_def close_win_def close_loss_def open_run_snoc closed_runs_snoc
          runs_closed_open [of win xs] runs_closed_open [of loss xs])
  qed
qed

lemma average_streak_runs:
  "average_streak (runs p xs) =
     Inr (if runs p xs = [] then 0
          else ctx (of_nat (length (filter p xs)) / of_nat (length (runs p xs))))"
  by (simp add: average_streak_def sum_runs)

end
