(* ===== verification/Calculators_Properties.thy ===== *)
theory Calculators_Properties
  imports Calculators_Facts
begin

text \<open>
  What the calculators compute, for every input: when the Sharpe ratio is defined, the streaks
  and drawdowns against their definitions over the whole sequence, and the limits within which
  every Monte Carlo summary lies. Each theorem also states that the calculator returns: no
  division by zero and no exception on the way.
\<close>

section \<open>Sharpe\<close>

lemma all_mean_iff_constant:
  assumes "rs \<noteq> []" and "\<And>r. r \<in> set rs \<Longrightarrow> dp 6 r \<and> \<bar>r\<bar> \<le> 10 ^ 12"
    and m: "m = ctx (sum_list rs / of_nat (length rs))"
  shows "(\<forall>x\<in>set rs. x = m) \<longleftrightarrow> (\<forall>r\<in>set rs. r = hd rs)"
proof
  have hd: "hd rs \<in> set rs" using assms(1) by simp
  then show "\<forall>r\<in>set rs. r = hd rs" if "\<forall>x\<in>set rs. x = m" using that by metis
  assume c: "\<forall>r\<in>set rs. r = hd rs"
  have "sum_list rs = of_nat (length rs) * hd rs" using c by (intro sum_list_constant) auto
  then have "m = ctx (hd rs)" using assms(1) by (simp add: m)
  moreover have "ctx (hd rs) = hd rs" using assms(2) [OF hd] by (intro ctx_dp [of 6]) auto
  ultimately show "\<forall>x\<in>set rs. x = m" using c by metis
qed

text \<open>
  C22: on R-multiples as the database holds them the Sharpe calculation always returns, and its
  ratio is absent exactly when there are fewer than 30 of them or all are equal. When it is
  there, it has the sign of the sum of the R-multiples.
\<close>

theorem sharpe_defined_iff:
  assumes "\<And>r. r \<in> set rs \<Longrightarrow> dp 6 r \<and> \<bar>r\<bar> \<le> 10 ^ 12" and "length rs \<le> 10 ^ 9"
    and "0 < n"
  shows "\<exists>res. compute_sharpe_ratio rs n = Inr res \<and>
    (sh_sharpe_ratio res = None \<longleftrightarrow> length rs < 30 \<or> (\<forall>r\<in>set rs. r = hd rs)) \<and>
    (\<forall>s. sh_sharpe_ratio res = Some s \<longrightarrow> sgn s = sgn (sum_list rs))"
proof (cases "length rs < 30")
  case True
  then show ?thesis by (simp add: compute_sharpe_ratio_def MIN_SAMPLE_def)
next
  case False
  then have ne: "rs \<noteq> []" and pos: "(0::rat) < of_nat (length rs)" by auto
  have "of_nat (length rs) \<le> (of_nat (10 ^ 9) :: rat)" using assms(2) by (simp only: of_nat_le_iff)
  then have sum: "dsum rs = sum_list rs"
    by (intro dsum_exact_bounded [of rs 6 "10 ^ 12"] assms(1)) simp_all
  define m where "m = ctx (sum_list rs / of_nat (length rs))"
  have mean: "ddiv (dsum rs) (of_nat (length rs)) = Inr m" using ne by (simp add: sum m_def)
  have sgn_m: "sgn m = sgn (sum_list rs)"
    using pos by (auto simp: m_def sgn_if zero_less_divide_iff divide_less_0_iff)
  obtain s where s: "std_dev rs m = Inr s" "0 \<le> s" "s = 0 \<longleftrightarrow> (\<forall>x\<in>set rs. x = m)"
    by (rule std_dev_total [OF ne])
  note eq = all_mean_iff_constant [OF ne assms(1) m_def]
  show ?thesis
  proof (cases "s = 0")
    case True
    then show ?thesis using False s(3) eq
      by (simp add: compute_sharpe_ratio_def MIN_SAMPLE_def mean s(1))
  next
    case False
    obtain a where a: "dsqrt (of_nat n) = Inr a" "0 \<le> a" "a = 0 \<longleftrightarrow> (of_nat n :: rat) = 0"
      by (rule dsqrt_total [of "of_nat n"]) simp
    have "0 < s" "0 < a" using False s(2) a assms(3) by auto
    then have "sgn (dmul (ctx (m / s)) a) = sgn m"
      by (auto simp: dmul_def sgn_if zero_less_divide_iff divide_less_0_iff zero_less_mult_iff mult_less_0_iff)
    moreover have "ddiv m s = Inr (ctx (m / s))" using False by (simp add: ddiv_def)
    moreover from this have "compute_sharpe_ratio rs n = Inr \<lparr>
        sh_sharpe_ratio = Some (dmul (ctx (m / s)) a), sh_mean_r = Some m, sh_std_r = Some s,
        sh_n_per_year = n, sh_r_coverage_count = length rs, sh_insufficient_sample = False\<rparr>"
      using \<open>\<not> length rs < 30\<close> False
      by (simp add: compute_sharpe_ratio_def MIN_SAMPLE_def mean s(1) a(1))
    ultimately show ?thesis using \<open>\<not> length rs < 30\<close> False s(3) eq sgn_m by simp
  qed
qed

definition sample_rs :: "rat list" where
  "sample_rs = concat (replicate 10 [3 / 2, - 1, - 1 / 4])"

theorem sharpe_defined_iff_witness:
  "\<exists>res. compute_sharpe_ratio sample_rs 252 = Inr res \<and> sh_sharpe_ratio res \<noteq> None"
proof -
  have rs: "dp 6 r \<and> \<bar>r\<bar> \<le> 10 ^ 12" if "r \<in> set sample_rs" for r
  proof -
    from that have "r = 3 / 2 \<or> r = - 1 \<or> r = - 1 / 4" by (auto simp: sample_rs_def)
    moreover have "dp 6 (3 / 2)" by (rule dpI [of _ 1500000]) simp
    moreover have "dp 6 (- 1 / 4)" by (rule dpI [of _ "- 250000"]) simp
    moreover have "dp 6 (- 1)" by (rule dpI [of _ "- 1000000"]) simp
    moreover have "\<bar>3 / 2\<bar> \<le> (10 ^ 12 :: rat)" "\<bar>- 1 / 4\<bar> \<le> (10 ^ 12 :: rat)" "\<bar>- 1\<bar> \<le> (10 ^ 12 :: rat)"
      by simp_all
    ultimately show ?thesis by metis
  qed
  have len: "length sample_rs = 30" by code_simp
  have "- 1 \<in> set sample_rs" "hd sample_rs = 3 / 2" by code_simp+
  then have ne: "\<not> (\<forall>r\<in>set sample_rs. r = hd sample_rs)" by force
  have "\<exists>res. compute_sharpe_ratio sample_rs 252 = Inr res \<and>
    (sh_sharpe_ratio res = None \<longleftrightarrow> length sample_rs < 30 \<or> (\<forall>r\<in>set sample_rs. r = hd sample_rs)) \<and>
    (\<forall>s. sh_sharpe_ratio res = Some s \<longrightarrow> sgn s = sgn (sum_list sample_rs))"
    by (rule sharpe_defined_iff [OF rs]) (simp_all add: len)
  then obtain res where "compute_sharpe_ratio sample_rs 252 = Inr res"
    "sh_sharpe_ratio res = None \<longleftrightarrow> length sample_rs < 30 \<or> (\<forall>r\<in>set sample_rs. r = hd sample_rs)"
    by (elim exE conjE) (rule that)
  moreover have "\<not> length sample_rs < 30" by (simp add: len)
  ultimately have "compute_sharpe_ratio sample_rs 252 = Inr res \<and> sh_sharpe_ratio res \<noteq> None"
    using ne by iprover
  then show ?thesis by (rule exI)
qed

section \<open>Streaks\<close>

text \<open>
  C23: the streak statistics against their definition over the whole sequence: the current
  streaks are the runs that reach its end, the maximal ones are the longest segments of wins and
  of losses, and the averages are the number of wins (losses) per maximal run.
\<close>

theorem streaks_are_runs:
  "\<exists>s. compute_streak_stats pnls = Inr s \<and>
    sk_current_win_streak s = length (takeWhile win (rev pnls)) \<and>
    sk_current_loss_streak s = length (takeWhile loss (rev pnls)) \<and>
    longest_segment win pnls (sk_max_win_streak s) \<and>
    longest_segment loss pnls (sk_max_loss_streak s) \<and>
    sk_avg_win_streak s = (if runs win pnls = [] then 0
      else ctx (of_nat (length (filter win pnls)) / of_nat (length (runs win pnls)))) \<and>
    sk_avg_loss_streak s = (if runs loss pnls = [] then 0
      else ctx (of_nat (length (filter loss pnls)) / of_nat (length (runs loss pnls))))"
proof (cases "pnls = []")
  case True
  then show ?thesis by (simp add: compute_streak_stats_def longest_segment_def)
next
  case False
  have w: "(if 0 < open_run p pnls then closed_runs p pnls @ [open_run p pnls] else closed_runs p pnls) =
      runs p pnls" for p
    by (simp add: runs_closed_open [of p pnls])
  have "compute_streak_stats pnls =
      rbind (average_streak (runs win pnls)) (\<lambda>avg_win.
      rbind (average_streak (runs loss pnls)) (\<lambda>avg_loss.
      Inr \<lparr>sk_current_win_streak = open_run win pnls, sk_current_loss_streak = open_run loss pnls,
           sk_max_win_streak = max_default (runs win pnls),
           sk_max_loss_streak = max_default (runs loss pnls),
           sk_avg_win_streak = avg_win, sk_avg_loss_streak = avg_loss\<rparr>))"
    using False
    by (simp only: compute_streak_stats_def streak_loop Let_def w streak_state.select_convs if_False)
  then show ?thesis by (simp add: average_streak_runs runs_longest flip: open_run_def)
qed

section \<open>Drawdown\<close>

text \<open>The running peak of a curve and the drawdown from it, in percent, at each point.\<close>

definition peak_at :: "rat list \<Rightarrow> nat \<Rightarrow> rat" where
  "peak_at cs i = Max (set (take (Suc i) cs))"

definition drawdown_at :: "rat list \<Rightarrow> nat \<Rightarrow> rat" where
  "drawdown_at cs i =
     (if 0 < peak_at cs i then dmul (ctx (dsub (peak_at cs i) (cs ! i) / peak_at cs i)) 100 else 0)"

definition drawdowns :: "rat list \<Rightarrow> rat list" where
  "drawdowns cs = map (drawdown_at cs) [0..<length cs]"

lemma peak_at_snoc: "i < length cs \<Longrightarrow> peak_at (cs @ [c]) i = peak_at cs i"
  by (simp add: peak_at_def)

lemma drawdowns_snoc: "drawdowns (cs @ [c]) = drawdowns cs @ [drawdown_at (cs @ [c]) (length cs)]"
  by (auto simp: drawdowns_def drawdown_at_def peak_at_snoc nth_append)

lemma peak_at_ge: "i < length cs \<Longrightarrow> cs ! i \<le> peak_at cs i"
  unfolding peak_at_def by (intro Max_ge) (auto simp: take_Suc_conv_app_nth)

lemma drawdown_at_nonneg:
  assumes "i < length cs" and "0 < peak_at cs i"
  shows "0 \<le> dmul (ctx (dsub (peak_at cs i) (cs ! i) / peak_at cs i)) 100"
  using assms peak_at_ge [of i cs] by (auto simp: dmul_def dsub_def intro!: ctx_nonneg divide_nonneg_pos)

lemma drawdowns_nonneg: "d \<in> set (drawdowns cs) \<Longrightarrow> 0 \<le> d"
  using drawdown_at_nonneg by (auto simp: drawdowns_def drawdown_at_def)

text \<open>The state of the loop after the points \<open>cs\<close>.\<close>

definition drawdown_inv :: "rat list \<Rightarrow> drawdown_state \<Rightarrow> bool" where
  "drawdown_inv cs s \<longleftrightarrow>
     (cs \<noteq> [] \<longrightarrow> ds_peak s = Max (set cs)) \<and>
     ds_drawdown_pcts s = filter (\<lambda>d. 0 < d) (drawdowns cs) \<and>
     (case ds_max_dd_pct s of
        None \<Rightarrow> (\<forall>d\<in>set (drawdowns cs). d = 0)
      | Some m \<Rightarrow> 0 < m \<and> (\<forall>d\<in>set (drawdowns cs). d \<le> m) \<and>
          (\<exists>i<length cs. drawdown_at cs i = m \<and> (\<forall>j<i. drawdown_at cs j < m) \<and>
             ds_max_dd_inr s = dsub (peak_at cs i) (cs ! i)))"

lemma drawdown_step_inv:
  assumes "drawdown_inv cs s" and "cs = [] \<Longrightarrow> ds_peak s = c"
  obtains s' where "drawdown_step c s = Inr s'" and "drawdown_inv (cs @ [c]) s'"
proof -
  let ?n = "length cs" and ?cs = "cs @ [c]"
  define pk where "pk = (if ds_peak s < c then c else ds_peak s)"
  have pk: "pk = Max (set ?cs)"
  proof (cases "cs = []")
    case False
    then have "Max (set ?cs) = max c (Max (set cs))" by (simp add: Max_insert)
    moreover have "ds_peak s = Max (set cs)" using assms(1) False by (simp add: drawdown_inv_def)
    ultimately show ?thesis by (simp only: pk_def max_def) simp
  qed (use assms(2) in \<open>simp add: pk_def\<close>)
  then have at_: "peak_at ?cs ?n = pk" by (simp add: peak_at_def)
  have nth: "?cs ! ?n = c" by simp
  define dd where "dd = dmul (ctx (dsub pk c / pk)) 100"
  have old: "drawdown_at ?cs i = drawdown_at cs i \<and> peak_at ?cs i = peak_at cs i \<and> ?cs ! i = cs ! i"
    if "i < ?n" for i using that by (simp add: drawdown_at_def peak_at_snoc nth_append)
  show thesis
  proof (cases "0 < pk")
    case False
    then have d0: "drawdowns ?cs = drawdowns cs @ [0]" by (simp add: drawdowns_snoc drawdown_at_def at_)
    have "drawdown_step c s = Inr (s\<lparr>ds_peak := pk\<rparr>)"
      using False by (simp add: drawdown_step_def Let_def pk_def)
    moreover have "drawdown_inv ?cs (s\<lparr>ds_peak := pk\<rparr>)"
      using assms(1) old pk unfolding drawdown_inv_def d0
      by (auto split: option.splits simp: less_Suc_eq)
    ultimately show thesis by (rule that)
  next
    case True
    then have d1: "drawdown_at ?cs ?n = dd" by (simp add: drawdown_at_def at_ dd_def)
    then have ds: "drawdowns ?cs = drawdowns cs @ [dd]" by (simp add: drawdowns_snoc)
    have dd0: "0 \<le> dd" using drawdowns_nonneg [of dd ?cs] by (simp add: ds)
    define s1 where "s1 = s\<lparr>ds_peak := pk\<rparr>"
    define s2 where "s2 = (if or_zero (ds_max_dd_pct s1) < dd
        then s1\<lparr>ds_max_dd_pct := Some dd, ds_max_dd_inr := dsub pk c\<rparr> else s1)"
    define s3 where "s3 = (if 0 < dd then s2\<lparr>ds_drawdown_pcts := ds_drawdown_pcts s2 @ [dd]\<rparr> else s2)"
    have step: "drawdown_step c s = Inr s3"
      using True by (simp add: drawdown_step_def ddiv_def dd_def s1_def s2_def s3_def Let_def flip: pk_def)
    have peak3: "ds_peak s3 = pk" by (simp add: s3_def s2_def s1_def)
    have pcts3: "ds_drawdown_pcts s3 = filter (\<lambda>d. 0 < d) (drawdowns ?cs)"
      using assms(1) unfolding ds drawdown_inv_def s3_def s2_def s1_def by auto
    have max3: "case ds_max_dd_pct s3 of
        None \<Rightarrow> (\<forall>d\<in>set (drawdowns ?cs). d = 0)
      | Some m \<Rightarrow> 0 < m \<and> (\<forall>d\<in>set (drawdowns ?cs). d \<le> m) \<and>
          (\<exists>i<length ?cs. drawdown_at ?cs i = m \<and> (\<forall>j<i. drawdown_at ?cs j < m) \<and>
             ds_max_dd_inr s3 = dsub (peak_at ?cs i) (?cs ! i))"
    proof (cases "or_zero (ds_max_dd_pct s) < dd")
      case lt: True
      then have m: "ds_max_dd_pct s3 = Some dd" "ds_max_dd_inr s3 = dsub pk c"
        by (simp_all add: s3_def s2_def s1_def)
      have pos: "0 < dd"
      proof (cases "ds_max_dd_pct s")
        case (Some m)
        with lt assms(1) show ?thesis by (auto simp: or_zero_def drawdown_inv_def)
      qed (use lt in \<open>simp add: or_zero_def\<close>)
      have below: "\<forall>d\<in>set (drawdowns cs). d < dd"
        using lt pos assms(1) by (force simp: or_zero_def drawdown_inv_def split: option.splits)
      then have "\<forall>d\<in>set (drawdowns ?cs). d \<le> dd" by (auto simp: ds)
      moreover have "drawdown_at ?cs j < dd" if "j < ?n" for j
        using below old [OF that] that by (simp add: drawdowns_def)
      then have "\<exists>i<length ?cs. drawdown_at ?cs i = dd \<and> (\<forall>j<i. drawdown_at ?cs j < dd) \<and>
          dsub pk c = dsub (peak_at ?cs i) (?cs ! i)"
        by (intro exI [of _ ?n]) (simp add: d1 at_)
      ultimately show ?thesis using pos by (simp add: m)
    next
      case le: False
      then have m: "ds_max_dd_pct s3 = ds_max_dd_pct s" "ds_max_dd_inr s3 = ds_max_dd_inr s"
        by (simp_all add: s3_def s2_def s1_def)
      show ?thesis
      proof (cases "ds_max_dd_pct s")
        case None
        with le dd0 have "dd = 0" by (simp add: or_zero_def)
        with None assms(1) show ?thesis unfolding m by (simp add: ds drawdown_inv_def)
      next
        case (Some v)
        with assms(1) obtain i where i: "i < ?n" "drawdown_at cs i = v" "\<forall>j<i. drawdown_at cs j < v"
          "ds_max_dd_inr s = dsub (peak_at cs i) (cs ! i)" by (auto simp: drawdown_inv_def)
        have "\<forall>j<i. drawdown_at ?cs j < v" using i(1,3) old by auto
        then have "\<exists>i<length ?cs. drawdown_at ?cs i = v \<and> (\<forall>j<i. drawdown_at ?cs j < v) \<and>
            ds_max_dd_inr s = dsub (peak_at ?cs i) (?cs ! i)"
          by (intro exI [of _ i]) (use i old [OF i(1)] in auto)
        moreover have "dd \<le> v" using le Some by (simp add: or_zero_def)
        ultimately show ?thesis using Some assms(1) by (simp add: m ds drawdown_inv_def)
      qed
    qed
    have "drawdown_inv ?cs s3" using peak3 pcts3 max3 pk by (simp add: drawdown_inv_def)
    with step show thesis by (rule that)
  qed
qed

lemma drawdown_loop:
  assumes "cs \<noteq> []" and "ds_peak s = hd cs" and "drawdown_inv [] s"
  obtains s' where "rfold drawdown_step cs s = Inr s'" and "drawdown_inv cs s'"
proof -
  have "\<exists>s'. rfold drawdown_step xs s = Inr s' \<and> drawdown_inv xs s' \<and> (xs = [] \<longrightarrow> s' = s)"
    if "prefix xs cs" for xs
    using that
  proof (induction xs rule: rev_induct)
    case Nil
    with assms(3) show ?case by simp
  next
    case (snoc x xs)
    then have "prefix xs cs" by (meson prefix_order.trans prefixI)
    with snoc.IH obtain t where t: "rfold drawdown_step xs s = Inr t" "drawdown_inv xs t"
      "xs = [] \<longrightarrow> t = s" by blast
    have "xs = [] \<Longrightarrow> ds_peak t = x" using t(3) assms(2) snoc.prems by (auto simp: prefix_def)
    from drawdown_step_inv [OF t(2) this] obtain u where "drawdown_step x t = Inr u"
      "drawdown_inv (xs @ [x]) u" by blast
    with t(1) show ?case by (simp add: rfold_append)
  qed
  from this [of cs] that show thesis by auto
qed

lemma drawdown_inv_max:
  assumes "drawdown_inv cs s"
  shows "ds_max_dd_pct s = (if list_all (\<lambda>d. d = 0) (drawdowns cs) then None else Some (Max (set (drawdowns cs))))"
proof (cases "ds_max_dd_pct s")
  case None
  with assms show ?thesis by (simp add: drawdown_inv_def list_all_iff)
next
  case (Some m)
  with assms obtain i where m: "0 < m" "\<forall>d\<in>set (drawdowns cs). d \<le> m" "i < length cs" "drawdown_at cs i = m"
    by (auto simp: drawdown_inv_def)
  then have "m \<in> set (drawdowns cs)" by (auto simp: drawdowns_def)
  with m have "Max (set (drawdowns cs)) = m" by (intro Max_eqI) auto
  moreover have "\<not> list_all (\<lambda>d. d = 0) (drawdowns cs)"
    using m(1) \<open>m \<in> set (drawdowns cs)\<close> unfolding list_all_iff by (metis less_irrefl)
  ultimately show ?thesis using Some by simp
qed

lemma drawdown_current:
  assumes "cs \<noteq> []" and "drawdown_inv cs s"
  shows "(if 0 < ds_peak s \<and> last cs < ds_peak s
      then rbind (ddiv (dsub (ds_peak s) (last cs)) (ds_peak s)) (\<lambda>q. Inr (dmul q 100, dsub (ds_peak s) (last cs)))
      else Inr (0, 0)) =
    Inr (last (drawdowns cs), if 0 < ds_peak s \<and> last cs < ds_peak s then dsub (ds_peak s) (last cs) else 0)"
proof -
  let ?n = "length cs - 1"
  have peak: "peak_at cs ?n = ds_peak s" and last: "cs ! ?n = last cs"
    using assms by (simp_all add: peak_at_def drawdown_inv_def last_conv_nth)
  have lastdd: "last (drawdowns cs) = drawdown_at cs ?n" using assms(1) by (simp add: drawdowns_def last_map)
  have "last cs \<le> ds_peak s" using peak_at_ge [of ?n cs] assms(1) unfolding peak last by simp
  then show ?thesis unfolding lastdd drawdown_at_def peak last by (auto simp: ddiv_def dsub_def dmul_def)
qed

text \<open>
  C24: the drawdown statistics against their definition over the whole curve. The maximum is
  the largest drawdown of any point from the peak before it, and absent when the curve never
  falls below a positive peak; the amount is there exactly when it is, and is that of the first point
  where it is reached; the average is over the points below their peak; the current percentage and
  amount are those of the last point, and the percentage is at most the maximum.
\<close>

theorem drawdown_reference:
  assumes "points \<noteq> []"
  defines "cs \<equiv> map ec_cumulative_net_pnl points"
  shows "\<exists>r. compute_drawdown_stats points = Inr r \<and>
    dd_max_drawdown_pct r =
      (if list_all (\<lambda>d. d = 0) (drawdowns cs) then None else Some (Max (set (drawdowns cs)))) \<and>
    (case dd_max_drawdown_pct r of
       None \<Rightarrow> dd_max_drawdown_inr r = None
     | Some m \<Rightarrow> \<exists>i<length cs. drawdown_at cs i = m \<and> (\<forall>j<i. drawdown_at cs j < m) \<and>
         dd_max_drawdown_inr r = Some (dsub (peak_at cs i) (cs ! i))) \<and>
    dd_avg_drawdown_pct r =
      (let ds = filter (\<lambda>d. 0 < d) (drawdowns cs)
       in if ds = [] then None else Some (ctx (dsum ds / of_nat (length ds)))) \<and>
    dd_current_drawdown_pct r = Some (last (drawdowns cs)) \<and>
    dd_current_drawdown_inr r = Some (if 0 < Max (set cs) then dsub (Max (set cs)) (last cs) else 0) \<and>
    last (drawdowns cs) \<le> or_zero (dd_max_drawdown_pct r)"
proof -
  let ?s0 = "\<lparr>ds_peak = ec_cumulative_net_pnl (hd points), ds_max_dd_inr = 0, ds_max_dd_pct = None,
    ds_drawdown_pcts = []\<rparr>"
  have cs: "cs \<noteq> []" and hd: "ec_cumulative_net_pnl (hd points) = hd cs"
    and lst: "ec_cumulative_net_pnl (last points) = last cs"
    using assms(1) by (simp_all add: cs_def hd_map last_map)
  have "drawdown_inv [] ?s0" by (simp add: drawdown_inv_def drawdowns_def)
  from drawdown_loop [OF cs _ this] hd obtain s where
    s: "rfold drawdown_step cs ?s0 = Inr s" "drawdown_inv cs s" by auto
  define inr where "inr = (if 0 < ds_peak s \<and> last cs < ds_peak s then dsub (ds_peak s) (last cs) else 0)"
  note cur = drawdown_current [OF cs s(2), folded inr_def]
  have avg: "average_or_none (ds_drawdown_pcts s) =
      Inr (let ds = filter (\<lambda>d. 0 < d) (drawdowns cs)
           in if ds = [] then None else Some (ctx (dsum ds / of_nat (length ds))))"
    using s(2) by (simp add: average_or_none_def drawdown_inv_def Let_def)
  define r where "r = \<lparr>dd_max_drawdown_pct = ds_max_dd_pct s,
      dd_max_drawdown_inr = (if ds_max_dd_pct s \<noteq> None then Some (ds_max_dd_inr s) else None),
      dd_avg_drawdown_pct = (let ds = filter (\<lambda>d. 0 < d) (drawdowns cs)
           in if ds = [] then None else Some (ctx (dsum ds / of_nat (length ds)))),
      dd_current_drawdown_pct = Some (last (drawdowns cs)), dd_current_drawdown_inr = Some inr\<rparr>"
  have r: "compute_drawdown_stats points = Inr r"
    using assms(1) unfolding compute_drawdown_stats_def cs_def [symmetric] s(1)
    by (simp only: if_False rbind.simps Let_def lst cur avg prod.case r_def)
  have mem: "last (drawdowns cs) \<in> set (drawdowns cs)" using cs by (intro last_in_set) (simp add: drawdowns_def)
  note max = drawdown_inv_max [OF s(2)]
  have last_le: "last (drawdowns cs) \<le> or_zero (ds_max_dd_pct s)"
    using mem unfolding max by (auto simp: or_zero_def list_all_iff)
  have amount: "case dd_max_drawdown_pct r of
       None \<Rightarrow> dd_max_drawdown_inr r = None
     | Some m \<Rightarrow> \<exists>i<length cs. drawdown_at cs i = m \<and> (\<forall>j<i. drawdown_at cs j < m) \<and>
         dd_max_drawdown_inr r = Some (dsub (peak_at cs i) (cs ! i))"
    using s(2) by (auto simp: drawdown_inv_def r_def split: option.splits)
  have peak: "ds_peak s = Max (set cs)" using s(2) cs by (simp add: drawdown_inv_def)
  have "last cs \<le> Max (set cs)" using cs by simp
  then have "inr = (if 0 < Max (set cs) then dsub (Max (set cs)) (last cs) else 0)"
    unfolding inr_def peak by (auto simp: dsub_def)
  then have current: "dd_current_drawdown_inr r = Some (if 0 < Max (set cs) then dsub (Max (set cs)) (last cs) else 0)"
    by (simp add: r_def)
  show ?thesis
    by (intro exI [of _ r] conjI r amount current) (use max last_le in \<open>simp_all add: r_def\<close>)
qed

definition curve_point :: "rat \<Rightarrow> equity_curve_point" where
  "curve_point c = \<lparr>ec_trade_date = 0, ec_trade_id = 0, ec_net_pnl = 0, ec_cumulative_net_pnl = c\<rparr>"

theorem drawdown_reference_witness:
  "\<exists>r. compute_drawdown_stats (map curve_point [100, 50, 1000, 800]) = Inr r \<and>
     dd_max_drawdown_pct r = Some 50 \<and> dd_current_drawdown_pct r = Some 20 \<and> dd_current_drawdown_inr r = Some 200"
proof -
  have "drawdowns (map ec_cumulative_net_pnl (map curve_point [100, 50, 1000, 800])) = [0, 50, 0, 20]"
    by code_simp
  moreover have "dsub 1000 800 = 200" by code_simp
  ultimately show ?thesis using drawdown_reference [of "map curve_point [100, 50, 1000, 800]"]
    by (auto simp: curve_point_def)
qed

section \<open>Monte Carlo\<close>

text \<open>What holds of a simulation at every trade.\<close>

definition simulation_ok :: "nat \<Rightarrow> simulation \<Rightarrow> bool" where
  "simulation_ok n s \<longleftrightarrow> 0 \<le> sim_max_dd s \<and> sim_cum_r s \<le> sim_peak_r s \<and>
     sim_consec_losses s \<le> n \<and> sim_max_consec s \<le> n"

lemma simulation_step_ok:
  assumes "simulation_ok n s"
  obtains s' where "simulation_step t r s = Inr s'" and "simulation_ok (Suc n) s'"
proof -
  define c where "c = dadd (sim_cum_r s) r"
  define pk where "pk = (if sim_peak_r s < c then c else sim_peak_r s)"
  define dd where "dd = (if 0 < pk then max (sim_max_dd s) (dmul (ctx (dsub pk c / pk)) 100) else sim_max_dd s)"
  define k where "k = (if r < 0 then sim_consec_losses s + 1 else 0)"
  have "simulation_step t r s = Inr \<lparr>sim_cum_r = c, sim_peak_r = pk, sim_max_dd = dd, sim_consec_losses = k,
      sim_max_consec = max (sim_max_consec s) k, sim_ruined = c \<le> t\<rparr>"
    by (simp add: simulation_step_def Let_def ddiv_def c_def pk_def dd_def k_def)
  moreover have "simulation_ok (Suc n) \<lparr>sim_cum_r = c, sim_peak_r = pk, sim_max_dd = dd, sim_consec_losses = k,
      sim_max_consec = max (sim_max_consec s) k, sim_ruined = c \<le> t\<rparr>"
    using assms by (auto simp: simulation_ok_def pk_def dd_def k_def max_def)
  ultimately show thesis by (rule that)
qed

lemma simulate_ok:
  "simulation_ok n s \<Longrightarrow> \<exists>s'. simulate t rs s = Inr s' \<and> simulation_ok (n + length rs) s'"
proof (induction rs arbitrary: n s)
  case (Cons r rs)
  from simulation_step_ok [OF Cons.prems] obtain u where
    u: "simulation_step t r s = Inr u" "simulation_ok (Suc n) u" by blast
  have "simulation_ok (n + length (r # rs)) u" using u(2) by (auto simp: simulation_ok_def)
  with Cons.IH [OF u(2)] u(1) show ?case by auto
qed auto

lemma run_simulations_ok:
  "\<exists>sims. run_simulations draws pool t n = Inr sims \<and> length sims = n \<and>
     (\<forall>s\<in>set sims. simulation_ok (length pool) s)"
proof (induction n)
  case 0
  show ?case by (simp add: run_simulations_def)
next
  case (Suc n)
  then obtain sims where IH: "run_simulations draws pool t n = Inr sims" "length sims = n"
    "\<forall>s\<in>set sims. simulation_ok (length pool) s" by blast
  have "simulation_ok 0 init_simulation" by (simp add: simulation_ok_def init_simulation_def)
  from simulate_ok [OF this, of t "random_choices (draws n) pool (length pool)"] obtain s where
    s: "simulate t (random_choices (draws n) pool (length pool)) init_simulation = Inr s"
    "simulation_ok (length pool) s" by (auto simp: random_choices_def)
  have "run_simulations draws pool t (Suc n) = Inr (sims @ [s])"
    using IH(1) s(1) by (simp add: run_simulations_def rfold_append)
  with IH s(2) show ?case by auto
qed

lemma percentile_index: "xs \<noteq> [] \<Longrightarrow> min k (length xs - 1) < length xs"
  by (cases xs) auto

lemma percentile_ok: "xs \<noteq> [] \<Longrightarrow> \<exists>x\<in>set xs. percentile xs p = Inr x"
  using percentile_index [of xs "length xs * p div 100"] by (auto simp: percentile_def Let_def)

lemma percentile_mono:
  assumes "sorted xs" and "p \<le> q" and "percentile xs p = Inr x" and "percentile xs q = Inr y"
  shows "x \<le> y"
proof -
  have ne: "xs \<noteq> []" using assms(3) by (auto simp: percentile_def Let_def)
  have "length xs * p div 100 \<le> length xs * q div 100" using assms(2) by (intro div_le_mono) simp
  then have "xs ! min (length xs * p div 100) (length xs - 1) \<le> xs ! min (length xs * q div 100) (length xs - 1)"
    using percentile_index [OF ne] by (intro sorted_nth_mono [OF assms(1)] min.mono) simp_all
  with assms(3,4) ne show ?thesis by (simp add: percentile_def Let_def)
qed

lemma percentile_le_last: "sorted xs \<Longrightarrow> percentile xs p = Inr x \<Longrightarrow> x \<le> last xs"
  by (auto simp: percentile_def Let_def last_conv_nth split: if_splits intro!: sorted_nth_mono)

lemma share_in_percent:
  assumes "k \<le> Suc n"
  obtains q where "ddiv (of_nat k) (of_nat (Suc n)) = Inr q" and "0 \<le> dmul q 100" and "dmul q 100 \<le> 100"
proof -
  have q: "0 \<le> rat_of_nat k / of_nat (Suc n)" "rat_of_nat k / of_nat (Suc n) \<le> 1"
    using assms by (simp_all only: divide_le_eq_1_pos of_nat_0_less_iff zero_less_Suc of_nat_le_iff) simp
  let ?q = "ctx (rat_of_nat k / of_nat (Suc n))"
  have one: "ctx 1 = 1" "ctx 100 = 100" by (rule ctx_dp4; simp)+
  have "0 \<le> ?q" "?q \<le> 1" using ctx_nonneg [OF q(1)] ctx_mono [OF q(2)] one by simp_all
  then have "0 \<le> dmul ?q 100" "dmul ?q 100 \<le> 100"
    using ctx_nonneg [of "?q * 100"] ctx_mono [of "?q * 100" 100] one by (simp_all add: dmul_def)
  moreover have "ddiv (of_nat k) (of_nat (Suc n)) = Inr ?q" by (simp add: ddiv_def del: of_nat_Suc)
  ultimately show thesis using that by blast
qed

text \<open>
  C25: whatever the generator draws, a Monte Carlo run of at least one simulation returns, its
  percentiles are in order, the drawdowns are not negative, the risk of ruin is a percentage and
  no losing streak is longer than the sample; a run of no simulation on a nonempty sample fails.
\<close>

theorem monte_carlo_bounds:
  assumes "rs \<noteq> []"
  shows "compute_monte_carlo draws rs 0 t = Inl (Py IndexError) \<and>
    (\<exists>m. compute_monte_carlo draws rs (Suc n) t = Inr m \<and>
      mc_p5_final_r m \<le> mc_median_final_r m \<and> mc_median_final_r m \<le> mc_p95_final_r m \<and>
      0 \<le> mc_p5_max_drawdown_pct m \<and> mc_p5_max_drawdown_pct m \<le> mc_p1_max_drawdown_pct m \<and>
      mc_p1_max_drawdown_pct m \<le> mc_worst_max_drawdown_pct m \<and>
      0 \<le> mc_risk_of_ruin_pct m \<and> mc_risk_of_ruin_pct m \<le> 100 \<and>
      mc_p95_max_consecutive_losses m \<le> length rs)"
proof
  show "compute_monte_carlo draws rs 0 t = Inl (Py IndexError)"
    using assms by (simp add: compute_monte_carlo_def run_simulations_def percentile_def)
  obtain sims where sims: "run_simulations draws rs t (Suc n) = Inr sims" "length sims = Suc n"
    "\<forall>s\<in>set sims. simulation_ok (length rs) s"
    using run_simulations_ok by blast
  define fs where "fs = sort (map sim_cum_r sims)"
  define ds where "ds = sort (map sim_max_dd sims)"
  define ls where "ls = sort (map sim_max_consec sims)"
  have ne: "fs \<noteq> []" "ds \<noteq> []" "ls \<noteq> []"
    using sims(2) by (auto simp: fs_def ds_def ls_def simp flip: length_0_conv)
  have so: "sorted fs" "sorted ds" "sorted ls" by (simp_all add: fs_def ds_def ls_def)
  obtain f50 f5 f95 d95 d99 l95 where
    f: "percentile fs 50 = Inr f50" "percentile fs 5 = Inr f5" "percentile fs 95 = Inr f95" and
    d: "percentile ds 95 = Inr d95" "percentile ds 99 = Inr d99" and dmem: "d95 \<in> set ds" and
    l: "percentile ls 95 = Inr l95" and lmem: "l95 \<in> set ls"
    using percentile_ok ne by metis
  define ruined where "ruined = length (filter sim_ruined sims)"
  have "ruined \<le> Suc n" using sims(2) length_filter_le [of sim_ruined sims] by (simp add: ruined_def)
  then obtain risk where risk: "ddiv (of_nat ruined) (of_nat (Suc n)) = Inr risk"
    and "0 \<le> dmul risk 100" "dmul risk 100 \<le> 100" by (rule share_in_percent)
  moreover have "f5 \<le> f50" "f50 \<le> f95" "d95 \<le> d99" "d99 \<le> last ds"
    using percentile_mono [OF so(1) _ f(2,1)] percentile_mono [OF so(1) _ f(1,3)]
      percentile_mono [OF so(2) _ d] percentile_le_last [OF so(2) d(2)] by simp_all
  moreover have "0 \<le> d95" "l95 \<le> length rs"
    using dmem lmem sims(3) by (auto simp: ds_def ls_def simulation_ok_def)
  moreover define m where "m = \<lparr>mc_n_simulations = Suc n,
      mc_n_trades = length rs, mc_median_final_r = f50, mc_p5_final_r = f5, mc_p95_final_r = f95,
      mc_p5_max_drawdown_pct = d95, mc_p1_max_drawdown_pct = d99, mc_worst_max_drawdown_pct = last ds,
      mc_risk_of_ruin_pct = dmul risk 100, mc_p95_max_consecutive_losses = l95\<rparr>"
  moreover have "compute_monte_carlo draws rs (Suc n) t = Inr m"
    using assms ne unfolding m_def
    by (simp only: compute_monte_carlo_def if_False sims(1) rbind.simps Let_def risk f d l
        flip: fs_def ds_def ls_def ruined_def)
  ultimately show "\<exists>m. compute_monte_carlo draws rs (Suc n) t = Inr m \<and>
      mc_p5_final_r m \<le> mc_median_final_r m \<and> mc_median_final_r m \<le> mc_p95_final_r m \<and>
      0 \<le> mc_p5_max_drawdown_pct m \<and> mc_p5_max_drawdown_pct m \<le> mc_p1_max_drawdown_pct m \<and>
      mc_p1_max_drawdown_pct m \<le> mc_worst_max_drawdown_pct m \<and>
      0 \<le> mc_risk_of_ruin_pct m \<and> mc_risk_of_ruin_pct m \<le> 100 \<and>
      mc_p95_max_consecutive_losses m \<le> length rs"
    by (intro exI [of _ m]) (simp add: m_def)
qed

theorem monte_carlo_bounds_witness:
  "compute_monte_carlo (\<lambda>i j. i + j) [1, -2] 0 (- 50) = Inl (Py IndexError)"
  using monte_carlo_bounds [of "[1, -2]" "\<lambda>i j. i + j" "- 50"] by simp

text \<open>
  The largest drawdown in percent is not the largest in rupees: the amount that is reported with
  it is the one at the same point.
\<close>

theorem max_drawdown_inr_not_largest:
  "case compute_drawdown_stats (map curve_point [100, 50, 1000, 800]) of
     Inl e \<Rightarrow> False
   | Inr r \<Rightarrow> dd_max_drawdown_inr r = Some 50 \<and> dd_current_drawdown_inr r = Some 200"
  by code_simp

text \<open>
  The deviation of the Sortino ratio is taken around the mean of the losses, not around the
  minimal acceptable return of zero: with one losing trade, or equal losses, the ratio is
  absent although there are losing trades.
\<close>

theorem sortino_undefined_on_equal_losses:
  "case compute_sortino_ratio (concat (replicate 15 [2, - 1])) 252 of
     Inl e \<Rightarrow> False
   | Inr r \<Rightarrow> so_sortino_ratio r = None \<and> \<not> so_no_downside_trades r \<and> \<not> so_insufficient_sample r"
  by code_simp

end
