(* ===== verification/Journal_Types.thy ===== *)
theory Journal_Types
  imports Text_Time
begin

text \<open>
  \<open>domain/journal/types.py\<close>: the enumerations and limits of the journal, the handling of the
  names of uploaded files, and the values that go in and out of the service. A Decimal that comes
  from a request keeps its exponent, because the audit log stores its text.
\<close>

section \<open>Decimal as text\<close>

text \<open>\<open>coefficient * 10 ** exponent\<close>, and Python's \<open>str\<close> of it.\<close>

type_synonym pydec = "int \<times> int"

definition dec_value :: "pydec \<Rightarrow> rat" where
  "dec_value d = of_int (fst d) * 10 powi (snd d)"

definition zeros :: "nat \<Rightarrow> string" where
  "zeros n = replicate n CHR ''0''"

definition dec_str :: "pydec \<Rightarrow> string" where
  "dec_str d =
     (let (c, e) = d;
          digits = nat_str (nat \<bar>c\<bar>);
          len = int (length digits);
          left = len + e;
          dot = (if e \<le> 0 \<and> -6 < left then left else 1);
          body = (if dot \<le> 0 then ''0.'' @ zeros (nat (- dot)) @ digits
                  else if len \<le> dot then digits @ zeros (nat (dot - len))
                  else take (nat dot) digits @ ''.'' @ drop (nat dot) digits);
          ex = (if left = dot then []
                else if left < dot then ''E-'' @ nat_str (nat (dot - left))
                else ''E+'' @ nat_str (nat (left - dot)))
      in (if c < 0 then ''-'' else []) @ body @ ex)"

text \<open>The Decimal that the driver returns for a \<open>NUMERIC(18, 4)\<close> column.\<close>

definition column_dec :: "rat \<Rightarrow> pydec" where
  "column_dec x = (\<lfloor>x * 10 ^ 4\<rfloor>, -4)"

section \<open>Enumerations\<close>

datatype pnl_status = PENDING_STOP | PENDING_CALCULATION | AVAILABLE

definition ATTACHMENT_STATUSES :: "string list" where
  "ATTACHMENT_STATUSES = [''PENDING'', ''CONFIRMED'', ''EXPIRED'', ''REJECTED'']"

definition CAPTURE_MOMENTS :: "string list" where
  "CAPTURE_MOMENTS = [''AT_ENTRY'', ''DURING_TRADE'', ''AT_EXIT'', ''POST_REVIEW'']"

definition MISTAKE_TYPES :: "string list" where
  "MISTAKE_TYPES =
     [''FOMO_ENTRY'', ''FOMO_EXIT'', ''OVERSIZED_POSITION'', ''NO_STOP_DEFINED'',
      ''MOVED_STOP_WIDER'', ''CUT_WINNER_EARLY'', ''HELD_THROUGH_STOP'', ''REVENGE_TRADE'',
      ''AVERAGING_DOWN'', ''ENTRY_TOO_EARLY'', ''ENTRY_TOO_LATE'', ''IGNORED_SIGNAL'',
      ''DISTRACTED'']"

definition EMOTION_TYPES :: "string list" where
  "EMOTION_TYPES =
     [''CALM'', ''CONFIDENT'', ''ANXIOUS'', ''FEARFUL'', ''GREEDY'', ''FRUSTRATED'', ''EUPHORIC'',
      ''BORED'', ''DISTRACTED'', ''NEUTRAL'']"

section \<open>Attachment limits\<close>

definition ALLOWED_CONTENT_TYPES :: "string list" where
  "ALLOWED_CONTENT_TYPES = [''image/jpeg'', ''image/png'', ''image/webp'', ''image/gif'']"

definition CONTENT_TYPE_TO_EXTENSIONS :: "string \<Rightarrow> string list" where
  "CONTENT_TYPE_TO_EXTENSIONS ty =
     (if ty = ''image/jpeg'' then [''.jpg'', ''.jpeg'']
      else if ty = ''image/png'' then [''.png'']
      else if ty = ''image/webp'' then [''.webp'']
      else if ty = ''image/gif'' then [''.gif''] else [])"

definition ATTACHMENT_MAX_BYTES :: int where "ATTACHMENT_MAX_BYTES = 15 * 1024 * 1024"
definition ATTACHMENT_PER_TRADE_MAX_BYTES :: int where "ATTACHMENT_PER_TRADE_MAX_BYTES = 75 * 1024 * 1024"
definition ATTACHMENT_PER_USER_MAX_BYTES :: int where "ATTACHMENT_PER_USER_MAX_BYTES = 2 * 1024 * 1024 * 1024"
definition PRESIGN_UPLOAD_TTL_SECONDS :: int where "PRESIGN_UPLOAD_TTL_SECONDS = 900"
definition PRESIGN_DOWNLOAD_TTL_SECONDS :: int where "PRESIGN_DOWNLOAD_TTL_SECONDS = 3600"
definition PENDING_EXPIRY_MINUTES :: int where "PENDING_EXPIRY_MINUTES = 30"

section \<open>File names\<close>

definition is_word :: "char \<Rightarrow> bool" where
  "is_word c \<longleftrightarrow> is_digit c \<or> is_upper c \<or> is_lower c \<or> c = CHR ''_''"

definition path_separator :: "char \<Rightarrow> bool" where
  "path_separator c \<longleftrightarrow> c \<in> {CHR ''/'', CHR 0x5C, CHR '':''}"

definition unsafe_char :: "char \<Rightarrow> bool" where
  "unsafe_char c \<longleftrightarrow> \<not> (is_word c \<or> is_space c \<or> c \<in> {CHR ''-'', CHR ''.''})"

definition sanitize_filename :: "string \<Rightarrow> string" where
  "sanitize_filename filename =
     (let name = filter (\<lambda>c. \<not> path_separator c) filename;
          name = filter (\<lambda>c. \<not> unsafe_char c) name;
          name = join '' '' (split_ws name)
      in take 255 name)"

definition ends_with :: "string \<Rightarrow> string \<Rightarrow> bool" where
  "ends_with s ext \<longleftrightarrow> length ext \<le> length s \<and> drop (length s - length ext) s = ext"

definition filename_extension_matches :: "string \<Rightarrow> string \<Rightarrow> bool" where
  "filename_extension_matches filename content_type \<longleftrightarrow>
     list_ex (ends_with (lower filename)) (CONTENT_TYPE_TO_EXTENSIONS content_type)"

definition build_s3_key :: "uuid \<Rightarrow> uuid \<Rightarrow> uuid \<Rightarrow> string" where
  "build_s3_key user_id trade_id attachment_id =
     uuid_str user_id @ ''/'' @ uuid_str trade_id @ ''/'' @ uuid_str attachment_id"

section \<open>Inputs and outputs of the service\<close>

record trade_snapshot_for_journal =
  tj_id :: uuid
  tj_user_id :: uuid
  tj_average_entry :: "rat option"
  tj_total_entry_quantity :: rat

record journal_entry_write =
  jw_planned_entry :: "pydec option"
  jw_planned_stop :: "pydec option"
  jw_planned_target :: "pydec option"
  jw_setup_name :: "string option"
  jw_notes :: "string option"
  jw_discipline_score :: "int option"
  jw_mistakes :: "string list option"
  jw_emotion_before :: "string option"
  jw_emotion_during :: "string option"
  jw_emotion_after :: "string option"
  jw_change_reason :: "string option"

record pnl_snapshot =
  pv_status :: pnl_status
  pv_net_pnl :: "rat option"
  pv_gross_pnl :: "rat option"
  pv_total_charges :: "rat option"
  pv_r_multiple :: "rat option"

record attachment_view =
  av_id :: uuid
  av_filename :: string
  av_content_type :: string
  av_byte_size :: int
  av_capture_moment :: string
  av_caption :: "string option"
  av_status :: string
  av_download_url :: "string option"
  av_confirmed_at :: "timestamp option"
  av_created_at :: timestamp

record audit_entry =
  ae_id :: uuid
  ae_field_name :: string
  ae_previous_value :: "string option"
  ae_new_value :: "string option"
  ae_change_reason :: "string option"
  ae_changed_at :: timestamp

record journal_entry_view =
  jv_id :: uuid
  jv_trade_id :: uuid
  jv_user_id :: uuid
  jv_planned_entry :: "rat option"
  jv_planned_stop :: "rat option"
  jv_planned_target :: "rat option"
  jv_planned_risk_amount :: "rat option"
  jv_setup_name :: "string option"
  jv_notes :: "string option"
  jv_discipline_score :: "int option"
  jv_mistakes :: "string list"
  jv_emotion_before :: "string option"
  jv_emotion_during :: "string option"
  jv_emotion_after :: "string option"
  jv_pnl :: pnl_snapshot
  jv_attachments :: "attachment_view list"
  jv_created_at :: timestamp
  jv_updated_at :: timestamp

record presign_result =
  pr_attachment_id :: uuid
  pr_upload_url :: string
  pr_s3_key :: string
  pr_expires_in_seconds :: int

section \<open>Facts\<close>

text \<open>A sanitised name contains no separator and nothing unsafe, and fits its column.\<close>

lemma set_words_from: "set (concat (words_from w s)) \<subseteq> set w \<union> set s"
  by (induction w s rule: words_from.induct) (auto split: if_splits)

lemma set_join: "set (join sep ws) \<subseteq> set sep \<union> set (concat ws)"
  by (induction sep ws rule: join.induct) auto

lemma sanitize_filename_chars:
  "c \<in> set (sanitize_filename f) \<Longrightarrow> is_word c \<or> is_space c \<or> c \<in> {CHR ''-'', CHR ''.''}"
proof -
  assume c: "c \<in> set (sanitize_filename f)"
  let ?n = "filter (\<lambda>c. \<not> unsafe_char c) (filter (\<lambda>c. \<not> path_separator c) f)"
  have "c \<in> set (join '' '' (split_ws ?n))"
    using c unfolding sanitize_filename_def Let_def by (rule in_set_takeD)
  then have "c \<in> set '' '' \<union> set (concat (split_ws ?n))" using set_join by blast
  then have "c = CHR '' '' \<or> c \<in> set ?n"
    using set_words_from [of "[]" ?n] by (auto simp: split_ws_def)
  then show ?thesis
  proof
    assume c: "c = CHR '' ''"
    have "is_space (CHR '' '')" by code_simp
    with c show ?thesis by blast
  qed (auto simp: unsafe_char_def)
qed

lemma sanitize_filename_length: "length (sanitize_filename f) \<le> 255"
  by (simp add: sanitize_filename_def Let_def)

lemma separator_not_word: "path_separator c \<Longrightarrow> \<not> is_word c \<and> \<not> is_space c \<and> c \<noteq> CHR ''-'' \<and> c \<noteq> CHR ''.''"
  by (auto simp: path_separator_def is_word_def is_digit_def is_upper_def is_lower_def is_space_def)

lemma sanitize_filename_no_separator: "c \<in> set (sanitize_filename f) \<Longrightarrow> \<not> path_separator c"
  using sanitize_filename_chars separator_not_word by blast

text \<open>The object key determines the user, the trade and the attachment.\<close>

lemma length_uuid_str: "length (uuid_str u) = 36"
proof -
  have "length (hex_digits 32 u) = 32" by simp
  then show ?thesis by (simp add: uuid_str_def Let_def)
qed

lemma build_s3_key_inj:
  assumes "u < 2 ^ 128" "t < 2 ^ 128" "a < 2 ^ 128" "u' < 2 ^ 128" "t' < 2 ^ 128" "a' < 2 ^ 128"
    and "build_s3_key u t a = build_s3_key u' t' a'"
  shows "u = u' \<and> t = t' \<and> a = a'"
  using assms(7) uuid_str_inj [OF assms(1,4)] uuid_str_inj [OF assms(2,5)] uuid_str_inj [OF assms(3,6)]
  by (simp add: build_s3_key_def length_uuid_str)

end
