(* ===== verification/Journal.thy ===== *)
theory Journal
  imports Journal_Types Trade_Service
begin

text \<open>
  \<open>infrastructure/repositories/journal_repo.py\<close> and \<open>application/journal/service.py\<close>, with the
  audit log of \<open>auth_repo.py\<close> they write to. The object store is a parameter: the functions of
  \<open>StoragePort\<close> over a state of its own. A method of the service returns the value or exception
  together with the session it leaves, because it also writes before it raises; the route decides
  whether that is committed.
\<close>

section \<open>StoragePort\<close>

record 'o storage_port =
  st_presign_put :: "string \<Rightarrow> string \<Rightarrow> int \<Rightarrow> int \<Rightarrow> string"
  st_presign_get :: "string \<Rightarrow> string \<Rightarrow> string \<Rightarrow> int \<Rightarrow> string"
  st_head_object :: "'o \<Rightarrow> string \<Rightarrow> int option"
  st_delete_object :: "'o \<Rightarrow> string \<Rightarrow> 'o"

text \<open>\<open>urllib.parse.urlencode\<close> of ASCII values, and the stub of development and tests.\<close>

definition hex_upper :: "nat \<Rightarrow> char" where
  "hex_upper n = ''0123456789ABCDEF'' ! n"

definition quote_plus :: "string \<Rightarrow> string" where
  "quote_plus s = concat (map (\<lambda>c.
     if is_word c \<or> c \<in> {CHR ''.'', CHR ''-'', CHR ''~''} then [c]
     else if c = CHR '' '' then ''+''
     else [CHR ''%'', hex_upper ((of_char c :: nat) div 16), hex_upper ((of_char c :: nat) mod 16)]) s)"

definition urlencode :: "(string \<times> string) list \<Rightarrow> string" where
  "urlencode ps = join ''&'' (map (\<lambda>(k, v). quote_plus k @ ''='' @ quote_plus v) ps)"

definition STUB_BASE :: string where "STUB_BASE = ''https://stub-s3.local''"

definition stub_storage :: "unit storage_port" where
  "stub_storage = \<lparr>
     st_presign_put = (\<lambda>key content_type byte_size ttl_seconds.
       STUB_BASE @ ''/'' @ key @ ''?'' @ urlencode
         [(''action'', ''put''), (''content_type'', content_type), (''ttl'', int_str ttl_seconds)]),
     st_presign_get = (\<lambda>key filename content_type ttl_seconds.
       STUB_BASE @ ''/'' @ key @ ''?'' @ urlencode
         [(''action'', ''get''),
          (''response-content-disposition'', ''attachment; filename='' @ filename),
          (''response-content-type'', content_type), (''ttl'', int_str ttl_seconds)]),
     st_head_object = (\<lambda>ob key. Some 0),
     st_delete_object = (\<lambda>ob key. ob)\<rparr>"

section \<open>auth_repo.py: AuditLogRepository\<close>

definition audit_log ::
  "timestamp \<Rightarrow> string \<Rightarrow> string option \<Rightarrow> uuid option \<Rightarrow> (string \<times> json) list \<Rightarrow> db \<Rightarrow> db" where
  "audit_log now event_type ip_address user_id event_data d =
     (let (pk, d1) = uuid4 d
      in d1\<lparr>security_audit_log := append_row (security_audit_log d1)
           \<lparr>sa_id = pk, sa_event_type = event_type, sa_user_id = user_id,
            sa_ip_address = ip_address, sa_event_data = event_data, sa_occurred_at = now\<rparr>\<rparr>)"

section \<open>journal_repo.py\<close>

definition journal_trade_snapshot ::
  "uuid \<Rightarrow> uuid \<Rightarrow> db \<Rightarrow> trade_snapshot_for_journal option" where
  "journal_trade_snapshot trade_id user_id d =
     map_option (\<lambda>t. \<lparr>tj_id = t_id t, tj_user_id = t_user_id t,
                      tj_average_entry = t_average_entry t,
                      tj_total_entry_quantity = t_total_entry_quantity t\<rparr>)
       (get_by t_id (filter (\<lambda>t. t_user_id t = user_id \<and> \<not> t_is_deleted t) (trades d)) trade_id)"

definition get_entry :: "uuid \<Rightarrow> uuid \<Rightarrow> db \<Rightarrow> exn + journal_entry_row option" where
  "get_entry trade_id user_id d =
     scalar_one_or_none (Py MultipleResultsFound)
       (filter (\<lambda>j. j_trade_id j = trade_id \<and> j_user_id j = user_id \<and> j_deleted_at j = None)
          (journal_entries d))"

text \<open>The fields dictionary that the service builds; a blank one for a new attachment.\<close>

record journal_fields =
  jf_planned_entry :: "pydec option"
  jf_planned_stop :: "pydec option"
  jf_planned_target :: "pydec option"
  jf_planned_risk_amount :: "rat option"
  jf_setup_name :: "string option"
  jf_notes :: "string option"
  jf_discipline_score :: "int option"
  jf_mistakes :: "string list option"
  jf_emotion_before :: "string option"
  jf_emotion_during :: "string option"
  jf_emotion_after :: "string option"

definition no_fields :: journal_fields where
  "no_fields = \<lparr>jf_planned_entry = None, jf_planned_stop = None, jf_planned_target = None,
     jf_planned_risk_amount = None, jf_setup_name = None, jf_notes = None,
     jf_discipline_score = None, jf_mistakes = None, jf_emotion_before = None,
     jf_emotion_during = None, jf_emotion_after = None\<rparr>"

definition varchar :: "nat \<Rightarrow> string option \<Rightarrow> exn + string option" where
  "varchar n s = (case s of None \<Rightarrow> Inr None
     | Some v \<Rightarrow> if length v \<le> n then Inr s else Inl (Py DataError))"

definition journal_entry_check :: "journal_entry_row \<Rightarrow> bool" where
  "journal_entry_check j \<longleftrightarrow>
     (case j_discipline_score j of None \<Rightarrow> True | Some s \<Rightarrow> 1 \<le> s \<and> s \<le> 10) \<and>
     (case j_emotion_before j of None \<Rightarrow> True | Some e \<Rightarrow> e \<in> set EMOTION_TYPES) \<and>
     (case j_emotion_during j of None \<Rightarrow> True | Some e \<Rightarrow> e \<in> set EMOTION_TYPES) \<and>
     (case j_emotion_after j of None \<Rightarrow> True | Some e \<Rightarrow> e \<in> set EMOTION_TYPES)"

text \<open>What the columns make of the fields: four places, lengths, checks.\<close>

definition store_fields :: "journal_fields \<Rightarrow> journal_entry_row \<Rightarrow> exn + journal_entry_row" where
  "store_fields f j =
     rbind (numeric_18_4_opt (map_option dec_value (jf_planned_entry f))) (\<lambda>entry.
     rbind (numeric_18_4_opt (map_option dec_value (jf_planned_stop f))) (\<lambda>stop.
     rbind (numeric_18_4_opt (map_option dec_value (jf_planned_target f))) (\<lambda>target.
     rbind (numeric_18_4_opt (jf_planned_risk_amount f)) (\<lambda>risk.
     rbind (varchar 100 (jf_setup_name f)) (\<lambda>setup.
     rbind (check (case jf_mistakes f of None \<Rightarrow> True | Some ms \<Rightarrow> list_all (\<lambda>m. length m \<le> 30) ms)
              (Py DataError)) (\<lambda>_.
     let row = j\<lparr>j_planned_entry := entry, j_planned_stop := stop, j_planned_target := target,
                 j_planned_risk_amount := risk, j_setup_name := setup, j_notes := jf_notes f,
                 j_discipline_score := jf_discipline_score f, j_mistakes := jf_mistakes f,
                 j_emotion_before := jf_emotion_before f, j_emotion_during := jf_emotion_during f,
                 j_emotion_after := jf_emotion_after f\<rparr>
     in rbind (check (journal_entry_check row) (Py IntegrityError)) (\<lambda>_. Inr row)))))))"

definition create_entry ::
  "timestamp \<Rightarrow> uuid \<Rightarrow> uuid \<Rightarrow> journal_fields \<Rightarrow> db \<Rightarrow> exn + journal_entry_row \<times> db" where
  "create_entry now trade_id user_id fs d =
     (let (pk, d1) = uuid4 d
      in rbind (store_fields fs
           \<lparr>j_id = pk, j_trade_id = trade_id, j_user_id = user_id, j_planned_entry = None,
            j_planned_stop = None, j_planned_target = None, j_planned_risk_amount = None,
            j_setup_name = None, j_notes = None, j_discipline_score = None, j_mistakes = None,
            j_emotion_before = None, j_emotion_during = None, j_emotion_after = None,
            j_deleted_at = None, j_created_at = now, j_updated_at = now\<rparr>) (\<lambda>row.
         rbind (check (trade_id \<notin> j_trade_id ` set (journal_entries d1)) (Py IntegrityError)) (\<lambda>_.
         Inr (row, d1\<lparr>journal_entries := append_row (journal_entries d1) row\<rparr>))))"

definition update_entry ::
  "timestamp \<Rightarrow> uuid \<Rightarrow> journal_fields \<Rightarrow> db \<Rightarrow> exn + db" where
  "update_entry now entry_id fs d =
     (case get_by j_id (journal_entries d) entry_id of
        None \<Rightarrow> Inr d
      | Some j \<Rightarrow>
          rbind (store_fields fs j) (\<lambda>row.
          Inr (d\<lparr>journal_entries :=
                 update_by j_id entry_id (\<lambda>_. row\<lparr>j_updated_at := now\<rparr>) (journal_entries d)\<rparr>)))"

definition has_pnl_row :: "uuid \<Rightarrow> db \<Rightarrow> bool" where
  "has_pnl_row trade_id d \<longleftrightarrow> list_ex (\<lambda>p. p_trade_id p = trade_id) (trade_pnls d)"

text \<open>A change of one field, as the service passes it to the repository.\<close>

record audit_change =
  ac_field_name :: string
  ac_previous_value :: "string option"
  ac_new_value :: "string option"
  ac_change_reason :: "string option"

definition append_audit_entry :: "timestamp \<Rightarrow> uuid \<Rightarrow> uuid \<Rightarrow> audit_change \<Rightarrow> db \<Rightarrow> db" where
  "append_audit_entry now journal_entry_id user_id c d =
     (let (pk, d1) = uuid4 d
      in d1\<lparr>journal_audit_log := append_row (journal_audit_log d1)
           \<lparr>jl_id = pk, jl_journal_entry_id = journal_entry_id, jl_user_id = user_id,
            jl_field_name = ac_field_name c, jl_previous_value = ac_previous_value c,
            jl_new_value = ac_new_value c, jl_change_reason = ac_change_reason c,
            jl_changed_at = now\<rparr>\<rparr>)"

definition append_audit_entries :: "timestamp \<Rightarrow> uuid \<Rightarrow> uuid \<Rightarrow> audit_change list \<Rightarrow> db \<Rightarrow> db" where
  "append_audit_entries now journal_entry_id user_id cs d =
     fold (append_audit_entry now journal_entry_id user_id) cs d"

definition get_audit_log :: "uuid \<Rightarrow> uuid \<Rightarrow> db \<Rightarrow> journal_audit_row list" where
  "get_audit_log journal_entry_id user_id d =
     order_by (\<lambda>a b. jl_changed_at a \<le> jl_changed_at b)
       (filter (\<lambda>l. jl_journal_entry_id l = journal_entry_id \<and> jl_user_id l = user_id)
          (journal_audit_log d))"

definition is_stored :: "journal_attachment_row \<Rightarrow> bool" where
  "is_stored a \<longleftrightarrow> ja_status a = ''CONFIRMED'' \<and> ja_deleted_at a = None"

definition sum_confirmed_bytes_for_trade :: "uuid \<Rightarrow> uuid \<Rightarrow> db \<Rightarrow> int" where
  "sum_confirmed_bytes_for_trade trade_id user_id d =
     sum_list (map ja_byte_size (filter (\<lambda>a. ja_trade_id a = trade_id \<and> ja_user_id a = user_id \<and> is_stored a)
       (journal_attachments d)))"

definition sum_confirmed_bytes_for_user :: "uuid \<Rightarrow> db \<Rightarrow> int" where
  "sum_confirmed_bytes_for_user user_id d =
     sum_list (map ja_byte_size (filter (\<lambda>a. ja_user_id a = user_id \<and> is_stored a) (journal_attachments d)))"

definition create_attachment :: "journal_attachment_row \<Rightarrow> db \<Rightarrow> db" where
  "create_attachment a d = d\<lparr>journal_attachments := append_row (journal_attachments d) a\<rparr>"

definition get_pending_attachment :: "uuid \<Rightarrow> uuid \<Rightarrow> db \<Rightarrow> journal_attachment_row option" where
  "get_pending_attachment attachment_id user_id d =
     get_by ja_id (filter (\<lambda>a. ja_user_id a = user_id \<and> ja_status a = ''PENDING'') (journal_attachments d))
       attachment_id"

definition get_confirmed_attachment :: "uuid \<Rightarrow> uuid \<Rightarrow> db \<Rightarrow> journal_attachment_row option" where
  "get_confirmed_attachment attachment_id user_id d =
     get_by ja_id (filter (\<lambda>a. ja_user_id a = user_id \<and> is_stored a) (journal_attachments d)) attachment_id"

definition update_attachment_status ::
  "uuid \<Rightarrow> string \<Rightarrow> timestamp option \<Rightarrow> db \<Rightarrow> db" where
  "update_attachment_status attachment_id status confirmed_at d =
     d\<lparr>journal_attachments := update_by ja_id attachment_id
         (\<lambda>a. a\<lparr>ja_status := status,
                ja_confirmed_at := (case confirmed_at of None \<Rightarrow> ja_confirmed_at a | Some t \<Rightarrow> Some t)\<rparr>)
         (journal_attachments d)\<rparr>"

definition soft_delete_attachment :: "timestamp \<Rightarrow> uuid \<Rightarrow> db \<Rightarrow> db" where
  "soft_delete_attachment now attachment_id d =
     d\<lparr>journal_attachments := update_by ja_id attachment_id (\<lambda>a. a\<lparr>ja_deleted_at := Some now\<rparr>)
         (journal_attachments d)\<rparr>"

definition list_confirmed_attachments :: "uuid \<Rightarrow> db \<Rightarrow> journal_attachment_row list" where
  "list_confirmed_attachments journal_entry_id d =
     order_by (\<lambda>a b. ja_created_at a \<le> ja_created_at b)
       (filter (\<lambda>a. ja_journal_entry_id a = journal_entry_id \<and> is_stored a) (journal_attachments d))"

section \<open>Helpers of the service\<close>

definition compute_pnl_status :: "rat option \<Rightarrow> bool \<Rightarrow> pnl_status" where
  "compute_pnl_status planned_stop has_pnl =
     (if has_pnl then AVAILABLE else if planned_stop \<noteq> None then PENDING_CALCULATION else PENDING_STOP)"

definition compute_planned_risk_amount :: "rat option \<Rightarrow> rat option \<Rightarrow> rat \<Rightarrow> rat option" where
  "compute_planned_risk_amount planned_stop average_entry total_entry_quantity =
     (case (planned_stop, average_entry) of
        (Some stop, Some avg) \<Rightarrow> Some (planned_risk avg stop total_entry_quantity)
      | _ \<Rightarrow> None)"

text \<open>The text of the audited fields, of the stored entry and of the new fields, in order.\<close>

definition AUDITABLE_FIELDS :: "string list" where
  "AUDITABLE_FIELDS = [''planned_entry'', ''planned_stop'', ''planned_target'', ''setup_name'', ''notes'',
     ''discipline_score'', ''mistakes'', ''emotion_before'', ''emotion_during'', ''emotion_after'']"

definition old_strs :: "journal_entry_row \<Rightarrow> string option list" where
  "old_strs j =
     [map_option (dec_str \<circ> column_dec) (j_planned_entry j),
      map_option (dec_str \<circ> column_dec) (j_planned_stop j),
      map_option (dec_str \<circ> column_dec) (j_planned_target j),
      j_setup_name j, j_notes j, map_option int_str (j_discipline_score j),
      map_option (join '','') (j_mistakes j),
      j_emotion_before j, j_emotion_during j, j_emotion_after j]"

definition new_strs :: "journal_fields \<Rightarrow> string option list" where
  "new_strs f =
     [map_option dec_str (jf_planned_entry f), map_option dec_str (jf_planned_stop f),
      map_option dec_str (jf_planned_target f), jf_setup_name f, jf_notes f,
      map_option int_str (jf_discipline_score f), map_option (join '','') (jf_mistakes f),
      jf_emotion_before f, jf_emotion_during f, jf_emotion_after f]"

definition diff_for_audit :: "journal_entry_row \<Rightarrow> journal_fields \<Rightarrow> string option \<Rightarrow> audit_change list" where
  "diff_for_audit existing fs change_reason =
     map (\<lambda>(field, old, new). \<lparr>ac_field_name = field, ac_previous_value = old, ac_new_value = new,
                               ac_change_reason = change_reason\<rparr>)
       (filter (\<lambda>(field, old, new). old \<noteq> new)
          (zip AUDITABLE_FIELDS (zip (old_strs existing) (new_strs fs))))"

definition build_attachment_view :: "'o storage_port \<Rightarrow> journal_attachment_row \<Rightarrow> attachment_view" where
  "build_attachment_view st a =
     \<lparr>av_id = ja_id a, av_filename = ja_filename a, av_content_type = ja_content_type a,
      av_byte_size = ja_byte_size a, av_capture_moment = ja_capture_moment a,
      av_caption = ja_caption a, av_status = ja_status a,
      av_download_url = Some (st_presign_get st (ja_s3_key a) (ja_filename a) (ja_content_type a)
                                PRESIGN_DOWNLOAD_TTL_SECONDS),
      av_confirmed_at = ja_confirmed_at a, av_created_at = ja_created_at a\<rparr>"

definition build_entry_view ::
  "journal_entry_row \<Rightarrow> pnl_status \<Rightarrow> attachment_view list \<Rightarrow> journal_entry_view" where
  "build_entry_view j status attachments =
     \<lparr>jv_id = j_id j, jv_trade_id = j_trade_id j, jv_user_id = j_user_id j,
      jv_planned_entry = j_planned_entry j, jv_planned_stop = j_planned_stop j,
      jv_planned_target = j_planned_target j, jv_planned_risk_amount = j_planned_risk_amount j,
      jv_setup_name = j_setup_name j, jv_notes = j_notes j,
      jv_discipline_score = j_discipline_score j,
      jv_mistakes = (case j_mistakes j of None \<Rightarrow> [] | Some ms \<Rightarrow> ms),
      jv_emotion_before = j_emotion_before j, jv_emotion_during = j_emotion_during j,
      jv_emotion_after = j_emotion_after j,
      jv_pnl = \<lparr>pv_status = status, pv_net_pnl = None, pv_gross_pnl = None,
                pv_total_charges = None, pv_r_multiple = None\<rparr>,
      jv_attachments = attachments, jv_created_at = j_created_at j, jv_updated_at = j_updated_at j\<rparr>"

definition log_attachment_event ::
  "timestamp \<Rightarrow> string \<Rightarrow> uuid \<Rightarrow> uuid \<Rightarrow> string option \<Rightarrow> string \<Rightarrow> int \<Rightarrow> uuid option \<Rightarrow> db \<Rightarrow> db" where
  "log_attachment_event now event_type user_id trade_id ip content_type byte_size attachment_id d =
     audit_log now event_type ip (Some user_id)
       ([(''trade_id'', JString (uuid_str trade_id)),
         (''declared_content_type'', JString content_type),
         (''declared_byte_size'', JInt byte_size)] @
        (case attachment_id of None \<Rightarrow> [] | Some a \<Rightarrow> [(''attachment_id'', JString (uuid_str a))])) d"

section \<open>Entries\<close>

definition entry_view :: "'o storage_port \<Rightarrow> journal_entry_row \<Rightarrow> db \<Rightarrow> journal_entry_view" where
  "entry_view st entry d =
     build_entry_view entry
       (compute_pnl_status (j_planned_stop entry) (has_pnl_row (j_trade_id entry) d))
       (map (build_attachment_view st) (list_confirmed_attachments (j_id entry) d))"

definition journal_get_entry ::
  "'o storage_port \<Rightarrow> uuid \<Rightarrow> uuid \<Rightarrow> db \<Rightarrow> exn + journal_entry_view" where
  "journal_get_entry st user_id trade_id d =
     rbind (get_entry trade_id user_id d) (\<lambda>e.
     case e of
       None \<Rightarrow> Inl (Journal (JournalEntryNotFoundError trade_id))
     | Some entry \<Rightarrow> Inr (entry_view st entry d))"

definition fields_of_write :: "journal_entry_write \<Rightarrow> rat option \<Rightarrow> journal_fields" where
  "fields_of_write data planned_risk_amount =
     \<lparr>jf_planned_entry = jw_planned_entry data, jf_planned_stop = jw_planned_stop data,
      jf_planned_target = jw_planned_target data, jf_planned_risk_amount = planned_risk_amount,
      jf_setup_name = jw_setup_name data, jf_notes = jw_notes data,
      jf_discipline_score = jw_discipline_score data, jf_mistakes = jw_mistakes data,
      jf_emotion_before = jw_emotion_before data, jf_emotion_during = jw_emotion_during data,
      jf_emotion_after = jw_emotion_after data\<rparr>"

definition recalculate_quietly :: "journal_entry_write \<Rightarrow> uuid \<Rightarrow> uuid \<Rightarrow> db \<Rightarrow> db" where
  "recalculate_quietly data trade_id user_id d =
     (if has_pnl_row trade_id d \<and> jw_planned_stop data \<noteq> None
      then case recalculate_r_multiple trade_id user_id d of Inl e \<Rightarrow> d | Inr d' \<Rightarrow> d'
      else d)"

definition upsert_entry ::
  "'o storage_port \<Rightarrow> timestamp \<Rightarrow> uuid \<Rightarrow> uuid \<Rightarrow> journal_entry_write \<Rightarrow> db \<Rightarrow>
   exn + journal_entry_view \<times> db" where
  "upsert_entry st now user_id trade_id data d =
     (case journal_trade_snapshot trade_id user_id d of
        None \<Rightarrow> Inl (Journal (JournalTradeNotFoundError trade_id))
      | Some trade_row \<Rightarrow>
          let fs = fields_of_write data
                (compute_planned_risk_amount (map_option dec_value (jw_planned_stop data))
                   (tj_average_entry trade_row) (tj_total_entry_quantity trade_row))
          in rbind (get_entry trade_id user_id d) (\<lambda>existing.
             rbind (case existing of
                      None \<Rightarrow> create_entry now trade_id user_id fs d
                    | Some old \<Rightarrow>
                        let audit_entries = diff_for_audit old fs (jw_change_reason data)
                        in rbind (update_entry now (j_id old) fs d) (\<lambda>d1.
                           let d2 = append_audit_entries now (j_id old) user_id audit_entries d1
                           in rbind (get_entry trade_id user_id d2) (\<lambda>refreshed.
                              case refreshed of
                                None \<Rightarrow> Inl (Py AssertionError)
                              | Some entry \<Rightarrow> Inr (entry, d2)))) (\<lambda>(entry, d3).
             let status = compute_pnl_status (j_planned_stop entry) (has_pnl_row trade_id d3);
                 d4 = recalculate_quietly data trade_id user_id d3
             in Inr (build_entry_view entry status
                       (map (build_attachment_view st) (list_confirmed_attachments (j_id entry) d4)),
                     d4))))"

definition get_audit_history :: "uuid \<Rightarrow> uuid \<Rightarrow> db \<Rightarrow> exn + audit_entry list" where
  "get_audit_history user_id trade_id d =
     rbind (get_entry trade_id user_id d) (\<lambda>e.
     case e of
       None \<Rightarrow> Inl (Journal (JournalEntryNotFoundError trade_id))
     | Some entry \<Rightarrow>
         Inr (map (\<lambda>l. \<lparr>ae_id = jl_id l, ae_field_name = jl_field_name l,
                        ae_previous_value = jl_previous_value l, ae_new_value = jl_new_value l,
                        ae_change_reason = jl_change_reason l, ae_changed_at = jl_changed_at l\<rparr>)
                (get_audit_log (j_id entry) user_id d)))"

section \<open>Attachments\<close>

text \<open>The outcome of a method together with the session it leaves, also when it raises.\<close>

type_synonym 'a outcome = "(exn + 'a) \<times> db"

definition rejected ::
  "timestamp \<Rightarrow> string \<Rightarrow> uuid \<Rightarrow> uuid \<Rightarrow> string option \<Rightarrow> string \<Rightarrow> int \<Rightarrow> journal_error \<Rightarrow> db \<Rightarrow> 'a outcome" where
  "rejected now event user_id trade_id ip content_type byte_size err d =
     (Inl (Journal err), log_attachment_event now event user_id trade_id ip content_type byte_size None d)"

definition ensure_entry :: "timestamp \<Rightarrow> uuid \<Rightarrow> uuid \<Rightarrow> db \<Rightarrow> exn + journal_entry_row \<times> db" where
  "ensure_entry now trade_id user_id d =
     rbind (get_entry trade_id user_id d) (\<lambda>e.
     case e of
       Some entry \<Rightarrow> Inr (entry, d)
     | None \<Rightarrow> create_entry now trade_id user_id no_fields d)"

definition presign_attachment ::
  "'o storage_port \<Rightarrow> timestamp \<Rightarrow> uuid \<Rightarrow> uuid \<Rightarrow> string \<Rightarrow> string \<Rightarrow> int \<Rightarrow> string \<Rightarrow> string option \<Rightarrow>
   string option \<Rightarrow> db \<Rightarrow> presign_result outcome" where
  "presign_attachment st now user_id trade_id filename content_type byte_size capture_moment caption ip d =
     (if content_type \<notin> set ALLOWED_CONTENT_TYPES then
        rejected now ''ATTACHMENT_REJECTED_TYPE'' user_id trade_id ip content_type byte_size
          (AttachmentContentTypeNotAllowedError content_type) d
      else if byte_size \<le> 0 \<or> ATTACHMENT_MAX_BYTES < byte_size then
        rejected now ''ATTACHMENT_REJECTED_SIZE'' user_id trade_id ip content_type byte_size
          (AttachmentSizeLimitExceededError byte_size ATTACHMENT_MAX_BYTES) d
      else
        let safe_name = sanitize_filename filename
        in if \<not> filename_extension_matches safe_name content_type then
             (Inl (Journal (AttachmentFilenameExtensionMismatchError safe_name content_type)), d)
           else if journal_trade_snapshot trade_id user_id d = None then
             (Inl (Journal (JournalTradeNotFoundError trade_id)), d)
           else if ATTACHMENT_PER_TRADE_MAX_BYTES < sum_confirmed_bytes_for_trade trade_id user_id d + byte_size then
             rejected now ''ATTACHMENT_REJECTED_QUOTA'' user_id trade_id ip content_type byte_size
               (AttachmentStorageQuotaExceededError ''this trade'') d
           else if ATTACHMENT_PER_USER_MAX_BYTES < sum_confirmed_bytes_for_user user_id d + byte_size then
             rejected now ''ATTACHMENT_REJECTED_QUOTA'' user_id trade_id ip content_type byte_size
               (AttachmentStorageQuotaExceededError ''your account'') d
           else
             case ensure_entry now trade_id user_id d of
               Inl e \<Rightarrow> (Inl e, d)
             | Inr (entry, d1) \<Rightarrow>
                 let (attachment_id, d2) = uuid4 d1;
                     s3_key = build_s3_key user_id trade_id attachment_id;
                     d3 = create_attachment \<lparr>ja_id = attachment_id, ja_journal_entry_id = j_id entry,
                            ja_user_id = user_id, ja_trade_id = trade_id, ja_s3_key = s3_key,
                            ja_filename = safe_name, ja_content_type = content_type,
                            ja_byte_size = byte_size, ja_capture_moment = capture_moment,
                            ja_caption = caption, ja_status = ''PENDING'', ja_confirmed_at = None,
                            ja_deleted_at = None, ja_created_at = now\<rparr> d2;
                     d4 = log_attachment_event now ''ATTACHMENT_PRESIGN_REQUESTED'' user_id trade_id ip
                            content_type byte_size (Some attachment_id) d3
                 in (Inr \<lparr>pr_attachment_id = attachment_id,
                          pr_upload_url = st_presign_put st s3_key content_type byte_size PRESIGN_UPLOAD_TTL_SECONDS,
                          pr_s3_key = s3_key, pr_expires_in_seconds = PRESIGN_UPLOAD_TTL_SECONDS\<rparr>, d4))"

definition confirm_attachment ::
  "'o storage_port \<Rightarrow> timestamp \<Rightarrow> uuid \<Rightarrow> uuid \<Rightarrow> string option \<Rightarrow> 'o \<Rightarrow> db \<Rightarrow>
   attachment_view outcome \<times> 'o" where
  "confirm_attachment st now user_id attachment_id ip ob d =
     (case get_pending_attachment attachment_id user_id d of
        None \<Rightarrow> ((Inl (Journal (AttachmentNotFoundError attachment_id)), d), ob)
      | Some att \<Rightarrow>
          if ja_created_at att < now - PENDING_EXPIRY_MINUTES * 60 * 1000000 then
            ((Inl (Journal (AttachmentExpiredError attachment_id)),
              update_attachment_status attachment_id ''EXPIRED'' None d), ob)
          else
            case st_head_object st ob (ja_s3_key att) of
              None \<Rightarrow>
                ((Inl (Journal (AttachmentNotFoundError attachment_id)),
                  log_attachment_event now ''ATTACHMENT_CONFIRM_FAILED'' user_id (ja_trade_id att) ip
                    (ja_content_type att) (ja_byte_size att) (Some attachment_id)
                    (update_attachment_status attachment_id ''REJECTED'' None d)), ob)
            | Some content_length \<Rightarrow>
                if ATTACHMENT_MAX_BYTES < content_length then
                  ((Inl (Journal (AttachmentSizeLimitExceededError content_length ATTACHMENT_MAX_BYTES)), d),
                   st_delete_object st ob (ja_s3_key att))
                else
                  let d1 = update_attachment_status attachment_id ''CONFIRMED'' (Some now) d;
                      d2 = log_attachment_event now ''ATTACHMENT_CONFIRMED'' user_id (ja_trade_id att) ip
                             (ja_content_type att) (ja_byte_size att) (Some attachment_id) d1
                  in ((Inr \<lparr>av_id = ja_id att, av_filename = ja_filename att,
                            av_content_type = ja_content_type att, av_byte_size = ja_byte_size att,
                            av_capture_moment = ja_capture_moment att, av_caption = ja_caption att,
                            av_status = ''CONFIRMED'',
                            av_download_url = Some (st_presign_get st (ja_s3_key att) (ja_filename att)
                              (ja_content_type att) PRESIGN_DOWNLOAD_TTL_SECONDS),
                            av_confirmed_at = Some now, av_created_at = ja_created_at att\<rparr>, d2), ob))"

definition delete_attachment ::
  "timestamp \<Rightarrow> uuid \<Rightarrow> uuid \<Rightarrow> string option \<Rightarrow> db \<Rightarrow> unit outcome" where
  "delete_attachment now user_id attachment_id ip d =
     (case get_confirmed_attachment attachment_id user_id d of
        None \<Rightarrow> (Inl (Journal (AttachmentNotFoundError attachment_id)), d)
      | Some att \<Rightarrow>
          (Inr (), log_attachment_event now ''ATTACHMENT_DELETED'' user_id (ja_trade_id att) ip
             (ja_content_type att) (ja_byte_size att) (Some attachment_id)
             (soft_delete_attachment now attachment_id d)))"

end
