(* ===== verification/Journal_Api.thy ===== *)
theory Journal_Api
  imports Journal Trades_Api
begin

text \<open>
  \<open>api/v1/journal.py\<close>: validation of the request bodies, the mapping of the journal's exceptions
  to responses with their messages, and the transaction of each route: it is committed when the
  service returns and rolled back when it raises. Time stamps of responses stay numbers; the
  JSON text is not modelled.
\<close>

section \<open>Request bodies\<close>

definition optionally :: "('a \<Rightarrow> bool) \<Rightarrow> 'a option \<Rightarrow> bool" where
  "optionally P x \<longleftrightarrow> (case x of None \<Rightarrow> True | Some v \<Rightarrow> P v)"

definition emotion_must_be_valid :: "string option \<Rightarrow> bool" where
  "emotion_must_be_valid v \<longleftrightarrow> optionally (\<lambda>e. e \<in> set EMOTION_TYPES) v"

definition mistakes_must_be_valid :: "string list option \<Rightarrow> bool" where
  "mistakes_must_be_valid v \<longleftrightarrow> optionally (\<lambda>ms. list_all (\<lambda>m. m \<in> set MISTAKE_TYPES) ms) v"

definition journal_entry_request_ok :: "journal_entry_write \<Rightarrow> bool" where
  "journal_entry_request_ok b \<longleftrightarrow>
     optionally (\<lambda>p. 0 < dec_value p) (jw_planned_entry b) \<and>
     optionally (\<lambda>p. 0 < dec_value p) (jw_planned_stop b) \<and>
     optionally (\<lambda>p. 0 < dec_value p) (jw_planned_target b) \<and>
     optionally (\<lambda>s. length s \<le> 100) (jw_setup_name b) \<and>
     optionally (\<lambda>n. 1 \<le> n \<and> n \<le> 10) (jw_discipline_score b) \<and>
     mistakes_must_be_valid (jw_mistakes b) \<and>
     emotion_must_be_valid (jw_emotion_before b) \<and>
     emotion_must_be_valid (jw_emotion_during b) \<and>
     emotion_must_be_valid (jw_emotion_after b) \<and>
     optionally (\<lambda>s. length s \<le> 500) (jw_change_reason b)"

record presign_request =
  pq_filename :: string
  pq_content_type :: string
  pq_byte_size :: int
  pq_capture_moment :: string
  pq_caption :: "string option"

definition presign_request_ok :: "presign_request \<Rightarrow> bool" where
  "presign_request_ok b \<longleftrightarrow>
     1 \<le> length (pq_filename b) \<and> length (pq_filename b) \<le> 255 \<and> 0 < pq_byte_size b \<and>
     pq_capture_moment b \<in> set CAPTURE_MOMENTS \<and> optionally (\<lambda>s. length s \<le> 500) (pq_caption b)"

section \<open>Messages of the exceptions\<close>

text \<open>\<open>f"{n:,}"\<close>\<close>

fun comma_nat :: "nat \<Rightarrow> string" where
  "comma_nat n = (if n < 1000 then nat_str n else comma_nat (n div 1000) @ '','' @ digits_n 3 (n mod 1000))"

declare comma_nat.simps [simp del]

definition comma_int :: "int \<Rightarrow> string" where
  "comma_int i = (if i < 0 then ''-'' else []) @ comma_nat (nat \<bar>i\<bar>)"

fun journal_message :: "journal_error \<Rightarrow> string" where
  "journal_message (JournalTradeNotFoundError t) =
     ''Trade '' @ uuid_str t @ '' not found or not owned by this user.''"
| "journal_message (JournalEntryNotFoundError t) = ''No journal entry found for trade '' @ uuid_str t @ ''.''"
| "journal_message (AttachmentNotFoundError a) =
     ''Attachment '' @ uuid_str a @ '' not found or not owned by this user.''"
| "journal_message (AttachmentExpiredError a) =
     ''Attachment '' @ uuid_str a @ '' upload window has expired. Request a new presign URL.''"
| "journal_message (AttachmentContentTypeNotAllowedError c) =
     ''Content type '' @ repr c @ '' is not permitted. Allowed: image/jpeg, image/png, image/webp, image/gif.''"
| "journal_message (AttachmentSizeLimitExceededError n l) =
     ''File size '' @ comma_int n @ '' bytes exceeds the per-file limit of '' @ comma_int l @ '' bytes.''"
| "journal_message (AttachmentStorageQuotaExceededError s) = ''Attachment storage limit reached for '' @ s @ ''.''"
| "journal_message (AttachmentFilenameExtensionMismatchError f c) =
     ''Filename '' @ repr f @ '' extension does not match declared content type '' @ repr c @ ''.''"

text \<open>The status of each exception, as the routes catch it; None where a route does not.\<close>

fun entry_error_status :: "journal_error \<Rightarrow> nat option" where
  "entry_error_status (JournalEntryNotFoundError _) = Some 404"
| "entry_error_status (JournalTradeNotFoundError _) = Some 404"
| "entry_error_status _ = None"

fun presign_error_status :: "journal_error \<Rightarrow> nat option" where
  "presign_error_status (JournalTradeNotFoundError _) = Some 404"
| "presign_error_status (JournalEntryNotFoundError _) = Some 404"
| "presign_error_status (AttachmentContentTypeNotAllowedError _) = Some 422"
| "presign_error_status (AttachmentSizeLimitExceededError _ _) = Some 422"
| "presign_error_status (AttachmentStorageQuotaExceededError _) = Some 422"
| "presign_error_status (AttachmentFilenameExtensionMismatchError _ _) = Some 422"
| "presign_error_status _ = None"

fun confirm_error_status :: "journal_error \<Rightarrow> nat option" where
  "confirm_error_status (AttachmentNotFoundError _) = Some 404"
| "confirm_error_status (AttachmentExpiredError _) = Some 422"
| "confirm_error_status (AttachmentSizeLimitExceededError _ _) = Some 422"
| "confirm_error_status _ = None"

fun delete_error_status :: "journal_error \<Rightarrow> nat option" where
  "delete_error_status (AttachmentNotFoundError _) = Some 404"
| "delete_error_status _ = None"

definition error_response :: "(journal_error \<Rightarrow> nat option) \<Rightarrow> exn \<Rightarrow> 'a response" where
  "error_response status e =
     (case e of
        Journal je \<Rightarrow> (case status je of Some n \<Rightarrow> HttpError n (journal_message je) | None \<Rightarrow> Unhandled e)
      | _ \<Rightarrow> Unhandled e)"

section \<open>Routes\<close>

text \<open>The transaction: \<open>d\<close> is the database before the request, \<open>d'\<close> what the session holds.\<close>

definition finish :: "(journal_error \<Rightarrow> nat option) \<Rightarrow> 'a outcome \<Rightarrow> db \<Rightarrow> 'a response \<times> db" where
  "finish status outcome d =
     (case outcome of (Inr v, d') \<Rightarrow> (Answer v, d') | (Inl e, d') \<Rightarrow> (error_response status e, d))"

definition get_journal_entry_route ::
  "'o storage_port \<Rightarrow> uuid \<Rightarrow> uuid \<Rightarrow> db \<Rightarrow> journal_entry_view response" where
  "get_journal_entry_route st user_id trade_id d =
     (case journal_get_entry st user_id trade_id d of
        Inr view \<Rightarrow> Answer view
      | Inl e \<Rightarrow> error_response entry_error_status e)"

definition upsert_journal_entry_route ::
  "'o storage_port \<Rightarrow> timestamp \<Rightarrow> uuid \<Rightarrow> uuid \<Rightarrow> journal_entry_write \<Rightarrow> db \<Rightarrow>
   journal_entry_view response \<times> db" where
  "upsert_journal_entry_route st now user_id trade_id body d =
     (case upsert_entry st now user_id trade_id body d of
        Inr (view, d') \<Rightarrow> (Answer view, d')
      | Inl (Journal (JournalTradeNotFoundError t)) \<Rightarrow>
          (HttpError 404 (journal_message (JournalTradeNotFoundError t)), d)
      | Inl e \<Rightarrow> (Unhandled e, d))"

definition get_audit_history_route :: "uuid \<Rightarrow> uuid \<Rightarrow> db \<Rightarrow> audit_entry list response" where
  "get_audit_history_route user_id trade_id d =
     (case get_audit_history user_id trade_id d of
        Inr entries \<Rightarrow> Answer entries
      | Inl (Journal (JournalEntryNotFoundError t)) \<Rightarrow>
          HttpError 404 (journal_message (JournalEntryNotFoundError t))
      | Inl e \<Rightarrow> Unhandled e)"

definition presign_attachment_route ::
  "'o storage_port \<Rightarrow> timestamp \<Rightarrow> uuid \<Rightarrow> uuid \<Rightarrow> presign_request \<Rightarrow> string option \<Rightarrow> db \<Rightarrow>
   presign_result response \<times> db" where
  "presign_attachment_route st now user_id trade_id body ip d =
     finish presign_error_status
       (presign_attachment st now user_id trade_id (pq_filename body) (pq_content_type body)
          (pq_byte_size body) (pq_capture_moment body) (pq_caption body) ip d) d"

definition confirm_attachment_route ::
  "'o storage_port \<Rightarrow> timestamp \<Rightarrow> uuid \<Rightarrow> uuid \<Rightarrow> uuid \<Rightarrow> string option \<Rightarrow> 'o \<Rightarrow> db \<Rightarrow>
   attachment_view response \<times> db \<times> 'o" where
  "confirm_attachment_route st now user_id trade_id attachment_id ip ob d =
     (case confirm_attachment st now user_id attachment_id ip ob d of
        (outcome, ob') \<Rightarrow>
          (case finish confirm_error_status outcome d of (r, d') \<Rightarrow> (r, d', ob')))"

definition delete_attachment_route ::
  "timestamp \<Rightarrow> uuid \<Rightarrow> uuid \<Rightarrow> uuid \<Rightarrow> string option \<Rightarrow> db \<Rightarrow> unit response \<times> db" where
  "delete_attachment_route now user_id trade_id attachment_id ip d =
     finish delete_error_status (delete_attachment now user_id attachment_id ip d) d"

record recent_journal_item =
  rj_id :: uuid
  rj_trade_id :: uuid
  rj_symbol :: string
  rj_instrument_type :: string
  rj_direction :: string
  rj_trade_date :: day
  rj_discipline_score :: "int option"
  rj_emotion_before :: "string option"
  rj_emotion_during :: "string option"
  rj_emotion_after :: "string option"
  rj_created_at :: timestamp

definition list_recent_journal_entries :: "uuid \<Rightarrow> nat \<Rightarrow> db \<Rightarrow> recent_journal_item list" where
  "list_recent_journal_entries user_id limit d =
     (let joined = concat (map (\<lambda>j. concat (map (\<lambda>t. map (\<lambda>i. (j, t, i))
            (filter (\<lambda>i. i_id i = t_instrument_id t) (instruments d)))
            (filter (\<lambda>t. t_id t = j_trade_id j \<and> \<not> t_is_deleted t) (trades d))))
            (filter (\<lambda>j. j_user_id j = user_id) (journal_entries d)))
      in map (\<lambda>(j, t, i). \<lparr>rj_id = j_id j, rj_trade_id = j_trade_id j, rj_symbol = i_symbol i,
            rj_instrument_type = i_instrument_type i, rj_direction = t_direction t,
            rj_trade_date = t_trade_date t, rj_discipline_score = j_discipline_score j,
            rj_emotion_before = j_emotion_before j, rj_emotion_during = j_emotion_during j,
            rj_emotion_after = j_emotion_after j, rj_created_at = j_created_at j\<rparr>)
           (take limit (order_by (\<lambda>(j, _) (k, _). j_created_at k \<le> j_created_at j) joined)))"

end
