(* ===== verification/Journal_Properties.thy ===== *)
theory Journal_Properties
  imports Journal_Api
begin

text \<open>
  The journal as a state machine: what holds of every attachment after any sequence of requests,
  and that an upload that is finished in time can be confirmed and is then shown with its trade.
\<close>

section \<open>What each operation touches\<close>

lemma uuid4_simps [simp]:
  "fst (uuid4 d) = next_uuid d" "snd (uuid4 d) = d\<lparr>next_uuid := Suc (next_uuid d)\<rparr>"
  by (simp_all add: uuid4_def)

lemma audit_log_frame [simp]:
  "journal_attachments (audit_log now e ip u dat d) = journal_attachments d"
  "journal_entries (audit_log now e ip u dat d) = journal_entries d"
  "trades (audit_log now e ip u dat d) = trades d"
  "trade_pnls (audit_log now e ip u dat d) = trade_pnls d"
  "next_uuid (audit_log now e ip u dat d) = Suc (next_uuid d)"
  by (simp_all add: audit_log_def uuid4_def)

lemma log_attachment_event_frame [simp]:
  "journal_attachments (log_attachment_event now e u t ip c b a d) = journal_attachments d"
  "journal_entries (log_attachment_event now e u t ip c b a d) = journal_entries d"
  "trades (log_attachment_event now e u t ip c b a d) = trades d"
  "trade_pnls (log_attachment_event now e u t ip c b a d) = trade_pnls d"
  "next_uuid (log_attachment_event now e u t ip c b a d) = Suc (next_uuid d)"
  by (simp_all add: log_attachment_event_def)

lemma append_audit_entries_frame:
  "journal_attachments (append_audit_entries now j u cs d) = journal_attachments d \<and>
   journal_entries (append_audit_entries now j u cs d) = journal_entries d \<and>
   trades (append_audit_entries now j u cs d) = trades d \<and>
   next_uuid d \<le> next_uuid (append_audit_entries now j u cs d)"
  unfolding append_audit_entries_def
proof (induction cs arbitrary: d)
  case (Cons c cs)
  have "journal_attachments (append_audit_entry now j u c d) = journal_attachments d \<and>
    journal_entries (append_audit_entry now j u c d) = journal_entries d \<and>
    trades (append_audit_entry now j u c d) = trades d \<and>
    next_uuid (append_audit_entry now j u c d) = Suc (next_uuid d)"
    by (simp add: append_audit_entry_def uuid4_def)
  with Cons.IH [of "append_audit_entry now j u c d"] show ?case by simp
qed simp

lemma recalculate_quietly_frame:
  "journal_attachments (recalculate_quietly w t u d) = journal_attachments d \<and>
   journal_entries (recalculate_quietly w t u d) = journal_entries d \<and>
   trades (recalculate_quietly w t u d) = trades d \<and>
   next_uuid (recalculate_quietly w t u d) = next_uuid d"
  by (auto simp: recalculate_quietly_def recalculate_r_multiple_def update_r_multiple_def rbind_eq_Inr
      split: sum.splits option.splits)

lemma store_fields_keys:
  "store_fields f j = Inr j' \<Longrightarrow> j_id j' = j_id j \<and> j_trade_id j' = j_trade_id j \<and>
     j_user_id j' = j_user_id j \<and> j_deleted_at j' = j_deleted_at j"
  by (auto simp: store_fields_def result_simps Let_def)

text \<open>The keys of an entry: what the attachments and the lookups rely on.\<close>

definition entry_key :: "journal_entry_row \<Rightarrow> uuid \<times> uuid \<times> uuid \<times> timestamp option" where
  "entry_key j = (j_id j, j_trade_id j, j_user_id j, j_deleted_at j)"

lemma create_entry_effect:
  assumes "create_entry now t u f d = Inr (row, d')"
  shows "d' = d\<lparr>next_uuid := Suc (next_uuid d), journal_entries := journal_entries d @ [row]\<rparr> \<and>
    entry_key row = (next_uuid d, t, u, None) \<and> t \<notin> j_trade_id ` set (journal_entries d)"
  using assms
  by (auto simp: create_entry_def uuid4_def result_simps append_row_def entry_key_def dest: store_fields_keys)

lemma map_update_by_same:
  "(\<And>x. x \<in> set rs \<Longrightarrow> key x = k \<Longrightarrow> g (f x) = g x) \<Longrightarrow> map g (update_by key k f rs) = map g rs"
  by (induction rs) (auto simp: update_by_def update_where_def)

lemma update_entry_effect:
  assumes "update_entry now e f d = Inr d'" and "distinct (map j_id (journal_entries d))"
  shows "map entry_key (journal_entries d') = map entry_key (journal_entries d) \<and>
    d' = d\<lparr>journal_entries := journal_entries d'\<rparr>"
proof (cases "get_by j_id (journal_entries d) e")
  case None
  with assms show ?thesis by (simp add: update_entry_def)
next
  case (Some j)
  with assms obtain row where row: "store_fields f j = Inr row"
    "d' = d\<lparr>journal_entries := update_by j_id e (\<lambda>_. row\<lparr>j_updated_at := now\<rparr>) (journal_entries d)\<rparr>"
    by (auto simp: update_entry_def result_simps)
  have "entry_key (row\<lparr>j_updated_at := now\<rparr>) = entry_key x"
    if "x \<in> set (journal_entries d)" "j_id x = e" for x
  proof -
    from distinct_get_by [OF assms(2) that(1)] that(2) Some have "x = j" by simp
    with store_fields_keys [OF row(1)] show ?thesis by (simp add: entry_key_def)
  qed
  then have "map entry_key (journal_entries d') = map entry_key (journal_entries d)"
    unfolding row(2) by (simp add: map_update_by_same)
  with row(2) show ?thesis by simp
qed

section \<open>The invariant of the attachments\<close>

definition upload_ok :: "journal_attachment_row \<Rightarrow> bool" where
  "upload_ok a \<longleftrightarrow>
     ja_content_type a \<in> set ALLOWED_CONTENT_TYPES \<and>
     0 < ja_byte_size a \<and> ja_byte_size a \<le> ATTACHMENT_MAX_BYTES \<and>
     length (ja_filename a) \<le> 255 \<and> list_all (\<lambda>c. \<not> path_separator c) (ja_filename a) \<and>
     filename_extension_matches (ja_filename a) (ja_content_type a) \<and>
     ja_capture_moment a \<in> set CAPTURE_MOMENTS \<and>
     ja_s3_key a = build_s3_key (ja_user_id a) (ja_trade_id a) (ja_id a) \<and>
     (ja_status a = ''PENDING'' \<and> ja_confirmed_at a = None \<and> ja_deleted_at a = None \<or>
      ja_status a = ''CONFIRMED'' \<and> ja_confirmed_at a \<noteq> None)"

definition attachment_ok :: "db \<Rightarrow> journal_attachment_row \<Rightarrow> bool" where
  "attachment_ok d a \<longleftrightarrow> upload_ok a \<and> ja_id a < next_uuid d \<and>
     (\<exists>del. (ja_journal_entry_id a, ja_trade_id a, ja_user_id a, del) \<in> entry_key ` set (journal_entries d))"

definition journal_ok :: "db \<Rightarrow> bool" where
  "journal_ok d \<longleftrightarrow>
     distinct (map j_id (journal_entries d)) \<and> distinct (map j_trade_id (journal_entries d)) \<and>
     (\<forall>j\<in>set (journal_entries d). j_id j < next_uuid d) \<and>
     distinct (map ja_id (journal_attachments d)) \<and>
     (\<forall>a\<in>set (journal_attachments d). attachment_ok d a)"

text \<open>How an attachment may change: confirmed once, deleted once, everything else fixed.\<close>

definition evolves :: "journal_attachment_row \<Rightarrow> journal_attachment_row \<Rightarrow> bool" where
  "evolves a b \<longleftrightarrow>
     b = a\<lparr>ja_status := ja_status b, ja_confirmed_at := ja_confirmed_at b, ja_deleted_at := ja_deleted_at b\<rparr> \<and>
     (ja_status a = ''CONFIRMED'' \<longrightarrow> ja_status b = ''CONFIRMED'' \<and> ja_confirmed_at b = ja_confirmed_at a) \<and>
     (ja_deleted_at a \<noteq> None \<longrightarrow> b = a)"

lemma evolves_refl [simp]: "evolves a a"
  by (simp add: evolves_def)

lemma evolves_trans: "evolves a b \<Longrightarrow> evolves b c \<Longrightarrow> evolves a c"
  unfolding evolves_def
  by (cases "ja_deleted_at a = None"; cases a; cases b; cases c) auto

definition all_evolve :: "db \<Rightarrow> db \<Rightarrow> bool" where
  "all_evolve d d' \<longleftrightarrow>
     (\<forall>a\<in>set (journal_attachments d). \<exists>b\<in>set (journal_attachments d'). evolves a b) \<and>
     entry_key ` set (journal_entries d) \<subseteq> entry_key ` set (journal_entries d')"

lemma all_evolve_refl:
  "journal_attachments d' = journal_attachments d \<Longrightarrow>
   entry_key ` set (journal_entries d) \<subseteq> entry_key ` set (journal_entries d') \<Longrightarrow> all_evolve d d'"
  by (auto simp: all_evolve_def intro: evolves_refl)

lemma all_evolve_trans:
  assumes "all_evolve d d'" and "all_evolve d' d''"
  shows "all_evolve d d''"
proof -
  have "\<exists>b\<in>set (journal_attachments d''). evolves a b" if "a \<in> set (journal_attachments d)" for a
    using assms that evolves_trans unfolding all_evolve_def by metis
  moreover have "entry_key ` set (journal_entries d) \<subseteq> entry_key ` set (journal_entries d'')"
    using assms unfolding all_evolve_def by (meson subset_trans)
  ultimately show ?thesis unfolding all_evolve_def by blast
qed

lemma attachment_ok_mono:
  "attachment_ok d a \<Longrightarrow> next_uuid d \<le> next_uuid d' \<Longrightarrow>
   entry_key ` set (journal_entries d) \<subseteq> entry_key ` set (journal_entries d') \<Longrightarrow> attachment_ok d' a"
  unfolding attachment_ok_def by (meson less_le_trans subsetD)

text \<open>The invariant depends on the attachments, the keys of the entries and the counter only.\<close>

lemma journal_ok_cong:
  assumes "journal_ok d" and "journal_attachments d' = journal_attachments d"
    and "map entry_key (journal_entries d') = map entry_key (journal_entries d)"
    and "next_uuid d \<le> next_uuid d'"
  shows "journal_ok d'"
proof -
  have ids: "map j_id js = map fst (map entry_key js)" for js
    by (induction js) (simp_all add: entry_key_def)
  have eq: "map j_id (journal_entries d') = map j_id (journal_entries d)" by (simp only: ids assms(3))
  have trades: "map j_trade_id js = map (fst \<circ> snd) (map entry_key js)" for js
    by (induction js) (simp_all add: entry_key_def)
  have eq_trades: "map j_trade_id (journal_entries d') = map j_trade_id (journal_entries d)"
    by (simp only: trades assms(3))
  have "j_id j < next_uuid d'" if "j \<in> set (journal_entries d')" for j
  proof -
    from that have "j_id j \<in> set (map j_id (journal_entries d'))" by simp
    then obtain k where "k \<in> set (journal_entries d)" "j_id k = j_id j" unfolding eq by auto
    with assms(1,4) show ?thesis unfolding journal_ok_def by (metis less_le_trans)
  qed
  moreover have keys: "entry_key ` set (journal_entries d) = entry_key ` set (journal_entries d')"
    using arg_cong [OF assms(3), of set] by simp
  have "attachment_ok d' a" if "a \<in> set (journal_attachments d')" for a
  proof -
    from that assms(1,2) have "attachment_ok d a" by (simp add: journal_ok_def)
    from attachment_ok_mono [OF this assms(4)] keys show ?thesis by simp
  qed
  ultimately show ?thesis using assms(1,2) eq eq_trades unfolding journal_ok_def by simp
qed

lemma create_entry_ok:
  assumes "journal_ok d" and "create_entry now t u f d = Inr (row, d')"
  shows "journal_ok d' \<and> all_evolve d d' \<and> (j_id row, t, u, None) \<in> entry_key ` set (journal_entries d') \<and>
    journal_attachments d' = journal_attachments d \<and> trades d' = trades d \<and> next_uuid d' = Suc (next_uuid d)"
proof -
  note e = create_entry_effect [OF assms(2)]
  then have k: "entry_key row = (next_uuid d, t, u, None)" "j_id row = next_uuid d" by (auto simp: entry_key_def)
  have row: "j_trade_id row = t" using e by (simp add: entry_key_def)
  have d': "journal_entries d' = journal_entries d @ [row]" "next_uuid d' = Suc (next_uuid d)"
    "journal_attachments d' = journal_attachments d" using e by auto
  have att: "attachment_ok d' a" if "a \<in> set (journal_attachments d')" for a
  proof -
    from that assms(1) d' have "attachment_ok d a" by (simp add: journal_ok_def)
    then show ?thesis by (rule attachment_ok_mono) (auto simp: d')
  qed
  have fresh: "j_id row \<notin> j_id ` set (journal_entries d)" using assms(1) k by (auto simp: journal_ok_def)
  have "j_id j < next_uuid d'" if "j \<in> set (journal_entries d')" for j
    using that assms(1) d' k unfolding journal_ok_def by auto
  with att fresh have "journal_ok d'"
    using assms(1) e unfolding journal_ok_def by (simp add: d' row)
  moreover have "all_evolve d d'" by (rule all_evolve_refl) (auto simp: d')
  ultimately show ?thesis using e k by auto
qed

lemma update_status_ok:
  assumes "journal_ok d" and "ja_id a = i" and "a \<in> set (journal_attachments d)"
    and "d' = d\<lparr>journal_attachments := update_by ja_id i f (journal_attachments d), next_uuid := Suc (next_uuid d),
          security_audit_log := l\<rparr>"
    and "evolves a (f a)" and "attachment_ok d (f a)"
  shows "journal_ok d' \<and> all_evolve d d'"
proof -
  have d: "distinct (map ja_id (journal_attachments d))" using assms(1) by (simp add: journal_ok_def)
  have only: "x = a" if "x \<in> set (journal_attachments d)" "ja_id x = i" for x
    using that assms(2,3) d by (metis distinct_get_by option.inject)
  have id: "ja_id (f a) = i" using assms(2,5) by (cases "f a"; cases a) (auto simp: evolves_def)
  have set': "set (update_by ja_id i f (journal_attachments d)) =
      insert (f a) {x \<in> set (journal_attachments d). ja_id x \<noteq> i}"
    unfolding update_by_def set_update_where using only assms(2,3) by blast
  have "map ja_id (update_by ja_id i f (journal_attachments d)) = map ja_id (journal_attachments d)"
    using only id assms(2) by (intro map_update_by_same) auto
  moreover have "attachment_ok d' x" if "attachment_ok d x" for x
    by (rule attachment_ok_mono [OF that]) (simp_all add: assms(4))
  ultimately have "journal_ok d'"
    using assms(1,6) d unfolding journal_ok_def by (simp add: assms(4) set' less_Suc_eq)
  moreover have "\<exists>b\<in>set (journal_attachments d'). evolves x b" if "x \<in> set (journal_attachments d)" for x
  proof (cases "ja_id x = i")
    case True
    with that only assms(5) have "evolves x (f a)" by simp
    then show ?thesis by (simp add: assms(4) set')
  next
    case False
    with that show ?thesis by (simp add: assms(4) set') (metis evolves_refl)
  qed
  then have "all_evolve d d'" by (simp add: all_evolve_def assms(4))
  ultimately show ?thesis by blast
qed

lemma log_attachment_event_eq:
  "log_attachment_event now e u t ip c b a d =
     d\<lparr>next_uuid := Suc (next_uuid d),
       security_audit_log := security_audit_log (log_attachment_event now e u t ip c b a d)\<rparr>"
  by (simp add: log_attachment_event_def audit_log_def uuid4_def)

section \<open>Every request keeps the invariant\<close>

lemma get_entry_Some:
  "get_entry t u d = Inr (Some j) \<Longrightarrow>
     j \<in> set (journal_entries d) \<and> entry_key j = (j_id j, t, u, None)"
proof -
  assume "get_entry t u d = Inr (Some j)"
  then have "filter (\<lambda>j. j_trade_id j = t \<and> j_user_id j = u \<and> j_deleted_at j = None) (journal_entries d) = [j]"
    by (simp add: get_entry_def scalar_one_or_none_Some)
  then have "j \<in> set (filter (\<lambda>j. j_trade_id j = t \<and> j_user_id j = u \<and> j_deleted_at j = None) (journal_entries d))"
    by simp
  then show ?thesis by (auto simp: entry_key_def)
qed

lemma ensure_entry_ok:
  assumes "journal_ok d" and "ensure_entry now t u d = Inr (j, d')"
  shows "journal_ok d' \<and> (j_id j, t, u, None) \<in> entry_key ` set (journal_entries d') \<and>
    journal_attachments d' = journal_attachments d \<and> trades d' = trades d \<and> all_evolve d d'"
proof (cases "get_entry t u d")
  case (Inl e)
  with assms(2) show ?thesis by (simp add: ensure_entry_def)
next
  case (Inr x)
  show ?thesis
  proof (cases x)
    case None
    with Inr assms(2) have "create_entry now t u no_fields d = Inr (j, d')" by (simp add: ensure_entry_def)
    from create_entry_ok [OF assms(1) this] show ?thesis by simp
  next
    case (Some k)
    with Inr assms(2) have "j = k" "d' = d" by (simp_all add: ensure_entry_def)
    with get_entry_Some [of t u d k] Inr Some assms(1) show ?thesis
      by (metis image_eqI all_evolve_refl order_refl)
  qed
qed

lemma update_and_audit_ok:
  assumes "journal_ok d" and "update_entry now e f d = Inr d1"
    and "d2 = append_audit_entries now j u cs d1"
  shows "journal_ok d2 \<and> all_evolve d d2"
proof -
  have "distinct (map j_id (journal_entries d))" using assms(1) by (simp add: journal_ok_def)
  note e = update_entry_effect [OF assms(2) this]
  then have "journal_attachments d1 = journal_attachments d" "next_uuid d1 = next_uuid d"
    by (cases d1; cases d; simp)+
  with append_audit_entries_frame [of now j u cs d1] e
  have "journal_attachments d2 = journal_attachments d"
    "map entry_key (journal_entries d2) = map entry_key (journal_entries d)" "next_uuid d \<le> next_uuid d2"
    unfolding assms(3) by simp_all
  moreover from this(2) have "entry_key ` set (journal_entries d) = entry_key ` set (journal_entries d2)"
    by (metis list.set_map)
  ultimately show ?thesis using journal_ok_cong [OF assms(1)] by (simp add: all_evolve_refl)
qed

lemma recalculate_quietly_ok:
  "journal_ok d \<Longrightarrow> journal_ok (recalculate_quietly w t u d) \<and> all_evolve d (recalculate_quietly w t u d)"
  using recalculate_quietly_frame [of w t u d] journal_ok_cong [of d "recalculate_quietly w t u d"]
    all_evolve_refl [of "recalculate_quietly w t u d" d] by simp

lemma upsert_entry_ok:
  assumes ok: "journal_ok d" and "upsert_entry st now u t body d = Inr (v, d')"
  shows "journal_ok d' \<and> all_evolve d d'"
proof -
  obtain tr where tr: "journal_trade_snapshot t u d = Some tr"
    using assms(2) by (cases "journal_trade_snapshot t u d") (simp_all add: upsert_entry_def)
  define fs where "fs = fields_of_write body (compute_planned_risk_amount (map_option dec_value (jw_planned_stop body))
                (tj_average_entry tr) (tj_total_entry_quantity tr))"
  obtain existing where ex: "get_entry t u d = Inr existing"
    using assms(2) tr by (cases "get_entry t u d") (simp_all add: upsert_entry_def)
  obtain entry d3 where d': "d' = recalculate_quietly body t u d3" and d3:
    "(case existing of
        None \<Rightarrow> create_entry now t u fs d
      | Some old \<Rightarrow>
          let audit_entries = diff_for_audit old fs (jw_change_reason body)
          in rbind (update_entry now (j_id old) fs d) (\<lambda>d1.
             let d2 = append_audit_entries now (j_id old) u audit_entries d1
             in rbind (get_entry t u d2) (\<lambda>refreshed.
                case refreshed of
                  None \<Rightarrow> Inl (Py AssertionError)
                | Some entry \<Rightarrow> Inr (entry, d2)))) = Inr (entry, d3)"
    using assms(2) tr ex unfolding upsert_entry_def fs_def by (auto simp: rbind_eq_Inr Let_def)
  have "journal_ok d3 \<and> all_evolve d d3"
  proof (cases existing)
    case None
    with d3 create_entry_ok [OF ok] show ?thesis by simp
  next
    case (Some old)
    with d3 obtain d1 where "update_entry now (j_id old) fs d = Inr d1"
      "d3 = append_audit_entries now (j_id old) u (diff_for_audit old fs (jw_change_reason body)) d1"
      by (auto simp: rbind_eq_Inr Let_def split: option.splits)
    from update_and_audit_ok [OF ok this] show ?thesis .
  qed
  with recalculate_quietly_ok [of d3] all_evolve_trans show ?thesis unfolding d' by blast
qed

lemma presign_ok:
  assumes ok: "journal_ok d" and "presign_request_ok body"
    and "presign_attachment st now u t (pq_filename body) (pq_content_type body) (pq_byte_size body)
          (pq_capture_moment body) (pq_caption body) ip d = (Inr r, d')"
  shows "journal_ok d' \<and> all_evolve d d' \<and>
    (\<exists>a. journal_attachments d' = journal_attachments d @ [a] \<and> ja_id a = pr_attachment_id r \<and>
         ja_s3_key a = pr_s3_key r \<and> ja_status a = ''PENDING'' \<and> ja_created_at a = now \<and> ja_user_id a = u \<and>
         ja_trade_id a = t \<and> (ja_journal_entry_id a, t, u, None) \<in> entry_key ` set (journal_entries d'))"
proof -
  let ?f = "sanitize_filename (pq_filename body)"
  have guards: "pq_content_type body \<in> set ALLOWED_CONTENT_TYPES" "0 < pq_byte_size body"
    "pq_byte_size body \<le> ATTACHMENT_MAX_BYTES" "filename_extension_matches ?f (pq_content_type body)"
    using assms(3) unfolding presign_attachment_def rejected_def Let_def by (simp_all split: if_splits)
  obtain j d1 where e: "ensure_entry now t u d = Inr (j, d1)"
    using assms(3) unfolding presign_attachment_def rejected_def Let_def
    by (cases "ensure_entry now t u d") (auto split: if_splits)
  define a where "a = \<lparr>ja_id = next_uuid d1, ja_journal_entry_id = j_id j,
      ja_user_id = u, ja_trade_id = t, ja_s3_key = build_s3_key u t (next_uuid d1),
      ja_filename = ?f, ja_content_type = pq_content_type body,
      ja_byte_size = pq_byte_size body, ja_capture_moment = pq_capture_moment body,
      ja_caption = pq_caption body, ja_status = ''PENDING'', ja_confirmed_at = None,
      ja_deleted_at = None, ja_created_at = now\<rparr>"
  have rd: "pr_attachment_id r = next_uuid d1" "pr_s3_key r = build_s3_key u t (next_uuid d1)"
    "d' = log_attachment_event now ''ATTACHMENT_PRESIGN_REQUESTED'' u t ip (pq_content_type body)
        (pq_byte_size body) (Some (next_uuid d1)) (create_attachment a (snd (uuid4 d1)))"
    using assms(3) e unfolding presign_attachment_def rejected_def Let_def a_def
    by (auto simp: uuid4_def split: if_splits)
  note o = ensure_entry_ok [OF ok e]
  have att: "journal_attachments d' = journal_attachments d @ [a]" and ent: "journal_entries d' = journal_entries d1"
    and next': "next_uuid d' = Suc (Suc (next_uuid d1))"
    using o unfolding rd(3) by (simp_all add: create_attachment_def append_row_def)
  have "upload_ok a"
    using guards assms(2) sanitize_filename_length [of "pq_filename body"]
      sanitize_filename_no_separator [of _ "pq_filename body"]
    by (auto simp: upload_ok_def a_def presign_request_ok_def list_all_iff)
  moreover have key: "(ja_journal_entry_id a, t, u, None) \<in> entry_key ` set (journal_entries d')"
    using o ent by (simp add: a_def)
  ultimately have aok: "attachment_ok d' a"
    unfolding attachment_ok_def using next' by (auto simp: a_def)
  have old: "attachment_ok d' x" if "x \<in> set (journal_attachments d)" for x
    using o that ent next' attachment_ok_mono [of d1 x d'] unfolding journal_ok_def by simp
  have fresh: "ja_id a \<notin> ja_id ` set (journal_attachments d)"
    using o by (auto simp: a_def journal_ok_def attachment_ok_def)
  have "journal_ok d'"
    using o aok old fresh next' unfolding journal_ok_def by (auto simp: att ent less_Suc_eq)
  moreover have "all_evolve d1 d'" using o unfolding all_evolve_def att ent by (auto intro: evolves_refl)
  then have "all_evolve d d'" using o all_evolve_trans by blast
  ultimately show ?thesis using att key rd by (auto simp: a_def)
qed

lemma confirm_ok:
  assumes ok: "journal_ok d" and "confirm_attachment st now u i ip ob d = ((Inr v, d'), ob')"
  shows "journal_ok d' \<and> all_evolve d d' \<and> ob' = ob \<and>
    (\<exists>a\<in>set (journal_attachments d). ja_id a = i \<and> ja_user_id a = u \<and> ja_status a = ''PENDING'' \<and>
       a\<lparr>ja_status := ''CONFIRMED'', ja_confirmed_at := Some now\<rparr> \<in> set (journal_attachments d')) \<and>
    av_id v = i \<and> av_status v = ''CONFIRMED''"
proof -
  obtain a where a: "get_pending_attachment i u d = Some a"
    using assms(2) by (cases "get_pending_attachment i u d") (simp_all add: confirm_attachment_def)
  then have mem: "a \<in> set (journal_attachments d)" "ja_id a = i" "ja_user_id a = u" "ja_status a = ''PENDING''"
    using get_by_Some unfolding get_pending_attachment_def by fastforce+
  let ?f = "\<lambda>a. a\<lparr>ja_status := ''CONFIRMED'', ja_confirmed_at := Some now\<rparr>"
  have d': "d' = log_attachment_event now ''ATTACHMENT_CONFIRMED'' u (ja_trade_id a) ip (ja_content_type a)
        (ja_byte_size a) (Some i) (update_attachment_status i ''CONFIRMED'' (Some now) d)" and
    out: "ob' = ob" "av_id v = ja_id a" "av_status v = ''CONFIRMED''"
    using assms(2) a unfolding confirm_attachment_def Let_def by (auto split: if_splits option.splits)
  have old: "attachment_ok d a" using ok mem(1) by (simp add: journal_ok_def)
  have "journal_ok d' \<and> all_evolve d d'"
  proof (rule update_status_ok [OF ok mem(2,1)])
    show "d' = d\<lparr>journal_attachments := update_by ja_id i ?f (journal_attachments d),
        next_uuid := Suc (next_uuid d), security_audit_log := security_audit_log d'\<rparr>"
      unfolding d' by (subst log_attachment_event_eq) (simp add: update_attachment_status_def)
    show "evolves a (?f a)" using old mem(4) by (auto simp: evolves_def attachment_ok_def upload_ok_def)
    show "attachment_ok d (?f a)" using old by (auto simp: attachment_ok_def upload_ok_def)
  qed
  moreover have "?f a \<in> set (journal_attachments d')"
    using mem by (auto simp: d' update_attachment_status_def in_update_by intro!: bexI [of _ a])
  ultimately show ?thesis using mem out by blast
qed

lemma delete_ok:
  assumes ok: "journal_ok d" and "delete_attachment now u i ip d = (Inr v, d')"
  shows "journal_ok d' \<and> all_evolve d d'"
proof -
  obtain a where a: "get_confirmed_attachment i u d = Some a"
    using assms(2) by (cases "get_confirmed_attachment i u d") (simp_all add: delete_attachment_def)
  then have mem: "a \<in> set (journal_attachments d)" "ja_id a = i" "is_stored a"
    using get_by_Some unfolding get_confirmed_attachment_def by fastforce+
  let ?f = "\<lambda>a. a\<lparr>ja_deleted_at := Some now\<rparr>"
  have d': "d' = log_attachment_event now ''ATTACHMENT_DELETED'' u (ja_trade_id a) ip (ja_content_type a)
        (ja_byte_size a) (Some i) (soft_delete_attachment now i d)"
    using assms(2) a unfolding delete_attachment_def by simp
  have old: "attachment_ok d a" using ok mem(1) by (simp add: journal_ok_def)
  show ?thesis
  proof (rule update_status_ok [OF ok mem(2,1)])
    show "d' = d\<lparr>journal_attachments := update_by ja_id i ?f (journal_attachments d),
        next_uuid := Suc (next_uuid d), security_audit_log := security_audit_log d'\<rparr>"
      unfolding d' by (subst log_attachment_event_eq) (simp add: soft_delete_attachment_def)
    show "evolves a (?f a)" using mem(3) by (auto simp: evolves_def is_stored_def)
    show "attachment_ok d (?f a)" using old mem(3) by (auto simp: attachment_ok_def upload_ok_def is_stored_def)
  qed
qed

section \<open>Requests as steps\<close>

text \<open>
  The database and the object store; an upload, an overwrite or a loss in the store happens
  outside the program, at any time.
\<close>

inductive journal_step :: "'o storage_port \<Rightarrow> db \<times> 'o \<Rightarrow> db \<times> 'o \<Rightarrow> bool" for st where
  Upsert: "journal_entry_request_ok body \<Longrightarrow> upsert_journal_entry_route st now u t body d = (r, d') \<Longrightarrow>
    journal_step st (d, ob) (d', ob)"
| Presign: "presign_request_ok body \<Longrightarrow> presign_attachment_route st now u t body ip d = (r, d') \<Longrightarrow>
    journal_step st (d, ob) (d', ob)"
| Confirm: "confirm_attachment_route st now u t i ip ob d = (r, d', ob') \<Longrightarrow>
    journal_step st (d, ob) (d', ob')"
| Delete: "delete_attachment_route now u t i ip d = (r, d') \<Longrightarrow> journal_step st (d, ob) (d', ob)"
| Upload: "journal_step st (d, ob) (d, ob')"

inductive_cases journal_stepE: "journal_step st s s'"

lemma finish_cases:
  assumes "finish status outcome d = (r, d')"
  obtains v where "outcome = (Inr v, d')" "r = Answer v" | e where "fst outcome = Inl e" "d' = d" "r = error_response status e"
  using assms by (auto simp: finish_def split: prod.splits sum.splits)

lemma journal_step_ok:
  "journal_step st s s' \<Longrightarrow> journal_ok (fst s) \<Longrightarrow> journal_ok (fst s') \<and> all_evolve (fst s) (fst s')"
proof (induction rule: journal_step.induct)
  case (Upsert body now u t d r d' ob)
  then show ?case
    using upsert_entry_ok [of d st now u t body] all_evolve_refl [of d d]
    by (auto simp: upsert_journal_entry_route_def split: sum.splits exn.splits journal_error.splits)
next
  case (Presign body now u t ip d r d' ob)
  from Presign(2) [unfolded presign_attachment_route_def] show ?case
    by (rule finish_cases)
      (use presign_ok [OF _ Presign(1), of d st now u t ip] Presign(3) all_evolve_refl [of d d] in simp_all)
next
  case (Confirm now u t i ip ob d r d' ob')
  obtain out o' where out: "confirm_attachment st now u i ip ob d = (out, o')" by fastforce
  with Confirm(1) have "finish confirm_error_status out d = (r, d')"
    by (simp add: confirm_attachment_route_def split: prod.splits)
  then show ?case
    by (rule finish_cases)
      (use out confirm_ok [of d st now u i ip ob _ d' o'] Confirm(2) all_evolve_refl [of d d] in simp_all)
next
  case (Delete now u t i ip d r d' ob)
  from Delete(1) [unfolded delete_attachment_route_def] show ?case
    by (rule finish_cases)
      (use delete_ok [of d now u i ip _ d'] Delete(2) all_evolve_refl [of d d] in simp_all)
qed (simp add: all_evolve_refl)

lemma journal_steps_ok:
  "(journal_step st)\<^sup>*\<^sup>* s s' \<Longrightarrow> journal_ok (fst s) \<Longrightarrow> journal_ok (fst s') \<and> all_evolve (fst s) (fst s')"
proof (induction rule: rtranclp_induct)
  case (step y z)
  with journal_step_ok [of st y z] all_evolve_trans show ?case by blast
qed (simp add: all_evolve_refl)

text \<open>
  C26: from any state in which the attachments are well formed, after any sequence of journal
  requests and uploads every attachment is still well formed: an allowed image type, between one
  byte and the size limit as declared, a name without path separators whose extension fits the
  type, the object key of its own user, trade and id, attached to an entry of the same user and
  trade, and PENDING or CONFIRMED with the confirmation time present exactly when confirmed. No
  attachment disappears, none goes back from CONFIRMED, and a deleted one never changes.
\<close>

theorem journal_attachments_stay_well_formed:
  assumes "(journal_step st)\<^sup>*\<^sup>* (d, ob) (d', ob')" and "journal_ok d"
  shows "journal_ok d' \<and> all_evolve d d'"
  using journal_steps_ok [OF assms(1)] assms(2) by simp

lemma get_pending_attachmentI:
  assumes "journal_ok d" and "a \<in> set (journal_attachments d)" and "ja_id a = i" and "ja_user_id a = u"
    and "ja_status a = ''PENDING''"
  shows "get_pending_attachment i u d = Some a"
proof -
  let ?P = "\<lambda>a. ja_user_id a = u \<and> ja_status a = ''PENDING''"
  have "distinct (map ja_id (filter ?P (journal_attachments d)))"
    using assms(1) by (simp add: journal_ok_def distinct_map_filter)
  from distinct_get_by [OF this, of a] assms(2-5) show ?thesis by (simp add: get_pending_attachment_def)
qed

lemma filter_unique_key:
  "distinct (map key rs) \<Longrightarrow> r \<in> set rs \<Longrightarrow> P r \<Longrightarrow> (\<And>x. P x \<Longrightarrow> key x = key r) \<Longrightarrow> filter P rs = [r]"
proof -
  assume d: "distinct (map key rs)" and r: "r \<in> set rs" "P r" and k: "\<And>x. P x \<Longrightarrow> key x = key r"
  have same: "x = r" if "x \<in> set rs" "P x" for x
  proof -
    from d have "inj_on key (set rs)" by (simp add: distinct_map)
    from inj_onD [OF this k [OF that(2)] that(1) r(1)] show ?thesis .
  qed
  have set_eq: "set (filter P rs) = {r}"
  proof
    show "set (filter P rs) \<subseteq> {r}" by (intro subsetI) (simp add: same)
    show "{r} \<subseteq> set (filter P rs)" using r by simp
  qed
  have "distinct (filter P rs)" using d by (simp add: distinct_map)
  from distinct_card [OF this] set_eq have "length (filter P rs) = 1" by simp
  then obtain y where "filter P rs = [y]" by (metis One_nat_def length_0_conv length_Suc_conv)
  with set_eq show ?thesis by simp
qed

lemma get_entryI:
  assumes "journal_ok d" and "(e, t, u, None) \<in> entry_key ` set (journal_entries d)"
  shows "\<exists>j. get_entry t u d = Inr (Some j) \<and> j_id j = e"
proof -
  obtain j where j: "j \<in> set (journal_entries d)" "j_id j = e" "j_trade_id j = t" "j_user_id j = u" "j_deleted_at j = None"
    using assms(2) by (auto simp: entry_key_def)
  have "filter (\<lambda>j. j_trade_id j = t \<and> j_user_id j = u \<and> j_deleted_at j = None) (journal_entries d) = [j]"
    by (rule filter_unique_key [of j_trade_id]) (use assms(1) j in \<open>auto simp: journal_ok_def\<close>)
  with j(2) show ?thesis by (simp add: get_entry_def)
qed

lemma shown_in_entry:
  assumes "journal_ok d" and "(ja_journal_entry_id a, t, u, None) \<in> entry_key ` set (journal_entries d)"
    and "a \<in> set (journal_attachments d)" and "is_stored a"
  shows "\<exists>w. get_journal_entry_route st u t d = Answer w \<and> build_attachment_view st a \<in> set (jv_attachments w)"
proof -
  obtain j where j: "get_entry t u d = Inr (Some j)" "j_id j = ja_journal_entry_id a"
    using get_entryI [OF assms(1,2)] by auto
  have "a \<in> set (list_confirmed_attachments (j_id j) d)"
    using assms(3,4) j(2) by (simp add: list_confirmed_attachments_def)
  with j(1) show ?thesis
    by (auto simp: get_journal_entry_route_def journal_get_entry_def entry_view_def build_entry_view_def)
qed

lemma confirm_answers:
  assumes ok: "journal_ok d" and a: "a \<in> set (journal_attachments d)" "ja_status a = ''PENDING''"
    and key: "(ja_journal_entry_id a, ja_trade_id a, ja_user_id a, None) \<in> entry_key ` set (journal_entries d)"
    and "st_head_object st ob (ja_s3_key a) = Some n" and "n \<le> ATTACHMENT_MAX_BYTES"
    and "now \<le> ja_created_at a + PENDING_EXPIRY_MINUTES * 60 * 1000000"
  shows "\<exists>v d'. confirm_attachment_route st now (ja_user_id a) t' (ja_id a) ip ob d = (Answer v, d', ob) \<and>
    av_status v = ''CONFIRMED'' \<and>
    (\<exists>w. get_journal_entry_route st (ja_user_id a) (ja_trade_id a) d' = Answer w \<and> v \<in> set (jv_attachments w))"
proof -
  have p: "get_pending_attachment (ja_id a) (ja_user_id a) d = Some a"
    by (rule get_pending_attachmentI [OF ok a(1) refl refl a(2)])
  let ?b = "a\<lparr>ja_status := ''CONFIRMED'', ja_confirmed_at := Some now\<rparr>"
  have run: "\<exists>d'. confirm_attachment st now (ja_user_id a) (ja_id a) ip ob d = ((Inr (build_attachment_view st ?b), d'), ob)"
    using p assms(5-7) by (simp add: confirm_attachment_def Let_def build_attachment_view_def)
  then obtain d' where c: "confirm_attachment st now (ja_user_id a) (ja_id a) ip ob d = ((Inr (build_attachment_view st ?b), d'), ob)"
    by blast
  note k = confirm_ok [OF ok c]
  have "?b \<in> set (journal_attachments d')"
  proof -
    obtain x where x: "x \<in> set (journal_attachments d)" "ja_id x = ja_id a"
      "x\<lparr>ja_status := ''CONFIRMED'', ja_confirmed_at := Some now\<rparr> \<in> set (journal_attachments d')"
      using k by blast
    moreover have "x = a"
      using ok x a(1) unfolding journal_ok_def by (metis distinct_get_by option.inject)
    ultimately show ?thesis by simp
  qed
  moreover have "is_stored ?b"
    using ok a by (auto simp: is_stored_def journal_ok_def attachment_ok_def upload_ok_def)
  moreover have "(ja_journal_entry_id ?b, ja_trade_id a, ja_user_id a, None) \<in> entry_key ` set (journal_entries d')"
    using k key unfolding all_evolve_def by auto
  ultimately obtain w where "get_journal_entry_route st (ja_user_id a) (ja_trade_id a) d' = Answer w"
    "build_attachment_view st ?b \<in> set (jv_attachments w)"
    using shown_in_entry k by blast
  moreover have "confirm_attachment_route st now (ja_user_id a) t' (ja_id a) ip ob d =
      (Answer (build_attachment_view st ?b), d', ob)"
    using c by (simp add: confirm_attachment_route_def finish_def)
  ultimately show ?thesis by (intro exI conjI) (assumption | simp add: build_attachment_view_def)+
qed

text \<open>A confirm request that finds no object is refused and leaves the database as it was.\<close>

lemma confirm_without_object:
  assumes "journal_ok d" and "b \<in> set (journal_attachments d)" and "ja_id b = i" and "ja_s3_key b = key"
    and "st_head_object st ob key = None"
  shows "\<exists>code detail. confirm_attachment_route st now u t i ip ob d = (HttpError code detail, d, ob)"
proof (cases "get_pending_attachment i u d")
  case None
  then show ?thesis
    by (simp add: confirm_attachment_def confirm_attachment_route_def finish_def error_response_def)
next
  case (Some a)
  then have "a \<in> set (journal_attachments d)" "ja_id a = i"
    unfolding get_pending_attachment_def by (auto dest: get_by_Some)
  then have "a = b" using assms(1-3) by (auto simp: journal_ok_def distinct_map inj_on_def)
  with Some assms(4,5) show ?thesis
    by (simp add: confirm_attachment_def confirm_attachment_route_def finish_def error_response_def)
qed

text \<open>
  C27: an upload can be finished. After a presign request was answered, and whatever requests were
  served in between, the attachment is either confirmed already, or a confirm request of the same
  user that arrives within thirty minutes and finds an object of an admissible size under the
  key is answered with the status CONFIRMED, and the entry of the trade then shows the attachment.
  Among the requests in between may be confirm requests that came before the object was there: they
  are answered with an error and, their transaction being rolled back, leave no trace. The documents
  (Rule 5.4 of JOURNAL-DOMAIN-RULES, the confirm endpoint of JOURNAL-API-SPEC) mean such a request to
  make the attachment REJECTED for good; the last part states where the code departs from them.
\<close>

theorem presigned_upload_can_be_confirmed:
  assumes "journal_ok d" and "presign_request_ok body"
    and "presign_attachment_route st t0 u t body ip d = (Answer r, d1)"
    and "(journal_step st)\<^sup>*\<^sup>* (d1, ob1) (d2, ob)"
    and "st_head_object st ob (pr_s3_key r) = Some n" and "n \<le> ATTACHMENT_MAX_BYTES"
    and "now \<le> t0 + 30 * 60 * 1000000"
  shows "((\<exists>a\<in>set (journal_attachments d2). ja_id a = pr_attachment_id r \<and> ja_status a = ''CONFIRMED'') \<or>
    (\<exists>v d3. confirm_attachment_route st now u t (pr_attachment_id r) ip' ob d2 = (Answer v, d3, ob) \<and>
      av_status v = ''CONFIRMED'' \<and>
      (\<exists>w. get_journal_entry_route st u t d3 = Answer w \<and> v \<in> set (jv_attachments w)))) \<and>
    (st_head_object st ob' (pr_s3_key r) = None \<longrightarrow>
      (\<exists>code detail. confirm_attachment_route st now' u t (pr_attachment_id r) ip' ob' d2 =
        (HttpError code detail, d2, ob')))"
proof -
  from assms(3) have "presign_attachment st t0 u t (pq_filename body) (pq_content_type body) (pq_byte_size body)
      (pq_capture_moment body) (pq_caption body) ip d = (Inr r, d1)"
    unfolding presign_attachment_route_def by (rule finish_cases) (simp_all add: error_response_def split: exn.splits option.splits)
  note pre = presign_ok [OF assms(1,2) this]
  then have ok1: "journal_ok d1" by blast
  from pre obtain a where "journal_attachments d1 = journal_attachments d @ [a]"
    "ja_id a = pr_attachment_id r \<and> ja_s3_key a = pr_s3_key r \<and> ja_created_at a = t0 \<and> ja_user_id a = u \<and>
     ja_trade_id a = t \<and> (ja_journal_entry_id a, t, u, None) \<in> entry_key ` set (journal_entries d1)" by blast
  then have a: "a \<in> set (journal_attachments d1)" "ja_id a = pr_attachment_id r" "ja_s3_key a = pr_s3_key r"
      "ja_created_at a = t0" "ja_user_id a = u" "ja_trade_id a = t"
      "(ja_journal_entry_id a, t, u, None) \<in> entry_key ` set (journal_entries d1)" by simp_all
  from journal_steps_ok [OF assms(4)] ok1 have ok2: "journal_ok d2" and ev: "all_evolve d1 d2" by simp_all
  then obtain b where b: "b \<in> set (journal_attachments d2)" "evolves a b"
    using a(1) unfolding all_evolve_def by blast
  from b(2) have same: "ja_id b = ja_id a" "ja_s3_key b = ja_s3_key a" "ja_created_at b = ja_created_at a"
    "ja_user_id b = ja_user_id a" "ja_trade_id b = ja_trade_id a" "ja_journal_entry_id b = ja_journal_entry_id a"
    by (cases a; cases b; simp add: evolves_def)+
  have key: "(ja_journal_entry_id b, t, u, None) \<in> entry_key ` set (journal_entries d2)"
    using ev a(7) same unfolding all_evolve_def by auto
  have early: "\<exists>code detail. confirm_attachment_route st now' u t (pr_attachment_id r) ip' ob' d2 =
      (HttpError code detail, d2, ob')" if "st_head_object st ob' (pr_s3_key r) = None"
    by (rule confirm_without_object [OF ok2 b(1)]) (use same a(2,3) that in simp_all)
  from ok2 b(1) have "ja_status b = ''PENDING'' \<or> ja_status b = ''CONFIRMED''"
    by (auto simp: journal_ok_def attachment_ok_def upload_ok_def)
  then have "(\<exists>a\<in>set (journal_attachments d2). ja_id a = pr_attachment_id r \<and> ja_status a = ''CONFIRMED'') \<or>
    (\<exists>v d3. confirm_attachment_route st now u t (pr_attachment_id r) ip' ob d2 = (Answer v, d3, ob) \<and>
      av_status v = ''CONFIRMED'' \<and>
      (\<exists>w. get_journal_entry_route st u t d3 = Answer w \<and> v \<in> set (jv_attachments w)))"
  proof
    assume "ja_status b = ''PENDING''"
    from confirm_answers [OF ok2 b(1) this, of st ob n now t ip'] key assms(5-7) a same show ?thesis
      by (simp add: PENDING_EXPIRY_MINUTES_def)
  next
    assume "ja_status b = ''CONFIRMED''"
    with b(1) a(2) same(1) have "\<exists>a\<in>set (journal_attachments d2). ja_id a = pr_attachment_id r \<and> ja_status a = ''CONFIRMED''"
      by (intro bexI [of _ b] conjI) simp_all
    then show ?thesis by (rule disjI1)
  qed
  with early show ?thesis by blast
qed

section \<open>Concrete runs\<close>

text \<open>An object store that knows the size of each object, an open trade and an upload to it.\<close>

definition mem_store :: "(string \<Rightarrow> int option) storage_port" where
  "mem_store = \<lparr>
     st_presign_put = (\<lambda>key content_type byte_size ttl. key),
     st_presign_get = (\<lambda>key filename content_type ttl. key),
     st_head_object = (\<lambda>ob key. ob key),
     st_delete_object = (\<lambda>ob key. ob(key := None))\<rparr>"
definition sample_journal_db :: db where
  "sample_journal_db = \<lparr>
     instruments = [],
     trades = [\<lparr>t_id = 50, t_user_id = 7, t_account_id = Some 8, t_instrument_id = 9,
       t_trade_type = ''MIS'', t_direction = ''LONG'', t_status = ''OPEN'', t_trade_date = 19800,
       t_first_fill_at = 10, t_last_fill_at = None, t_total_entry_quantity = 100,
       t_total_exit_quantity = 0, t_net_position = 100, t_average_entry = Some 1000,
       t_average_exit = None, t_planned_stop = None, t_planned_target = None,
       t_planned_risk_amount = None, t_is_deleted = False, t_setup_name = None\<rparr>],
     execution_fills = [], tax_lots = [], fill_exclusions = [],
     trading_accounts = [], journal_entries = [], charge_schedules = [], trade_pnls = [],
     import_records = [], journal_attachments = [], journal_audit_log = [], security_audit_log = [],
     next_uuid = 1000\<rparr>"
definition sample_upload :: presign_request where
  "sample_upload = \<lparr>pq_filename = ''entry.png'', pq_content_type = ''image/png'', pq_byte_size = 1000,
     pq_capture_moment = ''AT_ENTRY'', pq_caption = None\<rparr>"

lemma sample_journal_ok: "journal_ok sample_journal_db"
  by (simp add: journal_ok_def sample_journal_db_def)

lemma sample_upload_ok: "presign_request_ok sample_upload"
  by code_simp

lemma sample_presign:
  "case presign_attachment_route mem_store 0 7 50 sample_upload None sample_journal_db of
     (Answer r, d1) \<Rightarrow> pr_attachment_id r = 1001 \<and>
       map (\<lambda>a. (ja_id a, ja_status a, ja_s3_key a = pr_s3_key r)) (journal_attachments d1) = [(1001, ''PENDING'', True)]
   | _ \<Rightarrow> False"
  by code_simp

lemma sample_presignE:
  obtains r d1 where "presign_attachment_route mem_store 0 7 50 sample_upload None sample_journal_db = (Answer r, d1)"
    "pr_attachment_id r = 1001" "map (\<lambda>a. (ja_id a, ja_status a)) (journal_attachments d1) = [(1001, ''PENDING'')]"
proof (cases "presign_attachment_route mem_store 0 7 50 sample_upload None sample_journal_db")
  case (Pair x d1)
  show ?thesis
  proof (cases x)
    case (Answer r)
    have 1: "pr_attachment_id r = 1001" and
      2: "map (\<lambda>a. (ja_id a, ja_status a, ja_s3_key a = pr_s3_key r)) (journal_attachments d1) = [(1001, ''PENDING'', True)]"
      using sample_presign unfolding Pair Answer by simp_all
    from 2 have 3: "map (\<lambda>a. (ja_id a, ja_status a)) (journal_attachments d1) = [(1001, ''PENDING'')]"
      by (auto simp: map_eq_Cons_conv)
    show ?thesis by (rule that [OF _ 1 3]) (simp add: Pair Answer)
  qed (use sample_presign Pair in simp_all)
qed

theorem journal_attachments_stay_well_formed_witness:
  "\<exists>d1. (journal_step mem_store)\<^sup>*\<^sup>* (sample_journal_db, \<lambda>_. None) (d1, \<lambda>_. None) \<and>
     map (\<lambda>a. (ja_id a, ja_status a)) (journal_attachments d1) = [(1001, ''PENDING'')] \<and> journal_ok d1"
proof -
  obtain r d1 where p: "presign_attachment_route mem_store 0 7 50 sample_upload None sample_journal_db = (Answer r, d1)"
    "map (\<lambda>a. (ja_id a, ja_status a)) (journal_attachments d1) = [(1001, ''PENDING'')]"
    by (rule sample_presignE)
  have s: "(journal_step mem_store)\<^sup>*\<^sup>* (sample_journal_db, \<lambda>_. None) (d1, \<lambda>_. None)"
    by (rule r_into_rtranclp, rule journal_step.Presign [OF sample_upload_ok p(1)])
  from journal_attachments_stay_well_formed [OF s sample_journal_ok] have "journal_ok d1" by (rule conjunct1)
  with s p(2) show ?thesis by (intro exI [of _ d1] conjI)
qed

theorem presigned_upload_can_be_confirmed_witness:
  "\<exists>r d1 v d2. presign_attachment_route mem_store 0 7 50 sample_upload None sample_journal_db = (Answer r, d1) \<and>
     snd (confirm_attachment_route mem_store 30000000 7 50 (pr_attachment_id r) None (\<lambda>_. None) d1) = (d1, \<lambda>_. None) \<and>
     confirm_attachment_route mem_store 60000000 7 50 (pr_attachment_id r) None (\<lambda>_. Some 1000) d1 =
       (Answer v, d2, \<lambda>_. Some 1000) \<and> av_status v = ''CONFIRMED''"
proof -
  obtain r d1 where p: "presign_attachment_route mem_store 0 7 50 sample_upload None sample_journal_db = (Answer r, d1)"
    "pr_attachment_id r = 1001" "map (\<lambda>a. (ja_id a, ja_status a)) (journal_attachments d1) = [(1001, ''PENDING'')]"
    by (rule sample_presignE)
  have up: "(journal_step mem_store)\<^sup>*\<^sup>* (d1, \<lambda>_. None) (d1, \<lambda>_. Some 1000)"
    by (rule r_into_rtranclp, rule journal_step.Upload)
  have no: "\<not> (\<exists>a\<in>set (journal_attachments d1). ja_id a = pr_attachment_id r \<and> ja_status a = ''CONFIRMED'')"
    using p(3) by (auto simp: map_eq_Cons_conv)
  have "st_head_object mem_store (\<lambda>_. Some 1000) (pr_s3_key r) = Some 1000" by (simp add: mem_store_def)
  note both = presigned_upload_can_be_confirmed [OF sample_journal_ok sample_upload_ok p(1) up this,
    of 60000000 None "\<lambda>_. None" 30000000]
  have "st_head_object mem_store (\<lambda>_. None) (pr_s3_key r) = None" by (simp add: mem_store_def)
  with both have "snd (confirm_attachment_route mem_store 30000000 7 50 (pr_attachment_id r) None (\<lambda>_. None) d1) =
      (d1, \<lambda>_. None)" by (auto simp: ATTACHMENT_MAX_BYTES_def)
  moreover from both obtain v d2 where "confirm_attachment_route mem_store 60000000 7 50 (pr_attachment_id r) None (\<lambda>_. Some 1000) d1 =
       (Answer v, d2, \<lambda>_. Some 1000)" "av_status v = ''CONFIRMED''"
    using no by (auto simp: ATTACHMENT_MAX_BYTES_def)
  ultimately show ?thesis using p(1) by blast
qed

section \<open>What the transactions lose\<close>

text \<open>
  The route does not commit when the service raises: the statuses EXPIRED and REJECTED and the
  audit events of refused uploads that the service writes are rolled back.
\<close>

theorem expired_status_is_rolled_back:
  assumes "get_pending_attachment i u d = Some a"
    and "ja_created_at a < now - PENDING_EXPIRY_MINUTES * 60 * 1000000"
  shows "map ja_status (journal_attachments (snd (fst (confirm_attachment st now u i ip ob d)))) =
      map ja_status (journal_attachments (update_attachment_status i ''EXPIRED'' None d)) \<and>
    confirm_attachment_route st now u t i ip ob d =
      (HttpError 422 (journal_message (AttachmentExpiredError i)), d, ob)"
  using assms by (simp add: confirm_attachment_def confirm_attachment_route_def finish_def error_response_def)

theorem refused_type_is_not_audited:
  assumes "pq_content_type body \<notin> set ALLOWED_CONTENT_TYPES"
  shows "presign_attachment_route st now u t body ip d =
    (HttpError 422 (journal_message (AttachmentContentTypeNotAllowedError (pq_content_type body))), d)"
  using assms by (simp add: presign_attachment_route_def presign_attachment_def rejected_def finish_def error_response_def)

text \<open>The size that the quotas count is the declared one; the size of the object is not compared with it.\<close>

theorem declared_size_is_trusted:
  "case presign_attachment_route mem_store 0 7 50 sample_upload None sample_journal_db of
     (Answer r, d1) \<Rightarrow>
       (case confirm_attachment_route mem_store 60000000 7 50 (pr_attachment_id r) None
               (\<lambda>_. Some 15000000) d1 of
          (Answer v, d2, ob) \<Rightarrow> sum_confirmed_bytes_for_trade 50 7 d2 = 1000
        | _ \<Rightarrow> False)
   | _ \<Rightarrow> False"
  by code_simp

end
