(* ===== verification/Broker_Adapter.thy ===== *)
theory Broker_Adapter
  imports Fill_Store
begin

text \<open>
  \<open>infrastructure/adapters/broker_adapter_port.py\<close> and the result type of
  \<open>domain/import_domain/types.py\<close>: the interface between the import service and an adapter, as a
  locale whose assumptions are the documented promises of the port and of \<open>NormalizedFill\<close>.
\<close>

section \<open>AdapterParseResult\<close>

record adapter_parse_result =
  ap_fills :: "normalized_fill list"
  ap_errors :: "import_error list"

definition total_rows :: "adapter_parse_result \<Rightarrow> nat" where
  "total_rows r = length (ap_fills r) + length (ap_errors r)"

section \<open>BrokerAdapterPort\<close>

record broker_adapter_port =
  ba_detect :: "string \<Rightarrow> bool"
  ba_parse :: "string \<Rightarrow> string option \<Rightarrow> exn + adapter_parse_result"

fun is_invalid_fill :: "import_error \<Rightarrow> bool" where
  "is_invalid_fill (InvalidFillError row_index field_name raw_value message) = True"
| "is_invalid_fill _ = False"

text \<open>What the comments of \<open>NormalizedFill\<close> say of each field.\<close>

definition contract_ok :: "string \<Rightarrow> day option \<Rightarrow> rat option \<Rightarrow> bool" where
  "contract_ok instrument_type expiry_date strike_price \<longleftrightarrow>
     instrument_type = ''EQ'' \<and> expiry_date = None \<and> strike_price = None \<or>
     instrument_type = ''FUT'' \<and> expiry_date \<noteq> None \<and> strike_price = None \<or>
     instrument_type \<in> {''CE'', ''PE''} \<and> expiry_date \<noteq> None \<and> strike_price \<noteq> None"

definition fill_well_formed :: "normalized_fill \<Rightarrow> bool" where
  "fill_well_formed f \<longleftrightarrow>
     nf_broker_trade_id f \<noteq> [] \<and> nf_broker_order_id f \<noteq> [] \<and> nf_symbol_raw f \<noteq> [] \<and>
     nf_broker f \<in> {''ZERODHA'', ''UPSTOX'', ''ANGEL_ONE'', ''MANUAL''} \<and>
     (nf_exchange f, nf_exchange_segment f) \<in>
       {(''NSE'', ''NSE_EQ''), (''NSE'', ''NSE_FO''), (''BSE'', ''BSE_EQ'')} \<and>
     (nf_instrument_type f = ''EQ'' \<longleftrightarrow> nf_exchange_segment f \<noteq> ''NSE_FO'') \<and>
     contract_ok (nf_instrument_type f) (nf_expiry_date f) (nf_strike_price f) \<and>
     nf_session f \<in> {''PRE_OPEN'', ''REGULAR'', ''POST_CLOSE''} \<and>
     nf_side f \<in> {''BUY'', ''SELL''} \<and> 0 < nf_quantity f \<and> 0 < nf_price f \<and>
     nf_product_type f \<in> {''MIS'', ''CNC'', ''NRML''} \<and>
     (nf_is_expiry_squareoff f \<longrightarrow> nf_expiry_date f = Some (nf_trade_date f))"

lemma contract_ok_resolvable:
  assumes "contract_ok ty e k"
  shows "find_for_fill sy seg ty e k d \<noteq> Inl x"
proof -
  from assms consider "ty = ''EQ''" | "ty = ''FUT''" "e \<noteq> None" | "ty = ''CE''" "e \<noteq> None" "k \<noteq> None"
    | "ty = ''PE''" "e \<noteq> None" "k \<noteq> None"
    unfolding contract_ok_def by blast
  then show ?thesis by cases (auto simp: find_for_fill_def Let_def)
qed

lemma well_formed_insertion:
  assumes "fill_well_formed f"
  shows "(\<exists>s. insert_normalized_fill now u a i f d = Inr s) \<longleftrightarrow>
    number_fits (nf_quantity f) \<and> number_fits (nf_price f) \<and>
    length (nf_broker_trade_id f) \<le> 64 \<and> length (nf_broker_order_id f) \<le> 64 \<and>
    (\<forall>x\<in>set (execution_fills d). x_fill_id x = Some (nf_broker_trade_id f) \<longrightarrow>
       x_broker x \<noteq> nf_broker f \<and> x_account_id x \<noteq> Some a)"
proof (rule insert_normalized_fill_iff)
  show "0 < nf_quantity f" "0 < nf_price f" using assms by (simp_all add: fill_well_formed_def)
  show "fill_check ((fill_row now u a i f pk)\<lparr>x_quantity := q, x_price := p\<rparr>)" if "0 < q" "0 < p" for pk q p
    using assms that unfolding fill_well_formed_def by (simp add: fill_check_def fill_row_def)
qed

locale broker_adapter =
  fixes detect :: "string \<Rightarrow> bool"
    and parse :: "string \<Rightarrow> string option \<Rightarrow> exn + adapter_parse_result"
  assumes unrecognized: "\<not> detect content \<Longrightarrow> parse content hint = Inl (Imp UnrecognizedFileError)"
    and nonempty: "parse content hint = Inr r \<Longrightarrow> 0 < total_rows r"
    and fills_well_formed: "parse content hint = Inr r \<Longrightarrow> f \<in> set (ap_fills r) \<Longrightarrow> fill_well_formed f"
    and errors_invalid: "parse content hint = Inr r \<Longrightarrow> e \<in> set (ap_errors r) \<Longrightarrow> is_invalid_fill e"
begin

text \<open>What a client gets from the contract: a fill is always resolvable to an instrument.\<close>

lemma parsed_detected: "parse content hint = Inr r \<Longrightarrow> detect content"
  using unrecognized by fastforce

lemma parsed_resolvable:
  assumes "parse content hint = Inr r" and "f \<in> set (ap_fills r)"
  shows "find_for_fill (nf_symbol_raw f) (nf_exchange_segment f) (nf_instrument_type f)
      (nf_expiry_date f) (nf_strike_price f) d \<noteq> Inl e"
proof -
  from fills_well_formed [OF assms] have "contract_ok (nf_instrument_type f) (nf_expiry_date f) (nf_strike_price f)"
    by (simp add: fill_well_formed_def)
  then show ?thesis by (rule contract_ok_resolvable)
qed

lemmas parsed_insertion = well_formed_insertion [OF fills_well_formed]

end

end
