(* ===== verification/Csv.thy ===== *)
theory Csv
  imports Text_Time "HOL-Library.AList"
begin

text \<open>
  What the adapters use of Python's \<open>csv\<close>: the reader of the default dialect (comma, double
  quote, doubled quotes, not strict) as the state machine of the interpreter, over the lines of a
  \<open>StringIO\<close>, and \<open>DictReader\<close>. Text is kept as its UTF-8 bytes, one character per byte; all
  characters the reader treats specially are ASCII.
\<close>

section \<open>bytes.decode("utf-8-sig")\<close>

definition is_cont :: "char \<Rightarrow> nat \<Rightarrow> nat \<Rightarrow> bool" where
  "is_cont c lo hi \<longleftrightarrow> lo \<le> of_char c \<and> of_char c \<le> hi"

fun utf8_valid :: "string \<Rightarrow> bool" where
  "utf8_valid [] = True"
| "utf8_valid (c # s) =
     (let n = of_char c :: nat
      in if n < 128 then utf8_valid s
         else if 194 \<le> n \<and> n \<le> 223 then
           (case s of a # s1 \<Rightarrow> is_cont a 128 191 \<and> utf8_valid s1 | _ \<Rightarrow> False)
         else if 224 \<le> n \<and> n \<le> 239 then
           (case s of a # b # s2 \<Rightarrow>
                is_cont a (if n = 224 then 160 else 128) (if n = 237 then 159 else 191) \<and>
                is_cont b 128 191 \<and> utf8_valid s2
            | _ \<Rightarrow> False)
         else if 240 \<le> n \<and> n \<le> 244 then
           (case s of a # b # d # s3 \<Rightarrow>
                is_cont a (if n = 240 then 144 else 128) (if n = 244 then 143 else 191) \<and>
                is_cont b 128 191 \<and> is_cont d 128 191 \<and> utf8_valid s3
            | _ \<Rightarrow> False)
         else False)"

definition BOM :: string where
  "BOM = [CHR 0xEF, CHR 0xBB, CHR 0xBF]"

definition decode_utf_8_sig :: "string \<Rightarrow> string option" where
  "decode_utf_8_sig content =
     (let text = (if take 3 content = BOM then drop 3 content else content)
      in if utf8_valid text then Some text else None)"

section \<open>csv.reader\<close>

text \<open>The lines of \<open>io.StringIO(text)\<close>: they end with a line feed, which is kept.\<close>

fun lines_from :: "string \<Rightarrow> string \<Rightarrow> string list" where
  "lines_from l [] = (if l = [] then [] else [rev l])"
| "lines_from l (c # s) =
     (if c = CHR 0x0A then rev (c # l) # lines_from [] s else lines_from (c # l) s)"

definition lines_of :: "string \<Rightarrow> string list" where
  "lines_of text = lines_from [] text"

datatype csv_state =
    START_RECORD | START_FIELD | IN_FIELD | IN_QUOTED_FIELD | QUOTE_IN_QUOTED_FIELD | EAT_CRNL

text \<open>The field under construction and the finished ones, both in reverse.\<close>

record csv_reader =
  cr_state :: csv_state
  cr_field :: string
  cr_fields :: "string list"

definition parse_reset :: csv_reader where
  "parse_reset = \<lparr>cr_state = START_RECORD, cr_field = [], cr_fields = []\<rparr>"

definition FIELD_LIMIT :: int where "FIELD_LIMIT = 131072"

definition add_char :: "char \<Rightarrow> csv_state \<Rightarrow> csv_reader \<Rightarrow> exn + csv_reader" where
  "add_char c next_state r =
     (if FIELD_LIMIT \<le> int (length (cr_field r)) then Inl (Py CsvError)
      else Inr (r\<lparr>cr_state := next_state, cr_field := c # cr_field r\<rparr>))"

definition save_field :: "csv_state \<Rightarrow> csv_reader \<Rightarrow> csv_reader" where
  "save_field next_state r =
     r\<lparr>cr_state := next_state, cr_field := [], cr_fields := rev (cr_field r) # cr_fields r\<rparr>"

text \<open>One character, or \<open>None\<close> at the end of a line.\<close>

definition is_eol :: "char option \<Rightarrow> bool" where
  "is_eol c \<longleftrightarrow> c = None \<or> c = Some (CHR 0x0A) \<or> c = Some (CHR 0x0D)"

definition after_eol :: "char option \<Rightarrow> csv_state" where
  "after_eol c = (if c = None then START_RECORD else EAT_CRNL)"

definition start_field :: "char option \<Rightarrow> csv_reader \<Rightarrow> exn + csv_reader" where
  "start_field c r =
     (if is_eol c then Inr (save_field (after_eol c) r)
      else if c = Some (CHR 0x22) then Inr (r\<lparr>cr_state := IN_QUOTED_FIELD\<rparr>)
      else if c = Some (CHR '','') then Inr (save_field START_FIELD r)
      else add_char (the c) IN_FIELD r)"

definition process_char :: "char option \<Rightarrow> csv_reader \<Rightarrow> exn + csv_reader" where
  "process_char c r =
     (case cr_state r of
        START_RECORD \<Rightarrow>
          if c = None then Inr r
          else if is_eol c then Inr (r\<lparr>cr_state := EAT_CRNL\<rparr>)
          else start_field c r
      | START_FIELD \<Rightarrow> start_field c r
      | IN_FIELD \<Rightarrow>
          if is_eol c then Inr (save_field (after_eol c) r)
          else if c = Some (CHR '','') then Inr (save_field START_FIELD r)
          else add_char (the c) IN_FIELD r
      | IN_QUOTED_FIELD \<Rightarrow>
          if c = None then Inr r
          else if c = Some (CHR 0x22) then Inr (r\<lparr>cr_state := QUOTE_IN_QUOTED_FIELD\<rparr>)
          else add_char (the c) IN_QUOTED_FIELD r
      | QUOTE_IN_QUOTED_FIELD \<Rightarrow>
          if c = Some (CHR 0x22) then add_char (the c) IN_QUOTED_FIELD r
          else if c = Some (CHR '','') then Inr (save_field START_FIELD r)
          else if is_eol c then Inr (save_field (after_eol c) r)
          else add_char (the c) IN_FIELD r
      | EAT_CRNL \<Rightarrow>
          if c = None then Inr (r\<lparr>cr_state := START_RECORD\<rparr>)
          else if is_eol c then Inr r
          else Inl (Py CsvError))"

definition process_line :: "string \<Rightarrow> csv_reader \<Rightarrow> exn + csv_reader" where
  "process_line line r = rbind (rfold (\<lambda>c. process_char (Some c)) line r) (process_char None)"

text \<open>\<open>next(reader)\<close>: the fields of the next record and the lines left, or \<open>None\<close> at the end.\<close>

fun next_from :: "string list \<Rightarrow> csv_reader \<Rightarrow> exn + (string list \<times> string list) option" where
  "next_from [] r =
     Inr (if cr_field r \<noteq> [] \<or> cr_state r = IN_QUOTED_FIELD
          then Some (rev (rev (cr_field r) # cr_fields r), []) else None)"
| "next_from (line # ls) r =
     rbind (process_line line r) (\<lambda>r'.
     if cr_state r' = START_RECORD then Inr (Some (rev (cr_fields r'), ls)) else next_from ls r')"

definition next_record :: "string list \<Rightarrow> exn + (string list \<times> string list) option" where
  "next_record ls = next_from ls parse_reset"

lemma next_from_shorter: "next_from ls r = Inr (Some (row, rest)) \<Longrightarrow> length rest \<le> length ls"
proof (induction ls r rule: next_from.induct)
  case (1 r)
  then show ?case by (simp split: if_splits)
next
  case (2 line ls r)
  from 2(2) obtain r' where r': "process_line line r = Inr r'" and
    "(if cr_state r' = START_RECORD then Inr (Some (rev (cr_fields r'), ls)) else next_from ls r') =
      Inr (Some (row, rest))"
    by (auto simp: rbind_eq_Inr)
  then consider "rest = ls" | "cr_state r' \<noteq> START_RECORD" "next_from ls r' = Inr (Some (row, rest))"
    by (auto split: if_splits)
  then show ?case using 2(1) [OF r'] by cases auto
qed

lemma next_record_shorter: "next_record ls = Inr (Some (row, rest)) \<Longrightarrow> length rest < length ls"
proof (cases ls)
  case (Cons l ls')
  assume "next_record ls = Inr (Some (row, rest))"
  with Cons show ?thesis
    by (auto simp: next_record_def result_simps less_Suc_eq_le dest: next_from_shorter split: if_splits)
qed (simp add: next_record_def parse_reset_def)

function all_records :: "string list \<Rightarrow> exn + string list list" where
  "all_records ls =
     (case next_record ls of
        Inl e \<Rightarrow> Inl e
      | Inr None \<Rightarrow> Inr []
      | Inr (Some (row, rest)) \<Rightarrow> rbind (all_records rest) (\<lambda>rows. Inr (row # rows)))"
  by pat_completeness auto
termination by (relation "measure length") (auto dest: next_record_shorter)

declare all_records.simps [simp del]

section \<open>csv.DictReader\<close>

text \<open>A dict keeps the place of a key that is assigned again, as \<open>AList.update\<close> does.\<close>

type_synonym csv_row = "(string \<times> string) list"

definition dict_of :: "(string \<times> string) list \<Rightarrow> csv_row" where
  "dict_of ps = fold (\<lambda>(k, v). AList.update k v) ps []"

definition fieldnames :: "string \<Rightarrow> exn + string list option" where
  "fieldnames text = rbind (next_record (lines_of text)) (\<lambda>x. Inr (map_option fst x))"

text \<open>The header and the records that are not blank.\<close>

definition dict_reader :: "string \<Rightarrow> exn + string list \<times> string list list" where
  "dict_reader text =
     rbind (next_record (lines_of text)) (\<lambda>x.
     case x of
       None \<Rightarrow> Inr ([], [])
     | Some (header, rest) \<Rightarrow>
         rbind (all_records rest) (\<lambda>rows. Inr (header, filter (\<lambda>row. row \<noteq> []) rows)))"

text \<open>
  \<open>{k.strip(): v.strip() for k, v in row.items()}\<close>. A short row has the value \<open>None\<close> for the keys
  left over, a long one the key \<open>None\<close>; neither has a \<open>strip\<close>.
\<close>

definition strip_row :: "string list \<Rightarrow> string list \<Rightarrow> exn + csv_row" where
  "strip_row header row =
     (if length row \<noteq> length header then Inl (Py AttributeError)
      else Inr (dict_of (map (\<lambda>(k, v). (strip k, strip v)) (dict_of (zip header row)))))"

text \<open>\<open>row.get(field, "")\<close>\<close>

definition row_get :: "csv_row \<Rightarrow> string \<Rightarrow> string" where
  "row_get row field = (case map_of row field of None \<Rightarrow> [] | Some v \<Rightarrow> v)"

end
