(* ===== verification/Zerodha_Adapter.thy ===== *)
theory Zerodha_Adapter
  imports Broker_Adapter Csv
begin

text \<open>
  \<open>infrastructure/adapters/zerodha_adapter.py\<close>: from the bytes of a Zerodha tradebook to fills. An
  \<open>InvalidFillError\<close> of a row is collected; every other exception leaves \<open>parse\<close>.
\<close>

section \<open>Numbers and dates as text\<close>

text \<open>\<open>int(s)\<close>: white space around, a sign, digits with single underscores between them.\<close>

definition digit_value :: "char \<Rightarrow> int" where
  "digit_value c = of_char c - 48"

definition int_of_digits :: "string \<Rightarrow> int" where
  "int_of_digits s = fold (\<lambda>c n. n * 10 + digit_value c) s 0"

definition all_digits :: "string \<Rightarrow> bool" where
  "all_digits s \<longleftrightarrow> s \<noteq> [] \<and> list_all is_digit s"

definition split_sign :: "string \<Rightarrow> bool \<times> string" where
  "split_sign s =
     (case s of
        c # t \<Rightarrow> if c = CHR ''-'' then (True, t) else if c = CHR ''+'' then (False, t) else (False, s)
      | [] \<Rightarrow> (False, s))"

definition py_int :: "string \<Rightarrow> int option" where
  "py_int s =
     (let (neg, t) = split_sign (strip s);
          groups = split_at CHR ''_'' t;
          digits = concat groups
      in if list_all all_digits groups \<and> int (length digits) \<le> 4300
         then Some (if neg then - int_of_digits digits else int_of_digits digits)
         else None)"

text \<open>\<open>Decimal(s)\<close>: underscores are ignored.\<close>

datatype decimal_text = Finite rat | Infinite bool | Not_a_number

definition unsigned_decimal :: "string \<Rightarrow> rat option" where
  "unsigned_decimal s =
     (let mantissa = takeWhile (\<lambda>c. is_digit c \<or> c = CHR ''.'') s;
          suffix = drop (length mantissa) s;
          whole = takeWhile is_digit mantissa;
          after = drop (length whole) mantissa;
          fraction = drop 1 after;
          digits = whole @ fraction
      in if \<not> all_digits digits \<or> \<not> list_all is_digit fraction then None
         else
           let coefficient = of_int (int_of_digits digits) / 10 ^ length fraction
           in case suffix of
                [] \<Rightarrow> Some coefficient
              | c # e \<Rightarrow>
                  (case split_sign e of (neg, ds) \<Rightarrow>
                     if c \<in> {CHR ''e'', CHR ''E''} \<and> all_digits ds
                     then Some (coefficient * 10 powi (if neg then - int_of_digits ds
                                                       else int_of_digits ds))
                     else None))"

definition py_decimal :: "string \<Rightarrow> decimal_text option" where
  "py_decimal s =
     (let (neg, t) = split_sign (filter (\<lambda>c. c \<noteq> CHR ''_'') (strip s));
          word = lower t;
          payload = (\<lambda>n. list_all is_digit (drop n word))
      in if word \<in> {''inf'', ''infinity''} then Some (Infinite neg)
         else if take 3 word = ''nan'' \<and> payload 3 \<or> take 4 word = ''snan'' \<and> payload 4
           then Some Not_a_number
         else map_option (\<lambda>x. Finite (if neg then - x else x)) (unsigned_decimal t))"

text \<open>
  \<open>date.fromisoformat\<close>: the calendar forms and the week forms, extended and basic; of a basic
  week form of ten characters the interpreter ignores the last two.
\<close>

definition digits_at :: "nat \<Rightarrow> nat \<Rightarrow> string \<Rightarrow> int option" where
  "digits_at i n s =
     (let t = take n (drop i s)
      in if length t = n \<and> all_digits t then Some (int_of_digits t) else None)"

text \<open>The Monday of the first ISO week, and whether a year has fifty-three weeks.\<close>

definition iso_week1_monday :: "int \<Rightarrow> day" where
  "iso_week1_monday y =
     (let first_day = day_of_civil y 1 1; first_weekday = weekday first_day;
          monday = first_day - first_weekday
      in if 3 < first_weekday then monday + 7 else monday)"

definition iso_week_date :: "int \<Rightarrow> int \<Rightarrow> int \<Rightarrow> day option" where
  "iso_week_date y w d =
     (let first_weekday = weekday (day_of_civil y 1 1);
          long = (first_weekday = 3 \<or> first_weekday = 2 \<and> is_leap y);
          n = iso_week1_monday y + (w - 1) * 7 + (d - 1)
      in if 1 \<le> y \<and> (1 \<le> w \<and> w \<le> 52 \<or> w = 53 \<and> long) \<and> 1 \<le> d \<and> d \<le> 7 \<and>
            day_of_civil 1 1 1 \<le> n \<and> n \<le> day_of_civil 9999 12 31
         then Some n else None)"

definition option_date ::
  "(int \<Rightarrow> int \<Rightarrow> int \<Rightarrow> day option) \<Rightarrow> int option \<Rightarrow> int option \<Rightarrow> int option \<Rightarrow> day option" where
  "option_date mk y m d =
     (case (y, m, d) of (Some y', Some m', Some d') \<Rightarrow> mk y' m' d' | _ \<Rightarrow> None)"

definition fromisoformat :: "string \<Rightarrow> day option" where
  "fromisoformat s =
     (let n = length s; year = digits_at 0 4 s;
          separator = (4 < n \<and> s ! 4 = CHR ''-'');
          p = (if separator then 5 else 4)
      in if n \<notin> {7, 8, 10} then None
         else if s ! p = CHR ''W'' then
           (if n = p + 3 then option_date iso_week_date year (digits_at (p + 1) 2 s) (Some 1)
            else if separator \<and> n = 10 \<and> s ! 8 = CHR ''-''
              then option_date iso_week_date year (digits_at 6 2 s) (digits_at 9 1 s)
            else if \<not> separator
              then option_date iso_week_date year (digits_at 5 2 s) (digits_at 7 1 s)
            else None)
         else if separator \<and> n = 10 \<and> s ! 7 = CHR ''-''
           then option_date make_date year (digits_at 5 2 s) (digits_at 8 2 s)
         else if \<not> separator \<and> n = 8
           then option_date make_date year (digits_at 4 2 s) (digits_at 6 2 s)
         else None)"

text \<open>
  \<open>datetime.strptime(s, "%Y-%m-%d %H:%M:%S")\<close>: numbers of one or two digits, a day may have a
  blank before its only digit, any white space between date and time; the result is the day and
  the second of the day.
\<close>

definition number_in :: "int \<Rightarrow> int \<Rightarrow> string \<Rightarrow> int option" where
  "number_in lo hi s =
     (if all_digits s \<and> length s \<le> 2 \<and> lo \<le> int_of_digits s \<and> int_of_digits s \<le> hi
      then Some (int_of_digits s) else None)"

definition day_field :: "string \<Rightarrow> int option" where
  "day_field s =
     (case s of
        c # t \<Rightarrow> if c = CHR '' '' \<and> length t = 1 then number_in 1 9 t else number_in 1 31 s
      | [] \<Rightarrow> None)"

definition strptime :: "string \<Rightarrow> (day \<times> int) option" where
  "strptime s =
     (case split_at CHR ''-'' s of
        [y, mo, tail] \<Rightarrow>
          let blank = (case tail of c # _ \<Rightarrow> c = CHR '' '' | [] \<Rightarrow> False);
              d = (if blank then [CHR '' ''] else []) @ takeWhile is_digit (if blank then tl tail else tail);
              after = drop (length d) tail;
              clock = lstrip after
          in (case split_at CHR '':'' clock of
                [h, mi, sec] \<Rightarrow>
                  if after = clock then None
                  else
                    (case (digits_at 0 4 y, number_in 1 12 mo, day_field d, number_in 0 23 h,
                           number_in 0 59 mi, number_in 0 59 sec) of
                       (Some year, Some month, Some dd, Some hh, Some mm, Some ss) \<Rightarrow>
                         if length y = 4
                         then map_option (\<lambda>n. (n, hh * 3600 + mm * 60 + ss)) (make_date year month dd)
                         else None
                     | _ \<Rightarrow> None)
              | _ \<Rightarrow> None)
      | _ \<Rightarrow> None)"

section \<open>Time stamps and sessions\<close>

text \<open>
  \<open>astimezone(UTC)\<close> leaves the range of \<open>datetime\<close> in the first hours of year 1, which is no
  \<open>ValueError\<close>.
\<close>

definition parse_ist_timestamp :: "string \<Rightarrow> exn + timestamp" where
  "parse_ist_timestamp raw =
     (case strptime (strip raw) of
        None \<Rightarrow> Inl (Py (ValueError ''time data does not match format''))
      | Some (n, secs) \<Rightarrow>
          let ts = ist_timestamp n (secs * 1000000)
          in if ts < day_of_civil 1 1 1 * day_us then Inl (Py OverflowError) else Inr ts)"

definition ist_second :: "timestamp \<Rightarrow> int" where
  "ist_second ts = ist_time ts div 1000000"

definition hms :: "int \<Rightarrow> int \<Rightarrow> int \<Rightarrow> int" where
  "hms h m s = h * 3600 + m * 60 + s"

definition derive_session :: "timestamp \<Rightarrow> string" where
  "derive_session ts =
     (let t = ist_second ts
      in if hms 9 0 0 \<le> t \<and> t \<le> hms 9 14 59 then ''PRE_OPEN''
         else if hms 9 15 0 \<le> t \<and> t \<le> hms 15 39 59 then ''REGULAR''
         else if hms 15 40 0 \<le> t \<and> t \<le> hms 16 0 0 then ''POST_CLOSE''
         else ''REGULAR'')"

section \<open>Contracts\<close>

definition last_thursday :: "int \<Rightarrow> int \<Rightarrow> day" where
  "last_thursday year month =
     (let last_day = (if month = 12 then day_of_civil (year + 1) 1 1 - 1
                      else day_of_civil year (month + 1) 1 - 1);
          days_back = (weekday last_day - 3) mod 7
      in last_day - days_back)"

definition MONTH_ABBR :: "(string \<times> int) list" where
  "MONTH_ABBR = [(''JAN'', 1), (''FEB'', 2), (''MAR'', 3), (''APR'', 4), (''MAY'', 5), (''JUN'', 6),
     (''JUL'', 7), (''AUG'', 8), (''SEP'', 9), (''OCT'', 10), (''NOV'', 11), (''DEC'', 12)]"

definition COMPACT_MONTH :: "(string \<times> int) list" where
  "COMPACT_MONTH = [(''1'', 1), (''2'', 2), (''3'', 3), (''4'', 4), (''5'', 5), (''6'', 6), (''7'', 7),
     (''8'', 8), (''9'', 9), (''O'', 10), (''N'', 11), (''D'', 12)]"

definition base_ok :: "string \<Rightarrow> bool" where
  "base_ok s \<longleftrightarrow> s \<noteq> [] \<and> list_all (\<lambda>c. is_upper c \<or> is_digit c) s"

text \<open>The three patterns with the base of the given length; a match takes the shortest base.\<close>

definition first_match :: "(nat \<Rightarrow> 'a option) \<Rightarrow> nat \<Rightarrow> 'a option" where
  "first_match f n = fold (\<lambda>k r. if r = None then f k else r) [1..<Suc n] None"

definition fut_at :: "string \<Rightarrow> nat \<Rightarrow> (string \<times> int \<times> int) option" where
  "fut_at s k =
     (let base = take k s; t = drop k s
      in if base_ok base \<and> length t = 8 \<and> drop 5 t = ''FUT'' then
           (case (digits_at 0 2 t, map_of MONTH_ABBR (take 3 (drop 2 t))) of
              (Some yy, Some month) \<Rightarrow> Some (base, 2000 + yy, month)
            | _ \<Rightarrow> None)
         else None)"

text \<open>What follows the date of an option: the digits of the strike and CE or PE.\<close>

definition strike_and_type :: "string \<Rightarrow> (rat \<times> string) option" where
  "strike_and_type t =
     (let strike = take (length t - 2) t; opt_type = drop (length t - 2) t
      in if all_digits strike \<and> opt_type \<in> {''CE'', ''PE''}
         then Some (of_int (int_of_digits strike), opt_type) else None)"

definition monthly_at :: "string \<Rightarrow> nat \<Rightarrow> (string \<times> int \<times> int \<times> rat \<times> string) option" where
  "monthly_at s k =
     (let base = take k s; t = drop k s
      in if base_ok base then
           (case (digits_at 0 2 t, map_of MONTH_ABBR (take 3 (drop 2 t)), strike_and_type (drop 5 t)) of
              (Some yy, Some month, Some (strike, opt_type)) \<Rightarrow>
                Some (base, 2000 + yy, month, strike, opt_type)
            | _ \<Rightarrow> None)
         else None)"

definition weekly_at :: "string \<Rightarrow> nat \<Rightarrow> (string \<times> int \<times> int \<times> int \<times> rat \<times> string) option" where
  "weekly_at s k =
     (let base = take k s; t = drop k s
      in if base_ok base then
           (case (digits_at 0 2 t, map_of COMPACT_MONTH (take 1 (drop 2 t)), digits_at 3 2 t,
                  strike_and_type (drop 5 t)) of
              (Some yy, Some month, Some dd, Some (strike, opt_type)) \<Rightarrow>
                Some (base, 2000 + yy, month, dd, strike, opt_type)
            | _ \<Rightarrow> None)
         else None)"

type_synonym contract = "string \<times> string \<times> day option \<times> rat option"

definition parse_fo_symbol :: "string \<Rightarrow> exn + contract option" where
  "parse_fo_symbol symbol =
     (let s = upper symbol; n = length s
      in case first_match (fut_at s) n of
           Some (base, year, month) \<Rightarrow> Inr (Some (base, ''FUT'', Some (last_thursday year month), None))
         | None \<Rightarrow>
             (case first_match (monthly_at s) n of
                Some (base, year, month, strike, opt_type) \<Rightarrow>
                  Inr (Some (base, opt_type, Some (last_thursday year month), Some strike))
              | None \<Rightarrow>
                  (case first_match (weekly_at s) n of
                     Some (base, year, month, dd, strike, opt_type) \<Rightarrow>
                       (case make_date year month dd of
                          None \<Rightarrow> Inl (Py (ValueError ''day is out of range for month''))
                        | Some expiry \<Rightarrow> Inr (Some (base, opt_type, Some expiry, Some strike)))
                   | None \<Rightarrow> Inr None)))"

definition needs_product_hint :: "string \<Rightarrow> string \<Rightarrow> bool" where
  "needs_product_hint segment series \<longleftrightarrow>
     segment = ''FO'' \<or> segment = ''EQ'' \<and> upper series \<noteq> ''BE''"

section \<open>detect\<close>

definition REQUIRED_DETECT_COLUMNS :: "string list" where
  "REQUIRED_DETECT_COLUMNS =
     [''symbol'', ''trade_date'', ''exchange'', ''segment'', ''trade_type'', ''quantity'', ''price'',
      ''trade_id'', ''order_id'', ''order_execution_time'']"

definition detect :: "string \<Rightarrow> bool" where
  "detect file_content =
     (case decode_utf_8_sig file_content of
        None \<Rightarrow> False
      | Some text \<Rightarrow>
          (case fieldnames (lstrip text) of
             Inr (Some header) \<Rightarrow>
               let headers = map (\<lambda>h. lower (strip h)) (filter (\<lambda>h. h \<noteq> []) header)
               in list_all (\<lambda>c. c \<in> set headers) REQUIRED_DETECT_COLUMNS
           | _ \<Rightarrow> False))"

section \<open>One row\<close>

definition bad :: "nat \<Rightarrow> string \<Rightarrow> string \<Rightarrow> string \<Rightarrow> exn + 'a" where
  "bad row_idx field raw_value message = Inl (Imp (InvalidFillError row_idx field raw_value message))"

definition require :: "csv_row \<Rightarrow> string \<Rightarrow> nat \<Rightarrow> exn + string" where
  "require row field row_idx =
     (let value = strip (row_get row field)
      in if value = [] then bad row_idx field [] (''Required field '' @ repr field @ '' is missing or empty'')
         else Inr value)"

definition EXCHANGE_SEGMENT :: "string \<Rightarrow> string \<Rightarrow> string option" where
  "EXCHANGE_SEGMENT exchange segment =
     map_of [((''NSE'', ''EQ''), ''NSE_EQ''), ((''NSE'', ''FO''), ''NSE_FO''), ((''BSE'', ''EQ''), ''BSE_EQ'')]
       (exchange, segment)"

definition VALID_PRODUCTS :: "string list" where
  "VALID_PRODUCTS = [''MIS'', ''CNC'', ''NRML'']"

definition row_exchange_segment :: "nat \<Rightarrow> string \<Rightarrow> string \<Rightarrow> exn + string" where
  "row_exchange_segment row_idx exchange segment =
     (case EXCHANGE_SEGMENT exchange segment of
        Some es \<Rightarrow> Inr es
      | None \<Rightarrow>
          if exchange = ''BSE'' \<and> segment = ''FO''
          then bad row_idx ''exchange+segment'' (exchange @ ''+'' @ segment) ''BSE FO not supported''
          else bad row_idx ''exchange'' exchange
                 (''Unknown exchange/segment: '' @ exchange @ ''/'' @ segment))"

definition row_timestamp :: "nat \<Rightarrow> string \<Rightarrow> exn + timestamp" where
  "row_timestamp row_idx ts_str =
     (case parse_ist_timestamp ts_str of
        Inl (Py (ValueError m)) \<Rightarrow>
          bad row_idx ''order_execution_time'' ts_str ''Expected YYYY-MM-DD HH:MM:SS''
      | result \<Rightarrow> result)"

definition row_quantity :: "nat \<Rightarrow> string \<Rightarrow> exn + rat" where
  "row_quantity row_idx qty_str =
     (case py_int qty_str of
        None \<Rightarrow> bad row_idx ''quantity'' qty_str ''Must be a positive integer''
      | Some q \<Rightarrow>
          if q \<le> 0 then bad row_idx ''quantity'' qty_str ''Must be > 0'' else Inr (of_int q))"

text \<open>The comparison with a NaN raises; \<open>None\<close> is a positive infinite price, which passes.\<close>

definition row_price :: "nat \<Rightarrow> string \<Rightarrow> exn + rat option" where
  "row_price row_idx price_str =
     (case py_decimal price_str of
        None \<Rightarrow> bad row_idx ''price'' price_str ''Must be a valid decimal number''
      | Some Not_a_number \<Rightarrow> Inl (Py InvalidOperation)
      | Some (Infinite neg) \<Rightarrow>
          if neg then bad row_idx ''price'' price_str ''Must be > 0'' else Inr None
      | Some (Finite x) \<Rightarrow>
          if x \<le> 0 then bad row_idx ''price'' price_str ''Must be > 0'' else Inr (Some x))"

definition row_product_type ::
  "nat \<Rightarrow> csv_row \<Rightarrow> bool \<Rightarrow> string option \<Rightarrow> string \<Rightarrow> string \<Rightarrow> exn + string" where
  "row_product_type row_idx row has_product_col product_type_hint segment series =
     (if has_product_col then
        let product_csv = upper (strip (row_get row ''product''))
        in if product_csv \<notin> set VALID_PRODUCTS
           then bad row_idx ''product'' product_csv (''Unknown product code: '' @ repr product_csv)
           else Inr product_csv
      else if segment = ''EQ'' \<and> series = ''BE'' then Inr ''CNC''
      else case product_type_hint of
             Some hint \<Rightarrow> Inr hint
           | None \<Rightarrow> bad row_idx ''product'' [] ''product column absent and no product_type_hint provided'')"

definition row_contract :: "nat \<Rightarrow> string \<Rightarrow> string \<Rightarrow> exn + contract" where
  "row_contract row_idx symbol segment =
     (if segment = ''EQ'' then Inr (symbol, ''EQ'', None, None)
      else if segment = ''FO'' then
        rbind (parse_fo_symbol symbol) (\<lambda>parsed.
        case parsed of
          None \<Rightarrow> bad row_idx ''symbol'' symbol (''Cannot parse F&O symbol: '' @ repr symbol)
        | Some c \<Rightarrow> Inr c)
      else bad row_idx ''segment'' segment (''Unsupported segment: '' @ repr segment))"

definition expiry_squareoff :: "string \<Rightarrow> day option \<Rightarrow> day \<Rightarrow> bool \<Rightarrow> timestamp \<Rightarrow> bool" where
  "expiry_squareoff segment expiry_date trade_date is_auction fill_timestamp \<longleftrightarrow>
     segment = ''FO'' \<and> expiry_date = Some trade_date \<and>
     (is_auction \<or> hms 15 20 0 \<le> ist_second fill_timestamp \<and> ist_second fill_timestamp \<le> hms 15 35 0)"

text \<open>
  A fill with an infinite price would fail at its insertion, in the numeric column; the model,
  whose prices are rational, raises the same exception here.
\<close>

definition parse_row :: "csv_row \<Rightarrow> nat \<Rightarrow> bool \<Rightarrow> string option \<Rightarrow> exn + normalized_fill" where
  "parse_row row row_idx has_product_col product_type_hint =
     rbind (require row ''symbol'' row_idx) (\<lambda>symbol.
     rbind (require row ''trade_id'' row_idx) (\<lambda>trade_id_str.
     rbind (require row ''order_id'' row_idx) (\<lambda>order_id_str.
     rbind (require row ''exchange'' row_idx) (\<lambda>exchange.
     rbind (require row ''segment'' row_idx) (\<lambda>segment.
     rbind (require row ''trade_type'' row_idx) (\<lambda>trade_type.
     rbind (require row ''auction'' row_idx) (\<lambda>auction.
     rbind (require row ''trade_date'' row_idx) (\<lambda>trade_date_str.
     rbind (require row ''order_execution_time'' row_idx) (\<lambda>ts_str.
     rbind (require row ''quantity'' row_idx) (\<lambda>qty_str.
     rbind (require row ''price'' row_idx) (\<lambda>price_str.
     let symbol_raw = upper symbol;
         exchange_raw = upper exchange;
         segment_raw = upper segment;
         series_raw = upper (strip (row_get row ''series''));
         trade_type_raw = lower trade_type
     in if segment_raw = ''CD''
          then bad row_idx ''segment'' segment_raw ''CD segment not supported in Phase 1''
        else
     rbind (row_exchange_segment row_idx exchange_raw segment_raw) (\<lambda>exchange_segment.
     rbind (case fromisoformat trade_date_str of
              None \<Rightarrow> bad row_idx ''trade_date'' trade_date_str ''Expected YYYY-MM-DD''
            | Some n \<Rightarrow> Inr n) (\<lambda>trade_date.
     rbind (row_timestamp row_idx ts_str) (\<lambda>fill_timestamp.
     rbind (if trade_type_raw = ''buy'' then Inr ''BUY''
            else if trade_type_raw = ''sell'' then Inr ''SELL''
            else bad row_idx ''trade_type'' trade_type_raw
                   (''Unknown trade_type: '' @ repr trade_type_raw)) (\<lambda>side.
     rbind (row_quantity row_idx qty_str) (\<lambda>quantity.
     rbind (row_price row_idx price_str) (\<lambda>price.
     rbind (row_product_type row_idx row has_product_col product_type_hint segment_raw series_raw)
       (\<lambda>product_type.
     rbind (row_contract row_idx symbol_raw segment_raw)
       (\<lambda>(base, instrument_type, expiry_date, strike_price).
     let is_auction = (lower auction = ''yes'')
     in case price of
          None \<Rightarrow> Inl (Py DataError)
        | Some p \<Rightarrow> Inr \<lparr>
            nf_broker_trade_id = trade_id_str, nf_broker_order_id = order_id_str,
            nf_broker = ''ZERODHA'', nf_import_source = ''CSV'', nf_symbol_raw = base,
            nf_exchange = exchange_raw, nf_exchange_segment = exchange_segment,
            nf_instrument_type = instrument_type, nf_expiry_date = expiry_date,
            nf_strike_price = strike_price, nf_trade_date = trade_date,
            nf_fill_timestamp = fill_timestamp, nf_session = derive_session fill_timestamp,
            nf_side = side, nf_quantity = quantity, nf_price = p, nf_product_type = product_type,
            nf_is_auction = is_auction,
            nf_is_expiry_squareoff =
              expiry_squareoff segment_raw expiry_date trade_date is_auction fill_timestamp\<rparr>)))))))))))))))))))"

section \<open>parse\<close>

text \<open>The loop over the rows, numbered from one: invalid rows are collected, the rest escapes.\<close>

fun parse_rows ::
  "bool \<Rightarrow> string option \<Rightarrow> nat \<Rightarrow> csv_row list \<Rightarrow> adapter_parse_result \<Rightarrow> exn + adapter_parse_result" where
  "parse_rows has_product_col hint row_idx [] result = Inr result"
| "parse_rows has_product_col hint row_idx (row # rows) result =
     (case parse_row row row_idx has_product_col hint of
        Inr fill \<Rightarrow>
          parse_rows has_product_col hint (Suc row_idx) rows (result\<lparr>ap_fills := ap_fills result @ [fill]\<rparr>)
      | Inl (Imp (InvalidFillError i f v m)) \<Rightarrow>
          parse_rows has_product_col hint (Suc row_idx) rows
            (result\<lparr>ap_errors := ap_errors result @ [InvalidFillError i f v m]\<rparr>)
      | Inl e \<Rightarrow> Inl e)"

fun strip_rows :: "string list \<Rightarrow> string list list \<Rightarrow> exn + csv_row list" where
  "strip_rows header [] = Inr []"
| "strip_rows header (row # rows) =
     rbind (strip_row header row) (\<lambda>r. rbind (strip_rows header rows) (\<lambda>rs. Inr (r # rs)))"

definition row_needs_hint :: "csv_row \<Rightarrow> bool" where
  "row_needs_hint row \<longleftrightarrow>
     (let segment = upper (row_get row ''segment''); series = upper (row_get row ''series'')
      in segment \<noteq> ''CD'' \<and> needs_product_hint segment series)"

definition parse :: "string \<Rightarrow> string option \<Rightarrow> exn + adapter_parse_result" where
  "parse file_content product_type_hint =
     (if \<not> detect file_content then Inl (Imp UnrecognizedFileError)
      else if product_type_hint \<noteq> None \<and> the product_type_hint \<notin> set VALID_PRODUCTS then
        Inl (Py (ValueError (''Invalid product_type_hint '' @ repr (the product_type_hint) @
          ''. Must be one of ['' @ join '', '' (map repr [''CNC'', ''MIS'', ''NRML'']) @ '']'')))
      else
        case decode_utf_8_sig file_content of
          None \<Rightarrow> Inl (Py (ValueError ''invalid utf-8''))
        | Some text \<Rightarrow>
            rbind (dict_reader text) (\<lambda>(header, raw_rows).
            if raw_rows = [] then Inl (Imp EmptyFileError)
            else
              rbind (strip_rows header raw_rows) (\<lambda>rows.
              let has_product_col = (''product'' \<in> set (map (\<lambda>(k, v). lower k) (hd rows)))
              in if \<not> has_product_col \<and> product_type_hint = None \<and> list_ex row_needs_hint rows
                 then Inl (Imp MissingProductTypeError)
                 else parse_rows has_product_col product_type_hint 1 rows
                        \<lparr>ap_fills = [], ap_errors = []\<rparr>)))"

definition zerodha_adapter :: broker_adapter_port where
  "zerodha_adapter = \<lparr>ba_detect = detect, ba_parse = parse\<rparr>"

end
