(* ===== verification/Sha256.thy ===== *)
theory Sha256
  imports Text_Time "HOL-Library.Word"
begin

text \<open>
  \<open>hashlib.sha256(content).hexdigest()\<close>, which identifies an uploaded file: FIPS 180-4 on 32-bit
  words, whose addition wraps around.
\<close>

unbundle bit_operations_syntax

section \<open>The compression function\<close>

type_synonym w32 = "32 word"

text \<open>
  The constants are the first thirty-two bits of the fractional parts of the square roots of the
  first eight primes and of the cube roots of the first sixty-four: the largest \<open>r\<close> with
  \<open>r ^ k \<le> p * 2 ^ (32 * k)\<close>, found bit by bit, without its integral part.
\<close>

definition primes_below :: "nat \<Rightarrow> nat list" where
  "primes_below n = filter (\<lambda>p. list_all (\<lambda>q. p mod q \<noteq> 0) [2..<p]) [2..<n]"

definition root_bits :: "nat \<Rightarrow> nat \<Rightarrow> w32" where
  "root_bits k p =
     of_int (fold (\<lambda>b r. if (r + 2 ^ b) ^ k \<le> int p * 2 ^ (32 * k) then r + 2 ^ b else r) (rev [0..<37]) 0)"

definition SHA_K :: "w32 list" where
  "SHA_K = map (root_bits 3) (primes_below 312)"

definition SHA_H :: "w32 list" where
  "SHA_H = map (root_bits 2) (primes_below 20)"

definition rotr :: "nat \<Rightarrow> w32 \<Rightarrow> w32" where
  "rotr n x = drop_bit n x OR push_bit (32 - n) x"

definition small_sigma0 :: "w32 \<Rightarrow> w32" where
  "small_sigma0 x = rotr 7 x XOR rotr 18 x XOR drop_bit 3 x"

definition small_sigma1 :: "w32 \<Rightarrow> w32" where
  "small_sigma1 x = rotr 17 x XOR rotr 19 x XOR drop_bit 10 x"

definition big_sigma0 :: "w32 \<Rightarrow> w32" where
  "big_sigma0 x = rotr 2 x XOR rotr 13 x XOR rotr 22 x"

definition big_sigma1 :: "w32 \<Rightarrow> w32" where
  "big_sigma1 x = rotr 6 x XOR rotr 11 x XOR rotr 25 x"

definition sha_choice :: "w32 \<Rightarrow> w32 \<Rightarrow> w32 \<Rightarrow> w32" where
  "sha_choice x y z = (x AND y) XOR ((NOT x) AND z)"

definition majority :: "w32 \<Rightarrow> w32 \<Rightarrow> w32 \<Rightarrow> w32" where
  "majority x y z = (x AND y) XOR (x AND z) XOR (y AND z)"

text \<open>The schedule grows from sixteen words to sixty-four.\<close>

fun schedule :: "nat \<Rightarrow> w32 list \<Rightarrow> w32 list" where
  "schedule 0 w = w"
| "schedule (Suc n) w =
     (let t = length w
      in schedule n (w @ [small_sigma1 (w ! (t - 2)) + w ! (t - 7) + small_sigma0 (w ! (t - 15)) + w ! (t - 16)]))"

fun sha_round :: "w32 \<times> w32 \<Rightarrow> w32 list \<Rightarrow> w32 list" where
  "sha_round (k, w) [a, b, c, d, e, f, g, h] =
     (let t1 = h + big_sigma1 e + sha_choice e f g + k + w;
          t2 = big_sigma0 a + majority a b c
      in [t1 + t2, a, b, c, d + t1, e, f, g])"
| "sha_round kw s = s"

definition compress :: "w32 list \<Rightarrow> w32 list \<Rightarrow> w32 list" where
  "compress block s = map2 (+) s (fold sha_round (zip SHA_K (schedule 48 block)) s)"

section \<open>Padding and blocks\<close>

fun be_bytes :: "nat \<Rightarrow> nat \<Rightarrow> nat list" where
  "be_bytes 0 n = []"
| "be_bytes (Suc k) n = be_bytes k (n div 256) @ [n mod 256]"

definition pad_message :: "nat list \<Rightarrow> nat list" where
  "pad_message bytes =
     (let n = length bytes
      in bytes @ [128] @ replicate ((119 - n mod 64) mod 64) 0 @ be_bytes 8 (n * 8))"

fun words_be :: "nat list \<Rightarrow> w32 list" where
  "words_be (a # b # c # d # bs) = (((of_nat a * 256 + of_nat b) * 256 + of_nat c) * 256 + of_nat d) # words_be bs"
| "words_be _ = []"

fun blocks16 :: "nat \<Rightarrow> w32 list \<Rightarrow> w32 list list" where
  "blocks16 0 ws = []"
| "blocks16 (Suc n) ws = take 16 ws # blocks16 n (drop 16 ws)"

definition sha256_words :: "nat list \<Rightarrow> w32 list" where
  "sha256_words bytes =
     (let padded = pad_message bytes
      in fold compress (blocks16 (length padded div 64) (words_be padded)) SHA_H)"

definition word_hex :: "w32 \<Rightarrow> string" where
  "word_hex w = map (\<lambda>i. hex_char (unat (drop_bit (4 * (7 - i)) w AND 15))) [0..<8]"

definition sha256_hexdigest :: "string \<Rightarrow> string" where
  "sha256_hexdigest content = concat (map word_hex (sha256_words (map of_char content)))"

text \<open>The padded message is a whole number of blocks and the digest has sixty-four digits.\<close>

lemma length_be_bytes [simp]: "length (be_bytes k n) = k"
  by (induction k n rule: be_bytes.induct) simp_all

lemma length_pad_message: "64 dvd length (pad_message bytes)"
proof -
  define r where "r = length bytes mod 64"
  define q where "q = length bytes div 64"
  have n: "length bytes = q * 64 + r" "r < 64" by (simp_all add: r_def q_def)
  have "(119 - r) mod 64 = (if r \<le> 55 then 55 - r else 119 - r)"
  proof (cases "r \<le> 55")
    case True
    then have "119 - r = (55 - r) + 64" by simp
    then have "(119 - r) mod 64 = (55 - r) mod 64" by (simp only: mod_add_self2)
    with True show ?thesis by simp
  qed (use n in simp)
  then have "length (pad_message bytes) = 64 * (if r \<le> 55 then q + 1 else q + 2)"
    using n by (simp add: pad_message_def Let_def r_def [symmetric])
  then show ?thesis by simp
qed

lemma length_sha_round [simp]: "length (sha_round kw s) = length s"
  by (cases "(kw, s)" rule: sha_round.cases) (simp_all add: Let_def)

lemma length_schedule [simp]: "length (schedule n w) = n + length w"
  by (induction n w rule: schedule.induct) (simp_all add: Let_def)

lemma length_compress [simp]: "length (compress b s) = length s"
proof -
  have "length (fold sha_round kws s) = length s" for kws
    by (induction kws arbitrary: s) simp_all
  then show ?thesis by (simp add: compress_def)
qed

lemma length_first_primes: "length (primes_below 20) = 8"
  by code_simp

lemma length_sha256_hexdigest: "length (sha256_hexdigest content) = 64"
proof -
  have "length (fold compress bs s) = length s" for bs s
    by (induction bs arbitrary: s) simp_all
  then have "length (sha256_words (map of_char content)) = 8"
    by (simp add: sha256_words_def Let_def SHA_H_def length_first_primes)
  moreover have "length (concat (map word_hex ws)) = 8 * length ws" for ws :: "w32 list"
    by (induction ws) (simp_all add: word_hex_def)
  ultimately show ?thesis by (simp add: sha256_hexdigest_def)
qed

end
