(* ===== verification/Import_Service.thy ===== *)
theory Import_Service
  imports Zerodha_Adapter Sha256 Accounts Reconstruction
begin

text \<open>
  \<open>infrastructure/repositories/import_record_repo.py\<close> and \<open>application/import_service.py\<close>: the
  pipeline of one uploaded file. The session flushes before each query, so a row that violates a
  constraint ends the import with the error of the database. The engine of the import service has
  no P and L service; the backfill at the end computes the results of the trades it closed.
\<close>

section \<open>import_record_repo.py\<close>

definition import_record_exists :: "string \<Rightarrow> uuid \<Rightarrow> db \<Rightarrow> bool" where
  "import_record_exists file_hash account_id d \<longleftrightarrow>
     first_row (filter (\<lambda>r. ir_file_hash r = file_hash \<and> ir_account_id r = account_id)
       (import_records d)) \<noteq> None"

definition list_by_account :: "uuid \<Rightarrow> nat \<Rightarrow> db \<Rightarrow> import_record_row list" where
  "list_by_account account_id limit d =
     take limit (order_by (\<lambda>a b. ir_imported_at b \<le> ir_imported_at a)
       (filter (\<lambda>r. ir_account_id r = account_id) (import_records d)))"

definition import_record_check :: "import_record_row \<Rightarrow> bool" where
  "import_record_check r \<longleftrightarrow>
     ir_broker r \<in> {''ZERODHA'', ''UPSTOX'', ''ANGEL_ONE'', ''MANUAL''} \<and>
     ir_status r \<in> {''COMPLETE'', ''PARTIAL'', ''EMPTY'', ''FAILED''}"

definition create_import_record ::
  "timestamp \<Rightarrow> uuid \<Rightarrow> string \<Rightarrow> string \<Rightarrow> string option \<Rightarrow> nat \<Rightarrow> nat \<Rightarrow> string \<Rightarrow> db \<Rightarrow> exn + uuid \<times> db" where
  "create_import_record now account_id broker file_hash file_name row_count error_count status d =
     (let (pk, d1) = uuid4 d;
          obj = \<lparr>ir_id = pk, ir_account_id = account_id, ir_broker = broker,
                 ir_file_hash = file_hash, ir_file_name = file_name, ir_row_count = row_count,
                 ir_error_count = error_count, ir_status = status, ir_imported_at = now\<rparr>
      in rbind (check (case file_name of None \<Rightarrow> True | Some n \<Rightarrow> length n \<le> 255) (Py DataError)) (\<lambda>_.
         rbind (check (import_record_check obj \<and> \<not> import_record_exists file_hash account_id d1)
                  (Py IntegrityError)) (\<lambda>_.
         Inr (pk, d1\<lparr>import_records := append_row (import_records d1) obj\<rparr>))))"

section \<open>import_service.py\<close>

record import_summary =
  su_import_record_id :: uuid
  su_fills_ingested :: nat
  su_fills_skipped :: nat
  su_row_errors :: nat
  su_trades_created :: nat
  su_trades_closed :: nat
  su_pnl_succeeded :: nat
  su_pnl_failed :: nat
  su_status :: string

definition select_adapter :: "broker_adapter_port list \<Rightarrow> string \<Rightarrow> string \<Rightarrow> exn + broker_adapter_port" where
  "select_adapter adapters broker file_content =
     (case first_row (filter (\<lambda>a. ba_detect a file_content) adapters) of
        None \<Rightarrow> Inl (Imp UnrecognizedFileError)
      | Some a \<Rightarrow> Inr a)"

definition resolve_instrument :: "normalized_fill \<Rightarrow> db \<Rightarrow> exn + uuid \<times> db" where
  "resolve_instrument fill d =
     get_or_create (nf_symbol_raw fill) (nf_exchange_segment fill) (nf_instrument_type fill)
       (nf_expiry_date fill) (nf_strike_price fill) d"

text \<open>The local variables of the loop over the fills.\<close>

record import_state =
  is_db :: db
  is_ingested :: nat
  is_skipped :: nat
  is_row_errors :: nat
  is_units :: "(uuid \<times> string \<times> string) list"
  is_seen :: "(uuid \<times> string) set"

definition ingest_fill ::
  "timestamp \<Rightarrow> uuid \<Rightarrow> uuid \<Rightarrow> normalized_fill \<Rightarrow> import_state \<Rightarrow> exn + import_state" where
  "ingest_fill now user_id account_id fill s =
     (case resolve_instrument fill (is_db s) of
        Inl (Imp (InstrumentNotFoundError a b c)) \<Rightarrow> Inr (s\<lparr>is_row_errors := Suc (is_row_errors s)\<rparr>)
      | Inl e \<Rightarrow> Inl e
      | Inr (instrument_id, d1) \<Rightarrow>
          if fill_exists (nf_broker_trade_id fill) account_id d1
          then Inr (s\<lparr>is_db := d1, is_skipped := Suc (is_skipped s)\<rparr>)
          else
            rbind (insert_normalized_fill now user_id account_id instrument_id fill d1) (\<lambda>(pk, d2).
            let unit_key = (instrument_id, nf_product_type fill);
                s1 = s\<lparr>is_db := d2, is_ingested := Suc (is_ingested s)\<rparr>
            in Inr (if unit_key \<in> is_seen s then s1
                    else s1\<lparr>is_seen := insert unit_key (is_seen s),
                            is_units := is_units s @
                              [(instrument_id, nf_product_type fill, nf_instrument_type fill)]\<rparr>)))"

definition ingest_fills ::
  "timestamp \<Rightarrow> uuid \<Rightarrow> uuid \<Rightarrow> adapter_parse_result \<Rightarrow> db \<Rightarrow> exn + import_state" where
  "ingest_fills now user_id account_id parse_result d =
     rfold (ingest_fill now user_id account_id) (ap_fills parse_result)
       \<lparr>is_db = d, is_ingested = 0, is_skipped = 0, is_row_errors = length (ap_errors parse_result),
        is_units = [], is_seen = {}\<rparr>"

text \<open>Step 6: the database with the trades created and closed so far.\<close>

definition reconstruct_unit ::
  "uuid \<Rightarrow> uuid \<Rightarrow> uuid \<times> string \<times> string \<Rightarrow> db \<times> nat \<times> nat \<Rightarrow> exn + db \<times> nat \<times> nat" where
  "reconstruct_unit user_id account_id u s =
     (case (u, s) of ((instrument_id, product_type, instrument_type), (d, opened, ended)) \<Rightarrow>
        rbind (run False user_id account_id instrument_id product_type instrument_type d) (\<lambda>(d', result).
        Inr (d', opened + trades_opened result, ended + trades_closed result)))"

definition import_status :: "nat \<Rightarrow> nat \<Rightarrow> nat \<Rightarrow> string" where
  "import_status ingested skipped row_errors =
     (if ingested = 0 \<and> skipped = 0 then (if 0 < row_errors then ''FAILED'' else ''EMPTY'')
      else if 0 < row_errors then ''PARTIAL'' else ''COMPLETE'')"

definition import_fills ::
  "broker_adapter_port list \<Rightarrow> timestamp \<Rightarrow> uuid \<Rightarrow> uuid \<Rightarrow> string \<Rightarrow> string option \<Rightarrow> string option \<Rightarrow>
   db \<Rightarrow> exn + import_summary \<times> db" where
  "import_fills adapters now user_id account_id file_content product_type_hint file_name d =
     rbind (get_active user_id account_id d) (\<lambda>account.
     let file_hash = sha256_hexdigest file_content
     in rbind (check (\<not> import_record_exists file_hash account_id d)
                (Imp (DuplicateImportError file_hash account_id))) (\<lambda>_.
        rbind (select_adapter adapters (a_broker account) file_content) (\<lambda>adapter.
        rbind (ba_parse adapter file_content product_type_hint) (\<lambda>parse_result.
        rbind (ingest_fills now user_id account_id parse_result d) (\<lambda>s.
        rbind (rfold (reconstruct_unit user_id (a_id account)) (is_units s) (is_db s, 0, 0))
          (\<lambda>(d1, trades_created, trades_closed).
        let (d2, pnl_succeeded, pnl_failed) = backfill_all_closed user_id d1;
            status = import_status (is_ingested s) (is_skipped s) (is_row_errors s)
        in case create_import_record now account_id (a_broker account) file_hash file_name
                  (total_rows parse_result) (is_row_errors s) status d2 of
             Inl (Py IntegrityError) \<Rightarrow> Inl (Imp (DuplicateImportError file_hash account_id))
           | Inl e \<Rightarrow> Inl e
           | Inr (import_record_id, d3) \<Rightarrow>
               Inr (\<lparr>su_import_record_id = import_record_id, su_fills_ingested = is_ingested s,
                     su_fills_skipped = is_skipped s, su_row_errors = is_row_errors s,
                     su_trades_created = trades_created, su_trades_closed = trades_closed,
                     su_pnl_succeeded = pnl_succeeded, su_pnl_failed = pnl_failed,
                     su_status = status\<rparr>, d3)))))))"

end
