(* ===== verification/Zerodha_Properties.thy ===== *)
theory Zerodha_Properties
  imports Zerodha_Adapter
begin

text \<open>
  The adapter keeps the contract of the port, for every file: what it returns are well-formed
  fills and row errors, one for each row. The expiry of a monthly contract is the last Thursday.
\<close>

lemma result_elim:
  assumes "rbind m g = Inr y"
  obtains x where "m = Inr x" "g x = Inr y"
  using assms by (cases m) simp_all

section \<open>The parts of a row\<close>

lemma require_Inr: "require row field i = Inr v \<Longrightarrow> v \<noteq> []"
  by (auto simp: require_def bad_def Let_def split: if_splits)

lemma upper_eq_Nil [simp]: "upper s = [] \<longleftrightarrow> s = []"
  by (simp add: upper_def)

lemma row_exchange_segment_Inr:
  "row_exchange_segment i ex seg = Inr es \<Longrightarrow>
   ex = ''NSE'' \<and> seg = ''EQ'' \<and> es = ''NSE_EQ'' \<or> ex = ''NSE'' \<and> seg = ''FO'' \<and> es = ''NSE_FO'' \<or>
   ex = ''BSE'' \<and> seg = ''EQ'' \<and> es = ''BSE_EQ''"
  unfolding row_exchange_segment_def EXCHANGE_SEGMENT_def bad_def by (simp split: if_splits)

lemma row_quantity_Inr: "row_quantity i s = Inr q \<Longrightarrow> 0 < q \<and> q \<in> \<int>"
  by (auto simp: row_quantity_def bad_def split: option.splits if_splits)

lemma row_price_Inr: "row_price i s = Inr (Some p) \<Longrightarrow> 0 < p"
  by (auto simp: row_price_def bad_def split: option.splits if_splits decimal_text.splits)

lemma row_product_type_Inr:
  assumes "row_product_type i row col hint seg ser = Inr p"
    and "hint = None \<or> the hint \<in> set VALID_PRODUCTS"
  shows "p \<in> set VALID_PRODUCTS"
proof (cases col)
  case True
  with assms(1) show ?thesis by (simp add: row_product_type_def bad_def Let_def split: if_splits)
next
  case False
  show ?thesis
  proof (cases "seg = ''EQ'' \<and> ser = ''BE''")
    case True
    with False assms(1) have "p = ''CNC''" by (simp add: row_product_type_def)
    then show ?thesis by (simp add: VALID_PRODUCTS_def)
  next
    case no: False
    from False no assms(1) have "hint = Some p"
      by (simp only: row_product_type_def if_False bad_def) (auto split: option.splits)
    with assms(2) show ?thesis by simp
  qed
qed

lemma first_match_Some:
  assumes "first_match f n = Some x"
  shows "\<exists>k. 1 \<le> k \<and> k \<le> n \<and> f k = Some x \<and> (\<forall>j. 1 \<le> j \<longrightarrow> j < k \<longrightarrow> f j = None)"
  using assms
proof (induction n)
  case (Suc n)
  have step: "first_match f (Suc n) = (if first_match f n = None then f (Suc n) else first_match f n)"
    by (simp add: first_match_def)
  have none: "f j = None" if "first_match f n = None" "1 \<le> j" "j \<le> n" for j n
    using that by (induction n) (auto simp: first_match_def le_Suc_eq split: if_splits)
  show ?case
  proof (cases "first_match f n")
    case None
    with Suc.prems step have "f (Suc n) = Some x" by simp
    moreover have "\<forall>j. 1 \<le> j \<longrightarrow> j < Suc n \<longrightarrow> f j = None"
      using none [OF None] by (simp add: less_Suc_eq_le)
    ultimately show ?thesis by (intro exI [of _ "Suc n"]) simp
  next
    case (Some y)
    with Suc.prems step have "first_match f n = Some x" by simp
    from Suc.IH [OF this] show ?thesis using le_SucI by blast
  qed
qed (simp add: first_match_def)

lemma first_match_None: "first_match f n = None \<Longrightarrow> 1 \<le> j \<Longrightarrow> j \<le> n \<Longrightarrow> f j = None"
  by (induction n) (auto simp: first_match_def le_Suc_eq split: if_splits)

lemma strike_and_type_Some:
  "strike_and_type t = Some (k, ty) \<Longrightarrow> (ty = ''CE'' \<or> ty = ''PE'')"
  by (simp add: strike_and_type_def Let_def split: if_splits)

lemma monthly_at_Some:
  assumes "monthly_at s k = Some (base, y, m, strike, ty)"
  shows "base = take k s \<and> base_ok base \<and> m \<in> snd ` set MONTH_ABBR \<and>
    (\<exists>yy. digits_at 0 2 (drop k s) = Some yy \<and> y = 2000 + yy) \<and>
    strike_and_type (drop 5 (drop k s)) = Some (strike, ty)"
  using assms
  by (auto simp: monthly_at_def Let_def split: if_splits option.splits dest!: map_of_SomeD intro: rev_image_eqI)

lemma weekly_at_Some:
  assumes "weekly_at s k = Some (base, y, m, dd, strike, ty)"
  shows "base_ok base \<and> (\<exists>t. strike_and_type t = Some (strike, ty))"
  using assms by (auto simp: weekly_at_def Let_def split: if_splits option.splits)

lemma fut_at_Some:
  assumes "fut_at s k = Some (base, y, m)"
  shows "base = take k s \<and> base_ok base \<and> m \<in> snd ` set MONTH_ABBR \<and>
    (\<exists>yy. digits_at 0 2 (drop k s) = Some yy \<and> y = 2000 + yy)"
  using assms
  by (auto simp: fut_at_def Let_def split: if_splits option.splits dest!: map_of_SomeD intro: rev_image_eqI)

text \<open>The three outcomes of a symbol that is recognised.\<close>

lemma parse_fo_symbol_cases:
  assumes "parse_fo_symbol symbol = Inr (Some (base, ty, e, k))"
  obtains (fut) y m where "first_match (fut_at (upper symbol)) (length symbol) = Some (base, y, m)"
      "ty = ''FUT''" "e = Some (last_thursday y m)" "k = None"
    | (monthly) y m strike where "first_match (fut_at (upper symbol)) (length symbol) = None"
      "first_match (monthly_at (upper symbol)) (length symbol) = Some (base, y, m, strike, ty)"
      "e = Some (last_thursday y m)" "k = Some strike"
    | (weekly) y m dd strike n where "first_match (weekly_at (upper symbol)) (length symbol) = Some (base, y, m, dd, strike, ty)"
      "make_date y m dd = Some n" "e = Some n" "k = Some strike"
proof -
  have len: "length (upper symbol) = length symbol" by (simp add: upper_def)
  show ?thesis
  proof (cases "first_match (fut_at (upper symbol)) (length symbol)")
    case (Some x)
    obtain b y m where x: "x = (b, y, m)" by (cases x)
    with assms Some show ?thesis by (intro fut [of y m]) (simp_all add: parse_fo_symbol_def len)
  next
    case no_fut: None
    show ?thesis
    proof (cases "first_match (monthly_at (upper symbol)) (length symbol)")
      case (Some x)
      obtain b y m strike t where x: "x = (b, y, m, strike, t)" by (cases x)
      with assms Some no_fut show ?thesis by (intro monthly [of y m strike]) (simp_all add: parse_fo_symbol_def len)
    next
      case no_month: None
      show ?thesis
      proof (cases "first_match (weekly_at (upper symbol)) (length symbol)")
        case None
        with assms no_fut no_month show ?thesis by (simp add: parse_fo_symbol_def len)
      next
        case (Some x)
        obtain b y m dd strike t where x: "x = (b, y, m, dd, strike, t)" by (cases x)
        show ?thesis
        proof (cases "make_date y m dd")
          case None
          with assms Some no_fut no_month x show ?thesis by (simp add: parse_fo_symbol_def len)
        next
          case n: (Some n)
          with assms Some no_fut no_month x show ?thesis
            by (intro weekly [of y m dd strike n]) (simp_all add: parse_fo_symbol_def len)
        qed
      qed
    qed
  qed
qed

lemma parse_fo_symbol_contract:
  assumes "parse_fo_symbol symbol = Inr (Some (base, ty, e, k))"
  shows "base_ok base \<and> ty \<noteq> ''EQ'' \<and> contract_ok ty e k"
  using assms
proof (cases rule: parse_fo_symbol_cases)
  case (fut y m)
  from first_match_Some [OF fut(1)] obtain i where "fut_at (upper symbol) i = Some (base, y, m)" by blast
  from fut_at_Some [OF this] have "base_ok base" by blast
  with fut(2-4) show ?thesis by (simp add: contract_ok_def)
next
  case (monthly y m strike)
  from first_match_Some [OF monthly(2)] obtain i where
    "monthly_at (upper symbol) i = Some (base, y, m, strike, ty)" by blast
  note f = monthly_at_Some [OF this]
  then have "base_ok base" "ty = ''CE'' \<or> ty = ''PE''" using strike_and_type_Some by blast+
  with monthly(3,4) show ?thesis by (elim disjE) (simp_all add: contract_ok_def)
next
  case (weekly y m dd strike n)
  from first_match_Some [OF weekly(1)] obtain i where
    "weekly_at (upper symbol) i = Some (base, y, m, dd, strike, ty)" by blast
  note f = weekly_at_Some [OF this]
  then have "base_ok base" "ty = ''CE'' \<or> ty = ''PE''" using strike_and_type_Some by blast+
  with weekly(3,4) show ?thesis by (elim disjE) (simp_all add: contract_ok_def)
qed

lemma row_contract_Inr:
  assumes "row_contract i sy seg = Inr (base, ty, e, k)" and "sy \<noteq> []"
  shows "base \<noteq> [] \<and> contract_ok ty e k \<and> (ty = ''EQ'' \<longleftrightarrow> seg = ''EQ'')"
proof (cases "seg = ''EQ''")
  case True
  with assms show ?thesis by (simp add: row_contract_def contract_ok_def)
next
  case no: False
  show ?thesis
  proof (cases "seg = ''FO''")
    case True
    have "rbind (parse_fo_symbol sy) (\<lambda>parsed.
        case parsed of
          None \<Rightarrow> bad i ''symbol'' sy (''Cannot parse F&O symbol: '' @ repr sy)
        | Some c \<Rightarrow> Inr c) = Inr (base, ty, e, k)"
      using assms(1) unfolding row_contract_def if_not_P [OF no] if_P [OF True] .
    then obtain c where c: "parse_fo_symbol sy = Inr c" and
      d: "(case c of None \<Rightarrow> bad i ''symbol'' sy (''Cannot parse F&O symbol: '' @ repr sy) | Some c \<Rightarrow> Inr c) =
        Inr (base, ty, e, k)"
      by (elim result_elim)
    from d have "c = Some (base, ty, e, k)" by (cases c) (simp_all add: bad_def)
    with c have "parse_fo_symbol sy = Inr (Some (base, ty, e, k))" by simp
    from parse_fo_symbol_contract [OF this] no show ?thesis by (simp add: base_ok_def)
  next
    case False
    with no assms(1) show ?thesis by (simp add: row_contract_def bad_def)
  qed
qed

lemma derive_session_in: "derive_session ts \<in> {''PRE_OPEN'', ''REGULAR'', ''POST_CLOSE''}"
  by (simp add: derive_session_def Let_def)

lemma expiry_squareoff_date: "expiry_squareoff seg e n a ts \<Longrightarrow> e = Some n"
  by (simp add: expiry_squareoff_def)

section \<open>A parsed row\<close>

lemma parse_row_Inr:
  assumes "parse_row row i col hint = Inr f" and "hint = None \<or> the hint \<in> set VALID_PRODUCTS"
  obtains symbol trade_id order_id exchange segment trade_type auction date_str ts_str qty price_str
    es n ts side q p product base ty e k
  where "require row ''symbol'' i = Inr symbol" "require row ''trade_id'' i = Inr trade_id"
    "require row ''order_id'' i = Inr order_id" "require row ''price'' i = Inr price_str"
    "row_exchange_segment i (upper exchange) (upper segment) = Inr es"
    "side = ''BUY'' \<or> side = ''SELL''" "row_quantity i qty = Inr q" "row_price i price_str = Inr (Some p)"
    "product \<in> set VALID_PRODUCTS" "row_contract i (upper symbol) (upper segment) = Inr (base, ty, e, k)"
    "f = \<lparr>nf_broker_trade_id = trade_id, nf_broker_order_id = order_id,
          nf_broker = ''ZERODHA'', nf_import_source = ''CSV'', nf_symbol_raw = base,
          nf_exchange = upper exchange, nf_exchange_segment = es,
          nf_instrument_type = ty, nf_expiry_date = e, nf_strike_price = k, nf_trade_date = n,
          nf_fill_timestamp = ts, nf_session = derive_session ts, nf_side = side, nf_quantity = q,
          nf_price = p, nf_product_type = product, nf_is_auction = (lower auction = ''yes''),
          nf_is_expiry_squareoff = expiry_squareoff (upper segment) e n (lower auction = ''yes'') ts\<rparr>"
proof -
  from assms(1) obtain symbol trade_id order_id exchange segment trade_type auction date_str ts_str qty price_str where
    r: "require row ''symbol'' i = Inr symbol" "require row ''trade_id'' i = Inr trade_id"
    "require row ''order_id'' i = Inr order_id" "require row ''exchange'' i = Inr exchange"
    "require row ''segment'' i = Inr segment" "require row ''trade_type'' i = Inr trade_type"
    "require row ''auction'' i = Inr auction" "require row ''trade_date'' i = Inr date_str"
    "require row ''order_execution_time'' i = Inr ts_str" "require row ''quantity'' i = Inr qty"
    "require row ''price'' i = Inr price_str"
    unfolding parse_row_def by (elim result_elim)
  note body = assms(1) [unfolded parse_row_def r rbind.simps Let_def]
  have cd: "upper segment \<noteq> ''CD''"
    using body by (cases "upper segment = ''CD''") (simp_all add: bad_def)
  note body = body [unfolded if_not_P [OF cd]]
  from body obtain es n ts side q price product c where
    es: "row_exchange_segment i (upper exchange) (upper segment) = Inr es" and
    side: "(if lower trade_type = ''buy'' then Inr ''BUY''
            else if lower trade_type = ''sell'' then Inr ''SELL''
            else bad i ''trade_type'' (lower trade_type) (''Unknown trade_type: '' @ repr (lower trade_type))) = Inr side" and
    q: "row_quantity i qty = Inr q" and price: "row_price i price_str = Inr price" and
    product: "row_product_type i row col hint (upper segment) (upper (strip (row_get row ''series''))) = Inr product" and
    c: "row_contract i (upper symbol) (upper segment) = Inr c" and
    fin: "(case c of (base, ty, e, k) \<Rightarrow>
      case price of None \<Rightarrow> Inl (Py DataError)
      | Some p \<Rightarrow> Inr
        \<lparr>nf_broker_trade_id = trade_id, nf_broker_order_id = order_id,
          nf_broker = ''ZERODHA'', nf_import_source = ''CSV'', nf_symbol_raw = base,
          nf_exchange = upper exchange, nf_exchange_segment = es,
          nf_instrument_type = ty, nf_expiry_date = e, nf_strike_price = k, nf_trade_date = n,
          nf_fill_timestamp = ts, nf_session = derive_session ts, nf_side = side, nf_quantity = q,
          nf_price = p, nf_product_type = product, nf_is_auction = (lower auction = ''yes''),
          nf_is_expiry_squareoff = expiry_squareoff (upper segment) e n (lower auction = ''yes'') ts\<rparr>) = Inr f"
    by (elim result_elim)
  obtain base ty e k where c': "c = (base, ty, e, k)" by (cases c)
  obtain p where p: "price = Some p" using fin c' by (cases price) simp_all
  have "side = ''BUY'' \<or> side = ''SELL''"
    using side by (cases "lower trade_type = ''buy''"; cases "lower trade_type = ''sell''") (simp_all add: bad_def)
  then show ?thesis
    using that r(1-3,11) es q price [unfolded p] row_product_type_Inr [OF product assms(2)] c [unfolded c']
      fin [unfolded c' p prod.case option.case sum.inject, symmetric] by blast
qed

lemma parse_row_well_formed:
  assumes "parse_row row i col hint = Inr f" and "hint = None \<or> the hint \<in> set VALID_PRODUCTS"
  shows "fill_well_formed f \<and> nf_broker f = ''ZERODHA'' \<and> nf_quantity f \<in> \<int>"
  using assms
proof (rule parse_row_Inr)
  fix symbol trade_id order_id exchange segment auction qty price_str es n ts side q p product base ty e k
  assume r: "require row ''symbol'' i = Inr symbol" "require row ''trade_id'' i = Inr trade_id"
    "require row ''order_id'' i = Inr order_id" "require row ''price'' i = Inr price_str"
    and es: "row_exchange_segment i (upper exchange) (upper segment) = Inr es"
    and side: "side = ''BUY'' \<or> side = ''SELL''"
    and q: "row_quantity i qty = Inr q" and p: "row_price i price_str = Inr (Some p)"
    and product: "product \<in> set VALID_PRODUCTS"
    and c: "row_contract i (upper symbol) (upper segment) = Inr (base, ty, e, k)"
    and f: "f = \<lparr>nf_broker_trade_id = trade_id, nf_broker_order_id = order_id,
          nf_broker = ''ZERODHA'', nf_import_source = ''CSV'', nf_symbol_raw = base,
          nf_exchange = upper exchange, nf_exchange_segment = es,
          nf_instrument_type = ty, nf_expiry_date = e, nf_strike_price = k, nf_trade_date = n,
          nf_fill_timestamp = ts, nf_session = derive_session ts, nf_side = side, nf_quantity = q,
          nf_price = p, nf_product_type = product, nf_is_auction = (lower auction = ''yes''),
          nf_is_expiry_squareoff = expiry_squareoff (upper segment) e n (lower auction = ''yes'') ts\<rparr>"
  have ids: "trade_id \<noteq> []" "order_id \<noteq> []" "upper symbol \<noteq> []" using r require_Inr by fastforce+
  note con = row_contract_Inr [OF c ids(3)]
  have seg: "(ty = ''EQ'') = (es \<noteq> ''NSE_FO'')"
    "(upper exchange, es) \<in> {(''NSE'', ''NSE_EQ''), (''NSE'', ''NSE_FO''), (''BSE'', ''BSE_EQ'')}"
    using row_exchange_segment_Inr [OF es] con by (elim disjE conjE; simp)+
  have sq: "expiry_squareoff (upper segment) e n (lower auction = ''yes'') ts \<longrightarrow> e = Some n"
    using expiry_squareoff_date by blast
  have "0 < q" "q \<in> \<int>" using row_quantity_Inr [OF q] by simp_all
  with ids con seg sq side row_price_Inr [OF p] product derive_session_in [of ts]
  show ?thesis
    by (simp add: f fill_well_formed_def VALID_PRODUCTS_def)
qed

section \<open>The contract of the port\<close>

lemma parse_rows_ok:
  assumes "parse_rows col hint i rows res = Inr r" and "hint = None \<or> the hint \<in> set VALID_PRODUCTS"
    and "\<forall>f\<in>set (ap_fills res). fill_well_formed f \<and> nf_broker f = ''ZERODHA'' \<and> nf_quantity f \<in> \<int>"
    and "\<forall>e\<in>set (ap_errors res). is_invalid_fill e"
  shows "(\<forall>f\<in>set (ap_fills r). fill_well_formed f \<and> nf_broker f = ''ZERODHA'' \<and> nf_quantity f \<in> \<int>) \<and>
    (\<forall>e\<in>set (ap_errors r). is_invalid_fill e) \<and> total_rows r = total_rows res + length rows"
  using assms
proof (induction rows arbitrary: i res)
  case (Cons row rows)
  show ?case
  proof (cases "parse_row row i col hint")
    case (Inr f)
    from parse_row_well_formed [OF this Cons.prems(2)] Cons.prems(3)
    have "\<forall>f\<in>set (ap_fills (res\<lparr>ap_fills := ap_fills res @ [f]\<rparr>)).
        fill_well_formed f \<and> nf_broker f = ''ZERODHA'' \<and> nf_quantity f \<in> \<int>" by auto
    from Cons.IH [OF _ Cons.prems(2) this] Cons.prems(1,4) Inr show ?thesis by (simp add: total_rows_def)
  next
    case (Inl e)
    then obtain a b c m where e: "e = Imp (InvalidFillError a b c m)" and
      rec: "parse_rows col hint (Suc i) rows (res\<lparr>ap_errors := ap_errors res @ [InvalidFillError a b c m]\<rparr>) = Inr r"
      using Cons.prems(1) by (simp split: exn.splits import_error.splits)
    have "\<forall>e\<in>set (ap_errors (res\<lparr>ap_errors := ap_errors res @ [InvalidFillError a b c m]\<rparr>)). is_invalid_fill e"
      using Cons.prems(4) by auto
    from Cons.IH [OF rec Cons.prems(2) _ this] Cons.prems(3) show ?thesis by (simp add: total_rows_def)
  qed
qed simp

lemma length_strip_rows: "strip_rows header rows = Inr rs \<Longrightarrow> length rs = length rows"
  by (induction rows arbitrary: rs) (auto simp: rbind_eq_Inr)

lemma parse_stages:
  assumes "parse content hint = Inr r"
  obtains tx header rows where "detect content" "decode_utf_8_sig content = Some tx"
    "dict_reader tx = Inr (header, rows)" "rows \<noteq> []" "hint = None \<or> the hint \<in> set VALID_PRODUCTS"
    "total_rows r = length rows"
    "\<forall>f\<in>set (ap_fills r). fill_well_formed f \<and> nf_broker f = ''ZERODHA'' \<and> nf_quantity f \<in> \<int>"
    "\<forall>e\<in>set (ap_errors r). is_invalid_fill e"
proof -
  have d: "detect content" using assms by (cases "detect content") (simp_all add: parse_def)
  have h: "hint = None \<or> the hint \<in> set VALID_PRODUCTS"
    using assms d by (cases "hint \<noteq> None \<and> the hint \<notin> set VALID_PRODUCTS") (simp_all add: parse_def)
  obtain tx where t: "decode_utf_8_sig content = Some tx"
    using d by (cases "decode_utf_8_sig content") (simp_all add: detect_def)
  have nh: "\<not> (hint \<noteq> None \<and> the hint \<notin> set VALID_PRODUCTS)" using h by blast
  have "rbind (dict_reader tx) (\<lambda>(header, raw_rows).
            if raw_rows = [] then Inl (Imp EmptyFileError)
            else
              rbind (strip_rows header raw_rows) (\<lambda>rows.
              let has_product_col = (''product'' \<in> set (map (\<lambda>(k, v). lower k) (hd rows)))
              in if \<not> has_product_col \<and> hint = None \<and> list_ex row_needs_hint rows
                 then Inl (Imp MissingProductTypeError)
                 else parse_rows has_product_col hint 1 rows \<lparr>ap_fills = [], ap_errors = []\<rparr>)) = Inr r"
    using assms unfolding parse_def if_not_P [OF nh] t option.case using d by simp
  then obtain header rows where dr: "dict_reader tx = Inr (header, rows)" and
    body: "(if rows = [] then Inl (Imp EmptyFileError)
            else
              rbind (strip_rows header rows) (\<lambda>rows.
              let has_product_col = (''product'' \<in> set (map (\<lambda>(k, v). lower k) (hd rows)))
              in if \<not> has_product_col \<and> hint = None \<and> list_ex row_needs_hint rows
                 then Inl (Imp MissingProductTypeError)
                 else parse_rows has_product_col hint 1 rows \<lparr>ap_fills = [], ap_errors = []\<rparr>)) = Inr r"
    by (elim result_elim) (auto split: prod.splits)
  have ne: "rows \<noteq> []" using body by (cases "rows = []") simp_all
  from body [unfolded if_not_P [OF ne] Let_def] obtain rs where rs: "strip_rows header rows = Inr rs" and
    "(if \<not> ''product'' \<in> set (map (\<lambda>(k, v). lower k) (hd rs)) \<and> hint = None \<and> list_ex row_needs_hint rs
       then Inl (Imp MissingProductTypeError)
       else parse_rows (''product'' \<in> set (map (\<lambda>(k, v). lower k) (hd rs))) hint 1 rs
              \<lparr>ap_fills = [], ap_errors = []\<rparr>) = Inr r"
    by (elim result_elim)
  then have "parse_rows (''product'' \<in> set (map (\<lambda>(k, v). lower k) (hd rs))) hint 1 rs
              \<lparr>ap_fills = [], ap_errors = []\<rparr> = Inr r"
    by (simp only: split: if_splits) simp_all
  from parse_rows_ok [OF this h] length_strip_rows [OF rs]
  show ?thesis using that d t dr ne h by (simp add: total_rows_def)
qed

interpretation zerodha: broker_adapter detect parse
proof
  show "\<not> detect content \<Longrightarrow> parse content hint = Inl (Imp UnrecognizedFileError)" for content hint
    by (simp add: parse_def)
  show "0 < total_rows r" if "parse content hint = Inr r" for content hint r
    using that by (rule parse_stages) simp
  show "fill_well_formed f" if "parse content hint = Inr r" "f \<in> set (ap_fills r)" for content hint r f
    using that(1) by (rule parse_stages) (use that(2) in blast)
  show "is_invalid_fill e" if "parse content hint = Inr r" "e \<in> set (ap_errors r)" for content hint r e
    using that(1) by (rule parse_stages) (use that(2) in blast)
qed

lemma whole_number_fits: "of_int n < (10 ^ 14 - 1 / 20000 :: rat) \<longleftrightarrow> of_int n < (10 ^ 14 :: rat)"
proof
  assume "of_int n < (10 ^ 14 :: rat)"
  then have "n < 10 ^ 14" by (metis of_int_less_iff of_int_numeral of_int_power)
  then have "n \<le> 10 ^ 14 - 1" by simp
  then have "of_int n \<le> (of_int (10 ^ 14 - 1) :: rat)" by (simp only: of_int_le_iff)
  then show "of_int n < (10 ^ 14 - 1 / 20000 :: rat)" by simp
qed simp

text \<open>
  C28: the types of what the adapter returns. Whatever bytes are uploaded, a result has at least
  one row, exactly one fill or one row error for each record of the file, every fill has the
  domain that its declaration promises (sides, sessions, products, segments, a positive whole
  quantity, a positive price, an expiry and a strike exactly for the types that have them), and every
  fill finds its instrument without \<open>InstrumentNotFoundError\<close>. Of what the table asks of a row,
  these are the conditions the adapter does not settle, and a fill is stored exactly when they hold: the
  numbers fit their columns, the price does not round to zero at four decimal places, neither identifier
  has more than 64 characters, and no fill of the broker or of the account has the identifier.
\<close>

theorem parsed_fills_well_typed:
  assumes "parse content hint = Inr r"
  shows "0 < total_rows r \<and>
    (\<exists>tx header rows. decode_utf_8_sig content = Some tx \<and> dict_reader tx = Inr (header, rows) \<and>
       total_rows r = length rows) \<and>
    (\<forall>e\<in>set (ap_errors r). is_invalid_fill e) \<and>
    (\<forall>f\<in>set (ap_fills r). fill_well_formed f \<and> nf_quantity f \<in> \<int> \<and>
       (\<forall>d e. find_for_fill (nf_symbol_raw f) (nf_exchange_segment f) (nf_instrument_type f)
                (nf_expiry_date f) (nf_strike_price f) d \<noteq> Inl e) \<and>
       (\<forall>now u a i d. (\<exists>s. insert_normalized_fill now u a i f d = Inr s) \<longleftrightarrow>
          nf_quantity f < 10 ^ 14 \<and> 1 / 20000 \<le> nf_price f \<and> nf_price f < 10 ^ 14 - 1 / 20000 \<and>
          length (nf_broker_trade_id f) \<le> 64 \<and> length (nf_broker_order_id f) \<le> 64 \<and>
          (\<forall>x\<in>set (execution_fills d). x_fill_id x = Some (nf_broker_trade_id f) \<longrightarrow>
             x_broker x \<noteq> nf_broker f \<and> x_account_id x \<noteq> Some a)))"
proof -
  have 1: "\<exists>tx header rows. decode_utf_8_sig content = Some tx \<and> dict_reader tx = Inr (header, rows) \<and>
       total_rows r = length rows"
    using assms by (rule parse_stages) blast
  have 2: "nf_quantity f \<in> \<int>" if "f \<in> set (ap_fills r)" for f
    using assms by (rule parse_stages) (use that in blast)
  have 3: "find_for_fill (nf_symbol_raw f) (nf_exchange_segment f) (nf_instrument_type f)
      (nf_expiry_date f) (nf_strike_price f) d \<noteq> Inl e" if "f \<in> set (ap_fills r)" for f d e
    using zerodha.parsed_resolvable [OF assms that] .
  have q: "number_fits (nf_quantity f) \<longleftrightarrow> nf_quantity f < 10 ^ 14" if f: "f \<in> set (ap_fills r)" for f
  proof -
    obtain n where n: "nf_quantity f = of_int n" using 2 [OF f] by (auto elim: Ints_cases)
    have "0 < n" using zerodha.fills_well_formed [OF assms f] n by (simp add: fill_well_formed_def)
    then have "1 \<le> n" by simp
    then have "(1::rat) \<le> of_int n" by (simp only: of_int_1_le_iff)
    then show ?thesis using whole_number_fits [of n] by (simp add: number_fits_def n)
  qed
  have 4: "(\<exists>s. insert_normalized_fill now u a i f d = Inr s) \<longleftrightarrow>
          nf_quantity f < 10 ^ 14 \<and> 1 / 20000 \<le> nf_price f \<and> nf_price f < 10 ^ 14 - 1 / 20000 \<and>
          length (nf_broker_trade_id f) \<le> 64 \<and> length (nf_broker_order_id f) \<le> 64 \<and>
          (\<forall>x\<in>set (execution_fills d). x_fill_id x = Some (nf_broker_trade_id f) \<longrightarrow>
             x_broker x \<noteq> nf_broker f \<and> x_account_id x \<noteq> Some a)"
    if "f \<in> set (ap_fills r)" for f now u a i d
    unfolding zerodha.parsed_insertion [OF assms that] q [OF that] by (auto simp: number_fits_def)
  show ?thesis
    using 1 2 3 4 zerodha.nonempty [OF assms] zerodha.errors_invalid [OF assms]
      zerodha.fills_well_formed [OF assms] by blast
qed

definition csv_header :: string where
  "csv_header = ''symbol,isin,trade_date,exchange,segment,series,trade_type,auction,quantity,price,trade_id,order_id,order_execution_time'' @ [CHR 0x0A]"

definition sample_csv :: string where
  "sample_csv = csv_header @
     ''INFY,X,2025-01-02,NSE,EQ,EQ,buy,no,10,1500.50,T1,O1,2025-01-02 09:14:59'' @ [CHR 0x0A] @
     ''nifty25jan23500ce,,2025-01-30,NSE,FO,,sell,no,75,1e2,T2,O2,2025-01-30 15:20:00'' @ [CHR 0x0D, CHR 0x0A] @
     ''TCS,X,2025-01-02,NSE,EQ,EQ,buy,no,0,1,T3,O3,2025-01-02 10:00:00'' @ [CHR 0x0A]"

lemma sample_parse:
  "(case parse sample_csv (Some ''MIS'') of
      Inr r \<Rightarrow> (map nf_symbol_raw (ap_fills r), map nf_price (ap_fills r), ap_errors r) =
        ([''INFY'', ''NIFTY''], [3001 / 2, 100], [InvalidFillError 3 ''quantity'' ''0'' ''Must be > 0''])
    | Inl e \<Rightarrow> False)"
  by code_simp

theorem parsed_fills_well_typed_witness:
  "\<exists>r f. parse sample_csv (Some ''MIS'') = Inr r \<and> total_rows r = 3 \<and> f \<in> set (ap_fills r) \<and>
     nf_symbol_raw f = ''NIFTY'' \<and> fill_well_formed f"
proof -
  obtain r where r: "parse sample_csv (Some ''MIS'') = Inr r" "map nf_symbol_raw (ap_fills r) = [''INFY'', ''NIFTY'']"
    "ap_errors r = [InvalidFillError 3 ''quantity'' ''0'' ''Must be > 0'']"
    using sample_parse by (cases "parse sample_csv (Some ''MIS'')") simp_all
  then obtain f g where f: "ap_fills r = [g, f]" "nf_symbol_raw f = ''NIFTY''"
    by (auto simp: map_eq_Cons_conv)
  from parsed_fills_well_typed [OF r(1)] have "\<forall>f\<in>set (ap_fills r). fill_well_formed f" by blast
  with f have "fill_well_formed f" by simp
  moreover have "total_rows r = 3" using f r(3) by (simp add: total_rows_def)
  ultimately show ?thesis using r(1) f by (intro exI [of _ r] exI [of _ f] conjI) simp_all
qed

text \<open>
  A price of less than half the last decimal place of its column is a fill for the adapter, whose
  only test is that it is positive, and the table refuses it: the import of the file ends in an
  unhandled error of the database.
\<close>

definition tiny_csv :: string where
  "tiny_csv = csv_header @
     ''INFY,X,2025-01-02,NSE,EQ,EQ,buy,no,10,0.00001,T1,O1,2025-01-02 09:14:59'' @ [CHR 0x0A]"

theorem tiny_price_parses_and_is_refused:
  "(case parse tiny_csv (Some ''MIS'') of
      Inl e \<Rightarrow> False
    | Inr r \<Rightarrow> ap_errors r = [] \<and>
        map (\<lambda>f. case insert_normalized_fill 0 7 8 50 f empty_db of Inl e \<Rightarrow> e = Py IntegrityError | Inr s \<Rightarrow> False)
          (ap_fills r) = [True])"
  by code_simp

section \<open>Monthly contracts\<close>

text \<open>The last Thursday of a month, among the dates of that month.\<close>

definition last_thursday_of :: "int \<Rightarrow> int \<Rightarrow> day \<Rightarrow> bool" where
  "last_thursday_of y m n \<longleftrightarrow> (\<exists>d. make_date y m d = Some n) \<and> weekday n = 3 \<and>
     (\<forall>d n'. make_date y m d = Some n' \<longrightarrow> weekday n' = 3 \<longrightarrow> n' \<le> n)"

lemma day_of_civil_day: "day_of_civil y m d = day_of_civil y m 1 + (d - 1)"
  by (simp add: day_of_civil_def Let_def)

lemma february: "2000 \<le> y \<Longrightarrow> y \<le> 2099 \<Longrightarrow> day_of_civil y 3 1 = day_of_civil y 2 1 + days_in_month y 2"
proof -
  assume y: "2000 \<le> y" "y \<le> 2099"
  have all: "list_all (\<lambda>k. day_of_civil (2000 + int k) 3 1 = day_of_civil (2000 + int k) 2 1 + days_in_month (2000 + int k) 2)
      [0..<100]" by code_simp
  from y obtain k where "y = 2000 + int k" "k < 100" by (intro that [of "nat (y - 2000)"]) auto
  with all show ?thesis by (auto simp: list_all_iff)
qed

lemma next_month:
  assumes "2000 \<le> y" "y \<le> 2099" "1 \<le> m" "m \<le> 12"
  shows "(if m = 12 then day_of_civil (y + 1) 1 1 else day_of_civil y (m + 1) 1) =
    day_of_civil y m 1 + days_in_month y m"
proof -
  have "m \<in> set [1..12]" unfolding set_upto using assms(3,4) by simp
  then consider "m = 2" | "m = 1" | "m = 3" | "m = 4" | "m = 5" | "m = 6" | "m = 7" | "m = 8" | "m = 9"
    | "m = 10" | "m = 11" | "m = 12" by (simp add: upto_rec1) blast
  then show ?thesis
  proof cases
    case 1
    with february [OF assms(1,2)] show ?thesis by simp
  qed (simp_all add: day_of_civil_def Let_def days_in_month_def)
qed

lemma weekday_from_thursday: "(weekday n - 3) mod 7 = n mod 7"
proof -
  have "(weekday n - 3) mod 7 = ((n + 3) - 3) mod 7" unfolding weekday_def by (rule mod_diff_left_eq)
  then show ?thesis by simp
qed

lemma back_to_thursday: "weekday (n - (weekday n - 3) mod 7) = 3"
proof -
  have "n - n mod 7 + 3 = 7 * (n div 7) + 3" by (simp add: minus_mod_eq_mult_div)
  then show ?thesis unfolding weekday_from_thursday by (simp add: weekday_def)
qed

lemma thursday_distance:
  assumes "weekday n = 3"
  shows "(l - n) mod 7 = (weekday l - 3) mod 7"
proof -
  have "n mod 7 = 0" using weekday_from_thursday [of n] assms by simp
  then have "(l - n) mod 7 = l mod 7" by (metis diff_zero mod_diff_right_eq)
  then show ?thesis by (simp add: weekday_from_thursday)
qed

lemma last_thursday_correct:
  assumes "2000 \<le> y" "y \<le> 2099" "1 \<le> m" "m \<le> 12"
  shows "last_thursday_of y m (last_thursday y m)"
proof -
  define first_day where "first_day = day_of_civil y m 1"
  define len where "len = days_in_month y m"
  have len: "28 \<le> len" by (simp add: len_def days_in_month_def)
  define off where "off = (weekday (first_day + len - 1) - 3) mod 7"
  have b: "0 \<le> off" "off < 7" by (simp_all add: off_def)
  have lt: "last_thursday y m = first_day + len - 1 - off"
    using next_month [OF assms] by (auto simp: last_thursday_def Let_def first_day_def len_def off_def split: if_splits)
  have date: "make_date y m d = (if 1 \<le> d \<and> d \<le> len then Some (first_day + (d - 1)) else None)" for d
    using assms day_of_civil_day [of y m d] by (simp add: make_date_def len_def first_day_def)
  have "weekday (last_thursday y m) = 3"
    unfolding lt off_def by (rule back_to_thursday)
  moreover have "make_date y m (len - off) = Some (last_thursday y m)"
    using b len by (simp add: date lt)
  moreover have "n \<le> last_thursday y m" if "make_date y m d = Some n" "weekday n = 3" for d n
  proof -
    from that(1) have n: "n = first_day + (d - 1)" "d \<le> len" by (simp_all add: date split: if_splits)
    have "n \<le> first_day + len - 1" using n by simp
    moreover have "(first_day + len - 1 - n) mod 7 = off"
      unfolding off_def by (rule thursday_distance [OF that(2)])
    ultimately have "off \<le> first_day + len - 1 - n"
      by (metis diff_ge_0_iff_ge zmod_le_nonneg_dividend)
    then show ?thesis by (simp add: lt)
  qed
  ultimately show ?thesis unfolding last_thursday_of_def by blast
qed

text \<open>Rendering and reading of numbers, of the year and of the month.\<close>

lemma digit_char_facts:
  assumes "n < 10"
  shows "is_digit (digit_char n) \<and> digit_value (digit_char n) = int n \<and> \<not> is_lower (digit_char n)"
proof -
  have "list_all (\<lambda>n. is_digit (digit_char n) \<and> digit_value (digit_char n) = int n \<and> \<not> is_lower (digit_char n)) [0..<10]"
    by code_simp
  with assms show ?thesis by (simp add: list_all_iff)
qed

lemma int_of_digits_snoc: "int_of_digits (s @ [c]) = int_of_digits s * 10 + digit_value c"
  by (simp add: int_of_digits_def)

lemma nat_str_digits:
  "all_digits (nat_str n) \<and> int_of_digits (nat_str n) = int n \<and> list_all (\<lambda>c. \<not> is_lower c) (nat_str n)"
proof (induction n rule: nat_str.induct)
  case (1 n)
  have 10: "int n = int (n div 10) * 10 + int (n mod 10)"
    by (metis div_mult_mod_eq of_nat_add of_nat_mult of_nat_numeral)
  show ?case
  proof (cases "n < 10")
    case True
    have "int_of_digits ([] @ [digit_char n]) = int n"
      unfolding int_of_digits_snoc using digit_char_facts [OF True] by (simp add: int_of_digits_def)
    moreover have "nat_str n = [digit_char n]" using True by (subst nat_str.simps) simp
    ultimately show ?thesis using digit_char_facts [OF True] by (simp add: all_digits_def)
  next
    case False
    then have "nat_str n = nat_str (n div 10) @ [digit_char (n mod 10)]" by (subst nat_str.simps) simp
    with 1 False digit_char_facts [of "n mod 10"] 10 show ?thesis
      by (simp add: all_digits_def int_of_digits_snoc)
  qed
qed

lemma year_digits:
  assumes "yy < 100"
  shows "length (digits_n 2 yy) = 2 \<and> all_digits (digits_n 2 yy) \<and> int_of_digits (digits_n 2 yy) = int yy \<and>
    list_all (\<lambda>c. \<not> is_lower c) (digits_n 2 yy)"
proof -
  have two: "digits_n 2 yy = ([] @ [digit_char (yy div 10 mod 10)]) @ [digit_char (yy mod 10)]"
    by (simp add: numeral_2_eq_2)
  have d: "yy div 10 < 10" using assms by simp
  have "int yy = int (yy div 10) * 10 + int (yy mod 10)"
    by (metis div_mult_mod_eq of_nat_add of_nat_mult of_nat_numeral)
  with digit_char_facts [of "yy mod 10"] digit_char_facts [OF d] d show ?thesis
    unfolding two int_of_digits_snoc by (simp add: all_digits_def int_of_digits_def)
qed

lemma month_facts:
  assumes "1 \<le> m" "m \<le> 12"
  shows "length (month_abbr m) = 3 \<and> map_of MONTH_ABBR (month_abbr m) = Some m \<and>
    \<not> is_digit (month_abbr m ! 2) \<and> list_all (\<lambda>c. \<not> is_lower c) (month_abbr m)"
proof -
  have "list_all (\<lambda>k. length (month_abbr k) = 3 \<and> map_of MONTH_ABBR (month_abbr k) = Some k \<and>
    \<not> is_digit (month_abbr k ! 2) \<and> list_all (\<lambda>c. \<not> is_lower c) (month_abbr k)) [1..12]" by code_simp
  moreover have "m \<in> set [1..12]" unfolding set_upto using assms by simp
  ultimately show ?thesis unfolding list_all_iff by (rule bspec)
qed

lemma upper_id: "list_all (\<lambda>c. \<not> is_lower c) s \<Longrightarrow> upper s = s"
  by (induction s) (simp_all add: upper_def)

lemma base_not_lower: "base_ok s \<Longrightarrow> list_all (\<lambda>c. \<not> is_lower c) s"
  unfolding base_ok_def by (auto simp: list_all_iff is_upper_def is_digit_def is_lower_def)

lemma first_match_least:
  assumes "1 \<le> k" "k \<le> n" "f k = Some x" "\<And>j. 1 \<le> j \<Longrightarrow> j < k \<Longrightarrow> f j = None"
  shows "first_match f n = Some x"
proof (cases "first_match f n")
  case None
  from first_match_None [OF this assms(1,2)] assms(3) show ?thesis by simp
next
  case (Some y)
  from first_match_Some [OF this] obtain i where i: "1 \<le> i" "f i = Some y" "\<forall>j. 1 \<le> j \<longrightarrow> j < i \<longrightarrow> f j = None"
    by blast
  have "i = k" using i assms by (metis linorder_neqE_nat option.distinct(1))
  with i Some assms(3) show ?thesis by simp
qed

lemma first_match_never: "(\<And>j. 1 \<le> j \<Longrightarrow> f j = None) \<Longrightarrow> first_match f n = None"
  using first_match_Some [of f n] by (cases "first_match f n") force+

lemma strike_and_type_render:
  assumes "all_digits ds" "ty = ''CE'' \<or> ty = ''PE''"
  shows "strike_and_type (ds @ ty) = Some (of_int (int_of_digits ds), ty)"
  using assms by (auto simp: strike_and_type_def Let_def)

lemma monthly_at_no_strike:
  assumes "\<not> all_digits (take (length (drop 5 (drop k s)) - 2) (drop 5 (drop k s)))"
  shows "monthly_at s k = None"
proof -
  have "\<not> all_digits (take (length t - 2) t) \<Longrightarrow> strike_and_type t = None" for t
    by (simp add: strike_and_type_def Let_def)
  from this [OF assms] show ?thesis unfolding monthly_at_def Let_def by (simp split: option.splits)
qed

lemma fut_symbol:
  assumes "base_ok base" "yy < 100" "1 \<le> m" "m \<le> 12"
  shows "parse_fo_symbol (base @ digits_n 2 yy @ month_abbr m @ ''FUT'') =
    Inr (Some (base, ''FUT'', Some (last_thursday (2000 + int yy) m), None))"
proof -
  let ?s = "base @ digits_n 2 yy @ month_abbr m @ ''FUT''"
  note y = year_digits [OF assms(2)] and mo = month_facts [OF assms(3,4)]
  have up: "upper ?s = ?s"
    by (rule upper_id) (use y mo base_not_lower [OF assms(1)] in \<open>simp add: is_lower_def\<close>)
  have len: "length ?s = length base + 8" using y mo by simp
  have "fut_at ?s (length base) = Some (base, 2000 + int yy, m)"
    using y mo assms(1) by (simp add: fut_at_def Let_def digits_at_def)
  moreover have "fut_at ?s j = None" if "j < length base" for j
  proof -
    have "length (drop j ?s) \<noteq> 8" unfolding length_drop len using that by linarith
    then have "\<not> (base_ok (take j ?s) \<and> length (drop j ?s) = 8 \<and> drop 5 (drop j ?s) = ''FUT'')" by blast
    then show ?thesis unfolding fut_at_def Let_def by (rule if_not_P)
  qed
  moreover have "1 \<le> length base" using assms(1) by (simp add: base_ok_def Suc_le_eq)
  ultimately have "first_match (fut_at ?s) (length ?s) = Some (base, 2000 + int yy, m)"
    by (intro first_match_least [of "length base"]) (simp_all only: len le_add1)
  then show ?thesis unfolding parse_fo_symbol_def Let_def up by simp
qed

lemma monthly_symbol:
  assumes "base_ok base" "yy < 100" "1 \<le> m" "m \<le> 12" and ty: "ty = ''CE'' \<or> ty = ''PE''"
  shows "parse_fo_symbol (base @ digits_n 2 yy @ month_abbr m @ nat_str strike @ ty) =
    Inr (Some (base, ty, Some (last_thursday (2000 + int yy) m), Some (of_nat strike)))"
proof -
  let ?s = "base @ digits_n 2 yy @ month_abbr m @ nat_str strike @ ty"
  note y = year_digits [OF assms(2)] and mo = month_facts [OF assms(3,4)] and ds = nat_str_digits [of strike]
  have lty: "length ty = 2" "last ty = CHR ''E''" "ty \<noteq> []" "list_all (\<lambda>c. \<not> is_lower c) ty"
    using ty by (auto simp: is_lower_def)
  have up: "upper ?s = ?s"
    by (rule upper_id) (use y mo ds lty base_not_lower [OF assms(1)] in simp)
  have len: "length ?s = length base + length (nat_str strike) + 7" using y mo lty by simp
  have "fut_at ?s j = None" for j
  proof (rule ccontr)
    assume "fut_at ?s j \<noteq> None"
    then have "length (drop j ?s) = 8" "drop 5 (drop j ?s) = ''FUT''"
      by (auto simp only: fut_at_def Let_def split: if_splits)
    then have "length ?s = j + 8" and T: "drop (5 + j) ?s = ''FUT''" by (simp_all only: length_drop drop_drop)
    then have "last (drop (5 + j) ?s) = last ?s" by (intro last_drop) simp
    then have "last ?s = CHR ''T''" unfolding T by simp
    moreover have "last ?s = CHR ''E''" using lty by simp
    ultimately show False by simp
  qed
  then have nofut: "first_match (fut_at ?s) (length ?s) = None" by (intro first_match_never)
  have here: "monthly_at ?s (length base) = Some (base, 2000 + int yy, m, of_nat strike, ty)"
    using y mo ds assms(1) strike_and_type_render [OF _ ty, of "nat_str strike"]
    by (simp add: monthly_at_def Let_def digits_at_def)
  have before: "monthly_at ?s j = None" if j: "j < length base" for j
  proof -
    let ?u = "drop 5 (drop j ?s)"
    let ?i = "length base - 1 - j"
    have "length ?u = length ?s - (5 + j)" by (simp only: length_drop drop_drop)
    with j have i: "?i < length ?u - 2" unfolding len by linarith
    have "?u ! ?i = ?s ! (5 + j + ?i)"
      unfolding drop_drop by (rule nth_drop) (use j len in linarith)
    also have "\<dots> = ?s ! (length base + 4)" using j by (intro arg_cong [of _ _ "(!) ?s"]) linarith
    also have "\<dots> = month_abbr m ! 2" using y mo by (simp add: nth_append)
    finally have "?u ! ?i = month_abbr m ! 2" .
    then have "\<not> is_digit (take (length ?u - 2) ?u ! ?i)" unfolding nth_take [OF i] using mo by (simp only: not_False_eq_True)
    moreover have "?i < length (take (length ?u - 2) ?u)" unfolding length_take using i by linarith
    ultimately have "\<not> all_digits (take (length ?u - 2) ?u)"
      unfolding all_digits_def list_all_length by blast
    then show ?thesis by (rule monthly_at_no_strike)
  qed
  have one: "1 \<le> length base" using assms(1) by (simp add: base_ok_def Suc_le_eq)
  have le: "length base \<le> length ?s" unfolding len by linarith
  have "first_match (monthly_at ?s) (length ?s) = Some (base, 2000 + int yy, m, of_nat strike, ty)"
    by (rule first_match_least [where k = "length base" and f = "monthly_at ?s", OF one le here]) (rule before)
  with nofut show ?thesis unfolding parse_fo_symbol_def Let_def up by simp
qed

text \<open>
  C30: the symbols of monthly contracts are read back exactly. For every base of capital letters
  and digits, every year of the century, month, strike and option type, the symbol of the future
  and of the option is parsed to that base, type, strike and the last Thursday of the month,
  although the base itself may end in digits or contain the name of a month.
\<close>

theorem monthly_symbol_roundtrip:
  assumes "base_ok base" and "yy < 100" and "1 \<le> m" and "m \<le> 12" and "ty = ''CE'' \<or> ty = ''PE''"
  shows "\<exists>e. last_thursday_of (2000 + int yy) m e \<and>
    parse_fo_symbol (base @ digits_n 2 yy @ month_abbr m @ ''FUT'') = Inr (Some (base, ''FUT'', Some e, None)) \<and>
    parse_fo_symbol (base @ digits_n 2 yy @ month_abbr m @ nat_str strike @ ty) =
      Inr (Some (base, ty, Some e, Some (of_nat strike)))"
  using fut_symbol [OF assms(1-4)] monthly_symbol [OF assms] last_thursday_correct [of "2000 + int yy" m] assms(2-4)
  by (intro exI [of _ "last_thursday (2000 + int yy) m"]) simp

theorem monthly_symbol_roundtrip_witness:
  "\<exists>e. last_thursday_of 2025 1 e \<and>
    parse_fo_symbol (''BANKNIFTY25'' @ digits_n 2 25 @ month_abbr 1 @ nat_str 50 @ ''PE'') =
      Inr (Some (''BANKNIFTY25'', ''PE'', Some e, Some 50))"
proof -
  have "base_ok ''BANKNIFTY25''" by code_simp
  from monthly_symbol_roundtrip [OF this, of 25 1 "''PE''" 50] show ?thesis by auto
qed

section \<open>Rows that stop an import\<close>

text \<open>
  The header is recognised in any case of letters, the rows are not: each row of such a file is
  rejected. A column \<open>auction\<close> is not asked for by \<open>detect\<close> and required of each row.
\<close>

definition upper_header_csv :: string where
  "upper_header_csv = ''SYMBOL,trade_date,exchange,segment,trade_type,auction,quantity,price,trade_id,order_id,order_execution_time,product''
     @ [CHR 0x0A] @ ''INFY,2025-01-02,NSE,EQ,buy,no,10,1500,T1,O1,2025-01-02 10:00:00,CNC''"

definition no_auction_csv :: string where
  "no_auction_csv = ''symbol,trade_date,exchange,segment,trade_type,quantity,price,trade_id,order_id,order_execution_time,product''
     @ [CHR 0x0A] @ ''INFY,2025-01-02,NSE,EQ,buy,10,1500,T1,O1,2025-01-02 10:00:00,CNC''"

theorem header_case_mismatch:
  "case parse upper_header_csv None of
     Inr r \<Rightarrow> ap_fills r = [] \<and>
       ap_errors r = [InvalidFillError 1 ''symbol'' [] (''Required field '' @ repr ''symbol'' @ '' is missing or empty'')]
   | Inl e \<Rightarrow> False"
  by code_simp

theorem auction_column_undeclared:
  "case parse no_auction_csv None of Inr r \<Rightarrow> ap_fills r = [] \<and> length (ap_errors r) = 1 | Inl e \<Rightarrow> False"
  by code_simp

text \<open>
  The documentation says that the import continues with the remaining rows; these rows end it with
  an exception that is not an \<open>InvalidFillError\<close>: a row with too few fields, a weekly contract
  with an impossible day, a price that is not a number.
\<close>

definition short_row_csv :: string where
  "short_row_csv = csv_header @ ''INFY,X,2025-01-02''"

definition bad_day_csv :: string where
  "bad_day_csv = csv_header @ ''NIFTY2513223500CE,X,2025-01-02,NSE,FO,,buy,no,75,10,T1,O1,2025-01-02 10:00:00''"

definition nan_csv :: string where
  "nan_csv = csv_header @ ''INFY,X,2025-01-02,NSE,EQ,EQ,buy,no,10,NaN,T1,O1,2025-01-02 10:00:00''"

theorem short_row_aborts:
  "case parse short_row_csv (Some ''MIS'') of Inl e \<Rightarrow> e = Py AttributeError | Inr r \<Rightarrow> False"
  by code_simp

theorem impossible_day_aborts:
  "case parse bad_day_csv (Some ''MIS'') of
     Inl e \<Rightarrow> e = Py (ValueError ''day is out of range for month'') | Inr r \<Rightarrow> False"
  by code_simp

theorem nan_price_aborts:
  "case parse nan_csv (Some ''MIS'') of Inl e \<Rightarrow> e = Py InvalidOperation | Inr r \<Rightarrow> False"
  by code_simp

end
