(* ===== verification/Import_Properties.thy ===== *)
theory Import_Properties
  imports Import_Service Zerodha_Properties Trade_Service_Facts Recon_Properties
begin

text \<open>
  The import pipeline over any adapter that keeps the contract of the port, and over Zerodha's:
  every row of the file is accounted for, every fill of the file is stored once, and the file is
  accepted once.
\<close>

section \<open>Fills by their broker identifier\<close>

definition fill_key :: "execution_fill_row \<Rightarrow> string option \<times> uuid option" where
  "fill_key x = (x_fill_id x, x_account_id x)"

definition fill_keys :: "db \<Rightarrow> (string option \<times> uuid option) list" where
  "fill_keys d = map fill_key (execution_fills d)"

lemma fill_exists_keys: "fill_exists i a d \<longleftrightarrow> (Some i, Some a) \<in> set (fill_keys d)"
  by (auto simp: fill_exists_def fill_keys_def fill_key_def filter_empty_conv image_iff) metis+

lemma fill_keys_run:
  assumes "run b u a i p itype d = Inr (d', res)"
  shows "fill_keys d' = fill_keys d \<and> trading_accounts d' = trading_accounts d"
proof -
  have "list_all2 (fill_step ids) xs ys \<Longrightarrow> map fill_key ys = map fill_key xs" for ids xs ys
    by (induction rule: list_all2_induct) (auto simp: fill_step_def fill_key_def split: if_splits)
  with run_fills [OF assms] show ?thesis by (auto simp: fill_keys_def same_inputs_def)
qed

lemma fill_keys_backfill:
  assumes "backfill_all_closed u d = (d', r)"
  shows "fill_keys d' = fill_keys d \<and> trading_accounts d' = trading_accounts d \<and> import_records d' = import_records d"
proof -
  have d': "d' = d\<lparr>trade_pnls := trade_pnls d'\<rparr>"
    using backfill_loop_frame [OF assms [unfolded backfill_all_closed_def]] .
  show ?thesis by (subst (1) d', subst (2) d', subst (3) d') (simp add: fill_keys_def)
qed

lemma resolve_instrument_frame:
  assumes "resolve_instrument f d = Inr (i, d')"
  shows "execution_fills d' = execution_fills d \<and> trading_accounts d' = trading_accounts d"
  using assms [unfolded resolve_instrument_def] by (cases rule: get_or_create_cases) simp_all

lemma stored_fill_keys:
  assumes "insert_normalized_fill now u a i f d = Inr (pk, d')"
  shows "fill_keys d' = fill_keys d @ [(Some (nf_broker_trade_id f), Some a)] \<and>
    trading_accounts d' = trading_accounts d"
  using insert_normalized_fill_frame(4,7) [OF assms] by (auto simp: fill_keys_def fill_key_def)

section \<open>One fill\<close>

lemma numeric_18_4_opt_Inl: "numeric_18_4_opt k = Inl e \<Longrightarrow> e = Py DataError"
  by (auto simp: numeric_18_4_opt_def numeric_18_4_def Let_def rbind_eq_Inl split: option.splits if_splits)

lemma insert_on_conflict_Inl: "insert_on_conflict_do_nothing row d = Inl e \<Longrightarrow> e = Py IntegrityError"
  by (auto simp: insert_on_conflict_do_nothing_def split: if_splits)

lemma get_or_create_not_missing:
  assumes "\<And>d e. find_for_fill sy seg ty ex k d \<noteq> Inl e"
  shows "get_or_create sy seg ty ex k d \<noteq> Inl (Imp x)"
proof
  assume g: "get_or_create sy seg ty ex k d = Inl (Imp x)"
  have total: "\<exists>r. find_for_fill sy seg ty ex k d = Inr r" for d using assms by (metis obj_sumE)
  obtain r where r: "find_for_fill sy seg ty ex k d = Inr r" using total by blast
  have none: "r = None" using g r by (cases r) (simp_all add: get_or_create_def)
  note g = g [unfolded get_or_create_def r none rbind.simps option.case uuid4_def Let_def prod.case]
  obtain ks where ks: "numeric_18_4_opt k = Inr ks"
    using g numeric_18_4_opt_Inl by (cases "numeric_18_4_opt k") auto
  note g = g [unfolded ks rbind.simps]
  define row where "row = \<lparr>i_id = next_uuid d, i_symbol = sy, i_exchange_segment = seg,
      i_instrument_type = ty, i_expiry_date = ex, i_strike_price = ks, i_name = derive_name sy ty ex k\<rparr>"
  note g = g [folded row_def]
  obtain d2 where d2: "insert_on_conflict_do_nothing row (d\<lparr>next_uuid := Suc (next_uuid d)\<rparr>) = Inr d2"
    using g insert_on_conflict_Inl
    by (cases "insert_on_conflict_do_nothing row (d\<lparr>next_uuid := Suc (next_uuid d)\<rparr>)") auto
  obtain r2 where "find_for_fill sy seg ty ex k d2 = Inr r2" using total by blast
  with g d2 show False by (cases r2) simp_all
qed

lemma ingest_fill_resolvable:
  assumes "ingest_fill now u a f s = Inr s'" and "contract_ok (nf_instrument_type f) (nf_expiry_date f) (nf_strike_price f)"
  obtains (skipped) i d1 where "resolve_instrument f (is_db s) = Inr (i, d1)"
      "fill_exists (nf_broker_trade_id f) a d1" "s' = s\<lparr>is_db := d1, is_skipped := Suc (is_skipped s)\<rparr>"
    | (stored) i d1 pk d2 where "resolve_instrument f (is_db s) = Inr (i, d1)"
      "\<not> fill_exists (nf_broker_trade_id f) a d1" "insert_normalized_fill now u a i f d1 = Inr (pk, d2)" "is_db s' = d2"
      "is_ingested s' = Suc (is_ingested s)" "is_skipped s' = is_skipped s" "is_row_errors s' = is_row_errors s"
proof (cases "resolve_instrument f (is_db s)")
  case (Inl e)
  have "e \<noteq> Imp (InstrumentNotFoundError x y z)" for x y z
  proof
    assume e: "e = Imp (InstrumentNotFoundError x y z)"
    have "find_for_fill (nf_symbol_raw f) (nf_exchange_segment f) (nf_instrument_type f) (nf_expiry_date f)
        (nf_strike_price f) d \<noteq> Inl e'" for d e'
      by (rule contract_ok_resolvable [OF assms(2)])
    from get_or_create_not_missing [OF this] Inl e show False unfolding resolve_instrument_def by blast
  qed
  with assms(1) Inl have False by (auto simp: ingest_fill_def split: exn.splits import_error.splits)
  then show ?thesis ..
next
  case (Inr x)
  obtain i d1 where x: "x = (i, d1)" by (cases x)
  show ?thesis
  proof (cases "fill_exists (nf_broker_trade_id f) a d1")
    case True
    with assms(1) Inr x show ?thesis by (intro skipped) (auto simp: ingest_fill_def)
  next
    case False
    with assms(1) Inr x obtain pk d2 where "insert_normalized_fill now u a i f d1 = Inr (pk, d2)"
      "is_db s' = d2 \<and> is_ingested s' = Suc (is_ingested s) \<and> is_skipped s' = is_skipped s \<and> is_row_errors s' = is_row_errors s"
      by (auto simp: ingest_fill_def rbind_eq_Inr Let_def split: if_splits)
    with Inr x False show ?thesis by (intro stored) auto
  qed
qed

definition ingested_to :: "uuid \<Rightarrow> import_state \<Rightarrow> normalized_fill list \<Rightarrow> import_state \<Rightarrow> bool" where
  "ingested_to a s fs s' \<longleftrightarrow>
     is_row_errors s' = is_row_errors s \<and>
     is_ingested s' + is_skipped s' = is_ingested s + is_skipped s + length fs \<and>
     trading_accounts (is_db s') = trading_accounts (is_db s) \<and>
     (\<exists>new. fill_keys (is_db s') = fill_keys (is_db s) @ new \<and> length new + is_ingested s = is_ingested s' \<and>
        set new \<subseteq> {(Some (nf_broker_trade_id f), Some a) | f. f \<in> set fs} \<and>
        set new \<inter> set (fill_keys (is_db s)) = {} \<and> distinct new) \<and>
     (\<forall>f\<in>set fs. fill_exists (nf_broker_trade_id f) a (is_db s'))"

lemma ingest_fill_effect:
  assumes "ingest_fill now u a f s = Inr s'" and "contract_ok (nf_instrument_type f) (nf_expiry_date f) (nf_strike_price f)"
  shows "ingested_to a s [f] s'"
  using assms
proof (cases rule: ingest_fill_resolvable)
  case (skipped i d1)
  have "fill_keys d1 = fill_keys (is_db s)" "trading_accounts d1 = trading_accounts (is_db s)"
    using resolve_instrument_frame [OF skipped(1)] by (simp_all add: fill_keys_def)
  with skipped(2,3) show ?thesis by (simp add: ingested_to_def)
next
  case (stored i d1 pk d2)
  have k: "fill_keys d1 = fill_keys (is_db s)" "trading_accounts d1 = trading_accounts (is_db s)"
    using resolve_instrument_frame [OF stored(1)] by (simp_all add: fill_keys_def)
  note e = stored_fill_keys [OF stored(3)]
  have "(Some (nf_broker_trade_id f), Some a) \<notin> set (fill_keys (is_db s))"
    using stored(2) k by (simp add: fill_exists_keys)
  then show ?thesis
    unfolding ingested_to_def using e k stored(4-7)
    by (auto simp: fill_exists_keys intro!: exI [of _ "[(Some (nf_broker_trade_id f), Some a)]"])
qed

lemma ingested_to_trans:
  assumes "ingested_to a s fs s'" and "ingested_to a s' gs s''"
  shows "ingested_to a s (fs @ gs) s''"
proof -
  obtain new new' where n: "fill_keys (is_db s') = fill_keys (is_db s) @ new" "length new + is_ingested s = is_ingested s'"
      "set new \<subseteq> {(Some (nf_broker_trade_id f), Some a) | f. f \<in> set fs}"
      "set new \<inter> set (fill_keys (is_db s)) = {}" "distinct new"
    and n': "fill_keys (is_db s'') = fill_keys (is_db s') @ new'" "length new' + is_ingested s' = is_ingested s''"
      "set new' \<subseteq> {(Some (nf_broker_trade_id f), Some a) | f. f \<in> set gs}"
      "set new' \<inter> set (fill_keys (is_db s')) = {}" "distinct new'"
    using assms unfolding ingested_to_def by (elim conjE exE)
  have "fill_keys (is_db s'') = fill_keys (is_db s) @ (new @ new') \<and> length (new @ new') + is_ingested s = is_ingested s'' \<and>
     set (new @ new') \<subseteq> {(Some (nf_broker_trade_id f), Some a) | f. f \<in> set (fs @ gs)} \<and>
     set (new @ new') \<inter> set (fill_keys (is_db s)) = {} \<and> distinct (new @ new')"
    using n n' by auto
  moreover have "fill_exists (nf_broker_trade_id f) a (is_db s'')" if "f \<in> set (fs @ gs)" for f
  proof (cases "f \<in> set gs")
    case False
    with that assms(1) have "fill_exists (nf_broker_trade_id f) a (is_db s')" by (simp add: ingested_to_def)
    with n'(1) show ?thesis by (simp add: fill_exists_keys)
  qed (use assms(2) in \<open>simp add: ingested_to_def\<close>)
  ultimately show ?thesis using assms unfolding ingested_to_def by (intro conjI exI [of _ "new @ new'"]) auto
qed

lemma ingest_loop:
  assumes "rfold (ingest_fill now u a) fs s = Inr s'"
    and "\<And>f. f \<in> set fs \<Longrightarrow> contract_ok (nf_instrument_type f) (nf_expiry_date f) (nf_strike_price f)"
  shows "ingested_to a s fs s'"
  using assms
proof (induction fs arbitrary: s)
  case Nil
  then show ?case by (simp add: ingested_to_def)
next
  case (Cons f fs)
  then obtain s1 where s1: "ingest_fill now u a f s = Inr s1" "rfold (ingest_fill now u a) fs s1 = Inr s'"
    by (auto simp: rbind_eq_Inr)
  from ingested_to_trans [OF ingest_fill_effect [OF s1(1)] Cons.IH [OF s1(2)]] Cons.prems(2)
  show ?case by simp
qed

lemma reconstruct_unit_Inr:
  "reconstruct_unit u a (i, p, t) (d, n, m) = Inr s \<longleftrightarrow>
   (\<exists>d1 res. run False u a i p t d = Inr (d1, res) \<and> s = (d1, n + trades_opened res, m + trades_closed res))"
  by (auto simp: reconstruct_unit_def rbind_eq_Inr)

lemma reconstruct_units_frame:
  assumes "rfold (reconstruct_unit u a) us (d, n, m) = Inr (d', n', m')"
  shows "fill_keys d' = fill_keys d \<and> trading_accounts d' = trading_accounts d"
  using assms
proof (induction us arbitrary: d n m)
  case (Cons x us)
  obtain i p t where x: "x = (i, p, t)" by (cases x)
  from Cons.prems obtain d1 res where r: "run False u a i p t d = Inr (d1, res)" and
    rest: "rfold (reconstruct_unit u a) us (d1, n + trades_opened res, m + trades_closed res) = Inr (d', n', m')"
    by (auto simp: x rbind_eq_Inr reconstruct_unit_Inr)
  from fill_keys_run [OF r] Cons.IH [OF rest] show ?case by simp
qed simp

section \<open>The whole pipeline\<close>

lemma get_active_cong: "trading_accounts d' = trading_accounts d \<Longrightarrow> get_active u a d' = get_active u a d"
  by (simp add: get_active_def account_service_get_def get_account_for_user_def)

lemma create_import_record_Inr:
  assumes "create_import_record now a br h name rows errs status d = Inr (i, d')"
  shows "import_record_exists h a d' \<and> fill_keys d' = fill_keys d \<and> trading_accounts d' = trading_accounts d \<and>
    (\<exists>r. import_records d' = import_records d @ [r] \<and> ir_id r = i \<and> ir_account_id r = a \<and> ir_file_hash r = h \<and>
       ir_row_count r = rows \<and> ir_error_count r = errs \<and> ir_status r = status)"
  using assms
  by (auto simp: create_import_record_def uuid4_def Let_def result_simps append_row_def fill_keys_def
      import_record_exists_def)

lemma import_twice:
  assumes "get_active u a d = Inr acc" and "import_record_exists (sha256_hexdigest content) a d"
  shows "import_fills adapters now u a content hint name d =
    Inl (Imp (DuplicateImportError (sha256_hexdigest content) a))"
  using assms by (simp add: import_fills_def check_def)

lemma import_stages:
  assumes "import_fills [adapter] now u a content hint name d = Inr (su, d')"
  obtains acc r s d1 d2 n m where "get_active u a d = Inr acc"
    "ba_detect adapter content" "ba_parse adapter content hint = Inr r" "ingest_fills now u a r d = Inr s"
    "rfold (reconstruct_unit u (a_id acc)) (is_units s) (is_db s, 0, 0) = Inr (d1, n, m)"
    "fst (backfill_all_closed u d1) = d2"
    "create_import_record now a (a_broker acc) (sha256_hexdigest content) name (total_rows r) (is_row_errors s)
       (su_status su) d2 = Inr (su_import_record_id su, d')"
    "su_fills_ingested su = is_ingested s" "su_fills_skipped su = is_skipped s" "su_row_errors su = is_row_errors s"
    "su_trades_created su = n" "su_trades_closed su = m"
    "su_status su = import_status (is_ingested s) (is_skipped s) (is_row_errors s)"
proof -
  from assms obtain acc ad r s x where 1: "get_active u a d = Inr acc"
      "select_adapter [adapter] (a_broker acc) content = Inr ad" "ba_parse ad content hint = Inr r"
      "ingest_fills now u a r d = Inr s"
      "rfold (reconstruct_unit u (a_id acc)) (is_units s) (is_db s, 0, 0) = Inr x"
    and 2: "(case x of (d1, opened, ended) \<Rightarrow>
        (case backfill_all_closed u d1 of (d2, ps, pf) \<Rightarrow>
         (case create_import_record now a (a_broker acc) (sha256_hexdigest content) name
                  (total_rows r) (is_row_errors s) (import_status (is_ingested s) (is_skipped s) (is_row_errors s)) d2 of
             Inl (Py IntegrityError) \<Rightarrow> Inl (Imp (DuplicateImportError (sha256_hexdigest content) a))
           | Inl e \<Rightarrow> Inl e
           | Inr (i, d3) \<Rightarrow>
               Inr (\<lparr>su_import_record_id = i, su_fills_ingested = is_ingested s,
                     su_fills_skipped = is_skipped s, su_row_errors = is_row_errors s,
                     su_trades_created = opened, su_trades_closed = ended,
                     su_pnl_succeeded = ps, su_pnl_failed = pf,
                     su_status = import_status (is_ingested s) (is_skipped s) (is_row_errors s)\<rparr>, d3)))) = Inr (su, d')"
    unfolding import_fills_def Let_def by (elim result_elim)
  obtain d1 n m where x: "x = (d1, n, m)" by (cases x)
  obtain d2 ps pf where bf: "backfill_all_closed u d1 = (d2, ps, pf)" by (cases "backfill_all_closed u d1")
  have ad: "ba_detect adapter content" "ad = adapter"
    using 1(2) by (simp_all add: select_adapter_def first_row_def split: if_splits)
  show ?thesis
  proof (cases "create_import_record now a (a_broker acc) (sha256_hexdigest content) name
      (total_rows r) (is_row_errors s) (import_status (is_ingested s) (is_skipped s) (is_row_errors s)) d2")
    case (Inl e)
    with 2 [unfolded x bf prod.case] show ?thesis by (simp split: exn.splits py_error.splits)
  next
    case (Inr y)
    obtain i d3 where y: "y = (i, d3)" by (cases y)
    from 2 [unfolded x bf prod.case] Inr y have "d3 = d'" "su = \<lparr>su_import_record_id = i, su_fills_ingested = is_ingested s,
                     su_fills_skipped = is_skipped s, su_row_errors = is_row_errors s,
                     su_trades_created = n, su_trades_closed = m,
                     su_pnl_succeeded = ps, su_pnl_failed = pf,
                     su_status = import_status (is_ingested s) (is_skipped s) (is_row_errors s)\<rparr>" by simp_all
    with 1 ad x bf Inr y show ?thesis by (intro that [of acc r s d1 n m d2]) simp_all
  qed
qed

text \<open>The conclusion of an accepted import, for the result \<open>r\<close> of the adapter.\<close>

definition import_settled ::
  "uuid \<Rightarrow> uuid \<Rightarrow> string \<Rightarrow> adapter_parse_result \<Rightarrow> import_summary \<Rightarrow> db \<Rightarrow> db \<Rightarrow> bool" where
  "import_settled u a content r su d d' \<longleftrightarrow>
     su_row_errors su = length (ap_errors r) \<and>
     su_fills_ingested su + su_fills_skipped su + su_row_errors su = total_rows r \<and>
     su_status su = (if ap_fills r = [] then ''FAILED'' else if ap_errors r = [] then ''COMPLETE'' else ''PARTIAL'') \<and>
     (\<exists>new. fill_keys d' = fill_keys d @ new \<and> length new = su_fills_ingested su \<and> distinct new \<and>
        set new \<inter> set (fill_keys d) = {} \<and>
        set new \<subseteq> {(Some (nf_broker_trade_id f), Some a) | f. f \<in> set (ap_fills r)}) \<and>
     (\<forall>f\<in>set (ap_fills r). fill_exists (nf_broker_trade_id f) a d') \<and>
     (\<forall>adapters now hint name. import_fills adapters now u a content hint name d' =
        Inl (Imp (DuplicateImportError (sha256_hexdigest content) a)))"

context broker_adapter
begin

lemma import_settles:
  assumes "import_fills [\<lparr>ba_detect = detect, ba_parse = parse\<rparr>] now u a content hint name d = Inr (su, d')"
  shows "\<exists>r. parse content hint = Inr r \<and> import_settled u a content r su d d'"
  using assms
proof (rule import_stages)
  fix acc r s d1 d2 n m
  assume acc: "get_active u a d = Inr acc"
    and "ba_parse \<lparr>ba_detect = detect, ba_parse = parse\<rparr> content hint = Inr r"
    and ing: "ingest_fills now u a r d = Inr s"
    and rec: "rfold (reconstruct_unit u (a_id acc)) (is_units s) (is_db s, 0, 0) = Inr (d1, n, m)"
    and bf: "fst (backfill_all_closed u d1) = d2"
    and cr: "create_import_record now a (a_broker acc) (sha256_hexdigest content) name (total_rows r) (is_row_errors s)
       (su_status su) d2 = Inr (su_import_record_id su, d')"
    and su: "su_fills_ingested su = is_ingested s" "su_fills_skipped su = is_skipped s"
      "su_row_errors su = is_row_errors s"
      "su_status su = import_status (is_ingested s) (is_skipped s) (is_row_errors s)"
  then have p: "parse content hint = Inr r" by simp
  have "contract_ok (nf_instrument_type f) (nf_expiry_date f) (nf_strike_price f)" if "f \<in> set (ap_fills r)" for f
    using fills_well_formed [OF p that] by (simp add: fill_well_formed_def)
  from ingest_loop [OF ing [unfolded ingest_fills_def] this]
  have i: "is_row_errors s = length (ap_errors r)" "is_ingested s + is_skipped s = length (ap_fills r)"
      "trading_accounts (is_db s) = trading_accounts d"
    and new: "\<exists>new. fill_keys (is_db s) = fill_keys d @ new \<and> length new = is_ingested s \<and>
        set new \<subseteq> {(Some (nf_broker_trade_id f), Some a) | f. f \<in> set (ap_fills r)} \<and>
        set new \<inter> set (fill_keys d) = {} \<and> distinct new"
    and ex: "\<forall>f\<in>set (ap_fills r). fill_exists (nf_broker_trade_id f) a (is_db s)"
    by (simp_all add: ingested_to_def)
  have keys: "fill_keys d' = fill_keys (is_db s)" and accs: "trading_accounts d' = trading_accounts d"
    and recd: "import_record_exists (sha256_hexdigest content) a d'"
    using reconstruct_units_frame [OF rec] fill_keys_backfill [of u d1 d2] bf create_import_record_Inr [OF cr] i(3)
    by (cases "backfill_all_closed u d1"; simp)+
  have "get_active u a d' = Inr acc" using get_active_cong [OF accs] acc by simp
  then have "import_fills ads now' u a content hint' name' d' =
      Inl (Imp (DuplicateImportError (sha256_hexdigest content) a))" for ads now' hint' name'
    using recd by (rule import_twice)
  moreover have "su_status su = (if ap_fills r = [] then ''FAILED'' else if ap_errors r = [] then ''COMPLETE'' else ''PARTIAL'')"
  proof (cases "ap_fills r = []")
    case True
    with nonempty [OF p] i have "0 < is_row_errors s" "is_ingested s = 0" "is_skipped s = 0"
      by (simp_all add: total_rows_def)
    with True su(4) show ?thesis by (simp add: import_status_def)
  next
    case False
    with i(2) have "\<not> (is_ingested s = 0 \<and> is_skipped s = 0)" by (metis add_0 length_0_conv)
    with False su(4) i(1) show ?thesis unfolding import_status_def by (simp add: if_not_P)
  qed
  moreover have "\<forall>f\<in>set (ap_fills r). fill_exists (nf_broker_trade_id f) a d'"
    using ex unfolding fill_exists_keys keys .
  moreover have "su_fills_ingested su + su_fills_skipped su + su_row_errors su = total_rows r"
    "su_row_errors su = length (ap_errors r)" using i su by (simp_all add: total_rows_def)
  moreover have "\<exists>new. fill_keys d' = fill_keys d @ new \<and> length new = su_fills_ingested su \<and> distinct new \<and>
        set new \<inter> set (fill_keys d) = {} \<and>
        set new \<subseteq> {(Some (nf_broker_trade_id f), Some a) | f. f \<in> set (ap_fills r)}"
    unfolding keys su(1) using new by blast
  ultimately show ?thesis using p unfolding import_settled_def by blast
qed

end

text \<open>
  C29: an accepted import of a Zerodha file accounts for each of its rows. The adapter has read
  the file, the stored, the skipped and the rejected rows of the summary add up to its rows, the
  status says whether all, some or none of them were fills; exactly the reported number of new
  pairs of broker identifier and account is in the table, none of them twice or there before,
  each of a fill of the file, and every fill of the file is there afterwards; the same bytes are
  refused from then on, with whatever adapters, hint, name or hour.
\<close>

theorem import_accounts_for_every_row:
  assumes "import_fills [zerodha_adapter] now u a content hint name d = Inr (su, d')"
  shows "\<exists>r. parse content hint = Inr r \<and>
     su_row_errors su = length (ap_errors r) \<and>
     su_fills_ingested su + su_fills_skipped su + su_row_errors su = total_rows r \<and>
     su_status su = (if ap_fills r = [] then ''FAILED'' else if ap_errors r = [] then ''COMPLETE'' else ''PARTIAL'') \<and>
     (\<exists>new. fill_keys d' = fill_keys d @ new \<and> length new = su_fills_ingested su \<and> distinct new \<and>
        set new \<inter> set (fill_keys d) = {} \<and>
        set new \<subseteq> {(Some (nf_broker_trade_id f), Some a) | f. f \<in> set (ap_fills r)}) \<and>
     (\<forall>f\<in>set (ap_fills r). fill_exists (nf_broker_trade_id f) a d') \<and>
     (\<forall>adapters now hint name. import_fills adapters now u a content hint name d' =
        Inl (Imp (DuplicateImportError (sha256_hexdigest content) a)))"
  using zerodha.import_settles [OF assms [unfolded zerodha_adapter_def]] unfolding import_settled_def .

definition import_csv :: string where
  "import_csv = csv_header @
     ''INFY,X,2025-01-02,NSE,EQ,EQ,buy,no,10,1500.50,T1,O1,2025-01-02 09:14:59'' @ [CHR 0x0A] @
     ''TCS,X,2025-01-02,NSE,EQ,EQ,buy,no,0,1,T3,O3,2025-01-02 10:00:00'' @ [CHR 0x0A]"

definition import_db :: db where
  "import_db = empty_db\<lparr>trading_accounts :=
     [\<lparr>a_id = 8, a_user_id = 7, a_broker = ''ZERODHA'', a_display_name = ''Own'',
       a_account_type = ''INDIVIDUAL'', a_base_currency = ''INR'', a_status = ''ACTIVE'',
       a_starting_capital = None, a_created_at = 0, a_updated_at = 0\<rparr>]\<rparr>"

lemma import_ready:
  "case parse import_csv (Some ''MIS'') of Inl e \<Rightarrow> False | Inr r \<Rightarrow>
     (case ingest_fills 100 7 8 r import_db of Inl e \<Rightarrow> False | Inr s \<Rightarrow>
       (case rfold (reconstruct_unit 7 8) (is_units s) (is_db s, 0, 0) of Inl e \<Rightarrow> False | Inr (d1, n, m) \<Rightarrow>
          import_records (fst (backfill_all_closed 7 d1)) = [] \<and> is_ingested s = 1 \<and> is_skipped s = 0 \<and> is_row_errors s = 1))"
  by code_simp

lemma import_accepted:
  "\<exists>su d'. import_fills [zerodha_adapter] 100 7 8 import_csv (Some ''MIS'') None import_db = Inr (su, d') \<and>
     su_fills_ingested su = 1 \<and> su_fills_skipped su = 0 \<and> su_row_errors su = 1"
proof -
  obtain r s d1 n m where r: "parse import_csv (Some ''MIS'') = Inr r"
    "ingest_fills 100 7 8 r import_db = Inr s"
    "rfold (reconstruct_unit 7 8) (is_units s) (is_db s, 0, 0) = Inr (d1, n, m)"
    and c: "import_records (fst (backfill_all_closed 7 d1)) = []" "is_ingested s = 1" "is_skipped s = 0"
      "is_row_errors s = 1"
    using import_ready by (auto split: sum.splits)
  obtain d2 ok bad where b: "backfill_all_closed 7 d1 = (d2, ok, bad)" by (cases "backfill_all_closed 7 d1")
  obtain acc where acc: "get_active 7 8 import_db = Inr acc" "a_id acc = 8" "a_broker acc = ''ZERODHA''"
    by (simp add: get_active_def account_service_get_def get_account_for_user_def import_db_def empty_db_def
        get_by_def first_row_def)
  have sel: "select_adapter [zerodha_adapter] br import_csv = Inr zerodha_adapter" for br
    using zerodha.parsed_detected [OF r(1)] by (simp add: select_adapter_def zerodha_adapter_def first_row_def)
  have none: "\<not> import_record_exists h 8 d" if "import_records d = []" for h d
    using that by (simp add: import_record_exists_def first_row_def)
  have "import_records import_db = []" by (simp add: import_db_def empty_db_def)
  note start = none [OF this]
  have rec: "\<exists>i d3. create_import_record 100 8 ''ZERODHA'' h None k 1 ''PARTIAL'' d2 = Inr (i, d3)" for h k
    using none [of "d2\<lparr>next_uuid := Suc (next_uuid d2)\<rparr>" h] c(1) b
    by (simp add: create_import_record_def uuid4_def Let_def check_def import_record_check_def)
  then obtain i d3 where i: "create_import_record 100 8 ''ZERODHA'' (sha256_hexdigest import_csv) None
      (total_rows r) 1 ''PARTIAL'' d2 = Inr (i, d3)" by blast
  have p: "ba_parse zerodha_adapter import_csv (Some ''MIS'') = Inr r" using r(1) by (simp add: zerodha_adapter_def)
  have st: "import_status 1 0 1 = ''PARTIAL''" by (simp add: import_status_def)
  show ?thesis
    unfolding import_fills_def Let_def acc sel p r(2,3) rbind.simps check_def if_P [OF start] prod.case b c(2-4) st i
    by simp
qed

theorem import_accounts_for_every_row_witness:
  "\<exists>r su d'. parse import_csv (Some ''MIS'') = Inr r \<and>
     import_fills [zerodha_adapter] 100 7 8 import_csv (Some ''MIS'') None import_db = Inr (su, d') \<and>
     su_fills_ingested su = 1 \<and> total_rows r = 2 \<and> length (fill_keys d') = 1"
proof -
  obtain su d' where su: "import_fills [zerodha_adapter] 100 7 8 import_csv (Some ''MIS'') None import_db = Inr (su, d')"
    "su_fills_ingested su = 1" "su_fills_skipped su = 0" "su_row_errors su = 1" using import_accepted by blast
  have "fill_keys import_db = []" by (simp add: fill_keys_def import_db_def empty_db_def)
  with import_accounts_for_every_row [OF su(1)] su show ?thesis by auto
qed

text \<open>
  The index of the migration 0002 over broker and identifier is global while \<open>fill_exists\<close> asks
  per account: a file whose trade was imported into another account stops with an error of the
  database instead of being stored or skipped.
\<close>

theorem other_accounts_fill_stops_the_import:
  assumes "list_ex (\<lambda>x. x_fill_id x = Some (nf_broker_trade_id f) \<and> x_broker x = nf_broker f) (execution_fills d)"
  shows "insert_normalized_fill now u a i f d \<noteq> Inr s"
proof
  assume "insert_normalized_fill now u a i f d = Inr s"
  then obtain pk d' where "insert_normalized_fill now u a i f d = Inr (pk, d')" by (cases s) auto
  then show False
    by (rule insert_normalized_fill_Inr) (use assms in \<open>auto simp: fill_conflict_def list_ex_iff fill_row_def\<close>)
qed

end
