(* ===== verification/Analytics_Results.thy ===== *)
theory Analytics_Results
  imports Analytics_Types
begin

text \<open>
  \<open>domain/analytics/types.py\<close>, continued: the filter of the queries and the results of the
  repository and the service, field by field.
\<close>

section \<open>The filter\<close>

record analytics_filter =
  ft_user_id :: uuid
  ft_date_from :: "day option"
  ft_date_to :: "day option"
  ft_account_ids :: "uuid list"
  ft_instrument_types :: "string list"
  ft_exchange_segments :: "string list"
  ft_trade_types :: "string list"
  ft_directions :: "string list"
  ft_setup_names :: "string list"
  ft_brokers :: "string list"

section \<open>Results of the repository\<close>

record pnl_summary =
  ps_total_trades :: nat
  ps_gross_pnl :: rat
  ps_net_pnl :: rat
  ps_total_charges :: rat

record outcome_distribution =
  od_win_count :: nat
  od_loss_count :: nat
  od_breakeven_count :: nat
  od_total_n :: nat
  od_win_rate :: rat
  od_loss_rate :: rat
  od_breakeven_rate :: rat

record profit_factor_result =
  pf_profit_factor :: "rat option"
  pf_gross_profit :: rat
  pf_gross_loss :: rat

record planned_rr_result =
  rp_avg_planned_rr :: "rat option"
  rp_trade_count_with_rr :: nat
  rp_total_count :: nat
  rp_coverage_pct :: rat

record r_bucket =
  rb_label :: string
  rb_lower :: "rat option"
  rb_upper :: "rat option"
  rb_count :: nat

record r_multiple_distribution =
  rd_mean_r :: "rat option"
  rd_median_r :: "rat option"
  rd_stddev_r :: "rat option"
  rd_p25_r :: "rat option"
  rd_p75_r :: "rat option"
  rd_coverage_count :: nat
  rd_total_count :: nat
  rd_coverage_pct :: rat
  rd_insufficient_sample :: bool
  rd_buckets :: "r_bucket list"

record charges_breakdown =
  cx_total_brokerage :: rat
  cx_total_stt :: rat
  cx_total_exchange_charges :: rat
  cx_total_sebi_charges :: rat
  cx_total_stamp_duty :: rat
  cx_total_gst :: rat
  cx_total_ipft :: rat
  cx_total_charges :: rat
  cx_total_gross_pnl :: rat
  cx_charge_drag_pct :: "rat option"
  cx_charges_added_to_loss :: "rat option"

record setup_performance_row =
  sp_setup_name :: "string option"
  sp_trade_count :: nat
  sp_win_count :: nat
  sp_loss_count :: nat
  sp_breakeven_count :: nat
  sp_win_rate :: rat
  sp_avg_net_pnl :: rat
  sp_total_net_pnl :: rat
  sp_avg_r_multiple :: "rat option"
  sp_expectancy_r :: "rat option"
  sp_profit_factor :: "rat option"

record direction_performance_row =
  dp_direction :: string
  dp_trade_count :: nat
  dp_win_count :: nat
  dp_loss_count :: nat
  dp_breakeven_count :: nat
  dp_win_rate :: rat
  dp_avg_net_pnl :: rat
  dp_total_net_pnl :: rat
  dp_avg_r_multiple :: "rat option"

record hold_duration_bucket =
  hb_bucket :: string
  hb_bucket_order :: nat
  hb_count :: nat
  hb_avg_net_pnl :: rat
  hb_win_rate :: rat

record hold_duration_distribution =
  hd_buckets :: "hold_duration_bucket list"
  hd_avg_duration_minutes :: "rat option"
  hd_median_duration_minutes :: "rat option"

record exit_type_row =
  et_exit_type :: "string option"
  et_trade_count :: nat
  et_win_rate :: rat
  et_avg_net_pnl :: rat
  et_avg_r_multiple :: "rat option"

record dimension_breakdown_row =
  bg_label :: string
  bg_trade_count :: nat
  bg_win_count :: nat
  bg_win_rate :: rat
  bg_total_net_pnl :: rat
  bg_avg_net_pnl :: rat
  bg_avg_r_multiple :: "rat option"
  bg_avg_hold_duration_minutes :: "rat option"

record dimension_breakdown =
  bd_dimension :: string
  bd_groups :: "dimension_breakdown_row list"

record account_dimension =
  ad_id :: uuid
  ad_label :: string

section \<open>Results of the service\<close>

record risk_adjusted_result =
  ra_sharpe :: sharpe_result
  ra_sortino :: sortino_result

record kelly_result =
  ke_kelly_pct :: "rat option"
  ke_half_kelly_pct :: "rat option"
  ke_trades_with_r :: nat
  ke_insufficient_sample :: bool
  ke_min_n :: nat

record time_of_day_bucket =
  tb_bucket :: string
  tb_label :: string
  tb_trade_count :: nat
  tb_win_count :: nat
  tb_win_rate :: rat
  tb_expectancy_inr :: "rat option"
  tb_total_net_pnl :: rat

record analytics_summary =
  as_pnl :: pnl_summary
  as_outcome :: outcome_distribution
  as_expectancy :: expectancy_result
  as_profit_factor :: profit_factor_result
  as_planned_rr :: planned_rr_result
  as_drawdown :: drawdown_stats
  as_direction :: "direction_performance_row list"
  as_charges :: charges_breakdown
  as_risk_adjusted :: risk_adjusted_result

end
