(* ===== verification/Analytics_Repo.thy ===== *)
theory Analytics_Repo
  imports Calculators Text_Time Analytics_Results
begin

text \<open>
  \<open>infrastructure/repositories/analytics_repo.py\<close>: every query of the analytics as a function of
  the tables. What a query computes with an aggregate or an operator that is not exact (\<open>AVG\<close>,
  division, \<open>PERCENTILE_CONT\<close>, \<open>STDDEV\<close>) or that depends on the collation of the database is a
  parameter, \<open>sql_functions\<close>, and so is the order in which it meets the fills of a trade; \<open>COUNT\<close>, \<open>SUM\<close> and the difference of \<open>numeric\<close> are exact. Where a query
  leaves the order of its rows open they come in the order of the table.
\<close>

record sql_functions =
  sql_avg :: "rat list \<Rightarrow> rat"
  sql_div :: "rat \<Rightarrow> rat \<Rightarrow> rat"
  sql_percentile_cont :: "rat \<Rightarrow> rat list \<Rightarrow> rat"
  sql_stddev :: "rat list \<Rightarrow> rat"
  sql_text_le :: "string \<Rightarrow> string \<Rightarrow> bool"
  sql_scan :: "execution_fill_row list \<Rightarrow> execution_fill_row list"

text \<open>An aggregate of no rows is NULL; \<open>STDDEV\<close> needs two.\<close>

definition avg_of :: "sql_functions \<Rightarrow> rat list \<Rightarrow> rat option" where
  "avg_of sql xs = (if xs = [] then None else Some (sql_avg sql xs))"

definition percentile_of :: "sql_functions \<Rightarrow> rat \<Rightarrow> rat list \<Rightarrow> rat option" where
  "percentile_of sql q xs = (if xs = [] then None else Some (sql_percentile_cont sql q xs))"

definition stddev_of :: "sql_functions \<Rightarrow> rat list \<Rightarrow> rat option" where
  "stddev_of sql xs = (if length xs < 2 then None else Some (sql_stddev sql xs))"

text \<open>A comprehension whose body may raise.\<close>

fun rmap :: "('a \<Rightarrow> 'e + 'b) \<Rightarrow> 'a list \<Rightarrow> 'e + 'b list" where
  "rmap f [] = Inr []"
| "rmap f (x # xs) = rbind (f x) (\<lambda>y. rbind (rmap f xs) (\<lambda>ys. Inr (y # ys)))"

section \<open>The rows of a filter\<close>

definition among :: "'a list \<Rightarrow> 'a option \<Rightarrow> bool" where
  "among xs x \<longleftrightarrow> xs = [] \<or> (case x of None \<Rightarrow> False | Some y \<Rightarrow> y \<in> set xs)"

definition base_where :: "analytics_filter \<Rightarrow> trade_row \<Rightarrow> trade_pnl_row \<Rightarrow> bool" where
  "base_where f t p \<longleftrightarrow>
     t_user_id t = ft_user_id f \<and> t_status t = ''CLOSED'' \<and> \<not> t_is_deleted t \<and>
     (case ft_date_from f of None \<Rightarrow> True | Some x \<Rightarrow> x \<le> t_trade_date t) \<and>
     (case ft_date_to f of None \<Rightarrow> True | Some x \<Rightarrow> t_trade_date t \<le> x) \<and>
     among (ft_account_ids f) (t_account_id t) \<and>
     among (ft_trade_types f) (Some (t_trade_type t)) \<and>
     among (ft_directions f) (Some (t_direction t)) \<and>
     among (ft_setup_names f) (t_setup_name t) \<and>
     among (ft_brokers f) (Some (p_broker p))"

definition needs_instrument_join :: "analytics_filter \<Rightarrow> bool" where
  "needs_instrument_join f \<longleftrightarrow> ft_instrument_types f \<noteq> [] \<or> ft_exchange_segments f \<noteq> []"

definition instrument_clauses :: "analytics_filter \<Rightarrow> instrument_row \<Rightarrow> bool" where
  "instrument_clauses f i \<longleftrightarrow>
     among (ft_instrument_types f) (Some (i_instrument_type i)) \<and>
     among (ft_exchange_segments f) (Some (i_exchange_segment i))"

type_synonym joined = "trade_row \<times> trade_pnl_row \<times> instrument_row option"

definition joined_with :: "bool \<Rightarrow> analytics_filter \<Rightarrow> db \<Rightarrow> joined list" where
  "joined_with with_instruments f d =
     [(t, p, i). t \<leftarrow> trades d, p \<leftarrow> filter (\<lambda>p. p_trade_id p = t_id t) (trade_pnls d), base_where f t p,
        i \<leftarrow> (if with_instruments
              then map Some (filter (\<lambda>i. i_id i = t_instrument_id t \<and> instrument_clauses f i) (instruments d))
              else [None])]"

definition base_rows :: "analytics_filter \<Rightarrow> db \<Rightarrow> joined list" where
  "base_rows f d = joined_with (needs_instrument_join f) f d"

definition jt :: "joined \<Rightarrow> trade_row" where "jt r = fst r"
definition jp :: "joined \<Rightarrow> trade_pnl_row" where "jp r = fst (snd r)"
definition ji :: "joined \<Rightarrow> instrument_row option" where "ji r = snd (snd r)"
definition net :: "joined \<Rightarrow> rat" where "net r = p_net_pnl (jp r)"

definition wins :: "joined list \<Rightarrow> joined list" where "wins rs = filter (\<lambda>r. 0 < net r) rs"
definition losses :: "joined list \<Rightarrow> joined list" where "losses rs = filter (\<lambda>r. net r < 0) rs"
definition breakevens :: "joined list \<Rightarrow> joined list" where "breakevens rs = filter (\<lambda>r. net r = 0) rs"

text \<open>The values of a column that are not NULL.\<close>

definition not_null :: "('a \<Rightarrow> 'b option) \<Rightarrow> 'a list \<Rightarrow> 'b list" where
  "not_null g rs = map (\<lambda>r. the (g r)) (filter (\<lambda>r. g r \<noteq> None) rs)"

definition r_multiples :: "joined list \<Rightarrow> rat list" where
  "r_multiples rs = not_null (\<lambda>r. p_r_multiple (jp r)) rs"

definition sum_of :: "('a \<Rightarrow> rat) \<Rightarrow> 'a list \<Rightarrow> rat" where
  "sum_of g rs = sum_list (map g rs)"

text \<open>\<open>Decimal(n) / Decimal(total) * _HUNDRED if total else _ZERO\<close>\<close>

definition rate :: "nat \<Rightarrow> nat \<Rightarrow> exn + rat" where
  "rate n all =
     (if all = 0 then Inr 0
      else rbind (ddiv (of_nat n) (of_nat all)) (\<lambda>x. Inr (dmul x 100)))"

section \<open>Totals\<close>

definition get_pnl_summary :: "analytics_filter \<Rightarrow> db \<Rightarrow> pnl_summary" where
  "get_pnl_summary f d =
     (let rs = base_rows f d
      in \<lparr>ps_total_trades = length rs, ps_gross_pnl = sum_of (\<lambda>r. p_gross_pnl (jp r)) rs,
          ps_net_pnl = sum_of net rs, ps_total_charges = sum_of (\<lambda>r. p_total_charges (jp r)) rs\<rparr>)"

definition get_outcome_distribution :: "analytics_filter \<Rightarrow> db \<Rightarrow> exn + outcome_distribution" where
  "get_outcome_distribution f d =
     (let rs = base_rows f d; total_n = length rs
      in rbind (rate (length (wins rs)) total_n) (\<lambda>win_rate.
         rbind (rate (length (losses rs)) total_n) (\<lambda>loss_rate.
         rbind (rate (length (breakevens rs)) total_n) (\<lambda>breakeven_rate.
         Inr \<lparr>od_win_count = length (wins rs), od_loss_count = length (losses rs),
              od_breakeven_count = length (breakevens rs), od_total_n = total_n,
              od_win_rate = win_rate, od_loss_rate = loss_rate,
              od_breakeven_rate = breakeven_rate\<rparr>))))"

definition get_r_multiple_series :: "analytics_filter \<Rightarrow> db \<Rightarrow> rat list \<times> rat list" where
  "get_r_multiple_series f d =
     (let rs = base_rows f d in (r_multiples (wins rs), r_multiples (losses rs)))"

definition get_profit_factor :: "analytics_filter \<Rightarrow> db \<Rightarrow> exn + profit_factor_result" where
  "get_profit_factor f d =
     (let rs = base_rows f d; gross_profit = sum_of net (wins rs); gross_loss = sum_of net (losses rs)
      in rbind (if gross_loss < 0
                then rbind (ddiv gross_profit (dabs gross_loss)) (\<lambda>x. Inr (Some x))
                else Inr None) (\<lambda>pf.
         Inr \<lparr>pf_profit_factor = pf, pf_gross_profit = gross_profit, pf_gross_loss = gross_loss\<rparr>))"

text \<open>
  The quotient of a planned trade: a division by zero is an error of the database, which ends the
  request.
\<close>

definition planned_rr_expr :: "sql_functions \<Rightarrow> trade_row \<Rightarrow> exn + rat option" where
  "planned_rr_expr sql t =
     (let target = the (t_planned_target t); stop = the (t_planned_stop t); entry = the (t_average_entry t);
          quotient = (\<lambda>a b. if b = 0 then Inl (Py DataError) else Inr (Some (sql_div sql a b)))
      in if t_direction t = ''LONG'' then quotient (target - entry) (entry - stop)
         else if t_direction t = ''SHORT'' then quotient (entry - target) (stop - entry)
         else Inr None)"

definition is_planned :: "trade_row \<Rightarrow> bool" where
  "is_planned t \<longleftrightarrow> t_planned_target t \<noteq> None \<and> t_planned_stop t \<noteq> None \<and> t_average_entry t \<noteq> None"

text \<open>The total is counted without the instruments, whatever the filter says of them.\<close>

definition get_planned_rr :: "sql_functions \<Rightarrow> analytics_filter \<Rightarrow> db \<Rightarrow> exn + planned_rr_result" where
  "get_planned_rr sql f d =
     (let total_count = length (joined_with False f d)
      in rbind (rmap (\<lambda>r. planned_rr_expr sql (jt r)) (filter (\<lambda>r. is_planned (jt r)) (base_rows f d))) (\<lambda>rrs.
         let values = not_null id rrs; rr_count = length values
         in rbind (rate rr_count total_count) (\<lambda>coverage_pct.
            Inr \<lparr>rp_avg_planned_rr = avg_of sql values, rp_trade_count_with_rr = rr_count,
                 rp_total_count = total_count, rp_coverage_pct = coverage_pct\<rparr>)))"

section \<open>The distribution of the R-multiples\<close>

record r_stats =
  rx_coverage_count :: nat
  rx_total_count :: nat
  rx_mean_r :: "rat option"
  rx_median_r :: "rat option"
  rx_p25_r :: "rat option"
  rx_p75_r :: "rat option"
  rx_stddev_r :: "rat option"

definition get_r_distribution_stats :: "sql_functions \<Rightarrow> analytics_filter \<Rightarrow> db \<Rightarrow> r_stats" where
  "get_r_distribution_stats sql f d =
     (let rs = base_rows f d; xs = r_multiples rs
      in \<lparr>rx_coverage_count = length xs, rx_total_count = length rs, rx_mean_r = avg_of sql xs,
          rx_median_r = percentile_of sql (1 / 2) xs, rx_p25_r = percentile_of sql (1 / 4) xs,
          rx_p75_r = percentile_of sql (3 / 4) xs, rx_stddev_r = stddev_of sql xs\<rparr>)"

definition bucket_defs :: "(string \<times> rat option \<times> rat option) list" where
  "bucket_defs =
     [(''< -2R'', None, Some (- 2)), (''-2R to -1R'', Some (- 2), Some (- 1)), (''-1R to 0R'', Some (- 1), Some 0),
      (''0R to 1R'', Some 0, Some 1), (''1R to 2R'', Some 1, Some 2), (''> 2R'', Some 2, None)]"

definition in_bucket :: "rat option \<Rightarrow> rat option \<Rightarrow> rat \<Rightarrow> bool" where
  "in_bucket lo hi x \<longleftrightarrow>
     (case lo of None \<Rightarrow> True | Some l \<Rightarrow> l \<le> x) \<and> (case hi of None \<Rightarrow> True | Some u \<Rightarrow> x < u)"

definition get_r_distribution_buckets :: "analytics_filter \<Rightarrow> db \<Rightarrow> r_bucket list" where
  "get_r_distribution_buckets f d =
     map (\<lambda>(label, lo, hi).
       \<lparr>rb_label = label, rb_lower = lo, rb_upper = hi,
        rb_count = length (filter (in_bucket lo hi) (r_multiples (base_rows f d)))\<rparr>) bucket_defs"

section \<open>Series in the order of the trades\<close>

text \<open>
  \<open>ORDER BY trade_date, last_fill_at, id\<close>; the window sum of a row is over the rows that do not
  come after it.
\<close>

definition curve_le :: "joined \<Rightarrow> joined \<Rightarrow> bool" where
  "curve_le x y \<longleftrightarrow>
     (let t = jt x; u = jt y
      in t_trade_date t < t_trade_date u \<or>
         t_trade_date t = t_trade_date u \<and>
           (case (t_last_fill_at t, t_last_fill_at u) of
              (Some a, Some b) \<Rightarrow> a < b \<or> a = b \<and> t_id t \<le> t_id u
            | (Some _, None) \<Rightarrow> True
            | (None, Some _) \<Rightarrow> False
            | (None, None) \<Rightarrow> t_id t \<le> t_id u))"

definition get_equity_curve :: "analytics_filter \<Rightarrow> db \<Rightarrow> equity_curve_point list" where
  "get_equity_curve f d =
     (let rs = base_rows f d
      in map (\<lambda>r. \<lparr>ec_trade_date = t_trade_date (jt r), ec_trade_id = t_id (jt r), ec_net_pnl = net r,
                   ec_cumulative_net_pnl = sum_of net (filter (\<lambda>r'. curve_le r' r) rs)\<rparr>)
           (order_by curve_le rs))"

definition get_net_pnl_series :: "analytics_filter \<Rightarrow> db \<Rightarrow> rat list" where
  "get_net_pnl_series f d = map net (order_by curve_le (base_rows f d))"

definition get_r_multiples_for_monte_carlo :: "analytics_filter \<Rightarrow> db \<Rightarrow> rat list" where
  "get_r_multiples_for_monte_carlo f d = r_multiples (base_rows f d)"

definition get_trade_series :: "analytics_filter \<Rightarrow> db \<Rightarrow> trade_series_point list" where
  "get_trade_series f d =
     map (\<lambda>r. \<lparr>ts_trade_date = t_trade_date (jt r), ts_trade_id = t_id (jt r), ts_net_pnl = net r,
              ts_r_multiple = p_r_multiple (jp r)\<rparr>)
       (order_by curve_le (base_rows f d))"

section \<open>Groups\<close>

text \<open>\<open>GROUP BY\<close>: the keys with their rows; NULL is a key of its own.\<close>

definition group_by :: "('a \<Rightarrow> 'k) \<Rightarrow> 'a list \<Rightarrow> ('k \<times> 'a list) list" where
  "group_by g rs = map (\<lambda>k. (k, filter (\<lambda>r. g r = k) rs)) (remdups (map g rs))"

definition order_desc :: "('a \<Rightarrow> 'b::linorder) \<Rightarrow> 'a list \<Rightarrow> 'a list" where
  "order_desc g rs = order_by (\<lambda>x y. g y \<le> g x) rs"

definition avg_net :: "sql_functions \<Rightarrow> joined list \<Rightarrow> rat" where
  "avg_net sql rs = or_zero (avg_of sql (map net rs))"

definition setup_row ::
  "sql_functions \<Rightarrow> string option \<times> joined list \<Rightarrow> exn + setup_performance_row" where
  "setup_row sql kr =
     (let rs = snd kr
      in rbind (rate (length (wins rs)) (length rs)) (\<lambda>win_rate.
         Inr \<lparr>sp_setup_name = fst kr, sp_trade_count = length rs, sp_win_count = length (wins rs),
              sp_loss_count = length (losses rs), sp_breakeven_count = length (breakevens rs),
              sp_win_rate = win_rate, sp_avg_net_pnl = avg_net sql rs, sp_total_net_pnl = sum_of net rs,
              sp_avg_r_multiple = avg_of sql (r_multiples rs), sp_expectancy_r = None,
              sp_profit_factor = None\<rparr>))"

definition get_by_setup :: "sql_functions \<Rightarrow> analytics_filter \<Rightarrow> db \<Rightarrow> exn + setup_performance_row list" where
  "get_by_setup sql f d =
     rmap (setup_row sql)
       (order_desc (\<lambda>x. sum_of net (snd x)) (group_by (\<lambda>r. t_setup_name (jt r)) (base_rows f d)))"

text \<open>The rows of the direction query before the service turns them into its results.\<close>

record direction_raw =
  dq_direction :: string
  dq_trade_count :: nat
  dq_win_count :: nat
  dq_loss_count :: nat
  dq_breakeven_count :: nat
  dq_avg_net_pnl :: rat
  dq_total_net_pnl :: rat
  dq_avg_r :: "rat option"

definition get_by_direction :: "sql_functions \<Rightarrow> analytics_filter \<Rightarrow> db \<Rightarrow> direction_raw list" where
  "get_by_direction sql f d =
     map (\<lambda>(direction, rs).
         \<lparr>dq_direction = direction, dq_trade_count = length rs, dq_win_count = length (wins rs),
          dq_loss_count = length (losses rs), dq_breakeven_count = length (breakevens rs),
          dq_avg_net_pnl = avg_net sql rs, dq_total_net_pnl = sum_of net rs,
          dq_avg_r = avg_of sql (r_multiples rs)\<rparr>)
       (group_by (\<lambda>r. t_direction (jt r)) (base_rows f d))"

definition get_charges_breakdown :: "analytics_filter \<Rightarrow> db \<Rightarrow> charges_breakdown" where
  "get_charges_breakdown f d =
     (let rs = base_rows f d; column = (\<lambda>g. sum_of (\<lambda>r. g (jp r)) rs)
      in \<lparr>cx_total_brokerage = column p_brokerage, cx_total_stt = column p_stt,
          cx_total_exchange_charges = column p_exchange_charges, cx_total_sebi_charges = column p_sebi_charges,
          cx_total_stamp_duty = column p_stamp_duty, cx_total_gst = column p_gst, cx_total_ipft = column p_ipft,
          cx_total_charges = column p_total_charges, cx_total_gross_pnl = column p_gross_pnl,
          cx_charge_drag_pct = None, cx_charges_added_to_loss = None\<rparr>)"

section \<open>Hold durations\<close>

text \<open>\<open>EXTRACT(EPOCH FROM last_fill_at - first_fill_at) / 60\<close>, in \<open>numeric\<close>.\<close>

definition duration_minutes :: "sql_functions \<Rightarrow> trade_row \<Rightarrow> rat option" where
  "duration_minutes sql t =
     map_option (\<lambda>l. sql_div sql (of_int (l - t_first_fill_at t) / 1000000) 60) (t_last_fill_at t)"

definition EN_DASH :: string where
  "EN_DASH = [CHR '' '', CHR 0xE2, CHR 0x80, CHR 0x93, CHR '' '']"

definition bucket_expr :: "rat option \<Rightarrow> string \<times> nat" where
  "bucket_expr minutes =
     (let below = (\<lambda>b. case minutes of None \<Rightarrow> False | Some m \<Rightarrow> m < b)
      in if below 15 then (''< 15 min'', 1)
         else if below 60 then (''15 min'' @ EN_DASH @ ''1 hr'', 2)
         else if below 240 then (''1'' @ EN_DASH @ ''4 hr'', 3)
         else if below 1440 then (''4'' @ EN_DASH @ ''24 hr'', 4)
         else if below 10080 then (''1'' @ EN_DASH @ ''7 days'', 5)
         else (''> 7 days'', 6))"

text \<open>The averages are over all instruments, whatever the filter says of them.\<close>

definition hold_row ::
  "sql_functions \<Rightarrow> (string \<times> nat) \<times> joined list \<Rightarrow> exn + hold_duration_bucket" where
  "hold_row sql kr =
     (let rs = snd kr
      in rbind (rate (length (wins rs)) (length rs)) (\<lambda>win_rate.
         Inr \<lparr>hb_bucket = fst (fst kr), hb_bucket_order = snd (fst kr), hb_count = length rs,
              hb_avg_net_pnl = avg_net sql rs, hb_win_rate = win_rate\<rparr>))"

definition get_hold_duration_distribution ::
  "sql_functions \<Rightarrow> analytics_filter \<Rightarrow> db \<Rightarrow> exn + hold_duration_distribution" where
  "get_hold_duration_distribution sql f d =
     rbind (rmap (hold_row sql)
       (order_by (\<lambda>x y. snd (fst x) \<le> snd (fst y))
         (group_by (\<lambda>r. bucket_expr (duration_minutes sql (jt r))) (base_rows f d)))) (\<lambda>buckets.
     let minutes = not_null (\<lambda>r. duration_minutes sql (jt r)) (joined_with False f d)
     in Inr \<lparr>hd_buckets = buckets, hd_avg_duration_minutes = avg_of sql minutes,
             hd_median_duration_minutes = percentile_of sql (1 / 2) minutes\<rparr>)"

section \<open>Exit types\<close>

text \<open>
  The row that \<open>DISTINCT ON (trade_id)\<close> keeps of the EXIT fills of a trade, joined from the left: one
  of the latest, which one of several at the same time is the database's choice.
\<close>

definition last_exit_type :: "sql_functions \<Rightarrow> db \<Rightarrow> trade_row \<Rightarrow> string option" where
  "last_exit_type sql d t =
     Option.bind (first_row (order_by (\<lambda>x y. x_fill_timestamp y \<le> x_fill_timestamp x)
       (sql_scan sql (filter (\<lambda>x. x_fill_role x = Some ''EXIT'' \<and> x_trade_id x = Some (t_id t))
         (execution_fills d)))))
       x_exit_type"

definition exit_type_result ::
  "sql_functions \<Rightarrow> string option \<times> joined list \<Rightarrow> exn + exit_type_row" where
  "exit_type_result sql kr =
     (let rs = snd kr
      in rbind (rate (length (wins rs)) (length rs)) (\<lambda>win_rate.
         Inr \<lparr>et_exit_type = fst kr, et_trade_count = length rs, et_win_rate = win_rate,
              et_avg_net_pnl = avg_net sql rs, et_avg_r_multiple = avg_of sql (r_multiples rs)\<rparr>))"

definition get_by_exit_type :: "sql_functions \<Rightarrow> analytics_filter \<Rightarrow> db \<Rightarrow> exn + exit_type_row list" where
  "get_by_exit_type sql f d =
     rmap (exit_type_result sql)
       (order_desc (\<lambda>x. length (snd x)) (group_by (\<lambda>r. last_exit_type sql d (jt r)) (base_rows f d)))"

section \<open>Dimensions\<close>

definition ALLOWED_DIMENSIONS :: "string list" where
  "ALLOWED_DIMENSIONS = [''direction'', ''setup'', ''instrument'', ''trade_type'', ''segment'']"

definition NO_SETUP :: string where "NO_SETUP = ''(no setup)''"

definition group_col :: "string \<Rightarrow> joined \<Rightarrow> string option" where
  "group_col dimension r =
     (if dimension = ''direction'' then Some (t_direction (jt r))
      else if dimension = ''setup'' then
        Some (case t_setup_name (jt r) of None \<Rightarrow> NO_SETUP | Some s \<Rightarrow> s)
      else if dimension = ''instrument'' then map_option i_symbol (ji r)
      else if dimension = ''trade_type'' then Some (t_trade_type (jt r))
      else map_option i_exchange_segment (ji r))"

definition dimension_rows :: "string \<Rightarrow> analytics_filter \<Rightarrow> db \<Rightarrow> joined list" where
  "dimension_rows dimension f d =
     joined_with (dimension \<in> {''instrument'', ''segment''} \<or> needs_instrument_join f) f d"

definition dimension_row ::
  "sql_functions \<Rightarrow> string option \<times> joined list \<Rightarrow> exn + dimension_breakdown_row" where
  "dimension_row sql kr =
     (let rs = snd kr
      in rbind (rate (length (wins rs)) (length rs)) (\<lambda>win_rate.
         Inr \<lparr>bg_label = (case fst kr of Some s \<Rightarrow> s | None \<Rightarrow> NO_SETUP),
              bg_trade_count = length rs, bg_win_count = length (wins rs), bg_win_rate = win_rate,
              bg_total_net_pnl = sum_of net rs, bg_avg_net_pnl = avg_net sql rs,
              bg_avg_r_multiple = avg_of sql (r_multiples rs),
              bg_avg_hold_duration_minutes =
                avg_of sql (not_null (\<lambda>r. duration_minutes sql (jt r)) rs)\<rparr>))"

definition repo_dimension_breakdown ::
  "sql_functions \<Rightarrow> analytics_filter \<Rightarrow> string \<Rightarrow> db \<Rightarrow> exn + dimension_breakdown_row list" where
  "repo_dimension_breakdown sql f dimension d =
     (if dimension \<notin> set ALLOWED_DIMENSIONS then Inl (Py (ValueError ''Invalid dimension''))
      else
        rmap (dimension_row sql)
          (order_desc (\<lambda>x. sum_of net (snd x)) (group_by (group_col dimension) (dimension_rows dimension f d))))"

section \<open>Kelly inputs and the time of day\<close>

record kelly_inputs =
  ki_trades_with_r :: nat
  ki_win_r_count :: nat
  ki_loss_r_count :: nat
  ki_avg_win_r :: "rat option"
  ki_avg_loss_r :: "rat option"
  ki_avg_positive_r :: "rat option"

definition get_kelly_inputs :: "sql_functions \<Rightarrow> analytics_filter \<Rightarrow> db \<Rightarrow> kelly_inputs" where
  "get_kelly_inputs sql f d =
     (let rs = base_rows f d; win_r = r_multiples (wins rs); loss_r = r_multiples (losses rs)
      in \<lparr>ki_trades_with_r = length (r_multiples rs), ki_win_r_count = length win_r,
          ki_loss_r_count = length loss_r, ki_avg_win_r = avg_of sql win_r, ki_avg_loss_r = avg_of sql loss_r,
          ki_avg_positive_r = avg_of sql (filter (\<lambda>x. 0 < x) (r_multiples rs))\<rparr>)"

definition TOD_BOUNDS :: "((int \<times> int) \<times> string) list" where
  "TOD_BOUNDS =
     [((time_of_day 9 15 0, time_of_day 9 30 0), ''pre_open''),
      ((time_of_day 9 30 0, time_of_day 10 0 0), ''open_volatility''),
      ((time_of_day 10 0 0, time_of_day 11 30 0), ''mid_morning''),
      ((time_of_day 11 30 0, time_of_day 13 30 0), ''lunch''),
      ((time_of_day 13 30 0, time_of_day 15 0 0), ''afternoon'')]"

definition tod_bucket :: "timestamp \<Rightarrow> string" where
  "tod_bucket ts =
     (case first_row (filter (\<lambda>((lo, hi), key). lo \<le> ist_time ts \<and> ist_time ts \<le> hi) TOD_BOUNDS) of
        None \<Rightarrow> ''close''
      | Some (bounds, key) \<Rightarrow> key)"

record tod_raw =
  tq_bucket :: string
  tq_trade_count :: nat
  tq_win_count :: nat
  tq_expectancy_inr :: "rat option"
  tq_total_net_pnl :: rat

definition repo_time_of_day :: "sql_functions \<Rightarrow> analytics_filter \<Rightarrow> db \<Rightarrow> tod_raw list" where
  "repo_time_of_day sql f d =
     map (\<lambda>(bucket, rs).
         \<lparr>tq_bucket = bucket, tq_trade_count = length rs, tq_win_count = length (wins rs),
          tq_expectancy_inr = avg_of sql (map net rs), tq_total_net_pnl = sum_of net rs\<rparr>)
       (group_by (\<lambda>r. tod_bucket (t_first_fill_at (jt r))) (base_rows f d))"

section \<open>The values of the filters\<close>

definition get_distinct_accounts :: "uuid \<Rightarrow> db \<Rightarrow> account_dimension list" where
  "get_distinct_accounts user_id d =
     map (\<lambda>a. \<lparr>ad_id = a,
          ad_label = (case get_by a_id (trading_accounts d) a of None \<Rightarrow> uuid_str a | Some r \<Rightarrow> a_display_name r)\<rparr>)
       (order_by (\<le>) (remdups (not_null t_account_id
         (filter (\<lambda>t. t_user_id t = user_id \<and> t_status t = ''CLOSED'') (trades d)))))"

definition get_distinct_setups :: "sql_functions \<Rightarrow> uuid \<Rightarrow> db \<Rightarrow> string list" where
  "get_distinct_setups sql user_id d =
     map (\<lambda>s. case s of Some n \<Rightarrow> n | None \<Rightarrow> NO_SETUP)
       (order_by (\<lambda>x y. case (x, y) of (_, None) \<Rightarrow> True | (None, Some _) \<Rightarrow> False | (Some a, Some b) \<Rightarrow> sql_text_le sql a b)
         (remdups (map t_setup_name (filter (\<lambda>t. t_user_id t = user_id \<and> t_status t = ''CLOSED'') (trades d)))))"

definition get_distinct_brokers :: "sql_functions \<Rightarrow> uuid \<Rightarrow> db \<Rightarrow> string list" where
  "get_distinct_brokers sql user_id d =
     order_by (sql_text_le sql) (remdups
       [p_broker p. t \<leftarrow> trades d, p \<leftarrow> filter (\<lambda>p. p_trade_id p = t_id t) (trade_pnls d),
          t_user_id t = user_id \<and> t_status t = ''CLOSED''])"

end
