(* ===== verification/Analytics_Service.thy ===== *)
theory Analytics_Service
  imports Analytics_Repo Trades_Api
begin

text \<open>
  \<open>application/analytics_service.py\<close> over the repository and the calculators, and of
  \<open>api/v1/analytics.py\<close> the routes that do more than pass a result on.
\<close>

section \<open>Private helpers\<close>

definition apply_charge_drag_suppression :: "charges_breakdown \<Rightarrow> exn + charges_breakdown" where
  "apply_charge_drag_suppression raw =
     (if 0 < cx_total_gross_pnl raw
      then rbind (ddiv (cx_total_charges raw) (cx_total_gross_pnl raw)) (\<lambda>x.
             Inr (raw\<lparr>cx_charge_drag_pct := Some (dmul x 100), cx_charges_added_to_loss := None\<rparr>))
      else Inr (raw\<lparr>cx_charge_drag_pct := None, cx_charges_added_to_loss := Some (cx_total_charges raw)\<rparr>))"

definition build_direction_rows :: "direction_raw list \<Rightarrow> exn + direction_performance_row list" where
  "build_direction_rows raw =
     rmap (\<lambda>r.
       rbind (rate (dq_win_count r) (dq_trade_count r)) (\<lambda>win_rate.
       Inr \<lparr>dp_direction = (if dq_direction r = [] then ''UNKNOWN'' else dq_direction r),
            dp_trade_count = dq_trade_count r, dp_win_count = dq_win_count r,
            dp_loss_count = dq_loss_count r, dp_breakeven_count = dq_breakeven_count r,
            dp_win_rate = win_rate, dp_avg_net_pnl = dq_avg_net_pnl r,
            dp_total_net_pnl = dq_total_net_pnl r, dp_avg_r_multiple = dq_avg_r r\<rparr>)) raw"

section \<open>AnalyticsService\<close>

definition service_summary :: "sql_functions \<Rightarrow> analytics_filter \<Rightarrow> db \<Rightarrow> exn + analytics_summary" where
  "service_summary sql f d =
     (let pnl = get_pnl_summary f d in
      rbind (get_outcome_distribution f d) (\<lambda>outcome.
      rbind (get_profit_factor f d) (\<lambda>profit_factor.
      rbind (get_planned_rr sql f d) (\<lambda>planned_rr.
      let (win_r, loss_r) = get_r_multiple_series f d in
      rbind (compute_expectancy win_r loss_r (od_total_n outcome)) (\<lambda>expectancy.
      let all_r = win_r @ loss_r in
      rbind (compute_sharpe_ratio all_r N_PER_YEAR_DEFAULT) (\<lambda>sharpe.
      rbind (compute_sortino_ratio all_r N_PER_YEAR_DEFAULT) (\<lambda>sortino.
      rbind (compute_drawdown_stats (get_equity_curve f d)) (\<lambda>drawdown.
      rbind (build_direction_rows (get_by_direction sql f d)) (\<lambda>direction.
      rbind (apply_charge_drag_suppression (get_charges_breakdown f d)) (\<lambda>charges.
      Inr \<lparr>as_pnl = pnl, as_outcome = outcome, as_expectancy = expectancy,
           as_profit_factor = profit_factor, as_planned_rr = planned_rr, as_drawdown = drawdown,
           as_direction = direction, as_charges = charges,
           as_risk_adjusted = \<lparr>ra_sharpe = sharpe, ra_sortino = sortino\<rparr>\<rparr>))))))))))"

definition get_r_distribution ::
  "sql_functions \<Rightarrow> analytics_filter \<Rightarrow> db \<Rightarrow> exn + r_multiple_distribution" where
  "get_r_distribution sql f d =
     (let stats = get_r_distribution_stats sql f d
      in rbind (rate (rx_coverage_count stats) (rx_total_count stats)) (\<lambda>coverage_pct.
         Inr \<lparr>rd_mean_r = rx_mean_r stats, rd_median_r = rx_median_r stats,
              rd_stddev_r = rx_stddev_r stats, rd_p25_r = rx_p25_r stats, rd_p75_r = rx_p75_r stats,
              rd_coverage_count = rx_coverage_count stats, rd_total_count = rx_total_count stats,
              rd_coverage_pct = coverage_pct, rd_insufficient_sample = rx_coverage_count stats < 5,
              rd_buckets = get_r_distribution_buckets f d\<rparr>))"

definition get_streaks :: "analytics_filter \<Rightarrow> db \<Rightarrow> exn + streak_stats" where
  "get_streaks f d = compute_streak_stats (get_net_pnl_series f d)"

definition get_dimension_breakdown ::
  "sql_functions \<Rightarrow> analytics_filter \<Rightarrow> string \<Rightarrow> db \<Rightarrow> exn + dimension_breakdown" where
  "get_dimension_breakdown sql f dimension d =
     rbind (repo_dimension_breakdown sql f dimension d) (\<lambda>rows.
     Inr \<lparr>bd_dimension = dimension, bd_groups = rows\<rparr>)"

definition get_monte_carlo ::
  "(nat \<Rightarrow> nat \<Rightarrow> nat) \<Rightarrow> analytics_filter \<Rightarrow> nat \<Rightarrow> db \<Rightarrow> exn + monte_carlo_result" where
  "get_monte_carlo draw f n_simulations d =
     compute_monte_carlo draw (get_r_multiples_for_monte_carlo f d) n_simulations (- 50)"

definition no_kelly :: "nat \<Rightarrow> kelly_result" where
  "no_kelly trades_with_r =
     \<lparr>ke_kelly_pct = None, ke_half_kelly_pct = None, ke_trades_with_r = trades_with_r,
      ke_insufficient_sample = True, ke_min_n = 30\<rparr>"

definition get_kelly_fraction :: "sql_functions \<Rightarrow> analytics_filter \<Rightarrow> db \<Rightarrow> exn + kelly_result" where
  "get_kelly_fraction sql f d =
     (let inputs = get_kelly_inputs sql f d; trades_with_r = ki_trades_with_r inputs;
          r_count = ki_win_r_count inputs + ki_loss_r_count inputs
      in if trades_with_r < 30 then Inr (no_kelly trades_with_r)
         else
           case ki_avg_positive_r inputs of
             None \<Rightarrow> Inr (no_kelly trades_with_r)
           | Some avg_positive_r \<Rightarrow>
               if avg_positive_r \<le> 0 \<or> r_count = 0 then Inr (no_kelly trades_with_r)
               else
                 rbind (ddiv (of_nat (ki_win_r_count inputs)) (of_nat r_count)) (\<lambda>win_rate.
                 rbind (ddiv (of_nat (ki_loss_r_count inputs)) (of_nat r_count)) (\<lambda>loss_rate.
                 let expectancy_r =
                   (case (ki_avg_win_r inputs, ki_avg_loss_r inputs) of
                      (Some w, Some l) \<Rightarrow> dsub (dmul win_rate w) (dmul loss_rate (dabs l))
                    | (Some w, None) \<Rightarrow> w
                    | (None, Some l) \<Rightarrow> dneg (dabs l)
                    | (None, None) \<Rightarrow> dneg 0)
                 in rbind (ddiv expectancy_r avg_positive_r) (\<lambda>kelly_pct.
                    rbind (ddiv kelly_pct 2) (\<lambda>half_kelly_pct.
                    Inr \<lparr>ke_kelly_pct = Some kelly_pct, ke_half_kelly_pct = Some half_kelly_pct,
                         ke_trades_with_r = trades_with_r, ke_insufficient_sample = False,
                         ke_min_n = 30\<rparr>)))))"

definition TOD_CANONICAL :: "(string \<times> string) list" where
  "TOD_CANONICAL =
     [(''pre_open'', ''Pre-Open''), (''open_volatility'', ''Open Volatility''), (''mid_morning'', ''Mid-Morning''),
      (''lunch'', ''Lunch''), (''afternoon'', ''Afternoon''), (''close'', ''Close'')]"

definition canonical_bucket :: "tod_raw list \<Rightarrow> string \<times> string \<Rightarrow> exn + time_of_day_bucket" where
  "canonical_bucket raw k =
     (case first_row (filter (\<lambda>r. tq_bucket r = fst k) raw) of
        Some row \<Rightarrow>
          rbind (rate (tq_win_count row) (tq_trade_count row)) (\<lambda>win_rate.
          Inr \<lparr>tb_bucket = fst k, tb_label = snd k, tb_trade_count = tq_trade_count row,
               tb_win_count = tq_win_count row, tb_win_rate = win_rate,
               tb_expectancy_inr = tq_expectancy_inr row, tb_total_net_pnl = tq_total_net_pnl row\<rparr>)
      | None \<Rightarrow>
          Inr \<lparr>tb_bucket = fst k, tb_label = snd k, tb_trade_count = 0, tb_win_count = 0,
               tb_win_rate = 0, tb_expectancy_inr = None, tb_total_net_pnl = 0\<rparr>)"

definition get_time_of_day :: "sql_functions \<Rightarrow> analytics_filter \<Rightarrow> db \<Rightarrow> exn + time_of_day_bucket list" where
  "get_time_of_day sql f d = rmap (canonical_bucket (repo_time_of_day sql f d)) TOD_CANONICAL"

definition get_rolling_expectancy :: "analytics_filter \<Rightarrow> db \<Rightarrow> exn + rolling_expectancy_result" where
  "get_rolling_expectancy f d = compute_rolling_expectancy (get_trade_series f d) MIN_N_ROLLING"

section \<open>Routes\<close>

definition respond :: "exn + 'a \<Rightarrow> 'a response" where
  "respond r = (case r of Inr x \<Rightarrow> Answer x | Inl e \<Rightarrow> Unhandled e)"

definition get_analytics_summary_route ::
  "sql_functions \<Rightarrow> analytics_filter \<Rightarrow> db \<Rightarrow> analytics_summary response" where
  "get_analytics_summary_route sql f d = respond (service_summary sql f d)"

definition get_monte_carlo_route ::
  "(nat \<Rightarrow> nat \<Rightarrow> nat) \<Rightarrow> analytics_filter \<Rightarrow> int \<Rightarrow> db \<Rightarrow> monte_carlo_result response" where
  "get_monte_carlo_route draw f n_simulations d =
     (if n_simulations < 100 \<or> 10000 < n_simulations then HttpError 422 ''VALIDATION_ERROR''
      else respond (get_monte_carlo draw f (nat n_simulations) d))"

definition get_breakdown_route ::
  "sql_functions \<Rightarrow> analytics_filter \<Rightarrow> string \<Rightarrow> db \<Rightarrow> dimension_breakdown response" where
  "get_breakdown_route sql f dimension d =
     (if dimension \<notin> set ALLOWED_DIMENSIONS then
        HttpError 422 (''Invalid dimension '' @ [CHR 0x27] @ dimension @ [CHR 0x27] @ ''. Must be one of: ['' @
          join '', '' (map repr [''direction'', ''instrument'', ''segment'', ''setup'', ''trade_type'']) @ '']'')
      else respond (get_dimension_breakdown sql f dimension d))"

end
