(* ===== verification/Risk.thy ===== *)
theory Risk
  imports Analytics_Service
begin

text \<open>
  \<open>application/risk_service.py\<close>, \<open>domain/risk/types.py\<close> and \<open>api/v1/risk.py\<close>: the exposure of today
  beside the historical metrics; and \<open>api/v1/dashboard.py\<close>. The clock of the database and the clock
  of the application are two readings.
\<close>

section \<open>domain/risk/types.py\<close>

record daily_risk_result =
  dk_as_of_date :: string
  dk_open_trade_count :: nat
  dk_total_at_risk_inr :: "rat option"
  dk_daily_loss_inr :: rat
  dk_daily_loss_trade_count :: nat

record risk_summary_result =
  rk_max_drawdown_inr :: "rat option"
  rk_max_drawdown_pct :: "rat option"
  rk_current_drawdown_inr :: "rat option"
  rk_current_drawdown_pct :: "rat option"
  rk_max_loss_streak :: nat
  rk_current_loss_streak :: nat
  rk_daily_loss_inr :: rat
  rk_daily_loss_trade_count :: nat
  rk_total_at_risk_inr :: "rat option"
  rk_open_trade_count :: nat
  rk_as_of_date :: string

section \<open>The queries\<close>

text \<open>\<open>COUNT(*)\<close> and \<open>SUM(planned_risk_amount)\<close>, which is NULL without a value.\<close>

definition at_risk :: "(trade_row \<Rightarrow> bool) \<Rightarrow> db \<Rightarrow> nat \<times> rat option" where
  "at_risk scope d =
     (let ts = filter (\<lambda>t. scope t \<and> t_status t \<in> {''OPEN'', ''PARTIAL''} \<and> \<not> t_is_deleted t) (trades d);
          xs = not_null t_planned_risk_amount ts
      in (length ts, if xs = [] then None else Some (sum_list xs)))"

definition daily_loss :: "(trade_row \<Rightarrow> bool) \<Rightarrow> timestamp \<Rightarrow> db \<Rightarrow> rat \<times> nat" where
  "daily_loss scope current_timestamp d =
     (let ps = [p. t \<leftarrow> trades d, p \<leftarrow> filter (\<lambda>p. p_trade_id p = t_id t) (trade_pnls d),
                  scope t \<and> t_trade_date t = ist_date current_timestamp \<and> p_net_pnl p < 0 \<and> \<not> t_is_deleted t]
      in (sum_of p_net_pnl ps, length ps))"

definition in_account :: "uuid \<Rightarrow> trade_row \<Rightarrow> bool" where
  "in_account account_id t \<longleftrightarrow> t_account_id t = Some account_id"

definition in_filter :: "analytics_filter \<Rightarrow> trade_row \<Rightarrow> bool" where
  "in_filter f t \<longleftrightarrow> t_user_id t = ft_user_id f \<and> among (ft_account_ids f) (t_account_id t)"

section \<open>RiskService\<close>

definition get_daily_risk :: "timestamp \<Rightarrow> timestamp \<Rightarrow> uuid \<Rightarrow> db \<Rightarrow> daily_risk_result" where
  "get_daily_risk current_timestamp now account_id d =
     (let (open_trade_count, total_at_risk) = at_risk (in_account account_id) d;
          (loss, loss_count) = daily_loss (in_account account_id) current_timestamp d
      in \<lparr>dk_as_of_date = iso_date (ist_date now), dk_open_trade_count = open_trade_count,
          dk_total_at_risk_inr = total_at_risk, dk_daily_loss_inr = loss,
          dk_daily_loss_trade_count = loss_count\<rparr>)"

definition get_risk_summary ::
  "sql_functions \<Rightarrow> timestamp \<Rightarrow> timestamp \<Rightarrow> analytics_filter \<Rightarrow> db \<Rightarrow> exn + risk_summary_result" where
  "get_risk_summary sql current_timestamp now f d =
     rbind (service_summary sql f d) (\<lambda>analytics_summary.
     rbind (get_streaks f d) (\<lambda>streaks.
     let drawdown = as_drawdown analytics_summary;
         (open_trade_count, total_at_risk) = at_risk (in_filter f) d;
         (loss, loss_count) = daily_loss (in_filter f) current_timestamp d
     in Inr \<lparr>rk_max_drawdown_inr = dd_max_drawdown_inr drawdown,
             rk_max_drawdown_pct = dd_max_drawdown_pct drawdown,
             rk_current_drawdown_inr = dd_current_drawdown_inr drawdown,
             rk_current_drawdown_pct = dd_current_drawdown_pct drawdown,
             rk_max_loss_streak = sk_max_loss_streak streaks,
             rk_current_loss_streak = sk_current_loss_streak streaks, rk_daily_loss_inr = loss,
             rk_daily_loss_trade_count = loss_count, rk_total_at_risk_inr = total_at_risk,
             rk_open_trade_count = open_trade_count, rk_as_of_date = iso_date (ist_date now)\<rparr>))"

section \<open>Routes\<close>

definition get_daily_summary_route ::
  "timestamp \<Rightarrow> timestamp \<Rightarrow> uuid \<Rightarrow> uuid \<Rightarrow> db \<Rightarrow> daily_risk_result response" where
  "get_daily_summary_route current_timestamp now account_id user_id d =
     Answer (get_daily_risk current_timestamp now account_id d)"

definition get_risk_summary_route ::
  "sql_functions \<Rightarrow> timestamp \<Rightarrow> timestamp \<Rightarrow> analytics_filter \<Rightarrow> db \<Rightarrow> risk_summary_result response" where
  "get_risk_summary_route sql current_timestamp now f d = respond (get_risk_summary sql current_timestamp now f d)"

section \<open>api/v1/dashboard.py\<close>

record dashboard_summary_response =
  ds_account_id :: string
  ds_as_of_date :: day
  ds_all_time_net_pnl :: rat
  ds_mtd_net_pnl :: rat
  ds_wtd_net_pnl :: rat
  ds_starting_capital :: "rat option"
  ds_realized_equity :: "rat option"
  ds_total_closed_trades :: nat
  ds_open_trade_count :: nat

text \<open>
  The query joins each trade with its result or NULL. \<open>CASE ... ELSE 0\<close> of a trade without a result
  is NULL or 0, which adds nothing. The week starts on Monday.
\<close>

definition dashboard_rows :: "uuid \<Rightarrow> uuid \<Rightarrow> db \<Rightarrow> (trade_row \<times> trade_pnl_row option) list" where
  "dashboard_rows account_id user_id d =
     [(t, p). t \<leftarrow> trades d, t_user_id t = user_id \<and> t_account_id t = Some account_id \<and> \<not> t_is_deleted t,
        p \<leftarrow> left_join_pnl t d]"

definition starting_capital_of :: "uuid \<Rightarrow> uuid \<Rightarrow> db \<Rightarrow> rat option" where
  "starting_capital_of account_id user_id d =
     Option.bind (first_row (filter (\<lambda>a. a_id a = account_id \<and> a_user_id a = user_id) (trading_accounts d)))
       a_starting_capital"

definition dashboard_summary :: "timestamp \<Rightarrow> uuid \<Rightarrow> uuid \<Rightarrow> db \<Rightarrow> dashboard_summary_response" where
  "dashboard_summary now account_id user_id d =
     (let today = ist_date now;
          mtd_start = (case civil_of_day today of (y, m, _) \<Rightarrow> day_of_civil y m 1);
          wtd_start = today - weekday today;
          starting_capital = starting_capital_of account_id user_id d;
          rows = dashboard_rows account_id user_id d;
          since = (\<lambda>start. sum_of (\<lambda>(t, p). if start \<le> t_trade_date t then or_zero (map_option p_net_pnl p) else 0) rows);
          all_time = sum_of (\<lambda>(t, p). or_zero (map_option p_net_pnl p)) rows
      in \<lparr>ds_account_id = uuid_str account_id, ds_as_of_date = today, ds_all_time_net_pnl = all_time,
          ds_mtd_net_pnl = since mtd_start, ds_wtd_net_pnl = since wtd_start,
          ds_starting_capital = starting_capital,
          ds_realized_equity = map_option (\<lambda>c. dadd c all_time) starting_capital,
          ds_total_closed_trades = length (filter (\<lambda>(t, p). t_status t = ''CLOSED'') rows),
          ds_open_trade_count = length (filter (\<lambda>(t, p). t_status t \<in> {''OPEN'', ''PARTIAL''}) rows)\<rparr>)"

end
