(* ===== verification/Analytics_Properties.thy ===== *)
theory Analytics_Properties
  imports Risk Recon_Properties Trade_Service_Properties Calculators_Properties
begin

text \<open>
  The analytics as functions of the tables: every breakdown partitions the same trades, the equity
  curve is the running sum of the ordered results, a user's figures depend on the user's rows only;
  and two requests where that or the answer itself fails.
\<close>

section \<open>Aggregates over groups\<close>

lemma rate_total: "\<exists>x. rate n k = Inr x"
  by (simp add: rate_def ddiv_def)

lemma rmap_total: "(\<And>x. x \<in> set xs \<Longrightarrow> \<exists>y. f x = Inr y) \<Longrightarrow> \<exists>ys. rmap f xs = Inr ys"
  by (induction xs) (fastforce simp: rbind_eq_Inr)+

lemma rmap_map:
  assumes "rmap f xs = Inr ys" and "\<And>x y. x \<in> set xs \<Longrightarrow> f x = Inr y \<Longrightarrow> h y = g x"
  shows "map h ys = map g xs"
  using assms by (induction xs arbitrary: ys) (auto simp: rbind_eq_Inr)

lemma rmap_Inl:
  assumes "x \<in> set xs" and "f x = Inl e" and "\<And>x e'. x \<in> set xs \<Longrightarrow> f x = Inl e' \<Longrightarrow> e' = e"
  shows "rmap f xs = Inl e"
  using assms
proof (induction xs)
  case (Cons a xs)
  show ?case
  proof (cases "f a")
    case (Inl e')
    with Cons.prems(3) [of a e'] show ?thesis by simp
  next
    case (Inr y)
    with Cons.prems(1,2) have "x \<in> set xs" by auto
    then have "rmap f xs = Inl e" by (rule Cons.IH) (use Cons.prems(2,3) in auto)
    with Inr show ?thesis by simp
  qed
qed simp

lemma sum_over_keys:
  fixes w :: "'a \<Rightarrow> 'b::comm_monoid_add"
  assumes "finite K" and "g ` set rs \<subseteq> K"
  shows "(\<Sum>k\<in>K. sum_list (map w (filter (\<lambda>r. g r = k) rs))) = sum_list (map w rs)"
  using assms(2)
proof (induction rs)
  case (Cons r rs)
  have "(\<Sum>k\<in>K. sum_list (map w (filter (\<lambda>r. g r = k) (r # rs)))) =
      (\<Sum>k\<in>K. (if k = g r then w r else 0) + sum_list (map w (filter (\<lambda>r. g r = k) rs)))"
    by (intro sum.cong) auto
  also have "\<dots> = w r + sum_list (map w rs)"
    using Cons assms(1) by (simp add: sum.distrib sum.delta)
  finally show ?case by simp
qed simp

lemma sum_groups:
  fixes w :: "'a \<Rightarrow> 'b::comm_monoid_add"
  shows "sum_list (map (\<lambda>(k, gs). sum_list (map w gs)) (group_by g rs)) = sum_list (map w rs)"
proof -
  have "sum_list (map (\<lambda>(k, gs). sum_list (map w gs)) (group_by g rs)) =
      (\<Sum>k\<leftarrow>remdups (map g rs). sum_list (map w (filter (\<lambda>r. g r = k) rs)))"
    by (simp add: group_by_def comp_def)
  also have "\<dots> = (\<Sum>k\<in>g ` set rs. sum_list (map w (filter (\<lambda>r. g r = k) rs)))"
    by (simp add: sum_list_distinct_conv_sum_set)
  also have "\<dots> = sum_list (map w rs)" by (rule sum_over_keys) auto
  finally show ?thesis .
qed

lemma length_groups: "sum_list (map (\<lambda>(k, gs). length (filter q gs)) (group_by g rs)) = length (filter q rs)"
proof -
  have "length (filter q gs) = sum_list (map (\<lambda>r. if q r then 1 else 0) gs)" for gs
    by (induction gs) simp_all
  then show ?thesis using sum_groups [of "\<lambda>r. if q r then 1 else 0 :: nat" g rs] by simp
qed

text \<open>What any list of result rows over the groups of \<open>rs\<close> adds up to.\<close>

lemma grouped_totals:
  assumes "rmap f gs = Inr ys" and "mset gs = mset (group_by g rs)"
    and "\<And>k xs y. f (k, xs) = Inr y \<Longrightarrow> cnt y = length xs \<and> won y = length (wins xs)"
  shows "sum_list (map cnt ys) = length rs \<and> sum_list (map won ys) = length (wins rs)"
proof -
  have cnt: "map cnt ys = map (\<lambda>(k, xs). length (filter (\<lambda>_. True) xs)) gs"
    by (rule rmap_map [OF assms(1)]) (use assms(3) in auto)
  have won: "map won ys = map (\<lambda>(k, xs). length (filter (\<lambda>r. 0 < net r) xs)) gs"
    by (rule rmap_map [OF assms(1)]) (use assms(3) in \<open>auto simp: wins_def\<close>)
  have perm: "sum_list (map h gs) = sum_list (map h (group_by g rs))" for h :: "_ \<Rightarrow> nat"
    using assms(2) by (metis mset_map sum_mset_sum_list)
  show ?thesis unfolding cnt won perm length_groups wins_def by simp
qed

lemma grouped_counts:
  assumes "rmap f gs = Inr ys" and "mset gs = mset (group_by g rs)"
    and "\<And>k xs y. f (k, xs) = Inr y \<Longrightarrow> cnt y = length xs"
  shows "sum_list (map cnt ys) = length rs"
proof -
  have "map cnt ys = map (\<lambda>(k, xs). length (filter (\<lambda>_. True) xs)) gs"
    by (rule rmap_map [OF assms(1)]) (use assms(3) in auto)
  moreover have "sum_list (map h gs) = sum_list (map h (group_by g rs))" for h :: "_ \<Rightarrow> nat"
    using assms(2) by (metis mset_map sum_mset_sum_list)
  ultimately show ?thesis by (simp only: length_groups) simp
qed

lemma grouped_nets:
  assumes "rmap f gs = Inr ys" and "mset gs = mset (group_by g rs)"
    and "\<And>k xs y. f (k, xs) = Inr y \<Longrightarrow> earned y = sum_of net xs"
  shows "sum_list (map earned ys) = sum_of net rs"
proof -
  have "map earned ys = map (\<lambda>(k, xs). sum_list (map net xs)) gs"
    by (rule rmap_map [OF assms(1)]) (use assms(3) in \<open>auto simp: sum_of_def\<close>)
  moreover have "sum_list (map h gs) = sum_list (map h (group_by g rs))" for h :: "_ \<Rightarrow> rat"
    using assms(2) by (metis mset_map sum_mset_sum_list)
  ultimately show ?thesis by (simp only: sum_groups sum_of_def)
qed

section \<open>Breakdowns\<close>

lemma mset_order_desc: "mset (order_desc g rs) = mset rs"
  by (simp add: order_desc_def mset_order_by)

lemma joined_trades_twice:
  assumes "\<forall>t\<in>set (trades d). length (filter (\<lambda>i. i_id i = t_instrument_id t) (instruments d)) = 1"
    and "\<not> needs_instrument_join f"
  shows "map (\<lambda>r. (jt r, jp r)) (joined_with True f d) = map (\<lambda>r. (jt r, jp r)) (joined_with False f d)"
proof -
  have clauses: "instrument_clauses f i" for i
    using assms(2) by (simp add: instrument_clauses_def needs_instrument_join_def among_def)
  have one: "map (\<lambda>i. (t, p)) (filter (\<lambda>i. i_id i = t_instrument_id t) (instruments d)) = [(t, p)]"
    if "t \<in> set (trades d)" for t p
    using assms(1) that by (auto simp: length_Suc_conv)
  show ?thesis
    unfolding joined_with_def
    by (simp add: map_concat comp_def clauses if_distrib [of "map _"] jt_def jp_def one cong: map_cong if_cong)
qed

lemma dimension_rows_same:
  assumes "\<forall>t\<in>set (trades d). length (filter (\<lambda>i. i_id i = t_instrument_id t) (instruments d)) = 1"
  shows "map (\<lambda>r. (jt r, jp r)) (dimension_rows dimension f d) = map (\<lambda>r. (jt r, jp r)) (base_rows f d)"
  using joined_trades_twice [OF assms, of f]
  by (cases "needs_instrument_join f"; cases "dimension \<in> {''instrument'', ''segment''}")
    (simp_all add: dimension_rows_def base_rows_def)

lemma same_totals:
  assumes "map (\<lambda>r. (jt r, jp r)) rs = map (\<lambda>r. (jt r, jp r)) rs'"
  shows "length rs = length rs' \<and> length (wins rs) = length (wins rs') \<and> sum_of net rs = sum_of net rs'"
proof -
  define n where "n = (\<lambda>x :: trade_row \<times> trade_pnl_row. p_net_pnl (snd x))"
  have nets: "map net rs = map n (map (\<lambda>r. (jt r, jp r)) rs)" for rs
    by (simp add: net_def n_def)
  have "length (wins rs) = length (filter (\<lambda>x. 0 < x) (map net rs))" for rs
    by (simp add: wins_def filter_map comp_def)
  with nets [of rs] nets [of rs'] assms show ?thesis unfolding sum_of_def by (metis length_map)
qed

lemma group_col_not_null:
  assumes "r \<in> set (dimension_rows dimension f d)" and "dimension \<in> set ALLOWED_DIMENSIONS"
  shows "group_col dimension r \<noteq> None"
proof (cases "dimension \<in> {''instrument'', ''segment''}")
  case True
  with assms(1) have "ji r \<noteq> None" by (auto simp: dimension_rows_def joined_with_def ji_def)
  with True show ?thesis by (auto simp: group_col_def)
next
  case False
  with assms(2) show ?thesis unfolding ALLOWED_DIMENSIONS_def by (auto simp: group_col_def)
qed

lemma keys_group_by: "map fst (group_by g rs) = remdups (map g rs)"
  by (simp add: group_by_def comp_def)

lemma find_group:
  "first_row (filter (\<lambda>x. fst x = key) (group_by g rs)) =
     (if key \<in> g ` set rs then Some (key, filter (\<lambda>r. g r = key) rs) else None)"
proof -
  have "filter (\<lambda>k. k = key) ks = (if key \<in> set ks then [key] else [])" if "distinct ks" for ks
    using that by (induction ks) (auto simp: filter_empty_conv)
  from this [of "remdups (map g rs)"] show ?thesis
    by (simp add: group_by_def filter_map comp_def first_row_def)
qed

lemma tod_bucket_canonical: "tod_bucket ts \<in> set (map fst TOD_CANONICAL)"
proof -
  have "key \<in> set (map fst TOD_CANONICAL)" if "(b, key) \<in> set TOD_BOUNDS" for b key
    using that by (auto simp: TOD_BOUNDS_def TOD_CANONICAL_def)
  moreover have "''close'' \<in> set (map fst TOD_CANONICAL)" by (simp add: TOD_CANONICAL_def)
  ultimately show ?thesis
    unfolding tod_bucket_def by (auto split: option.splits dest!: first_row_Some)
qed

text \<open>One band: the row of its group, or zeros.\<close>

lemma band_values:
  assumes "canonical_bucket (repo_time_of_day sql f d) k = Inr y"
  shows "tb_bucket y = fst k \<and>
    tb_trade_count y = length (filter (\<lambda>r. tod_bucket (t_first_fill_at (jt r)) = fst k) (base_rows f d)) \<and>
    tb_total_net_pnl y = sum_of net (filter (\<lambda>r. tod_bucket (t_first_fill_at (jt r)) = fst k) (base_rows f d))"
proof -
  let ?g = "\<lambda>r. tod_bucket (t_first_fill_at (jt r))"
  let ?row = "\<lambda>(bucket, rs). \<lparr>tq_bucket = bucket, tq_trade_count = length rs, tq_win_count = length (wins rs),
          tq_expectancy_inr = avg_of sql (map net rs), tq_total_net_pnl = sum_of net rs\<rparr>"
  have "first_row (filter (\<lambda>r. tq_bucket r = fst k) (map ?row xs)) =
      map_option ?row (first_row (filter (\<lambda>x. fst x = fst k) xs))" for xs
    by (induction xs) (auto simp: first_row_def)
  then have found: "first_row (filter (\<lambda>r. tq_bucket r = fst k) (repo_time_of_day sql f d)) =
      (if fst k \<in> ?g ` set (base_rows f d) then Some (?row (fst k, filter (\<lambda>r. ?g r = fst k) (base_rows f d))) else None)"
    by (simp add: repo_time_of_day_def find_group)
  show ?thesis
  proof (cases "fst k \<in> ?g ` set (base_rows f d)")
    case True
    from assms [unfolded canonical_bucket_def found if_P [OF True] option.case] show ?thesis
      by (auto simp: rbind_eq_Inr)
  next
    case False
    then have "filter (\<lambda>r. ?g r = fst k) (base_rows f d) = []" unfolding filter_empty_conv by (metis imageI)
    with assms [unfolded canonical_bucket_def found if_not_P [OF False] option.case] show ?thesis
      by (auto simp: sum_of_def)
  qed
qed

lemma over_bands:
  fixes w :: "joined \<Rightarrow> 'b::comm_monoid_add"
  shows "sum_list (map (\<lambda>x. sum_list (map w (filter (\<lambda>r. tod_bucket (t_first_fill_at (jt r)) = fst x) rs))) TOD_CANONICAL)
    = sum_list (map w rs)"
proof -
  let ?at = "\<lambda>k. filter (\<lambda>r. tod_bucket (t_first_fill_at (jt r)) = k) rs"
  have dist: "distinct (map fst TOD_CANONICAL)" by (simp add: TOD_CANONICAL_def)
  have "sum_list (map (\<lambda>x. sum_list (map w (?at (fst x)))) TOD_CANONICAL) =
      sum_list (map (\<lambda>k. sum_list (map w (?at k))) (map fst TOD_CANONICAL))" by (simp add: comp_def)
  also have "\<dots> = (\<Sum>k\<in>set (map fst TOD_CANONICAL). sum_list (map w (?at k)))"
    using dist by (rule sum_list_distinct_conv_sum_set)
  also have "\<dots> = sum_list (map w rs)"
    by (rule sum_over_keys) (use tod_bucket_canonical in auto)
  finally show ?thesis .
qed

lemma time_of_day_total:
  "\<exists>bands. get_time_of_day sql f d = Inr bands \<and> map tb_bucket bands = map fst TOD_CANONICAL \<and>
     sum_list (map tb_trade_count bands) = length (base_rows f d) \<and>
     sum_list (map tb_total_net_pnl bands) = sum_of net (base_rows f d)"
proof -
  let ?at = "\<lambda>k. filter (\<lambda>r. tod_bucket (t_first_fill_at (jt r)) = k) (base_rows f d)"
  have "\<exists>bands. get_time_of_day sql f d = Inr bands"
    unfolding get_time_of_day_def
  proof (rule rmap_total)
    show "\<exists>y. canonical_bucket raw k = Inr y" for raw k
    proof (cases "first_row (filter (\<lambda>r. tq_bucket r = fst k) raw)")
      case (Some row)
      then show ?thesis
        using rate_total [of "tq_win_count row" "tq_trade_count row"] by (auto simp: canonical_bucket_def)
    qed (unfold canonical_bucket_def, simp only: option.case, blast)
  qed
  then obtain bands where b: "get_time_of_day sql f d = Inr bands" by blast
  note b' = b [unfolded get_time_of_day_def]
  have labels: "map tb_bucket bands = map fst TOD_CANONICAL"
    by (rule rmap_map [OF b']) (use band_values in blast)
  have "map tb_trade_count bands = map (\<lambda>x. sum_list (map (\<lambda>r. 1) (?at (fst x)))) TOD_CANONICAL"
    by (rule rmap_map [OF b']) (use band_values in \<open>simp add: sum_list_triv\<close>)
  then have counts: "sum_list (map tb_trade_count bands) = length (base_rows f d)"
    by (simp only: over_bands) (simp add: sum_list_triv)
  have "map tb_total_net_pnl bands = map (\<lambda>x. sum_list (map net (?at (fst x)))) TOD_CANONICAL"
    by (rule rmap_map [OF b']) (use band_values in \<open>simp add: sum_of_def\<close>)
  then have "sum_list (map tb_total_net_pnl bands) = sum_of net (base_rows f d)"
    by (simp only: over_bands sum_of_def)
  with b labels counts show ?thesis by blast
qed

text \<open>Each grouped result exists, and what its rows add up to.\<close>

lemma rate_then: "\<exists>y. rbind (rate n k) (\<lambda>w. Inr (g w)) = Inr y"
  using rate_total [of n k] by auto

lemma rate_then_Inr: "rbind (rate n k) (\<lambda>w. Inr (g w)) = Inr y \<longleftrightarrow> (\<exists>w. rate n k = Inr w \<and> g w = y)"
  by (simp add: rbind_eq_Inr)

lemma by_setup_total:
  "\<exists>rows. get_by_setup sql f d = Inr rows \<and> sum_list (map sp_trade_count rows) = length (base_rows f d) \<and>
     sum_list (map sp_win_count rows) = length (wins (base_rows f d)) \<and>
     sum_list (map sp_total_net_pnl rows) = sum_of net (base_rows f d)"
proof -
  have "\<exists>rows. get_by_setup sql f d = Inr rows"
    unfolding get_by_setup_def by (rule rmap_total) (simp only: setup_row_def Let_def rate_then)
  then obtain rows where r: "get_by_setup sql f d = Inr rows" by blast
  note r' = r [unfolded get_by_setup_def]
  have row: "sp_trade_count y = length xs \<and> sp_win_count y = length (wins xs)" "sp_total_net_pnl y = sum_of net xs"
    if "setup_row sql (k, xs) = Inr y" for k xs y
    using that unfolding setup_row_def Let_def rate_then_Inr by auto
  have "sum_list (map sp_trade_count rows) = length (base_rows f d) \<and>
      sum_list (map sp_win_count rows) = length (wins (base_rows f d))"
    by (rule grouped_totals [OF r' mset_order_desc]) (rule row(1))
  moreover have "sum_list (map sp_total_net_pnl rows) = sum_of net (base_rows f d)"
    by (rule grouped_nets [OF r' mset_order_desc]) (rule row(2))
  ultimately show ?thesis using r by blast
qed

lemma by_exit_type_total:
  "\<exists>rows. get_by_exit_type sql f d = Inr rows \<and> sum_list (map et_trade_count rows) = length (base_rows f d)"
proof -
  have "\<exists>rows. get_by_exit_type sql f d = Inr rows"
    unfolding get_by_exit_type_def by (rule rmap_total) (simp only: exit_type_result_def Let_def rate_then)
  then obtain rows where r: "get_by_exit_type sql f d = Inr rows" by blast
  note r' = r [unfolded get_by_exit_type_def]
  have row: "et_trade_count y = length xs"
    if "exit_type_result sql (k, xs) = Inr y" for k xs y
    using that unfolding exit_type_result_def Let_def rate_then_Inr by auto
  have "sum_list (map et_trade_count rows) = length (base_rows f d)"
    by (rule grouped_counts [OF r' mset_order_desc]) (rule row)
  with r show ?thesis by blast
qed

lemma hold_duration_total:
  "\<exists>h. get_hold_duration_distribution sql f d = Inr h \<and> sum_list (map hb_count (hd_buckets h)) = length (base_rows f d)"
proof -
  let ?g = "\<lambda>r. bucket_expr (duration_minutes sql (jt r))"
  let ?gs = "order_by (\<lambda>x y. snd (fst x) \<le> snd (fst y)) (group_by ?g (base_rows f d))"
  have "\<exists>rows. rmap (hold_row sql) ?gs = Inr rows"
    by (rule rmap_total) (simp only: hold_row_def Let_def rate_then)
  then obtain rows where r: "rmap (hold_row sql) ?gs = Inr rows" by blast
  have row: "hb_count y = length xs" if "hold_row sql (k, xs) = Inr y" for k xs y
    using that unfolding hold_row_def Let_def rate_then_Inr by auto
  have "sum_list (map hb_count rows) = length (base_rows f d)"
    by (rule grouped_counts [OF r mset_order_by]) (rule row)
  then show ?thesis unfolding get_hold_duration_distribution_def r by (simp add: Let_def)
qed

lemma buckets_total:
  "sum_list (map rb_count (get_r_distribution_buckets f d)) = length (r_multiples (base_rows f d))"
proof -
  have "length (filter (in_bucket None (Some (- 2))) xs) + (length (filter (in_bucket (Some (- 2)) (Some (- 1))) xs) +
      (length (filter (in_bucket (Some (- 1)) (Some 0)) xs) + (length (filter (in_bucket (Some 0) (Some 1)) xs) +
      (length (filter (in_bucket (Some 1) (Some 2)) xs) + length (filter (in_bucket (Some 2) None) xs))))) = length xs"
    for xs :: "rat list"
    by (induction xs) (auto simp: in_bucket_def)
  from this [of "r_multiples (base_rows f d)"] show ?thesis
    by (simp add: get_r_distribution_buckets_def bucket_defs_def)
qed

lemma dimension_breakdown_total:
  assumes "dimension \<in> set ALLOWED_DIMENSIONS"
  shows "\<exists>b. get_dimension_breakdown sql f dimension d = Inr b \<and>
    distinct (map bg_label (bd_groups b)) \<and>
    sorted_wrt (\<lambda>x y. y \<le> x) (map bg_total_net_pnl (bd_groups b)) \<and>
    sum_list (map bg_trade_count (bd_groups b)) = length (dimension_rows dimension f d) \<and>
    sum_list (map bg_win_count (bd_groups b)) = length (wins (dimension_rows dimension f d)) \<and>
    sum_list (map bg_total_net_pnl (bd_groups b)) = sum_of net (dimension_rows dimension f d)"
proof -
  let ?rs = "dimension_rows dimension f d"
  let ?gs = "order_desc (\<lambda>x. sum_of net (snd x)) (group_by (group_col dimension) ?rs)"
  have "\<exists>rows. rmap (dimension_row sql) ?gs = Inr rows"
    by (rule rmap_total) (simp only: dimension_row_def Let_def rate_then)
  then obtain rows where r: "rmap (dimension_row sql) ?gs = Inr rows" by blast
  have row: "bg_trade_count y = length xs \<and> bg_win_count y = length (wins xs)" "bg_total_net_pnl y = sum_of net xs"
      "bg_label y = (case k of Some s \<Rightarrow> s | None \<Rightarrow> NO_SETUP)"
    if "dimension_row sql (k, xs) = Inr y" for k xs y
    using that unfolding dimension_row_def Let_def rate_then_Inr by auto
  have counts: "sum_list (map bg_trade_count rows) = length ?rs \<and> sum_list (map bg_win_count rows) = length (wins ?rs)"
    by (rule grouped_totals [OF r mset_order_desc]) (rule row(1))
  have nets: "sum_list (map bg_total_net_pnl rows) = sum_of net ?rs"
    by (rule grouped_nets [OF r mset_order_desc]) (rule row(2))
  have "map bg_label rows = map (\<lambda>x. case fst x of Some s \<Rightarrow> s | None \<Rightarrow> NO_SETUP) ?gs"
    by (rule rmap_map [OF r]) (use row(3) in auto)
  then have labels: "map bg_label rows = map (\<lambda>k. case k of Some s \<Rightarrow> s | None \<Rightarrow> NO_SETUP) (map fst ?gs)"
    by (simp add: comp_def)
  have "distinct (map fst ?gs)"
    unfolding order_desc_def distinct_map_order_by keys_group_by by simp
  moreover have "inj_on (\<lambda>k. case k of Some s \<Rightarrow> s | None \<Rightarrow> NO_SETUP) (set (map fst ?gs))"
  proof (rule inj_onI)
    fix k k'
    assume k: "k \<in> set (map fst ?gs)" "k' \<in> set (map fst ?gs)"
      and eq: "(case k of Some s \<Rightarrow> s | None \<Rightarrow> NO_SETUP) = (case k' of Some s \<Rightarrow> s | None \<Rightarrow> NO_SETUP)"
    have "set (map fst ?gs) = set (map fst (group_by (group_col dimension) ?rs))"
      by (simp add: order_desc_def)
    then have "set (map fst ?gs) = group_col dimension ` set ?rs" by (simp only: keys_group_by) simp
    with k have "k \<in> group_col dimension ` set ?rs" "k' \<in> group_col dimension ` set ?rs" by blast+
    then have "k \<noteq> None" "k' \<noteq> None" using group_col_not_null [OF _ assms] by (elim imageE; metis)+
    with eq show "k = k'" by (cases k; cases k') simp_all
  qed
  ultimately have "distinct (map bg_label rows)" unfolding labels distinct_map by blast
  moreover have "sorted_wrt (\<lambda>x y. y \<le> x) (map bg_total_net_pnl rows)"
  proof -
    have "map bg_total_net_pnl rows = map (\<lambda>x. sum_of net (snd x)) ?gs"
      by (rule rmap_map [OF r]) (use row(2) in auto)
    moreover have "sorted_wrt (\<lambda>x y. sum_of net (snd y) \<le> sum_of net (snd x)) ?gs"
      unfolding order_desc_def by (rule sorted_order_by) auto
    ultimately show ?thesis by (simp add: sorted_wrt_map)
  qed
  ultimately show ?thesis
    using assms counts nets unfolding get_dimension_breakdown_def repo_dimension_breakdown_def r by simp
qed

text \<open>
  C31: whatever the filter, the breakdowns are partitions of one set of trades. With a unique
  instrument for each trade, the counts of the groups of any dimension, of the setups, of the exit
  types, of the hold durations and of the six bands of the day add up to the trades of the summary,
  their results to its net result, their wins to the wins of the outcome; the buckets of the
  R-multiples to their coverage. The groups have different labels, come with the highest result
  first, and none of these requests raises.
\<close>

theorem breakdowns_partition_totals:
  assumes "\<forall>t\<in>set (trades d). length (filter (\<lambda>i. i_id i = t_instrument_id t) (instruments d)) = 1"
    and "dimension \<in> set ALLOWED_DIMENSIONS"
  shows "\<exists>outcome b setups exits h bands r. get_outcome_distribution f d = Inr outcome \<and>
    get_dimension_breakdown sql f dimension d = Inr b \<and> get_by_setup sql f d = Inr setups \<and>
    get_by_exit_type sql f d = Inr exits \<and> get_hold_duration_distribution sql f d = Inr h \<and>
    get_time_of_day sql f d = Inr bands \<and> get_r_distribution sql f d = Inr r \<and>
    (let n = ps_total_trades (get_pnl_summary f d); result = ps_net_pnl (get_pnl_summary f d); won = od_win_count outcome
     in od_total_n outcome = n \<and> won + od_loss_count outcome + od_breakeven_count outcome = n \<and>
        sum_list (map bg_trade_count (bd_groups b)) = n \<and> sum_list (map sp_trade_count setups) = n \<and>
        sum_list (map et_trade_count exits) = n \<and> sum_list (map hb_count (hd_buckets h)) = n \<and>
        sum_list (map tb_trade_count bands) = n \<and> map tb_bucket bands = map fst TOD_CANONICAL \<and>
        sum_list (map bg_total_net_pnl (bd_groups b)) = result \<and>
        sum_list (map sp_total_net_pnl setups) = result \<and> sum_list (map tb_total_net_pnl bands) = result \<and>
        sum_list (map bg_win_count (bd_groups b)) = won \<and> sum_list (map sp_win_count setups) = won \<and>
        distinct (map bg_label (bd_groups b)) \<and>
        sorted_wrt (\<lambda>x y. y \<le> x) (map bg_total_net_pnl (bd_groups b)) \<and>
        sum_list (map rb_count (rd_buckets r)) = rd_coverage_count r \<and> rd_total_count r = n)"
proof -
  let ?rs = "base_rows f d"
  obtain b where b: "get_dimension_breakdown sql f dimension d = Inr b" "distinct (map bg_label (bd_groups b))"
      "sorted_wrt (\<lambda>x y. y \<le> x) (map bg_total_net_pnl (bd_groups b))"
    and bs: "sum_list (map bg_trade_count (bd_groups b)) = length ?rs"
      "sum_list (map bg_win_count (bd_groups b)) = length (wins ?rs)"
      "sum_list (map bg_total_net_pnl (bd_groups b)) = sum_of net ?rs"
    using dimension_breakdown_total [OF assms(2)] same_totals [OF dimension_rows_same [OF assms(1)]] by metis
  obtain w l e where "rate (length (wins ?rs)) (length ?rs) = Inr w" "rate (length (losses ?rs)) (length ?rs) = Inr l"
      "rate (length (breakevens ?rs)) (length ?rs) = Inr e" using rate_total by metis
  then obtain outcome where o: "get_outcome_distribution f d = Inr outcome" "od_total_n outcome = length ?rs"
      "od_win_count outcome = length (wins ?rs)" "od_loss_count outcome = length (losses ?rs)"
      "od_breakeven_count outcome = length (breakevens ?rs)"
    by (simp add: get_outcome_distribution_def Let_def)
  have parts: "length (wins xs) + length (losses xs) + length (breakevens xs) = length xs" for xs
    by (induction xs) (auto simp: wins_def losses_def breakevens_def)
  obtain r where r: "get_r_distribution sql f d = Inr r" "rd_coverage_count r = length (r_multiples ?rs)"
      "rd_total_count r = length ?rs" "rd_buckets r = get_r_distribution_buckets f d"
    using rate_total [of "length (r_multiples ?rs)" "length ?rs"]
    by (auto simp: get_r_distribution_def get_r_distribution_stats_def Let_def)
  obtain setups where setups: "get_by_setup sql f d = Inr setups" "sum_list (map sp_trade_count setups) = length ?rs"
      "sum_list (map sp_win_count setups) = length (wins ?rs)" "sum_list (map sp_total_net_pnl setups) = sum_of net ?rs"
    using by_setup_total by blast
  obtain exits where exits: "get_by_exit_type sql f d = Inr exits" "sum_list (map et_trade_count exits) = length ?rs"
    using by_exit_type_total by blast
  obtain h where h: "get_hold_duration_distribution sql f d = Inr h" "sum_list (map hb_count (hd_buckets h)) = length ?rs"
    using hold_duration_total by blast
  obtain bands where bands: "get_time_of_day sql f d = Inr bands" "map tb_bucket bands = map fst TOD_CANONICAL"
      "sum_list (map tb_trade_count bands) = length ?rs" "sum_list (map tb_total_net_pnl bands) = sum_of net ?rs"
    using time_of_day_total by blast
  have p: "ps_total_trades (get_pnl_summary f d) = length ?rs" "ps_net_pnl (get_pnl_summary f d) = sum_of net ?rs"
    by (simp_all add: get_pnl_summary_def Let_def)
  show ?thesis
    unfolding Let_def p
    by (intro exI conjI, rule o(1), rule b(1), rule setups(1), rule exits(1), rule h(1), rule bands(1), rule r(1))
      (use b bs o parts [of ?rs] r setups exits h bands buckets_total [of f d] in simp_all)
qed

section \<open>A user's figures\<close>

text \<open>
  Two databases show the same to a user: the same own trades, with the same results and fills, the
  same instruments and own accounts. The rest of the tables is arbitrary.
\<close>

definition same_view :: "uuid \<Rightarrow> db \<Rightarrow> db \<Rightarrow> bool" where
  "same_view u d d' \<longleftrightarrow>
     filter (\<lambda>t. t_user_id t = u) (trades d) = filter (\<lambda>t. t_user_id t = u) (trades d') \<and>
     instruments d = instruments d' \<and>
     filter (\<lambda>a. a_user_id a = u) (trading_accounts d) = filter (\<lambda>a. a_user_id a = u) (trading_accounts d') \<and>
     (\<forall>t. t \<in> set (trades d) \<and> t_user_id t = u \<longrightarrow>
        filter (\<lambda>p. p_trade_id p = t_id t) (trade_pnls d) = filter (\<lambda>p. p_trade_id p = t_id t) (trade_pnls d') \<and>
        filter (\<lambda>x. x_trade_id x = Some (t_id t)) (execution_fills d) =
          filter (\<lambda>x. x_trade_id x = Some (t_id t)) (execution_fills d'))"

lemma concat_map_own:
  assumes "\<And>x. x \<in> set xs \<Longrightarrow> \<not> P x \<Longrightarrow> g x = []" and "\<And>x. x \<in> set ys \<Longrightarrow> \<not> P x \<Longrightarrow> h x = []"
    and "filter P xs = filter P ys" and "\<And>x. x \<in> set xs \<Longrightarrow> P x \<Longrightarrow> g x = h x"
  shows "concat (map g xs) = concat (map h ys)"
proof -
  have drop: "concat (map k zs) = concat (map k (filter P zs))" if "\<And>x. x \<in> set zs \<Longrightarrow> \<not> P x \<Longrightarrow> k x = []"
    for k :: "'a \<Rightarrow> 'b list" and zs
    using that by (induction zs) auto
  have "concat (map g (filter P xs)) = concat (map h (filter P xs))"
    using assms(4) by (intro arg_cong [of _ _ concat] map_cong) auto
  with drop [of xs g] drop [of ys h] assms(1-3) show ?thesis by simp
qed

lemma same_view_joined:
  assumes "same_view (ft_user_id f) d d'"
  shows "joined_with w f d = joined_with w f d'"
  unfolding joined_with_def
proof (rule concat_map_own [where P = "\<lambda>t. t_user_id t = ft_user_id f"], goal_cases)
  case 3
  show ?case using assms by (simp add: same_view_def)
next
  case (4 t)
  with assms have "filter (\<lambda>p. p_trade_id p = t_id t) (trade_pnls d) = filter (\<lambda>p. p_trade_id p = t_id t) (trade_pnls d')"
    "instruments d = instruments d'" unfolding same_view_def by blast+
  then show ?case by (simp only:)
qed (auto simp: base_where_def)

lemma joined_own:
  assumes "r \<in> set (joined_with w f d)"
  shows "jt r \<in> set (trades d) \<and> t_user_id (jt r) = ft_user_id f"
  using assms by (auto simp: joined_with_def base_where_def jt_def)

lemma same_view_base: "same_view (ft_user_id f) d d' \<Longrightarrow> base_rows f d = base_rows f d'"
  unfolding base_rows_def by (rule same_view_joined)

lemma same_view_exit:
  assumes "same_view u d d'" and "t \<in> set (trades d)" and "t_user_id t = u"
  shows "last_exit_type sql d t = last_exit_type sql d' t"
proof -
  have eq: "filter (\<lambda>x. x_trade_id x = Some (t_id t)) (execution_fills d) =
      filter (\<lambda>x. x_trade_id x = Some (t_id t)) (execution_fills d')"
    using assms unfolding same_view_def by blast
  have role: "filter (\<lambda>x. x_fill_role x = Some ''EXIT'' \<and> x_trade_id x = Some (t_id t)) xs =
      filter (\<lambda>x. x_fill_role x = Some ''EXIT'') (filter (\<lambda>x. x_trade_id x = Some (t_id t)) xs)" for xs
    unfolding filter_filter by (intro filter_cong) auto
  show ?thesis unfolding last_exit_type_def role eq ..
qed

lemma group_by_cong: "(\<And>r. r \<in> set rs \<Longrightarrow> g r = h r) \<Longrightarrow> group_by g rs = group_by h rs"
  unfolding group_by_def by (auto cong: map_cong filter_cong)

lemma same_view_exit_types:
  assumes "same_view (ft_user_id f) d d'"
  shows "get_by_exit_type sql f d = get_by_exit_type sql f d'"
proof -
  have "group_by (\<lambda>r. last_exit_type sql d (jt r)) (base_rows f d) = group_by (\<lambda>r. last_exit_type sql d' (jt r)) (base_rows f d)"
    by (rule group_by_cong) (use same_view_exit [OF assms] joined_own in \<open>auto simp: base_rows_def\<close>)
  with same_view_base [OF assms] show ?thesis by (simp add: get_by_exit_type_def)
qed

lemma filter_own:
  assumes "filter P xs = filter P ys" and "\<And>x. Q x \<Longrightarrow> P x"
  shows "filter Q xs = filter Q ys"
proof -
  have "filter Q zs = filter Q (filter P zs)" for zs by (induction zs) (use assms(2) in auto)
  with assms(1) show ?thesis by metis
qed

lemma same_view_at_risk:
  assumes "same_view (ft_user_id f) d d'"
  shows "at_risk (in_filter f) d = at_risk (in_filter f) d'"
proof -
  have "filter (\<lambda>t. in_filter f t \<and> t_status t \<in> {''OPEN'', ''PARTIAL''} \<and> \<not> t_is_deleted t) (trades d) =
      filter (\<lambda>t. in_filter f t \<and> t_status t \<in> {''OPEN'', ''PARTIAL''} \<and> \<not> t_is_deleted t) (trades d')"
    by (rule filter_own [where P = "\<lambda>t. t_user_id t = ft_user_id f"])
      (use assms in \<open>simp add: same_view_def\<close>, simp add: in_filter_def)
  then show ?thesis by (simp only: at_risk_def)
qed

lemma same_view_daily_loss:
  assumes "same_view (ft_user_id f) d d'"
  shows "daily_loss (in_filter f) ts d = daily_loss (in_filter f) ts d'"
proof -
  let ?c = "\<lambda>t p. in_filter f t \<and> t_trade_date t = ist_date ts \<and> p_net_pnl p < 0 \<and> \<not> t_is_deleted t"
  have "concat (map (\<lambda>t. concat (map (\<lambda>p. if ?c t p then [p] else []) (filter (\<lambda>p. p_trade_id p = t_id t) (trade_pnls d)))) (trades d)) =
      concat (map (\<lambda>t. concat (map (\<lambda>p. if ?c t p then [p] else []) (filter (\<lambda>p. p_trade_id p = t_id t) (trade_pnls d')))) (trades d'))"
    by (rule concat_map_own [where P = "\<lambda>t. t_user_id t = ft_user_id f"])
      (use assms in \<open>auto simp: same_view_def in_filter_def\<close>)
  then show ?thesis by (simp only: daily_loss_def)
qed

lemma same_view_dashboard:
  assumes "same_view u d d'"
  shows "dashboard_rows a u d = dashboard_rows a u d'" "starting_capital_of a u d = starting_capital_of a u d'"
proof -
  have "left_join_pnl t d = left_join_pnl t d'" if "t \<in> set (trades d)" "t_user_id t = u" for t
    using assms that unfolding left_join_pnl_def same_view_def by simp
  then show "dashboard_rows a u d = dashboard_rows a u d'"
    unfolding dashboard_rows_def
    by (intro concat_map_own [where P = "\<lambda>t. t_user_id t = u"]) (use assms in \<open>auto simp: same_view_def\<close>)
  have "filter (\<lambda>x. a_id x = a \<and> a_user_id x = u) (trading_accounts d) =
      filter (\<lambda>x. a_id x = a \<and> a_user_id x = u) (trading_accounts d')"
    by (rule filter_own [where P = "\<lambda>x. a_user_id x = u"]) (use assms in \<open>auto simp: same_view_def\<close>)
  then show "starting_capital_of a u d = starting_capital_of a u d'" by (simp only: starting_capital_of_def)
qed

text \<open>
  C32: what a user is shown depends on the user's own trades, results, fills and accounts (and the
  common instruments) only. Between two databases that agree on these, and differ arbitrarily in
  the rows of all other users, the summary, every breakdown, series and statistic, the risk summary
  and the dashboard are equal, for every filter and every parameter.
\<close>

theorem analytics_depend_on_own_rows:
  assumes "same_view (ft_user_id f) d d'"
  shows "service_summary sql f d = service_summary sql f d' \<and>
    get_equity_curve f d = get_equity_curve f d' \<and>
    get_r_distribution sql f d = get_r_distribution sql f d' \<and>
    get_by_setup sql f d = get_by_setup sql f d' \<and>
    get_streaks f d = get_streaks f d' \<and>
    get_hold_duration_distribution sql f d = get_hold_duration_distribution sql f d' \<and>
    get_by_exit_type sql f d = get_by_exit_type sql f d' \<and>
    get_dimension_breakdown sql f dimension d = get_dimension_breakdown sql f dimension d' \<and>
    get_monte_carlo draw f n d = get_monte_carlo draw f n d' \<and>
    get_kelly_fraction sql f d = get_kelly_fraction sql f d' \<and>
    get_time_of_day sql f d = get_time_of_day sql f d' \<and>
    get_rolling_expectancy f d = get_rolling_expectancy f d' \<and>
    get_risk_summary sql ct now f d = get_risk_summary sql ct now f d' \<and>
    dashboard_summary now a (ft_user_id f) d = dashboard_summary now a (ft_user_id f) d'"
proof -
  note base = same_view_base [OF assms] and joined = same_view_joined [OF assms]
  have curve: "get_equity_curve f d = get_equity_curve f d'"
    by (simp only: get_equity_curve_def base)
  have summary: "service_summary sql f d = service_summary sql f d'"
    by (simp only: service_summary_def get_pnl_summary_def get_outcome_distribution_def get_profit_factor_def
        get_planned_rr_def get_r_multiple_series_def curve get_by_direction_def get_charges_breakdown_def base joined)
  have streaks: "get_streaks f d = get_streaks f d'"
    by (simp only: get_streaks_def get_net_pnl_series_def base)
  have risk: "get_risk_summary sql ct now f d = get_risk_summary sql ct now f d'"
    by (simp only: get_risk_summary_def summary streaks same_view_at_risk [OF assms] same_view_daily_loss [OF assms])
  have dims: "get_dimension_breakdown sql f dimension d = get_dimension_breakdown sql f dimension d'"
    by (simp only: get_dimension_breakdown_def repo_dimension_breakdown_def dimension_rows_def joined)
  have dash: "dashboard_summary now a (ft_user_id f) d = dashboard_summary now a (ft_user_id f) d'"
    by (simp only: dashboard_summary_def same_view_dashboard [OF assms])
  have "get_r_distribution sql f d = get_r_distribution sql f d'"
    by (simp only: get_r_distribution_def get_r_distribution_stats_def get_r_distribution_buckets_def base)
  moreover have "get_by_setup sql f d = get_by_setup sql f d'" by (simp only: get_by_setup_def base)
  moreover have "get_hold_duration_distribution sql f d = get_hold_duration_distribution sql f d'"
    by (simp only: get_hold_duration_distribution_def base joined)
  moreover have "get_monte_carlo draw f n d = get_monte_carlo draw f n d'"
    by (simp only: get_monte_carlo_def get_r_multiples_for_monte_carlo_def base)
  moreover have "get_kelly_fraction sql f d = get_kelly_fraction sql f d'"
    by (simp only: get_kelly_fraction_def get_kelly_inputs_def base)
  moreover have "get_time_of_day sql f d = get_time_of_day sql f d'"
    by (simp only: get_time_of_day_def repo_time_of_day_def base)
  moreover have "get_rolling_expectancy f d = get_rolling_expectancy f d'"
    by (simp only: get_rolling_expectancy_def get_trade_series_def base)
  ultimately show ?thesis
    using summary curve streaks same_view_exit_types [OF assms, of sql] dims risk dash by simp
qed

section \<open>The equity curve\<close>

lemma curve_le_total: "curve_le x y \<or> curve_le y x"
  by (auto simp: curve_le_def Let_def split: option.splits)

lemma curve_le_trans: "curve_le x y \<Longrightarrow> curve_le y z \<Longrightarrow> curve_le x z"
  by (auto simp: curve_le_def Let_def split: option.splits if_splits)

lemma curve_le_antisym: "curve_le x y \<Longrightarrow> curve_le y x \<Longrightarrow> t_id (jt x) = t_id (jt y)"
  by (auto simp: curve_le_def Let_def split: option.splits if_splits)

lemma length_filter_key: "distinct (map k xs) \<Longrightarrow> length (filter (\<lambda>x. k x = v) xs) \<le> 1"
  by (induction xs) (auto simp: filter_empty_conv image_iff)

lemma distinct_concat_keys:
  assumes "distinct (map k xs)" and "\<And>x. length (g x) \<le> 1" and "\<And>x y. y \<in> set (g x) \<Longrightarrow> h y = k x"
  shows "distinct (map h (concat (map g xs)))"
  using assms(1)
proof (induction xs)
  case (Cons x xs)
  have "distinct (map h (g x))"
    using assms(2) [of x] by (cases "g x") auto
  moreover have "h ` set (g x) \<inter> h ` (\<Union>z\<in>set xs. set (g z)) = {}"
    using assms(3) Cons.prems by fastforce
  ultimately show ?case using Cons by simp
qed simp

definition keys_ok :: "db \<Rightarrow> bool" where
  "keys_ok d \<longleftrightarrow> distinct (map t_id (trades d)) \<and> distinct (map p_trade_id (trade_pnls d)) \<and>
     distinct (map i_id (instruments d))"

lemma joined_distinct:
  assumes "keys_ok d"
  shows "distinct (map (\<lambda>r. t_id (jt r)) (joined_with w f d))"
  unfolding joined_with_def
proof (rule distinct_concat_keys [where k = t_id], goal_cases)
  case 1
  show ?case using assms by (simp add: keys_ok_def)
next
  case (2 t)
  have "length (filter (\<lambda>p. p_trade_id p = t_id t) (trade_pnls d)) \<le> 1"
    using assms by (intro length_filter_key) (simp add: keys_ok_def)
  moreover have "length (filter (\<lambda>i. i_id i = t_instrument_id t \<and> instrument_clauses f i) (instruments d)) \<le> 1"
  proof -
    have "length (filter (instrument_clauses f) (filter (\<lambda>i. i_id i = t_instrument_id t) (instruments d))) \<le>
        length (filter (\<lambda>i. i_id i = t_instrument_id t) (instruments d))" by (rule length_filter_le)
    also have "\<dots> \<le> 1" using assms by (intro length_filter_key) (simp add: keys_ok_def)
    finally show ?thesis by (simp add: conj_commute)
  qed
  ultimately show ?case
    by (cases "filter (\<lambda>p. p_trade_id p = t_id t) (trade_pnls d)") auto
next
  case (3 t r)
  then show ?case by (auto simp: jt_def)
qed

lemma take_upto:
  assumes "sorted_wrt le ys" and "distinct ys" and "k < length ys" and "\<And>x. le x x"
    and "\<And>x y. x \<in> set ys \<Longrightarrow> y \<in> set ys \<Longrightarrow> le x y \<Longrightarrow> le y x \<Longrightarrow> x = y"
  shows "filter (\<lambda>y. le y (ys ! k)) ys = take (Suc k) ys"
proof -
  have "le y (ys ! k)" if y_in: "y \<in> set (take (Suc k) ys)" for y
  proof -
    obtain j where "j < length (take (Suc k) ys)" "take (Suc k) ys ! j = y"
      using y_in unfolding in_set_conv_nth by blast
    then have y: "y = ys ! j" and j: "j \<le> k" by auto
    show ?thesis
    proof (cases "j = k")
      case False
      with j have "j < k" by simp
      from sorted_wrt_nth_less [OF assms(1) this assms(3)] show ?thesis unfolding y .
    qed (simp only: y assms(4))
  qed
  moreover have "\<not> le y (ys ! k)" if y_in: "y \<in> set (drop (Suc k) ys)" for y
  proof
    assume below: "le y (ys ! k)"
    obtain i where i: "i < length (drop (Suc k) ys)" "drop (Suc k) ys ! i = y"
      using y_in unfolding in_set_conv_nth by blast
    define j where "j = Suc k + i"
    have j: "k < j" "j < length ys" "y = ys ! j" using i assms(3) by (auto simp: j_def)
    then have "le (ys ! k) y" using sorted_wrt_nth_less [OF assms(1)] by blast
    with below j assms(3) have "ys ! k = ys ! j" by (intro assms(5)) auto
    with j assms(2,3) show False by (simp add: nth_eq_iff_index_eq)
  qed
  ultimately have "filter (\<lambda>y. le y (ys ! k)) (take (Suc k) ys @ drop (Suc k) ys) = take (Suc k) ys"
    by (simp only: filter_append) (simp add: filter_id_conv filter_empty_conv)
  then show ?thesis by (simp only: append_take_drop_id)
qed

text \<open>The rows of a permuted table of trades.\<close>

lemma sum_of_filter_mset:
  assumes "mset xs = mset ys"
  shows "sum_of g (filter P xs) = sum_of g (filter P ys)"
proof -
  have "mset (map g (filter P xs)) = mset (map g (filter P ys))" using assms by simp
  then show ?thesis unfolding sum_of_def by (metis sum_mset_sum_list)
qed

lemma mset_concat_map: "mset xs = mset ys \<Longrightarrow> mset (concat (map g xs)) = mset (concat (map g ys))"
  unfolding mset_concat by (simp flip: sum_mset_sum_list)

lemma joined_permuted:
  assumes "mset ts = mset (trades d)"
  shows "mset (joined_with w f (d\<lparr>trades := ts\<rparr>)) = mset (joined_with w f d)"
  unfolding joined_with_def by (simp add: mset_concat_map [OF assms] cong: if_cong)

lemma same_curve:
  assumes "mset (base_rows f d') = mset (base_rows f d)" and "distinct (map (\<lambda>r. t_id (jt r)) (base_rows f d))"
  shows "get_equity_curve f d' = get_equity_curve f d"
proof -
  have inj: "x = y" if "x \<in> set (base_rows f d)" "y \<in> set (base_rows f d)" "t_id (jt x) = t_id (jt y)" for x y
    using assms(2) that by (auto simp: distinct_map inj_on_def)
  have "order_by curve_le (base_rows f d) = order_by curve_le (base_rows f d')"
  proof (rule sorted_wrt_unique)
    show "sorted_wrt curve_le (order_by curve_le (base_rows f d))" "sorted_wrt curve_le (order_by curve_le (base_rows f d'))"
      using sorted_order_by curve_le_total curve_le_trans by blast+
    show "x = y" if "x \<in> set (order_by curve_le (base_rows f d))" "y \<in> set (order_by curve_le (base_rows f d))"
      "curve_le x y" "curve_le y x" for x y
      by (rule inj [OF _ _ curve_le_antisym [OF that(3,4)]]) (use that(1,2) in simp_all)
  qed (simp add: mset_order_by assms(1))
  moreover have "sum_of net (filter P (base_rows f d')) = sum_of net (filter P (base_rows f d))" for P
    using assms(1) by (rule sum_of_filter_mset)
  ultimately show ?thesis by (simp add: get_equity_curve_def Let_def)
qed

lemma ordered_curve:
  assumes "distinct (map (\<lambda>r. t_id (jt r)) rs)"
  shows "distinct (order_by curve_le rs)" and "sorted_wrt curve_le (order_by curve_le rs)"
    and "k < length rs \<Longrightarrow> sum_of net (filter (\<lambda>r. curve_le r (order_by curve_le rs ! k)) rs) =
      sum_list (map net (take (Suc k) (order_by curve_le rs)))"
proof -
  let ?ys = "order_by curve_le rs"
  show dist: "distinct ?ys" using assms by (simp add: distinct_order_by distinct_map)
  show sorted: "sorted_wrt curve_le ?ys" using sorted_order_by curve_le_total curve_le_trans by blast
  have anti: "x = y" if "x \<in> set ?ys" "y \<in> set ?ys" "curve_le x y" "curve_le y x" for x y
    using that assms curve_le_antisym [OF that(3,4)] by (auto simp: distinct_map inj_on_def)
  assume "k < length rs"
  moreover have "length ?ys = length rs" by (metis mset_order_by size_mset)
  ultimately have "filter (\<lambda>y. curve_le y (?ys ! k)) ?ys = take (Suc k) ?ys"
    by (intro take_upto [OF sorted dist]) (simp, (use curve_le_total anti in blast)+)
  moreover have "sum_of net (filter P rs) = sum_of net (filter P ?ys)" for P
    by (rule sum_of_filter_mset) (simp add: mset_order_by)
  ultimately show "sum_of net (filter (\<lambda>r. curve_le r (?ys ! k)) rs) = sum_list (map net (take (Suc k) ?ys))"
    by (simp only: sum_of_def)
qed

text \<open>
  C33: the equity curve against its definition. The window sums of the query are the running sums
  of the results in the order of the curve, which is the order the streaks are computed in; there
  is one point for each trade of the summary, in the order of the dates, and the last one is the
  net result of the summary. Neither the order of the rows of the table nor, with it, the
  drawdown depends on anything but the trades.
\<close>

theorem equity_curve_is_running_sum:
  assumes "keys_ok d" and "c = get_equity_curve f d"
  shows "map ec_net_pnl c = get_net_pnl_series f d \<and>
    map ec_cumulative_net_pnl c = map (\<lambda>k. sum_list (take (Suc k) (map ec_net_pnl c))) [0..<length c] \<and>
    length c = ps_total_trades (get_pnl_summary f d) \<and> distinct (map ec_trade_id c) \<and>
    sorted (map ec_trade_date c) \<and>
    (c \<noteq> [] \<longrightarrow> ec_cumulative_net_pnl (last c) = ps_net_pnl (get_pnl_summary f d)) \<and>
    (\<forall>ts. mset ts = mset (trades d) \<longrightarrow> get_equity_curve f (d\<lparr>trades := ts\<rparr>) = c)"
proof -
  let ?rs = "base_rows f d"
  let ?ys = "order_by curve_le ?rs"
  have keys: "distinct (map (\<lambda>r. t_id (jt r)) ?rs)"
    unfolding base_rows_def by (rule joined_distinct [OF assms(1)])
  note sorted = ordered_curve(2) [OF keys] and upto = ordered_curve(3) [OF keys]
  have len: "length ?ys = length ?rs" by (metis mset_order_by size_mset)
  have c: "c = map (\<lambda>r. \<lparr>ec_trade_date = t_trade_date (jt r), ec_trade_id = t_id (jt r), ec_net_pnl = net r,
                   ec_cumulative_net_pnl = sum_of net (filter (\<lambda>r'. curve_le r' r) ?rs)\<rparr>) ?ys"
    by (simp add: assms(2) get_equity_curve_def Let_def)
  have nets: "map ec_net_pnl c = map net ?ys" by (simp add: c)
  have cum: "ec_cumulative_net_pnl (c ! k) = sum_list (take (Suc k) (map ec_net_pnl c))" if "k < length c" for k
    using upto [of k] that len unfolding nets by (simp add: c take_map)
  have "map ec_cumulative_net_pnl c = map (\<lambda>k. sum_list (take (Suc k) (map ec_net_pnl c))) [0..<length c]"
    by (rule nth_equalityI) (simp_all add: cum)
  moreover have "ec_cumulative_net_pnl (last c) = ps_net_pnl (get_pnl_summary f d)" if "c \<noteq> []"
  proof -
    have "ec_cumulative_net_pnl (last c) = sum_list (map ec_net_pnl c)"
      using cum [of "length c - 1"] that by (simp add: last_conv_nth)
    also have "\<dots> = sum_list (map net ?rs)" unfolding nets by (rule sum_list_order_by)
    finally show ?thesis by (simp add: get_pnl_summary_def sum_of_def Let_def)
  qed
  moreover have "sorted (map ec_trade_date c)"
  proof -
    have "sorted_wrt (\<lambda>x y. t_trade_date (jt x) \<le> t_trade_date (jt y)) ?ys"
      using sorted by (rule sorted_wrt_mono_rel [rotated]) (auto simp: curve_le_def Let_def)
    then show ?thesis by (simp add: c sorted_wrt_map)
  qed
  moreover have "distinct (map ec_trade_id c)"
  proof -
    have "map ec_trade_id c = map (\<lambda>r. t_id (jt r)) ?ys" by (simp add: c)
    then show ?thesis using keys by (simp only: distinct_map_order_by)
  qed
  moreover have "get_equity_curve f (d\<lparr>trades := ts\<rparr>) = c" if "mset ts = mset (trades d)" for ts
    unfolding assms(2) by (rule same_curve [OF _ keys]) (simp add: base_rows_def joined_permuted [OF that])
  moreover have "length c = ps_total_trades (get_pnl_summary f d)"
    using len by (simp add: c get_pnl_summary_def Let_def)
  ultimately show ?thesis using nets by (simp add: get_net_pnl_series_def)
qed

section \<open>A sample\<close>

definition own_filter :: analytics_filter where
  "own_filter = \<lparr>ft_user_id = 7, ft_date_from = None, ft_date_to = None, ft_account_ids = [],
     ft_instrument_types = [], ft_exchange_segments = [], ft_trade_types = [], ft_directions = [],
     ft_setup_names = [], ft_brokers = []\<rparr>"

definition closed_trade :: "uuid \<Rightarrow> uuid \<Rightarrow> day \<Rightarrow> trade_row" where
  "closed_trade pk user_id trade_date =
     (new_trade_row pk user_id (Some 8) 50 ''MIS'' ''LONG'' ''CLOSED'' trade_date 0 10 10 0 100)
       \<lparr>t_last_fill_at := Some 600000000, t_average_exit := Some 110\<rparr>"

definition pnl_row :: "uuid \<Rightarrow> rat \<Rightarrow> trade_pnl_row" where
  "pnl_row trade_id result =
     \<lparr>p_trade_id = trade_id, p_user_id = 7, p_account_id = Some 8, p_gross_pnl = result, p_net_pnl = result,
      p_total_charges = 0, p_r_multiple = Some (result / 50), p_brokerage = 0, p_stt = 0, p_exchange_charges = 0,
      p_sebi_charges = 0, p_stamp_duty = 0, p_gst = 0, p_ipft = 0, p_broker = ''MANUAL'',
      p_charge_schedule_version = (''MANUAL'', ''MIS'', ''NSE_EQ'', 0), p_engine_version = ''1''\<rparr>"

definition sample_instrument :: instrument_row where
  "sample_instrument = \<lparr>i_id = 50, i_symbol = ''INFY'', i_exchange_segment = ''NSE_EQ'', i_instrument_type = ''EQ'',
     i_expiry_date = None, i_strike_price = None, i_name = ''INFY''\<rparr>"

text \<open>A gain and a loss of one user, recorded in the opposite order, and a trade of another user.\<close>

definition market_db :: db where
  "market_db = service_db\<lparr>instruments := [sample_instrument],
     trades := [closed_trade 2 7 20001, closed_trade 1 7 20000, closed_trade 3 12 20000],
     trade_pnls := [pnl_row 2 (- 40), pnl_row 1 100, pnl_row 3 5]\<rparr>"

definition own_market_db :: db where
  "own_market_db = market_db\<lparr>trades := [closed_trade 2 7 20001, closed_trade 1 7 20000],
     trade_pnls := [pnl_row 2 (- 40), pnl_row 1 100]\<rparr>"

lemma closed_trade_simps [simp]:
  "t_id (closed_trade k u x) = k" "t_user_id (closed_trade k u x) = u" "t_instrument_id (closed_trade k u x) = 50"
  by (simp_all add: closed_trade_def new_trade_row_def)

lemma pnl_row_key [simp]: "p_trade_id (pnl_row k x) = k"
  by (simp add: pnl_row_def)

lemma sample_instrument_key [simp]: "i_id sample_instrument = 50"
  by (simp add: sample_instrument_def)

lemma market_series: "get_net_pnl_series own_filter market_db = [100, - 40]"
  by code_simp

theorem breakdowns_partition_totals_witness:
  "\<forall>sql. \<exists>b. get_dimension_breakdown sql own_filter ''setup'' market_db = Inr b \<and>
     sum_list (map bg_trade_count (bd_groups b)) = ps_total_trades (get_pnl_summary own_filter market_db)"
proof -
  have "\<forall>t\<in>set (trades market_db). length (filter (\<lambda>i. i_id i = t_instrument_id t) (instruments market_db)) = 1"
    by (simp add: market_db_def)
  moreover have "''setup'' \<in> set ALLOWED_DIMENSIONS" by (simp add: ALLOWED_DIMENSIONS_def)
  ultimately show ?thesis using breakdowns_partition_totals [of market_db "''setup''" own_filter]
    unfolding Let_def by blast
qed

theorem analytics_depend_on_own_rows_witness:
  "\<forall>sql. service_summary sql own_filter market_db = service_summary sql own_filter own_market_db"
proof -
  have "same_view (ft_user_id own_filter) market_db own_market_db"
    by (auto simp: same_view_def own_filter_def market_db_def own_market_db_def service_db_def empty_db_def)
  from analytics_depend_on_own_rows [OF this] show ?thesis by blast
qed

theorem equity_curve_is_running_sum_witness:
  "map ec_cumulative_net_pnl (get_equity_curve own_filter market_db) = [100, 60]"
proof -
  let ?c = "get_equity_curve own_filter market_db"
  have "keys_ok market_db" by (simp add: keys_ok_def market_db_def)
  from equity_curve_is_running_sum [OF this refl, of own_filter]
  have nets: "map ec_net_pnl ?c = [100, - 40]"
    and sums: "map ec_cumulative_net_pnl ?c = map (\<lambda>k. sum_list (take (Suc k) (map ec_net_pnl ?c))) [0..<length ?c]"
    using market_series by metis+
  have "length ?c = 2" using arg_cong [OF nets, of length] by simp
  with sums show ?thesis unfolding nets by (simp add: upt_rec)
qed

end
