(* ===== verification/Risk_Properties.thy ===== *)
theory Risk_Properties
  imports Analytics_Properties
begin

text \<open>
  Which requests of the analytics and of the risk summary are answered: every figure is defined for
  every table, with one exception, a planned trade whose stop is its entry. And a route that serves
  the exposure of any account.
\<close>

section \<open>The calculators return\<close>

lemma rfold_total: "(\<And>x s. x \<in> set xs \<Longrightarrow> \<exists>s'. f x s = Inr s') \<Longrightarrow> \<exists>s'. rfold f xs s = Inr s'"
proof (induction xs arbitrary: s)
  case (Cons x xs)
  obtain s1 where s1: "f x s = Inr s1" using Cons.prems [of x s] by auto
  have "\<exists>s'. rfold f xs s1 = Inr s'" by (rule Cons.IH) (use Cons.prems in auto)
  with s1 show ?case by simp
qed simp

lemma ddiv_total: "b \<noteq> 0 \<Longrightarrow> ddiv a b = Inr (ctx (a / b))"
  by (simp add: ddiv_def)

lemma ctx_hundred [simp]: "ctx 100 = 100"
  using ctx_exact [of 100 100 0] by simp

lemma ctx_one [simp]: "ctx 1 = 1"
  using ctx_exact [of 1 1 0] by simp

text \<open>A percentage of a part of the whole has few digits.\<close>

lemma pct_total:
  assumes "k \<le> n"
  shows "\<exists>x. pct (of_nat k) (of_nat n) 4 = Inr x"
proof (cases "n = 0")
  case False
  then have "of_nat k / (of_nat n :: rat) \<le> 1" "0 \<le> of_nat k / (of_nat n :: rat)"
    using assms by simp_all
  then have q: "0 \<le> ctx (of_nat k / of_nat n)" "ctx (of_nat k / of_nat n) \<le> 1"
    using ctx_mono [of "of_nat k / of_nat n" 1] by (simp_all add: ctx_nonneg)
  let ?y = "dmul (ctx (of_nat k / of_nat n)) 100"
  have y: "0 \<le> ?y" "?y \<le> 100"
    using q ctx_mono [of "ctx (of_nat k / of_nat n) * 100" 100] by (simp_all add: dmul_def ctx_nonneg)
  have "\<bar>round_half_up (?y * 10 ^ 4)\<bar> < 10 ^ 28"
  proof -
    have "0 \<le> \<lfloor>?y * 10 ^ 4 + 1 / 2\<rfloor>" using y(1) by (simp add: le_floor_iff)
    moreover have "\<lfloor>?y * 10 ^ 4 + 1 / 2\<rfloor> < 10 ^ 28" using y(2) by (simp add: floor_less_iff)
    ultimately show ?thesis using y(1) by (simp add: round_half_up_def)
  qed
  then have "quantize (4, ROUND_HALF_UP) ?y = Inr (of_int (round_half_up (?y * 10 ^ 4)) / 10 ^ 4)"
    by (simp only: quantize_Inr fst_conv snd_conv rnd.simps)
  then have "pct (of_nat k) (of_nat n) 4 = Inr (of_int (round_half_up (?y * 10 ^ 4)) / 10 ^ 4)"
    using False by (simp add: pct_def ddiv_total)
  then show ?thesis by (rule exI)
qed (simp add: pct_def)

lemma average_total: "\<exists>x. average_or_none xs = Inr x"
  by (simp add: average_or_none_def)

lemma expectancy_total:
  assumes "length ws + length ls \<le> n"
  shows "\<exists>x. compute_expectancy ws ls n = Inr x"
proof -
  have "\<exists>p. (if n = 0 then Inr 0 else pct (of_nat (length ws + length ls)) (of_nat n) 4) = Inr p"
    using pct_total [OF assms] by (cases "n = 0") (simp_all del: of_nat_add)
  then obtain p where p: "(if n = 0 then Inr 0 else pct (of_nat (length ws + length ls)) (of_nat n) 4) = Inr p"
    by blast
  obtain a b where "average_or_none ws = Inr a" "average_or_none ls = Inr b" using average_total by blast
  then show ?thesis
    unfolding compute_expectancy_def Let_def p
    by (cases "length ws + length ls = 0") (simp_all add: ddiv_total del: of_nat_add)
qed

lemma dsqrt_nat: "\<exists>x. dsqrt (of_nat n) = Inr x"
  by (rule dsqrt_total [of "of_nat n"]) auto

lemma std_dev_returns: "xs \<noteq> [] \<Longrightarrow> \<exists>s. std_dev xs m = Inr s"
  by (rule std_dev_total [of xs m]) auto

lemma sharpe_total: "\<exists>x. compute_sharpe_ratio rs n = Inr x"
proof (cases "length rs < MIN_SAMPLE")
  case False
  then have ne: "rs \<noteq> []" by (auto simp: MIN_SAMPLE_def)
  obtain s where s: "std_dev rs (ctx (dsum rs / of_nat (length rs))) = Inr s" using std_dev_returns [OF ne] by blast
  obtain a where a: "dsqrt (of_nat n) = Inr a" using dsqrt_nat by blast
  show ?thesis using False ne s a
    by (cases "s = 0") (simp_all add: compute_sharpe_ratio_def Let_def ddiv_total)
qed (simp add: compute_sharpe_ratio_def)

lemma sortino_total: "\<exists>x. compute_sortino_ratio rs n = Inr x"
proof (cases "length rs < MIN_SAMPLE")
  case False
  then have ne: "rs \<noteq> []" by (auto simp: MIN_SAMPLE_def)
  let ?ds = "filter (\<lambda>r. r < 0) rs"
  obtain a where a: "dsqrt (of_nat n) = Inr a" using dsqrt_nat by blast
  show ?thesis
  proof (cases "?ds = []")
    case nonempty: False
    obtain s where s: "std_dev ?ds (ctx (dsum ?ds / of_nat (length ?ds))) = Inr s"
      using std_dev_returns [OF nonempty] by blast
    show ?thesis using False ne nonempty s a
      by (cases "s = 0") (simp_all add: compute_sortino_ratio_def Let_def ddiv_total)
  qed (use False ne in \<open>simp add: compute_sortino_ratio_def Let_def ddiv_total\<close>)
qed (simp add: compute_sortino_ratio_def Let_def)

lemma drawdown_total: "\<exists>x. compute_drawdown_stats points = Inr x"
proof (cases "points = []")
  case False
  have step: "\<exists>s'. drawdown_step c s = Inr s'" for c s
    by (simp add: drawdown_step_def Let_def ddiv_total)
  obtain s' where s': "rfold drawdown_step (map ec_cumulative_net_pnl points)
      \<lparr>ds_peak = ec_cumulative_net_pnl (hd points), ds_max_dd_inr = 0, ds_max_dd_pct = None,
       ds_drawdown_pcts = []\<rparr> = Inr s'" using rfold_total [of _ drawdown_step, OF step] by blast
  obtain v where "average_or_none (ds_drawdown_pcts s') = Inr v" using average_total by blast
  then show ?thesis using False
    by (simp add: compute_drawdown_stats_def s' Let_def ddiv_total split: if_splits)
qed (simp add: compute_drawdown_stats_def)

lemma streaks_total: "\<exists>x. compute_streak_stats xs = Inr x"
proof -
  have "\<exists>x. average_streak ys = Inr x" for ys by (simp add: average_streak_def ddiv_total)
  then show ?thesis unfolding compute_streak_stats_def Let_def by (metis rbind.simps(2))
qed

section \<open>The queries return\<close>

lemma length_r_multiples: "length (r_multiples (wins rs)) + length (r_multiples (losses rs)) \<le> length rs"
proof -
  have "length (r_multiples xs) \<le> length xs" for xs by (simp add: r_multiples_def not_null_def)
  then have "length (r_multiples (wins rs)) + length (r_multiples (losses rs)) \<le> length (wins rs) + length (losses rs)"
    by (simp add: add_mono)
  also have "\<dots> \<le> length rs" by (induction rs) (auto simp: wins_def losses_def)
  finally show ?thesis .
qed

lemma outcome_returns: "\<exists>x. get_outcome_distribution f d = Inr x \<and> od_total_n x = length (base_rows f d)"
proof -
  let ?rs = "base_rows f d"
  obtain a b c where "rate (length (wins ?rs)) (length ?rs) = Inr a" "rate (length (losses ?rs)) (length ?rs) = Inr b"
    "rate (length (breakevens ?rs)) (length ?rs) = Inr c" using rate_total by blast
  then show ?thesis by (simp add: get_outcome_distribution_def Let_def)
qed

lemma profit_factor_returns: "\<exists>x. get_profit_factor f d = Inr x"
  by (simp add: get_profit_factor_def Let_def ddiv_total dabs_def)

lemma direction_rows_return: "\<exists>x. build_direction_rows raw = Inr x"
  unfolding build_direction_rows_def by (rule rmap_total) (rule rate_then)

lemma charges_return: "\<exists>x. apply_charge_drag_suppression raw = Inr x"
  by (simp add: apply_charge_drag_suppression_def ddiv_total)

text \<open>A planned trade whose stop is its entry.\<close>

definition zero_risk :: "trade_row \<Rightarrow> bool" where
  "zero_risk t \<longleftrightarrow> t_planned_target t \<noteq> None \<and> t_direction t \<in> {''LONG'', ''SHORT''} \<and>
     t_planned_stop t \<noteq> None \<and> t_planned_stop t = t_average_entry t"

lemma zero_risk_planned: "zero_risk t \<Longrightarrow> is_planned t"
  unfolding zero_risk_def is_planned_def by metis

lemma planned_rr_expr_cases:
  assumes "is_planned t"
  shows "planned_rr_expr sql t = Inl e \<longleftrightarrow> zero_risk t \<and> e = Py DataError"
  using assms by (auto simp: planned_rr_expr_def is_planned_def zero_risk_def Let_def)

lemma planned_rr_returns:
  "(\<exists>x. get_planned_rr sql f d = Inr x) \<and> \<not> (\<exists>r\<in>set (base_rows f d). zero_risk (jt r)) \<or>
   get_planned_rr sql f d = Inl (Py DataError) \<and> (\<exists>r\<in>set (base_rows f d). zero_risk (jt r))"
proof -
  let ?f = "\<lambda>r. planned_rr_expr sql (jt r)" and ?rs = "filter (\<lambda>r. is_planned (jt r)) (base_rows f d)"
  show ?thesis
  proof (cases "\<exists>r\<in>set (base_rows f d). zero_risk (jt r)")
    case True
    then obtain r where r: "r \<in> set ?rs" "zero_risk (jt r)"
      using zero_risk_planned by auto
    have "rmap ?f ?rs = Inl (Py DataError)"
      by (rule rmap_Inl [OF r(1)]) (use r planned_rr_expr_cases in auto)
    then show ?thesis using True by (simp add: get_planned_rr_def Let_def)
  next
    case False
    have "\<exists>ys. rmap ?f ?rs = Inr ys"
    proof (rule rmap_total)
      fix r
      assume "r \<in> set ?rs"
      with False planned_rr_expr_cases [of "jt r" sql] show "\<exists>y. ?f r = Inr y"
        by (cases "planned_rr_expr sql (jt r)") auto
    qed
    then obtain ys where ys: "rmap ?f ?rs = Inr ys" by blast
    have "\<exists>x. get_planned_rr sql f d = Inr x"
      unfolding get_planned_rr_def Let_def ys by (simp add: rate_then)
    then show ?thesis using False by blast
  qed
qed

lemma summary_returns:
  "(\<exists>s. service_summary sql f d = Inr s) \<and> \<not> (\<exists>r\<in>set (base_rows f d). zero_risk (jt r)) \<or>
   service_summary sql f d = Inl (Py DataError) \<and> (\<exists>r\<in>set (base_rows f d). zero_risk (jt r))"
proof -
  let ?rs = "base_rows f d"
  obtain o1 where o1: "get_outcome_distribution f d = Inr o1" "od_total_n o1 = length ?rs"
    using outcome_returns by blast
  obtain pf where pf: "get_profit_factor f d = Inr pf" using profit_factor_returns by blast
  let ?ws = "r_multiples (wins ?rs)" and ?ls = "r_multiples (losses ?rs)"
  have series: "get_r_multiple_series f d = (?ws, ?ls)" by (simp add: get_r_multiple_series_def Let_def)
  obtain e where e: "compute_expectancy ?ws ?ls (length ?rs) = Inr e"
    using expectancy_total [OF length_r_multiples] by blast
  obtain sh so dd where sh: "compute_sharpe_ratio (?ws @ ?ls) N_PER_YEAR_DEFAULT = Inr sh"
    and so: "compute_sortino_ratio (?ws @ ?ls) N_PER_YEAR_DEFAULT = Inr so"
    and dd: "compute_drawdown_stats (get_equity_curve f d) = Inr dd"
    using sharpe_total sortino_total drawdown_total by blast
  obtain dir cx where dir: "build_direction_rows (get_by_direction sql f d) = Inr dir"
    and cx: "apply_charge_drag_suppression (get_charges_breakdown f d) = Inr cx"
    using direction_rows_return charges_return by blast
  note stages = o1 pf series e sh so dd dir cx
  show ?thesis
  proof (cases "get_planned_rr sql f d")
    case (Inl e)
    with planned_rr_returns [of sql f d] show ?thesis
      unfolding service_summary_def Let_def stages rbind.simps by simp
  next
    case (Inr x)
    with planned_rr_returns [of sql f d] show ?thesis
      unfolding service_summary_def Let_def stages rbind.simps by (simp add: stages)
  qed
qed

section \<open>Which requests are answered\<close>

lemma rolling_exp_returns: "\<exists>x. rolling_exp_r w = Inr x"
proof -
  let ?ws = "List.map_filter (\<lambda>p. if 0 < ts_net_pnl p then ts_r_multiple p else None) w"
  let ?ls = "List.map_filter (\<lambda>p. if ts_net_pnl p < 0 then ts_r_multiple p else None) w"
  have "length ?ws + length ?ls \<le> length w"
    by (induction w) (auto simp: List.map_filter_simps split: option.splits)
  then obtain e where "compute_expectancy ?ws ?ls (length w) = Inr e" using expectancy_total by blast
  then show ?thesis by (simp add: rolling_exp_r_def Let_def)
qed

lemma rolling_point_returns:
  assumes "0 < w" and "w \<le> i" and "i \<le> length points"
  shows "\<exists>x. rolling_point points w i = Inr x"
proof -
  have ne: "take w (drop (i - w) points) \<noteq> []" using assms by simp
  obtain e where "rolling_exp_r (take w (drop (i - w) points)) = Inr e" using rolling_exp_returns by blast
  with ne assms(1) show ?thesis by (simp add: rolling_point_def Let_def ddiv_total check_def)
qed

lemma rolling_returns: "\<exists>x. get_rolling_expectancy f d = Inr x"
proof -
  let ?points = "get_trade_series f d"
  let ?step = "\<lambda>i acc. rbind (rolling_point ?points MIN_N_ROLLING i) (\<lambda>p. Inr (acc @ [p]))"
  have "\<exists>s'. rfold ?step [MIN_N_ROLLING ..< Suc (length ?points)] [] = Inr s'"
  proof (rule rfold_total)
    fix i and acc :: "rolling_expectancy_point list"
    assume "i \<in> set [MIN_N_ROLLING ..< Suc (length ?points)]"
    then have "\<exists>x. rolling_point ?points MIN_N_ROLLING i = Inr x"
      by (intro rolling_point_returns) (auto simp: MIN_N_ROLLING_def)
    then show "\<exists>s'. ?step i acc = Inr s'" by auto
  qed
  then show ?thesis by (auto simp: get_rolling_expectancy_def compute_rolling_expectancy_def)
qed

lemma kelly_returns: "\<exists>x. get_kelly_fraction sql f d = Inr x"
proof -
  have "\<exists>x. rbind (ddiv a b) g = Inr x" if "b \<noteq> 0" "\<And>x. \<exists>y. g x = Inr y" for a b and g :: "rat \<Rightarrow> exn + kelly_result"
    using that by (simp add: ddiv_total)
  note step = this
  show ?thesis
    unfolding get_kelly_fraction_def Let_def
    by (auto split: option.split intro!: step simp del: of_nat_add)
qed

lemma percentile_returns: "xs \<noteq> [] \<Longrightarrow> \<exists>x. percentile xs p = Inr x"
  using percentile_ok by blast

lemma monte_carlo_returns: "0 < n \<Longrightarrow> \<exists>x. compute_monte_carlo draws rs n t = Inr x"
proof (cases "rs = []")
  case False
  assume n: "0 < n"
  obtain sims where sims: "run_simulations draws rs t n = Inr sims" "length sims = n"
    using run_simulations_ok by blast
  then have ne: "sims \<noteq> []" using n by auto
  obtain a b c where r: "percentile (sort (map sim_cum_r sims)) 50 = Inr a"
    "percentile (sort (map sim_cum_r sims)) 5 = Inr b" "percentile (sort (map sim_cum_r sims)) 95 = Inr c"
    using percentile_returns [of "sort (map sim_cum_r sims)"] ne by (metis list.map_disc_iff set_empty set_sort)
  obtain u v where dd: "percentile (sort (map sim_max_dd sims)) 95 = Inr u"
    "percentile (sort (map sim_max_dd sims)) 99 = Inr v"
    using percentile_returns [of "sort (map sim_max_dd sims)"] ne by (metis list.map_disc_iff set_empty set_sort)
  obtain w where "percentile (sort (map sim_max_consec sims)) 95 = Inr w"
    using percentile_returns [of "sort (map sim_max_consec sims)"] ne by (metis list.map_disc_iff set_empty set_sort)
  then show ?thesis using False n by (simp add: compute_monte_carlo_def sims r dd Let_def ddiv_total)
qed (simp add: compute_monte_carlo_def)

lemma risk_summary_returns:
  "(\<exists>s. get_risk_summary sql ct now f d = Inr s) \<longleftrightarrow> (\<exists>s. service_summary sql f d = Inr s)"
proof -
  obtain k where "get_streaks f d = Inr k" unfolding get_streaks_def using streaks_total by blast
  then show ?thesis
    by (cases "service_summary sql f d") (simp_all add: get_risk_summary_def Let_def split: prod.split)
qed

lemma respond_Answer: "(\<exists>x. respond r = Answer x) \<longleftrightarrow> (\<exists>x. r = Inr x)"
  by (cases r) (simp_all add: respond_def)

text \<open>
  C34: which requests are answered. For every table and filter, with whatever the database computes
  for its inexact aggregates, the summary and the risk summary are answered unless one of the trades
  they are about is planned with a stop that is its average entry; then they fail, with the error
  of the database for a division by zero. Every other figure is defined: no request for it ends in
  an unhandled error, and those that are refused are exactly the ones with a bad parameter.
\<close>

theorem analytics_answer_unless_zero_risk:
  "((\<exists>s. get_analytics_summary_route sql f d = Answer s) \<longleftrightarrow> \<not> (\<exists>r\<in>set (base_rows f d). zero_risk (jt r))) \<and>
   (get_analytics_summary_route sql f d = Unhandled (Py DataError) \<longleftrightarrow> (\<exists>r\<in>set (base_rows f d). zero_risk (jt r))) \<and>
   ((\<exists>s. get_risk_summary_route sql ct now f d = Answer s) \<longleftrightarrow> \<not> (\<exists>r\<in>set (base_rows f d). zero_risk (jt r))) \<and>
   ((\<exists>b. get_breakdown_route sql f dimension d = Answer b) \<longleftrightarrow> dimension \<in> set ALLOWED_DIMENSIONS) \<and>
   ((\<exists>m. get_monte_carlo_route draw f n d = Answer m) \<longleftrightarrow> 100 \<le> n \<and> n \<le> 10000) \<and>
   (\<exists>x. get_r_distribution sql f d = Inr x) \<and> (\<exists>x. get_by_setup sql f d = Inr x) \<and>
   (\<exists>x. get_streaks f d = Inr x) \<and> (\<exists>x. get_hold_duration_distribution sql f d = Inr x) \<and>
   (\<exists>x. get_by_exit_type sql f d = Inr x) \<and> (\<exists>x. get_kelly_fraction sql f d = Inr x) \<and>
   (\<exists>x. get_time_of_day sql f d = Inr x) \<and> (\<exists>x. get_rolling_expectancy f d = Inr x)"
proof -
  have summary: "(\<exists>s. service_summary sql f d = Inr s) \<longleftrightarrow> \<not> (\<exists>r\<in>set (base_rows f d). zero_risk (jt r))"
    "service_summary sql f d = Inl (Py DataError) \<longleftrightarrow> (\<exists>r\<in>set (base_rows f d). zero_risk (jt r))"
    using summary_returns [of sql f d] by auto
  have unhandled: "respond r = Unhandled e \<longleftrightarrow> r = Inl e" for r :: "exn + 'z" and e
    by (cases r) (simp_all add: respond_def)
  have breakdown: "(\<exists>b. get_breakdown_route sql f dimension d = Answer b) \<longleftrightarrow> dimension \<in> set ALLOWED_DIMENSIONS"
    using dimension_breakdown_total [of dimension sql f d] by (auto simp: get_breakdown_route_def respond_Answer)
  have carlo: "(\<exists>m. get_monte_carlo_route draw f n d = Answer m) \<longleftrightarrow> 100 \<le> n \<and> n \<le> 10000"
    using monte_carlo_returns [of "nat n" draw] by (auto simp: get_monte_carlo_route_def respond_Answer get_monte_carlo_def)
  have "\<exists>x. get_r_distribution sql f d = Inr x"
    unfolding get_r_distribution_def Let_def by (rule rate_then)
  moreover have "\<exists>x. get_streaks f d = Inr x" unfolding get_streaks_def by (rule streaks_total)
  ultimately show ?thesis
    unfolding get_analytics_summary_route_def get_risk_summary_route_def respond_Answer unhandled
      risk_summary_returns summary
    using breakdown carlo by_setup_total [of sql f d] hold_duration_total [of sql f d] by_exit_type_total [of sql f d]
      kelly_returns time_of_day_total [of sql f d] rolling_returns by blast
qed

text \<open>
  Such a trade is made by one request: a stop closer to the entry than the database stores.
\<close>

definition near_stop :: rat where "near_stop = 9999996 / 100000"

definition after_near :: "db \<Rightarrow> reconstruction_result \<Rightarrow> exn + trade_row \<times> db" where
  "after_near d3 res =
     (case affected_trade_id res of
        None \<Rightarrow> Inl (Svc (ReconstructionFailedError None))
      | Some affected \<Rightarrow>
          rbind (write_plan affected (Some near_stop) (Some 120) d3) (\<lambda>d4.
          let d5 = backfill_after 7 res d4 in
          case get_by t_id (trades d5) affected of
            None \<Rightarrow> Inl (Py UnmappedInstanceError)
          | Some trade \<Rightarrow> Inr (trade, d5)))"

definition risk_free :: "exn + trade_row \<times> db \<Rightarrow> bool" where
  "risk_free outcome =
     (case outcome of
        Inl e \<Rightarrow> False
      | Inr (t, d) \<Rightarrow> list_ex (\<lambda>r. zero_risk (jt r)) (base_rows own_filter d))"

lemma near_evaluation:
  "case late_run of Inr (d3, res) \<Rightarrow> risk_free (after_near d3 res) | Inl e \<Rightarrow> False"
  by code_simp

theorem analytics_answer_unless_zero_risk_witness:
  "\<exists>t d. create_trade 0 7 8 ''INFY'' ''NSE_EQ'' ''EQ'' ''MIS'' late_fills None None (Some near_stop) (Some 120)
     service_db = Inr (t, d) \<and>
   (\<forall>sql. get_analytics_summary_route sql own_filter d = Unhandled (Py DataError))"
proof -
  obtain d3 res where r: "late_run = Inr (d3, res)" "risk_free (after_near d3 res)"
    using near_evaluation by (auto split: sum.splits prod.splits)
  then obtain d2 where "late_db2 = Inr d2" "reconstruct 7 8 50 ''MIS'' ''EQ'' d2 = Inr (d3, res)"
    unfolding late_run_def rbind_eq_Inr by blast
  then have "create_trade 0 7 8 ''INFY'' ''NSE_EQ'' ''EQ'' ''MIS'' late_fills
     None None (Some near_stop) (Some 120) service_db = after_near d3 res"
    by (simp add: create_trade_def late_account late_first sample_account_def
        late_db2_def after_near_def del: insert_manual_fills.simps)
  moreover obtain t d where "after_near d3 res = Inr (t, d)" "\<exists>r\<in>set (base_rows own_filter d). zero_risk (jt r)"
    using r(2) by (auto simp: risk_free_def list_ex_iff split: sum.splits prod.splits)
  ultimately show ?thesis using analytics_answer_unless_zero_risk [of _ own_filter d] by auto
qed

section \<open>The exposure of an account\<close>

lemma at_risk_cong:
  assumes "\<And>t. t \<in> set (trades d) \<Longrightarrow> scope t = scope' t"
  shows "at_risk scope d = at_risk scope' d"
proof -
  have "filter (\<lambda>t. scope t \<and> t_status t \<in> {''OPEN'', ''PARTIAL''} \<and> \<not> t_is_deleted t) (trades d) =
      filter (\<lambda>t. scope' t \<and> t_status t \<in> {''OPEN'', ''PARTIAL''} \<and> \<not> t_is_deleted t) (trades d)"
    by (rule filter_cong) (simp_all add: assms)
  then show ?thesis by (simp only: at_risk_def)
qed

lemma daily_loss_cong:
  assumes "\<And>t. t \<in> set (trades d) \<Longrightarrow> scope t = scope' t"
  shows "daily_loss scope ct d = daily_loss scope' ct d"
proof -
  have "[p. t \<leftarrow> trades d, p \<leftarrow> filter (\<lambda>p. p_trade_id p = t_id t) (trade_pnls d),
        scope t \<and> t_trade_date t = ist_date ct \<and> p_net_pnl p < 0 \<and> \<not> t_is_deleted t] =
      [p. t \<leftarrow> trades d, p \<leftarrow> filter (\<lambda>p. p_trade_id p = t_id t) (trade_pnls d),
        scope' t \<and> t_trade_date t = ist_date ct \<and> p_net_pnl p < 0 \<and> \<not> t_is_deleted t]"
    by (intro arg_cong [where f = concat] map_cong) (simp_all add: assms)
  then show ?thesis by (simp only: daily_loss_def)
qed

lemma no_dashboard_rows:
  assumes "\<And>t. t \<in> set (trades d) \<Longrightarrow> t_account_id t = Some a \<Longrightarrow> t_user_id t \<noteq> v"
  shows "dashboard_rows a v d = []"
  unfolding dashboard_rows_def using assms by auto

text \<open>
  C35: the exposure of an account is served to everyone. Let the trades of an account be its owner's.
  Then the daily risk route answers every user, the account's identifier given, with the number of
  open trades, the amount at risk and today's loss that the owner's own risk summary shows; to the
  same user the account does not exist, and the dashboard, which filters by user, shows nothing.
\<close>

theorem daily_summary_serves_any_account:
  assumes "\<forall>t\<in>set (trades d). t_account_id t = Some a \<longrightarrow> t_user_id t = u"
    and "ft_user_id f = u" and "ft_account_ids f = [a]" and "get_account_for_user v a d = None" and "v \<noteq> u"
    and "get_risk_summary sql ct now f d = Inr s"
  shows "account_service_get v a d = Inl (Imp (AccountNotFoundError a)) \<and>
    get_daily_summary_route ct now a v d = Answer
      \<lparr>dk_as_of_date = rk_as_of_date s, dk_open_trade_count = rk_open_trade_count s,
       dk_total_at_risk_inr = rk_total_at_risk_inr s, dk_daily_loss_inr = rk_daily_loss_inr s,
       dk_daily_loss_trade_count = rk_daily_loss_trade_count s\<rparr> \<and>
    ds_all_time_net_pnl (dashboard_summary now a v d) = 0 \<and> ds_open_trade_count (dashboard_summary now a v d) = 0 \<and>
    ds_total_closed_trades (dashboard_summary now a v d) = 0"
proof -
  have scope: "in_account a t = in_filter f t" if "t \<in> set (trades d)" for t
    using assms(1-3) that by (auto simp: in_account_def in_filter_def among_def split: option.split)
  note figures = at_risk_cong [OF scope] daily_loss_cong [OF scope]
  have "get_daily_risk ct now a d = \<lparr>dk_as_of_date = rk_as_of_date s, dk_open_trade_count = rk_open_trade_count s,
       dk_total_at_risk_inr = rk_total_at_risk_inr s, dk_daily_loss_inr = rk_daily_loss_inr s,
       dk_daily_loss_trade_count = rk_daily_loss_trade_count s\<rparr>"
    using assms(6) by (auto simp: get_risk_summary_def get_daily_risk_def figures rbind_eq_Inr Let_def split: prod.splits)
  moreover have "dashboard_rows a v d = []" by (rule no_dashboard_rows) (use assms(1,5) in auto)
  ultimately show ?thesis using assms(4)
    by (simp add: get_daily_summary_route_def account_service_get_def dashboard_summary_def Let_def sum_of_def)
qed

text \<open>The owner has one open trade with a planned risk of 250.\<close>

definition exposed_db :: db where
  "exposed_db = service_db\<lparr>trades := [(new_trade_row 60 7 (Some 8) 50 ''CNC'' ''LONG'' ''OPEN'' 20000 0 10 0 10 100)
     \<lparr>t_planned_risk_amount := Some 250\<rparr>]\<rparr>"

definition account_filter :: analytics_filter where
  "account_filter = own_filter\<lparr>ft_account_ids := [8]\<rparr>"

lemma exposed_figures:
  "at_risk (in_filter account_filter) exposed_db = (1, Some 250)" "base_rows account_filter exposed_db = []"
  by code_simp+

theorem daily_summary_serves_any_account_witness:
  "\<exists>r. get_daily_summary_route 0 0 8 12 exposed_db = Answer r \<and> dk_open_trade_count r = 1 \<and>
     dk_total_at_risk_inr r = Some 250 \<and> account_service_get 12 8 exposed_db = Inl (Imp (AccountNotFoundError 8))"
proof -
  let ?sql = "undefined :: sql_functions"
  obtain s where s: "get_risk_summary ?sql 0 0 account_filter exposed_db = Inr s"
    using summary_returns [of ?sql account_filter exposed_db] risk_summary_returns [of ?sql 0 0 account_filter exposed_db]
    by (auto simp: exposed_figures)
  then have figures: "rk_open_trade_count s = 1" "rk_total_at_risk_inr s = Some 250"
    by (auto simp: get_risk_summary_def rbind_eq_Inr Let_def exposed_figures case_prod_unfold)
  have "\<forall>t\<in>set (trades exposed_db). t_account_id t = Some 8 \<longrightarrow> t_user_id t = 7"
    by (simp add: exposed_db_def new_trade_row_def)
  moreover have "get_account_for_user 12 8 exposed_db = None"
    by (simp add: get_account_None exposed_db_def service_db_def sample_account_def)
  ultimately show ?thesis
    using daily_summary_serves_any_account [of exposed_db 8 7 account_filter 12 ?sql 0 0 s] s figures
    by (auto simp: account_filter_def own_filter_def)
qed

end
