(* ===== verification/Auth_Sessions.thy ===== *)
theory Auth_Sessions
  imports Text_Time Tables
begin

text \<open>
  \<open>infrastructure/repositories/session_repo.py\<close>: the sessions, the flags of forced
  re-authentication and the counters of the rate limits, as the keys of a Redis server with their
  deadlines. A request reads one clock. A server that is down fails every call of the request.
\<close>

section \<open>Keys with a time to live\<close>

type_synonym 'v expiring = "('v \<times> timestamp) option"

definition live :: "timestamp \<Rightarrow> 'v expiring \<Rightarrow> 'v option" where
  "live now entry =
     (case entry of None \<Rightarrow> None | Some (v, deadline) \<Rightarrow> if now < deadline then Some v else None)"

definition seconds :: "int \<Rightarrow> int" where "seconds n = n * 1000000"

definition SESSION_TTL :: int where "SESSION_TTL = seconds (30 * 24 * 60 * 60)"
definition FORCED_REAUTH_TTL :: int where "FORCED_REAUTH_TTL = seconds (24 * 60 * 60)"
definition LOGIN_FAILURE_WINDOW :: int where "LOGIN_FAILURE_WINDOW = seconds (15 * 60)"
definition LOGIN_FAILURE_THRESHOLD :: nat where "LOGIN_FAILURE_THRESHOLD = 5"
definition IP_ATTEMPT_WINDOW :: int where "IP_ATTEMPT_WINDOW = seconds 60"
definition IP_AUTH_THRESHOLD :: nat where "IP_AUTH_THRESHOLD = 5"
definition IP_RESET_THRESHOLD :: nat where "IP_RESET_THRESHOLD = 3"

record session_data =
  sd_user_id :: uuid
  sd_issued_at :: timestamp
  sd_expires_at :: timestamp
  sd_ip :: string
  sd_ua_hash :: string

record redis =
  rd_up :: bool
  rd_sessions :: "string \<Rightarrow> session_data expiring"
  rd_user_sessions :: "uuid \<Rightarrow> string set"
  rd_forced_reauth :: "uuid \<Rightarrow> unit expiring"
  rd_login_failures :: "string \<Rightarrow> nat expiring"
  rd_login_attempts_ip :: "string \<Rightarrow> nat expiring"
  rd_auth_attempts_ip :: "string \<Rightarrow> nat expiring"
  rd_reset_attempts_ip :: "string \<Rightarrow> nat expiring"

text \<open>Each method: the result of the call, and the store after it.\<close>

definition redis_call :: "redis \<Rightarrow> 'a \<times> redis \<Rightarrow> (exn + 'a) \<times> redis" where
  "redis_call rd r = (if rd_up rd then (Inr (fst r), snd r) else (Inl (Auth RedisUnavailableError), rd))"

section \<open>Sessions\<close>

definition create_session ::
  "timestamp \<Rightarrow> string \<Rightarrow> uuid \<Rightarrow> string \<Rightarrow> string \<Rightarrow> redis \<Rightarrow> (exn + unit) \<times> redis" where
  "create_session now token user_id ip ua_hash rd =
     redis_call rd
       ((), rd\<lparr>rd_sessions := (rd_sessions rd)(token := Some
                 (\<lparr>sd_user_id = user_id, sd_issued_at = now, sd_expires_at = now + SESSION_TTL,
                   sd_ip = ip, sd_ua_hash = ua_hash\<rparr>, now + SESSION_TTL)),
              rd_user_sessions := (rd_user_sessions rd)(user_id := insert token (rd_user_sessions rd user_id))\<rparr>)"

definition get_session :: "timestamp \<Rightarrow> string \<Rightarrow> redis \<Rightarrow> exn + session_data option" where
  "get_session now token rd =
     (if \<not> rd_up rd then Inl (Auth RedisUnavailableError)
      else case live now (rd_sessions rd token) of
        None \<Rightarrow> Inr None
      | Some data \<Rightarrow> if sd_expires_at data < now then Inr None else Inr (Some data))"

definition delete_session :: "string \<Rightarrow> uuid \<Rightarrow> redis \<Rightarrow> (exn + unit) \<times> redis" where
  "delete_session token user_id rd =
     redis_call rd
       ((), rd\<lparr>rd_sessions := (rd_sessions rd)(token := None),
              rd_user_sessions := (rd_user_sessions rd)(user_id := rd_user_sessions rd user_id - {token})\<rparr>)"

definition revoke_all_user_sessions :: "timestamp \<Rightarrow> uuid \<Rightarrow> redis \<Rightarrow> (exn + unit) \<times> redis" where
  "revoke_all_user_sessions now user_id rd =
     (let tokens = rd_user_sessions rd user_id
      in redis_call rd
           ((), rd\<lparr>rd_sessions := (\<lambda>token. if token \<in> tokens then None else rd_sessions rd token),
                  rd_user_sessions := (rd_user_sessions rd)(user_id := {}),
                  rd_forced_reauth := (rd_forced_reauth rd)(user_id := Some ((), now + FORCED_REAUTH_TTL))\<rparr>))"

section \<open>Forced re-authentication\<close>

definition set_forced_reauth :: "timestamp \<Rightarrow> uuid \<Rightarrow> redis \<Rightarrow> (exn + unit) \<times> redis" where
  "set_forced_reauth now user_id rd =
     redis_call rd
       ((), rd\<lparr>rd_forced_reauth := (rd_forced_reauth rd)(user_id := Some ((), now + FORCED_REAUTH_TTL))\<rparr>)"

definition check_forced_reauth :: "timestamp \<Rightarrow> uuid \<Rightarrow> redis \<Rightarrow> exn + bool" where
  "check_forced_reauth now user_id rd =
     (if rd_up rd then Inr (live now (rd_forced_reauth rd user_id) \<noteq> None)
      else Inl (Auth RedisUnavailableError))"

definition clear_forced_reauth :: "uuid \<Rightarrow> redis \<Rightarrow> (exn + unit) \<times> redis" where
  "clear_forced_reauth user_id rd =
     redis_call rd ((), rd\<lparr>rd_forced_reauth := (rd_forced_reauth rd)(user_id := None)\<rparr>)"

section \<open>Fixed windows\<close>

text \<open>\<open>INCR\<close> and \<open>EXPIRE ... NX\<close>: the first call of a window sets its end.\<close>

definition increment :: "timestamp \<Rightarrow> int \<Rightarrow> nat expiring \<Rightarrow> nat \<times> timestamp" where
  "increment now window entry =
     (case entry of
        None \<Rightarrow> (1, now + window)
      | Some (n, deadline) \<Rightarrow> if now < deadline then (n + 1, deadline) else (1, now + window))"

definition increment_login_failures :: "timestamp \<Rightarrow> string \<Rightarrow> redis \<Rightarrow> (exn + nat) \<times> redis" where
  "increment_login_failures now email_hash rd =
     (let c = increment now LOGIN_FAILURE_WINDOW (rd_login_failures rd email_hash)
      in redis_call rd (fst c, rd\<lparr>rd_login_failures := (rd_login_failures rd)(email_hash := Some c)\<rparr>))"

definition reset_login_failures :: "string \<Rightarrow> redis \<Rightarrow> (exn + unit) \<times> redis" where
  "reset_login_failures email_hash rd =
     redis_call rd ((), rd\<lparr>rd_login_failures := (rd_login_failures rd)(email_hash := None)\<rparr>)"

definition get_login_failures :: "timestamp \<Rightarrow> string \<Rightarrow> redis \<Rightarrow> exn + nat" where
  "get_login_failures now email_hash rd =
     (if rd_up rd
      then Inr (case live now (rd_login_failures rd email_hash) of None \<Rightarrow> 0 | Some n \<Rightarrow> n)
      else Inl (Auth RedisUnavailableError))"

definition increment_ip_attempts :: "timestamp \<Rightarrow> string \<Rightarrow> redis \<Rightarrow> (exn + nat) \<times> redis" where
  "increment_ip_attempts now ip rd =
     (let c = increment now IP_ATTEMPT_WINDOW (rd_login_attempts_ip rd ip)
      in redis_call rd (fst c, rd\<lparr>rd_login_attempts_ip := (rd_login_attempts_ip rd)(ip := Some c)\<rparr>))"

definition get_ip_attempts :: "timestamp \<Rightarrow> string \<Rightarrow> redis \<Rightarrow> exn + nat" where
  "get_ip_attempts now ip rd =
     (if rd_up rd
      then Inr (case live now (rd_login_attempts_ip rd ip) of None \<Rightarrow> 0 | Some n \<Rightarrow> n)
      else Inl (Auth RedisUnavailableError))"

definition increment_auth_attempts_ip :: "timestamp \<Rightarrow> string \<Rightarrow> redis \<Rightarrow> (exn + nat) \<times> redis" where
  "increment_auth_attempts_ip now ip rd =
     (let c = increment now IP_ATTEMPT_WINDOW (rd_auth_attempts_ip rd ip)
      in redis_call rd (fst c, rd\<lparr>rd_auth_attempts_ip := (rd_auth_attempts_ip rd)(ip := Some c)\<rparr>))"

definition increment_reset_attempts_ip :: "timestamp \<Rightarrow> string \<Rightarrow> redis \<Rightarrow> (exn + nat) \<times> redis" where
  "increment_reset_attempts_ip now ip rd =
     (let c = increment now IP_ATTEMPT_WINDOW (rd_reset_attempts_ip rd ip)
      in redis_call rd (fst c, rd\<lparr>rd_reset_attempts_ip := (rd_reset_attempts_ip rd)(ip := Some c)\<rparr>))"

end
