(* ===== verification/Auth_Service.thy ===== *)
theory Auth_Service
  imports Auth_Sessions Journal Sha256
begin

text \<open>
  \<open>domain/auth\<close>, \<open>user_repo.py\<close>, \<open>auth_repo.py\<close> and \<open>application/auth/service.py\<close>. An operation works
  on three states with different fates: the tables, which an error response rolls back, and the
  Redis store and the sent mail, which it does not. Argon2, the breach check, the mail transport
  and the random tokens are parameters, gathered with the settings and the clock in the
  environment of a request.
\<close>

section \<open>State\<close>

text \<open>\<open>updated_at\<close> and the user agent of an audit event are never read and left out.\<close>

record user_row =
  u_id :: uuid
  u_email :: string
  u_password_hash :: string
  u_display_name :: "string option"
  u_time_zone :: string
  u_base_currency :: string
  u_is_email_verified :: bool
  u_is_admin :: bool
  u_is_locked :: bool
  u_created_at :: timestamp

record pending_row =
  pt_id :: uuid
  pt_email :: string
  pt_token_hash :: string
  pt_expires_at :: timestamp

record auth_tables =
  at_db :: db
  at_users :: "user_row list"
  at_verifications :: "pending_row list"
  at_resets :: "pending_row list"

text \<open>A mail by its receiver, its subject and the link in its body.\<close>

record mail =
  ml_to :: string
  ml_subject :: string
  ml_link :: string

record world =
  w_tables :: auth_tables
  w_redis :: redis
  w_sent :: "mail list"

datatype verification = Verified | VerifyMismatch | BrokenHash

record auth_env =
  en_now :: timestamp
  en_hash :: "string \<Rightarrow> string"
  en_verify :: "string \<Rightarrow> string \<Rightarrow> verification"
  en_needs_rehash :: "string \<Rightarrow> bool"
  en_pwned :: "string \<Rightarrow> bool option"
  en_deliver :: "mail \<Rightarrow> bool"
  en_token :: string
  en_skip_email_verification :: bool
  en_frontend_url :: string

section \<open>Actions\<close>

type_synonym 'a action = "world \<Rightarrow> (exn + 'a) \<times> world"

definition sret :: "'a \<Rightarrow> 'a action" where "sret x w = (Inr x, w)"
definition raise :: "exn \<Rightarrow> 'a action" where "raise e w = (Inl e, w)"

definition sbind :: "'a action \<Rightarrow> ('a \<Rightarrow> 'b action) \<Rightarrow> 'b action" where
  "sbind m k w = (case m w of (Inl e, w') \<Rightarrow> (Inl e, w') | (Inr x, w') \<Rightarrow> k x w')"

definition on_redis :: "(redis \<Rightarrow> (exn + 'a) \<times> redis) \<Rightarrow> 'a action" where
  "on_redis f w = (case f (w_redis w) of (r, rd) \<Rightarrow> (r, w\<lparr>w_redis := rd\<rparr>))"

definition ask_redis :: "(redis \<Rightarrow> exn + 'a) \<Rightarrow> 'a action" where
  "ask_redis f w = (f (w_redis w), w)"

definition query :: "(auth_tables \<Rightarrow> exn + 'a) \<Rightarrow> 'a action" where
  "query f w = (f (w_tables w), w)"

definition modify_tables :: "(auth_tables \<Rightarrow> auth_tables) \<Rightarrow> unit action" where
  "modify_tables f w = (Inr (), w\<lparr>w_tables := f (w_tables w)\<rparr>)"

text \<open>\<open>try: m except e: handler\<close> for one exception.\<close>

definition catching :: "exn \<Rightarrow> 'a action \<Rightarrow> 'a action \<Rightarrow> 'a action" where
  "catching e m handler w = (case m w of (Inl e', w') \<Rightarrow> if e' = e then handler w' else (Inl e', w') | r \<Rightarrow> r)"

section \<open>domain/auth\<close>

definition MIN_PASSWORD_LENGTH :: nat where "MIN_PASSWORD_LENGTH = 12"
definition MAX_PASSWORD_LENGTH :: nat where "MAX_PASSWORD_LENGTH = 128"

definition validate_password_policy :: "string \<Rightarrow> string option" where
  "validate_password_policy password =
     (if length password < MIN_PASSWORD_LENGTH then
        Some (''Password must be at least '' @ nat_str MIN_PASSWORD_LENGTH @ '' characters.'')
      else if MAX_PASSWORD_LENGTH < length password then
        Some (''Password must not exceed '' @ nat_str MAX_PASSWORD_LENGTH @ '' characters.'')
      else None)"

definition sha256_hex :: "string \<Rightarrow> string" where
  "sha256_hex s = sha256_hexdigest s"

section \<open>user_repo.py\<close>

definition find_by_email :: "string \<Rightarrow> auth_tables \<Rightarrow> exn + user_row option" where
  "find_by_email email t =
     scalar_one_or_none (Py MultipleResultsFound) (filter (\<lambda>u. u_email u = lower email) (at_users t))"

definition find_by_id :: "uuid \<Rightarrow> auth_tables \<Rightarrow> exn + user_row option" where
  "find_by_id user_id t =
     scalar_one_or_none (Py MultipleResultsFound) (filter (\<lambda>u. u_id u = user_id) (at_users t))"

text \<open>The unique index on the address is checked at the flush.\<close>

definition create_user :: "timestamp \<Rightarrow> string \<Rightarrow> string \<Rightarrow> user_row action" where
  "create_user now email password_hash w =
     (let t = w_tables w; (pk, d) = uuid4 (at_db t);
          user = \<lparr>u_id = pk, u_email = lower email, u_password_hash = password_hash, u_display_name = None,
                  u_time_zone = ''Asia/Kolkata'', u_base_currency = ''INR'', u_is_email_verified = False,
                  u_is_admin = False, u_is_locked = False, u_created_at = now\<rparr>
      in if lower email \<in> u_email ` set (at_users t) then (Inl (Py IntegrityError), w)
         else (Inr user, w\<lparr>w_tables := t\<lparr>at_db := d, at_users := append_row (at_users t) user\<rparr>\<rparr>))"

definition update_password :: "uuid \<Rightarrow> string \<Rightarrow> auth_tables \<Rightarrow> auth_tables" where
  "update_password user_id new_hash t =
     t\<lparr>at_users := update_by u_id user_id (\<lambda>u. u\<lparr>u_password_hash := new_hash\<rparr>) (at_users t)\<rparr>"

definition set_email_verified :: "uuid \<Rightarrow> auth_tables \<Rightarrow> auth_tables" where
  "set_email_verified user_id t =
     t\<lparr>at_users := update_by u_id user_id (\<lambda>u. u\<lparr>u_is_email_verified := True\<rparr>) (at_users t)\<rparr>"

definition set_locked :: "uuid \<Rightarrow> bool \<Rightarrow> auth_tables \<Rightarrow> auth_tables" where
  "set_locked user_id locked t =
     t\<lparr>at_users := update_by u_id user_id (\<lambda>u. u\<lparr>u_is_locked := locked\<rparr>) (at_users t)\<rparr>"

text \<open>\<open>_UNSET\<close> is None; the display name, which may be set to NULL, has two options.\<close>

definition update_profile ::
  "uuid \<Rightarrow> string option option \<Rightarrow> string option \<Rightarrow> string option \<Rightarrow> auth_tables \<Rightarrow>
   (exn + user_row option) \<times> auth_tables" where
  "update_profile user_id display_name time_zone base_currency t =
     (let set_name = (\<lambda>u. case display_name of None \<Rightarrow> u | Some n \<Rightarrow> u\<lparr>u_display_name := n\<rparr>);
          set_zone = (\<lambda>u. case time_zone of None \<Rightarrow> u | Some z \<Rightarrow> u\<lparr>u_time_zone := z\<rparr>);
          set_currency = (\<lambda>u. case base_currency of None \<Rightarrow> u | Some c \<Rightarrow> u\<lparr>u_base_currency := c\<rparr>);
          t' = t\<lparr>at_users := update_by u_id user_id (\<lambda>u. set_currency (set_zone (set_name u))) (at_users t)\<rparr>
      in (find_by_id user_id t', t'))"

section \<open>auth_repo.py\<close>

definition pending_row_of :: "string \<Rightarrow> string \<Rightarrow> timestamp \<Rightarrow> uuid \<Rightarrow> pending_row" where
  "pending_row_of email token_hash expires_at pk =
     \<lparr>pt_id = pk, pt_email = lower email, pt_token_hash = token_hash, pt_expires_at = expires_at\<rparr>"

definition create_verification :: "string \<Rightarrow> string \<Rightarrow> timestamp \<Rightarrow> auth_tables \<Rightarrow> auth_tables" where
  "create_verification email token_hash expires_at t =
     (let (pk, d) = uuid4 (at_db t)
      in t\<lparr>at_db := d, at_verifications :=
             append_row (at_verifications t) (pending_row_of email token_hash expires_at pk)\<rparr>)"

definition create_reset :: "string \<Rightarrow> string \<Rightarrow> timestamp \<Rightarrow> auth_tables \<Rightarrow> auth_tables" where
  "create_reset email token_hash expires_at t =
     (let (pk, d) = uuid4 (at_db t)
      in t\<lparr>at_db := d, at_resets := append_row (at_resets t) (pending_row_of email token_hash expires_at pk)\<rparr>)"

definition find_by_token_hash :: "string \<Rightarrow> pending_row list \<Rightarrow> exn + pending_row option" where
  "find_by_token_hash token_hash rows =
     scalar_one_or_none (Py MultipleResultsFound) (filter (\<lambda>r. pt_token_hash r = token_hash) rows)"

definition delete_verification :: "uuid \<Rightarrow> auth_tables \<Rightarrow> auth_tables" where
  "delete_verification row_id t = t\<lparr>at_verifications := filter (\<lambda>r. pt_id r \<noteq> row_id) (at_verifications t)\<rparr>"

definition delete_expired :: "timestamp \<Rightarrow> auth_tables \<Rightarrow> auth_tables" where
  "delete_expired now t = t\<lparr>at_verifications := filter (\<lambda>r. \<not> pt_expires_at r < now) (at_verifications t)\<rparr>"

definition delete_reset :: "uuid \<Rightarrow> auth_tables \<Rightarrow> auth_tables" where
  "delete_reset row_id t = t\<lparr>at_resets := filter (\<lambda>r. pt_id r \<noteq> row_id) (at_resets t)\<rparr>"

definition delete_resets_by_email :: "string \<Rightarrow> auth_tables \<Rightarrow> auth_tables" where
  "delete_resets_by_email email t = t\<lparr>at_resets := filter (\<lambda>r. pt_email r \<noteq> lower email) (at_resets t)\<rparr>"

text \<open>Event data that the service leaves out are the empty list.\<close>

definition log_event ::
  "auth_env \<Rightarrow> string \<Rightarrow> string \<Rightarrow> uuid option \<Rightarrow> (string \<times> json) list \<Rightarrow> unit action" where
  "log_event env event_type ip user_id event_data =
     modify_tables (\<lambda>t. t\<lparr>at_db := audit_log (en_now env) event_type (Some ip) user_id event_data (at_db t)\<rparr>)"

section \<open>Helpers of the service\<close>

definition EMAIL_VERIFICATION_TTL :: int where "EMAIL_VERIFICATION_TTL = seconds (24 * 60 * 60)"
definition PASSWORD_RESET_TTL :: int where "PASSWORD_RESET_TTL = seconds (60 * 60)"

definition ua_hash :: "string option \<Rightarrow> string" where
  "ua_hash user_agent =
     (case user_agent of None \<Rightarrow> [] | Some s \<Rightarrow> if s = [] then [] else take 16 (sha256_hexdigest s))"

definition email_hash :: "string \<Rightarrow> string" where
  "email_hash email = take 32 (sha256_hexdigest (lower email))"

definition send :: "auth_env \<Rightarrow> string \<Rightarrow> string \<Rightarrow> string \<Rightarrow> unit action" where
  "send env receiver subject link w =
     (let m = \<lparr>ml_to = receiver, ml_subject = subject, ml_link = link\<rparr>
      in if en_deliver env m then (Inr (), w\<lparr>w_sent := w_sent w @ [m]\<rparr>)
         else (Inl (Auth EmailDeliveryError), w))"

text \<open>The breach check: a failure of the service is logged and lets the password pass.\<close>

definition check_breach :: "auth_env \<Rightarrow> string \<Rightarrow> string \<Rightarrow> string \<Rightarrow> unit action" where
  "check_breach env email password ip =
     sbind (case en_pwned env password of
              Some b \<Rightarrow> sret b
            | None \<Rightarrow>
                sbind (log_event env ''HIBP_CHECK_FAILED'' ip None
                         [(''email_hash'', JString (email_hash email)), (''reason'', JString ''api_failure'')])
                  (\<lambda>_. sret False)) (\<lambda>pwned.
     if pwned then raise (Auth (PasswordPolicyViolationError
       ''This password has appeared in a known data breach. Choose a different password.''))
     else sret ())"

definition check_policy :: "string \<Rightarrow> unit action" where
  "check_policy password =
     (case validate_password_policy password of
        None \<Rightarrow> sret () | Some message \<Rightarrow> raise (Auth (PasswordPolicyViolationError message)))"

section \<open>Registration\<close>

definition register_new :: "auth_env \<Rightarrow> string \<Rightarrow> string \<Rightarrow> unit action" where
  "register_new env email password =
     sbind (create_user (en_now env) email (en_hash env password)) (\<lambda>user.
     if en_skip_email_verification env then modify_tables (set_email_verified (u_id user))
     else
       sbind (modify_tables (create_verification email (sha256_hex (en_token env))
                (en_now env + EMAIL_VERIFICATION_TTL))) (\<lambda>_.
       catching (Auth EmailDeliveryError)
         (send env email ''Verify your TradeForge email address''
            (en_frontend_url env @ ''/verify-email?token='' @ en_token env))
         (sret ())))"

definition register :: "auth_env \<Rightarrow> string \<Rightarrow> string \<Rightarrow> string \<Rightarrow> unit action" where
  "register env email password ip =
     sbind (on_redis (increment_auth_attempts_ip (en_now env) ip)) (\<lambda>ip_count.
     if IP_AUTH_THRESHOLD < ip_count then raise (Auth RateLimitedError)
     else
       sbind (log_event env ''REGISTRATION_ATTEMPTED'' ip None [(''email_hash'', JString (email_hash email))]) (\<lambda>_.
       sbind (check_policy password) (\<lambda>_.
       sbind (check_breach env email password ip) (\<lambda>_.
       sbind (query (find_by_email email)) (\<lambda>existing.
       case existing of
         Some user \<Rightarrow>
           catching (Auth EmailDeliveryError)
             (send env email ''TradeForge: registration attempt on your account'' (en_frontend_url env @ ''/login''))
             (sret ())
       | None \<Rightarrow> register_new env email password)))))"

section \<open>Email verification\<close>

definition verify_email :: "auth_env \<Rightarrow> string \<Rightarrow> string \<Rightarrow> unit action" where
  "verify_email env raw_token ip =
     sbind (on_redis (increment_auth_attempts_ip (en_now env) ip)) (\<lambda>ip_count.
     if IP_AUTH_THRESHOLD < ip_count then raise (Auth RateLimitedError)
     else
       sbind (query (\<lambda>t. find_by_token_hash (sha256_hex raw_token) (at_verifications t))) (\<lambda>found.
       case found of
         None \<Rightarrow> raise (Auth InvalidTokenError)
       | Some row \<Rightarrow>
           if pt_expires_at row < en_now env then raise (Auth InvalidTokenError)
           else
             sbind (query (find_by_email (pt_email row))) (\<lambda>found_user.
             case found_user of
               None \<Rightarrow> raise (Auth InvalidTokenError)
             | Some user \<Rightarrow>
                 sbind (modify_tables (set_email_verified (u_id user))) (\<lambda>_.
                 sbind (modify_tables (delete_verification (pt_id row))) (\<lambda>_.
                 log_event env ''EMAIL_VERIFIED'' ip (Some (u_id user)) [])))))"

section \<open>Login\<close>

definition password_mismatch :: "auth_env \<Rightarrow> string \<Rightarrow> string \<Rightarrow> user_row \<Rightarrow> 'a action" where
  "password_mismatch env email ip user =
     sbind (on_redis (increment_login_failures (en_now env) (email_hash email))) (\<lambda>count.
     sbind (if LOGIN_FAILURE_THRESHOLD \<le> count
            then log_event env ''ACCOUNT_LOCKED'' ip (Some (u_id user))
                   [(''reason'', JString ''wrong_password''), (''threshold_reached'', JBool True)]
            else sret ()) (\<lambda>_.
     sbind (log_event env ''LOGIN_FAILURE'' ip (Some (u_id user)) [(''reason'', JString ''wrong_password'')]) (\<lambda>_.
     raise (Auth InvalidCredentialsError))))"

definition open_session :: "auth_env \<Rightarrow> string \<Rightarrow> string \<Rightarrow> string \<Rightarrow> string option \<Rightarrow> user_row \<Rightarrow> (uuid \<times> string) action" where
  "open_session env email password ip user_agent user =
     sbind (on_redis (reset_login_failures (email_hash email))) (\<lambda>_.
     sbind (if en_needs_rehash env (u_password_hash user)
            then modify_tables (update_password (u_id user) (en_hash env password)) else sret ()) (\<lambda>_.
     sbind (on_redis (create_session (en_now env) (en_token env) (u_id user) ip (ua_hash user_agent))) (\<lambda>_.
     sbind (on_redis (clear_forced_reauth (u_id user))) (\<lambda>_.
     sbind (log_event env ''LOGIN_SUCCESS'' ip (Some (u_id user)) []) (\<lambda>_.
     sret (u_id user, en_token env))))))"

definition login :: "auth_env \<Rightarrow> string \<Rightarrow> string \<Rightarrow> string \<Rightarrow> string option \<Rightarrow> (uuid \<times> string) action" where
  "login env email password ip user_agent =
     sbind (on_redis (increment_ip_attempts (en_now env) ip)) (\<lambda>ip_count.
     if IP_AUTH_THRESHOLD < ip_count then raise (Auth RateLimitedError)
     else
       sbind (query (find_by_email email)) (\<lambda>found.
       case found of
         None \<Rightarrow>
           sbind (log_event env ''LOGIN_FAILURE'' ip None
                    [(''reason'', JString ''user_not_found''), (''email_hash'', JString (email_hash email))]) (\<lambda>_.
           raise (Auth InvalidCredentialsError))
       | Some user \<Rightarrow>
           sbind (ask_redis (get_login_failures (en_now env) (email_hash email))) (\<lambda>failure_count.
           if LOGIN_FAILURE_THRESHOLD \<le> failure_count \<or> u_is_locked user then
             sbind (log_event env ''ACCOUNT_LOCKED'' ip (Some (u_id user)) []) (\<lambda>_. raise (Auth AccountLockedError))
           else
             case en_verify env (u_password_hash user) password of
               VerifyMismatch \<Rightarrow> password_mismatch env email ip user
             | BrokenHash \<Rightarrow> raise (Auth InvalidCredentialsError)
             | Verified \<Rightarrow>
                 if \<not> u_is_email_verified user then raise (Auth EmailNotVerifiedError)
                 else open_session env email password ip user_agent user)))"

section \<open>Logout\<close>

definition logout :: "auth_env \<Rightarrow> string \<Rightarrow> uuid \<Rightarrow> string \<Rightarrow> unit action" where
  "logout env session_token user_id ip =
     sbind (on_redis (delete_session session_token user_id)) (\<lambda>_.
     log_event env ''SESSION_INVALIDATED'' ip (Some user_id) [])"

section \<open>Password reset\<close>

definition request_password_reset :: "auth_env \<Rightarrow> string \<Rightarrow> string \<Rightarrow> unit action" where
  "request_password_reset env email ip =
     sbind (on_redis (increment_reset_attempts_ip (en_now env) ip)) (\<lambda>ip_count.
     if IP_RESET_THRESHOLD < ip_count then raise (Auth RateLimitedError)
     else
       sbind (log_event env ''PASSWORD_RESET_REQUESTED'' ip None [(''email_hash'', JString (email_hash email))]) (\<lambda>_.
       sbind (query (find_by_email email)) (\<lambda>found.
       case found of
         None \<Rightarrow> sret ()
       | Some user \<Rightarrow>
           sbind (modify_tables (delete_resets_by_email email)) (\<lambda>_.
           sbind (modify_tables (create_reset email (sha256_hex (en_token env)) (en_now env + PASSWORD_RESET_TTL))) (\<lambda>_.
           send env email ''TradeForge: password reset request''
             (en_frontend_url env @ ''/reset-password?token='' @ en_token env))))))"

definition complete_reset :: "auth_env \<Rightarrow> string \<Rightarrow> string \<Rightarrow> pending_row \<Rightarrow> user_row \<Rightarrow> unit action" where
  "complete_reset env new_password ip row user =
     sbind (modify_tables (update_password (u_id user) (en_hash env new_password))) (\<lambda>_.
     sbind (modify_tables (delete_reset (pt_id row))) (\<lambda>_.
     sbind (on_redis (revoke_all_user_sessions (en_now env) (u_id user))) (\<lambda>_.
     sbind (log_event env ''PASSWORD_RESET_COMPLETED'' ip (Some (u_id user)) []) (\<lambda>_.
     log_event env ''PASSWORD_CHANGED'' ip (Some (u_id user)) []))))"

definition confirm_password_reset :: "auth_env \<Rightarrow> string \<Rightarrow> string \<Rightarrow> string \<Rightarrow> unit action" where
  "confirm_password_reset env raw_token new_password ip =
     sbind (on_redis (increment_reset_attempts_ip (en_now env) ip)) (\<lambda>ip_count.
     if IP_RESET_THRESHOLD < ip_count then raise (Auth RateLimitedError)
     else
       sbind (query (\<lambda>t. find_by_token_hash (sha256_hex raw_token) (at_resets t))) (\<lambda>found.
       case found of
         None \<Rightarrow> raise (Auth InvalidTokenError)
       | Some row \<Rightarrow>
           if pt_expires_at row < en_now env then raise (Auth InvalidTokenError)
           else
             sbind (check_policy new_password) (\<lambda>_.
             sbind (check_breach env (pt_email row) new_password ip) (\<lambda>_.
             sbind (query (find_by_email (pt_email row))) (\<lambda>found_user.
             case found_user of
               None \<Rightarrow> raise (Auth InvalidTokenError)
             | Some user \<Rightarrow> complete_reset env new_password ip row user)))))"

end
