(* ===== verification/Auth_Api.thy ===== *)
theory Auth_Api
  imports Auth_Service Trades_Api
begin

text \<open>
  \<open>api/v1/deps.py\<close>, \<open>api/v1/auth.py\<close> and \<open>api/v1/users.py\<close>: who a request is from, and the routes
  over the service. A route that answers commits; an error response leaves the tables as they were,
  and keeps what happened to the Redis store and the mail. The bodies are those that the models
  accept; that a network contains an address and the names of the time zones are parameters.
\<close>

section \<open>deps.py\<close>

definition get_client_ip :: "(string \<Rightarrow> bool) \<Rightarrow> string option \<Rightarrow> string \<Rightarrow> string" where
  "get_client_ip in_trusted client forwarded_for =
     (let direct_peer = (case client of None \<Rightarrow> [] | Some host \<Rightarrow> host)
      in if \<not> in_trusted direct_peer then (if direct_peer = [] then ''127.0.0.1'' else direct_peer)
         else if forwarded_for = [] then direct_peer
         else case first_row (filter (\<lambda>ip. ip \<noteq> [] \<and> \<not> in_trusted ip)
                     (rev (map strip (split_at (CHR '','') forwarded_for)))) of
             Some ip \<Rightarrow> ip
           | None \<Rightarrow> direct_peer)"

definition get_current_user_id :: "timestamp \<Rightarrow> string option \<Rightarrow> redis \<Rightarrow> uuid response" where
  "get_current_user_id now tf_session rd =
     (case tf_session of
        None \<Rightarrow> HttpError 401 ''NOT_AUTHENTICATED''
      | Some token \<Rightarrow>
          if token = [] then HttpError 401 ''NOT_AUTHENTICATED''
          else case get_session now token rd of
            Inl e \<Rightarrow> HttpError 503 ''SERVICE_UNAVAILABLE''
          | Inr None \<Rightarrow> HttpError 401 ''SESSION_EXPIRED''
          | Inr (Some session) \<Rightarrow>
              (case check_forced_reauth now (sd_user_id session) rd of
                 Inl e \<Rightarrow> HttpError 503 ''SERVICE_UNAVAILABLE''
               | Inr True \<Rightarrow> HttpError 401 ''REAUTH_REQUIRED''
               | Inr False \<Rightarrow> Answer (sd_user_id session)))"

definition and_then :: "'a response \<Rightarrow> ('a \<Rightarrow> 'b response) \<Rightarrow> 'b response" where
  "and_then r k = (case r of Answer x \<Rightarrow> k x | HttpError s m \<Rightarrow> HttpError s m | Unhandled e \<Rightarrow> Unhandled e)"

definition existing_user :: "uuid \<Rightarrow> auth_tables \<Rightarrow> user_row response" where
  "existing_user user_id t =
     (case find_by_id user_id t of
        Inl e \<Rightarrow> Unhandled e
      | Inr None \<Rightarrow> HttpError 401 ''USER_NOT_FOUND''
      | Inr (Some user) \<Rightarrow> Answer user)"

definition get_current_user :: "timestamp \<Rightarrow> string option \<Rightarrow> world \<Rightarrow> user_row response" where
  "get_current_user now tf_session w =
     and_then (get_current_user_id now tf_session (w_redis w)) (\<lambda>user_id. existing_user user_id (w_tables w))"

definition require_admin :: "timestamp \<Rightarrow> string option \<Rightarrow> world \<Rightarrow> user_row response" where
  "require_admin now tf_session w =
     and_then (get_current_user now tf_session w) (\<lambda>user.
     if u_is_admin user then Answer user else HttpError 403 ''ADMIN_REQUIRED'')"

section \<open>auth.py\<close>

record user_response =
  ur_id :: uuid
  ur_email :: string
  ur_is_email_verified :: bool
  ur_is_admin :: bool

definition user_response_of :: "user_row \<Rightarrow> user_response" where
  "user_response_of user =
     \<lparr>ur_id = u_id user, ur_email = u_email user, ur_is_email_verified = u_is_email_verified user,
      ur_is_admin = u_is_admin user\<rparr>"

definition rolled_back :: "world \<Rightarrow> world \<Rightarrow> world" where
  "rolled_back w w' = w'\<lparr>w_tables := w_tables w\<rparr>"

definition auth_route :: "(exn \<Rightarrow> 'b response) \<Rightarrow> 'a action \<Rightarrow> ('a \<Rightarrow> 'b) \<Rightarrow> world \<Rightarrow> 'b response \<times> world" where
  "auth_route errors m out w =
     (case m w of
        (Inr x, w') \<Rightarrow> (Answer (out x), w')
      | (Inl e, w') \<Rightarrow> (errors e, rolled_back w w'))"

definition auth_errors :: "exn \<Rightarrow> 'b response" where
  "auth_errors e =
     (case e of
        Auth RateLimitedError \<Rightarrow> HttpError 429 ''RATE_LIMITED''
      | Auth RedisUnavailableError \<Rightarrow> HttpError 503 ''SERVICE_UNAVAILABLE''
      | _ \<Rightarrow> Unhandled e)"

definition register_errors :: "exn \<Rightarrow> 'b response" where
  "register_errors e =
     (case e of
        Auth (PasswordPolicyViolationError message) \<Rightarrow> HttpError 422 message
      | Auth EmailDeliveryError \<Rightarrow> HttpError 503 ''SERVICE_UNAVAILABLE''
      | _ \<Rightarrow> auth_errors e)"

definition token_errors :: "exn \<Rightarrow> 'b response" where
  "token_errors e =
     (case e of
        Auth InvalidTokenError \<Rightarrow> HttpError 400 ''INVALID_OR_EXPIRED_TOKEN''
      | _ \<Rightarrow> auth_errors e)"

definition login_errors :: "exn \<Rightarrow> 'b response" where
  "login_errors e =
     (case e of
        Auth AccountLockedError \<Rightarrow> HttpError 423 ''ACCOUNT_LOCKED''
      | Auth EmailNotVerifiedError \<Rightarrow> HttpError 403 ''EMAIL_NOT_VERIFIED''
      | Auth InvalidCredentialsError \<Rightarrow> HttpError 401 ''INVALID_CREDENTIALS''
      | _ \<Rightarrow> auth_errors e)"

definition reset_request_errors :: "exn \<Rightarrow> 'b response" where
  "reset_request_errors e =
     (case e of
        Auth EmailDeliveryError \<Rightarrow> HttpError 503 ''SERVICE_UNAVAILABLE''
      | _ \<Rightarrow> auth_errors e)"

definition reset_confirm_errors :: "exn \<Rightarrow> 'b response" where
  "reset_confirm_errors e =
     (case e of
        Auth (PasswordPolicyViolationError message) \<Rightarrow> HttpError 422 message
      | _ \<Rightarrow> token_errors e)"

definition register_route :: "auth_env \<Rightarrow> string \<Rightarrow> string \<Rightarrow> string \<Rightarrow> world \<Rightarrow> bool response \<times> world" where
  "register_route env email password ip =
     auth_route register_errors (register env (lower email) password ip) (\<lambda>_. en_skip_email_verification env)"

definition verify_email_route :: "auth_env \<Rightarrow> string \<Rightarrow> string \<Rightarrow> world \<Rightarrow> unit response \<times> world" where
  "verify_email_route env token ip = auth_route token_errors (verify_email env token ip) (\<lambda>_. ())"

text \<open>The answer of a login: the user and the token of the cookie.\<close>

definition login_route ::
  "auth_env \<Rightarrow> string \<Rightarrow> string \<Rightarrow> string \<Rightarrow> string option \<Rightarrow> world \<Rightarrow> (user_response \<times> string) response \<times> world" where
  "login_route env email password ip user_agent w =
     (case login env (lower email) password ip user_agent w of
        (Inl e, w') \<Rightarrow> (login_errors e, rolled_back w w')
      | (Inr (user_id, token), w') \<Rightarrow>
          (case find_by_id user_id (w_tables w') of
             Inl e \<Rightarrow> (Unhandled e, rolled_back w w')
           | Inr None \<Rightarrow> (HttpError 500 ''USER_NOT_FOUND_AFTER_LOGIN'', rolled_back w w')
           | Inr (Some user) \<Rightarrow> (Answer (user_response_of user, token), w')))"

definition logout_route :: "auth_env \<Rightarrow> string option \<Rightarrow> string \<Rightarrow> world \<Rightarrow> unit response \<times> world" where
  "logout_route env tf_session ip w =
     (case get_current_user_id (en_now env) tf_session (w_redis w) of
        Answer user_id \<Rightarrow>
          auth_route auth_errors
            (logout env (case tf_session of None \<Rightarrow> [] | Some token \<Rightarrow> token) user_id ip) (\<lambda>_. ()) w
      | HttpError s m \<Rightarrow> (HttpError s m, w)
      | Unhandled e \<Rightarrow> (Unhandled e, w))"

definition me_route :: "timestamp \<Rightarrow> string option \<Rightarrow> world \<Rightarrow> user_response response" where
  "me_route now tf_session w =
     and_then (get_current_user now tf_session w) (\<lambda>user. Answer (user_response_of user))"

definition password_reset_request_route :: "auth_env \<Rightarrow> string \<Rightarrow> string \<Rightarrow> world \<Rightarrow> unit response \<times> world" where
  "password_reset_request_route env email ip =
     auth_route reset_request_errors (request_password_reset env (lower email) ip) (\<lambda>_. ())"

definition password_reset_confirm_route ::
  "auth_env \<Rightarrow> string \<Rightarrow> string \<Rightarrow> string \<Rightarrow> world \<Rightarrow> unit response \<times> world" where
  "password_reset_confirm_route env token new_password ip =
     auth_route reset_confirm_errors (confirm_password_reset env token new_password ip) (\<lambda>_. ())"

section \<open>users.py\<close>

record user_profile_out =
  uo_id :: uuid
  uo_email :: string
  uo_display_name :: "string option"
  uo_time_zone :: string
  uo_base_currency :: string
  uo_is_email_verified :: bool
  uo_is_admin :: bool
  uo_created_at :: timestamp

definition user_profile_of :: "user_row \<Rightarrow> user_profile_out" where
  "user_profile_of u =
     \<lparr>uo_id = u_id u, uo_email = u_email u, uo_display_name = u_display_name u, uo_time_zone = u_time_zone u,
      uo_base_currency = u_base_currency u, uo_is_email_verified = u_is_email_verified u,
      uo_is_admin = u_is_admin u, uo_created_at = u_created_at u\<rparr>"

text \<open>The outer option of the display name says whether the body names it.\<close>

record update_profile_request =
  up_display_name :: "string option option"
  up_time_zone :: "string option"
  up_base_currency :: "string option"

definition update_profile_request_ok :: "update_profile_request \<Rightarrow> bool" where
  "update_profile_request_ok body \<longleftrightarrow>
     (case up_display_name body of Some (Some n) \<Rightarrow> length n \<le> 100 | _ \<Rightarrow> True)"

definition SUPPORTED_CURRENCIES :: "string list" where "SUPPORTED_CURRENCIES = [''INR'']"

definition get_profile_route :: "uuid \<Rightarrow> auth_tables \<Rightarrow> user_profile_out response" where
  "get_profile_route user_id t = and_then (existing_user user_id t) (\<lambda>u. Answer (user_profile_of u))"

definition update_profile_route ::
  "(string \<Rightarrow> bool) \<Rightarrow> update_profile_request \<Rightarrow> uuid \<Rightarrow> auth_tables \<Rightarrow> user_profile_out response \<times> auth_tables" where
  "update_profile_route is_time_zone body user_id t =
     (let refuse = (\<lambda>status message. (HttpError status message, t))
      in if (case up_display_name body of Some (Some n) \<Rightarrow> strip n = [] | _ \<Rightarrow> False) then
           refuse 422 ''DISPLAY_NAME_BLANK''
         else if (case up_time_zone body of Some z \<Rightarrow> \<not> is_time_zone z | None \<Rightarrow> False) then
           refuse 422 ''INVALID_TIMEZONE''
         else if (case up_base_currency body of Some c \<Rightarrow> c \<notin> set SUPPORTED_CURRENCIES | None \<Rightarrow> False) then
           refuse 422 ''UNSUPPORTED_CURRENCY''
         else
           case update_profile user_id (up_display_name body) (up_time_zone body) (up_base_currency body) t of
             (Inl e, t') \<Rightarrow> (Unhandled e, t)
           | (Inr None, t') \<Rightarrow> refuse 401 ''USER_NOT_FOUND''
           | (Inr (Some user), t') \<Rightarrow> (Answer (user_profile_of user), t'))"

end
