(* ===== verification/Auth_Facts.thy ===== *)
theory Auth_Facts
  imports Auth_Api
begin

text \<open>
  Facts of the actions of the authentication: which of them leave the sessions alone (a locale over
  any part of the store that the counters do not touch), what a login and a reset do to them, and the
  invariant of the sessions over every sequence of requests.
\<close>

section \<open>Actions\<close>

named_theorems action_simps \<open>the outcomes of an action\<close>

lemma sbind_apply: "sbind m k w = (case m w of (Inl e, w') \<Rightarrow> (Inl e, w') | (Inr x, w') \<Rightarrow> k x w')"
  by (simp add: sbind_def)

lemma sbind_Inr [action_simps]:
  "sbind m k w = (Inr y, w') \<longleftrightarrow> (\<exists>x w1. m w = (Inr x, w1) \<and> k x w1 = (Inr y, w'))"
  by (auto simp: sbind_apply split: prod.splits sum.splits)

lemma sret_eq [action_simps]: "sret x w = (r, w') \<longleftrightarrow> r = Inr x \<and> w' = w"
  by (auto simp: sret_def)

lemma raise_Inr [action_simps]: "raise e w \<noteq> (Inr x, w')"
  by (simp add: raise_def)

lemma query_eq [action_simps]: "query f w = (r, w') \<longleftrightarrow> r = f (w_tables w) \<and> w' = w"
  by (auto simp: query_def)

lemma ask_redis_eq [action_simps]: "ask_redis f w = (r, w') \<longleftrightarrow> r = f (w_redis w) \<and> w' = w"
  by (auto simp: ask_redis_def)

lemma modify_tables_eq [action_simps]:
  "modify_tables f w = (r, w') \<longleftrightarrow> r = Inr () \<and> w' = w\<lparr>w_tables := f (w_tables w)\<rparr>"
  by (auto simp: modify_tables_def)

lemma on_redis_call [action_simps]:
  "on_redis (\<lambda>rd. redis_call rd (x rd, g rd)) w = (r, w') \<longleftrightarrow>
   (if rd_up (w_redis w) then r = Inr (x (w_redis w)) \<and> w' = w\<lparr>w_redis := g (w_redis w)\<rparr>
    else r = Inl (Auth RedisUnavailableError) \<and> w' = w)"
  by (auto simp: on_redis_def redis_call_def)

text \<open>Actions that leave the tables alone, and a part of the Redis store.\<close>

locale redis_view =
  fixes view :: "redis \<Rightarrow> 'v"
  assumes view_login_failures: "view (rd\<lparr>rd_login_failures := x\<rparr>) = view rd"
    and view_login_attempts: "view (rd\<lparr>rd_login_attempts_ip := x\<rparr>) = view rd"
    and view_auth_attempts: "view (rd\<lparr>rd_auth_attempts_ip := x\<rparr>) = view rd"
    and view_reset_attempts: "view (rd\<lparr>rd_reset_attempts_ip := x\<rparr>) = view rd"
begin

definition same :: "'a action \<Rightarrow> bool" where
  "same m \<longleftrightarrow> (\<forall>w. view (w_redis (snd (m w))) = view (w_redis w))"

lemma same_sbind:
  assumes "same m" and "\<And>x. same (k x)"
  shows "same (sbind m k)"
  unfolding same_def
proof
  fix w
  obtain r w1 where m: "m w = (r, w1)" by fastforce
  then have "view (w_redis w1) = view (w_redis w)" using assms(1) by (metis same_def snd_conv)
  with assms(2) show "view (w_redis (snd (sbind m k w))) = view (w_redis w)"
    by (cases r) (simp_all add: sbind_apply m same_def)
qed

lemma same_basic:
  "same (sret x)" "same (raise e)" "same (query f)" "same (ask_redis g)" "same (modify_tables h)"
  by (simp_all add: same_def sret_def raise_def query_def ask_redis_def modify_tables_def)

lemma same_catching: "same m \<Longrightarrow> same h \<Longrightarrow> same (catching e m h)"
  by (auto simp: same_def catching_def split: prod.split sum.split) (metis snd_conv)+

lemma same_send: "same (send env receiver subject link)"
  by (simp add: same_def send_def Let_def)

lemma same_create_user: "same (create_user now email hash)"
  by (simp add: same_def create_user_def Let_def case_prod_unfold)

lemma same_on_redis: "(\<And>rd. view (snd (f rd)) = view rd) \<Longrightarrow> same (on_redis f)"
  by (simp add: same_def on_redis_def case_prod_unfold)

lemma same_counters:
  "same (on_redis (increment_login_failures now k))" "same (on_redis (reset_login_failures k))"
  "same (on_redis (increment_ip_attempts now k))" "same (on_redis (increment_auth_attempts_ip now k))"
  "same (on_redis (increment_reset_attempts_ip now k))"
  by (rule same_on_redis, simp add: increment_login_failures_def reset_login_failures_def
        increment_ip_attempts_def increment_auth_attempts_ip_def increment_reset_attempts_ip_def
        redis_call_def Let_def view_login_failures view_login_attempts view_auth_attempts view_reset_attempts)+

lemma same_log: "same (log_event env t ip u dat)"
  unfolding log_event_def by (rule same_basic)

lemmas same_rules = same_sbind same_basic same_catching same_send same_create_user same_counters same_log

lemma same_checks: "same (check_policy password)" "same (check_breach env email password ip)"
proof -
  show "same (check_policy password)"
    unfolding check_policy_def by (simp add: same_rules split: option.split)
  show "same (check_breach env email password ip)"
    unfolding check_breach_def by (intro same_rules) (auto split: option.split intro!: same_rules)
qed

lemma same_register: "same (register env email password ip)"
proof -
  have new: "same (register_new env email password)"
    unfolding register_new_def by (intro same_rules) (simp add: same_rules)
  show ?thesis
    unfolding register_def
    by (intro same_rules) (auto split: option.split intro!: same_rules new same_checks)
qed

lemma same_verify_email: "same (verify_email env token ip)"
  unfolding verify_email_def by (intro same_rules) (auto split: option.split intro!: same_rules)

lemma same_request_reset: "same (request_password_reset env email ip)"
  unfolding request_password_reset_def by (intro same_rules) (auto split: option.split intro!: same_rules)

lemma same_mismatch: "same (password_mismatch env email ip user)"
  unfolding password_mismatch_def by (intro same_rules) (auto intro!: same_rules)

end

text \<open>The part of the store that says who a request is from.\<close>

definition session_part :: "redis \<Rightarrow> bool \<times> (string \<Rightarrow> session_data expiring) \<times> (uuid \<Rightarrow> string set) \<times> (uuid \<Rightarrow> unit expiring)" where
  "session_part rd = (rd_up rd, rd_sessions rd, rd_user_sessions rd, rd_forced_reauth rd)"

interpretation sp: redis_view session_part
  by unfold_locales (simp_all add: session_part_def)

section \<open>What a login and a reset do\<close>

lemma open_session_up:
  assumes "rd_up (w_redis w)"
  shows "fst (open_session env email pw ip ua user w) = Inr (u_id user, en_token env) \<and>
    w_redis (snd (open_session env email pw ip ua user w)) =
      (w_redis w)\<lparr>rd_login_failures := (rd_login_failures (w_redis w))(email_hash email := None),
        rd_sessions := (rd_sessions (w_redis w))(en_token env := Some
          (\<lparr>sd_user_id = u_id user, sd_issued_at = en_now env, sd_expires_at = en_now env + SESSION_TTL,
            sd_ip = ip, sd_ua_hash = ua_hash ua\<rparr>, en_now env + SESSION_TTL)),
        rd_user_sessions := (rd_user_sessions (w_redis w))
          (u_id user := insert (en_token env) (rd_user_sessions (w_redis w) (u_id user))),
        rd_forced_reauth := (rd_forced_reauth (w_redis w))(u_id user := None)\<rparr>"
  using assms
  by (cases "en_needs_rehash env (u_password_hash user)")
    (simp_all add: open_session_def sbind_apply on_redis_def redis_call_def reset_login_failures_def
      create_session_def clear_forced_reauth_def log_event_def modify_tables_def sret_def)

lemma open_session_down:
  "\<not> rd_up (w_redis w) \<Longrightarrow> open_session env email pw ip ua user w = (Inl (Auth RedisUnavailableError), w)"
  by (simp add: open_session_def sbind_apply on_redis_def redis_call_def reset_login_failures_def)

text \<open>What has to hold of the user of a successful login.\<close>

definition admitted :: "auth_env \<Rightarrow> string \<Rightarrow> string \<Rightarrow> world \<Rightarrow> user_row \<Rightarrow> bool" where
  "admitted env email pw w user \<longleftrightarrow>
     find_by_email email (w_tables w) = Inr (Some user) \<and> \<not> u_is_locked user \<and> u_is_email_verified user \<and>
     en_verify env (u_password_hash user) pw = Verified \<and>
     (case live (en_now env) (rd_login_failures (w_redis w) (email_hash email)) of
        None \<Rightarrow> True | Some n \<Rightarrow> n < LOGIN_FAILURE_THRESHOLD)"

lemma mismatch_refused: "\<exists>e. fst (password_mismatch env email ip user w) = Inl e"
  by (auto simp: password_mismatch_def sbind_apply raise_def split: prod.split sum.split)

lemma login_cases:
  obtains (refused) e where "fst (login env email pw ip ua w) = Inl e"
      and "session_part (w_redis (snd (login env email pw ip ua w))) = session_part (w_redis w)"
  | (opened) user c where "rd_up (w_redis w)" and "admitted env email pw w user"
      and "login env email pw ip ua w = open_session env email pw ip ua user
        (w\<lparr>w_redis := (w_redis w)\<lparr>rd_login_attempts_ip := c\<rparr>\<rparr>)"
proof (cases "rd_up (w_redis w)")
  case False
  then have "login env email pw ip ua w = (Inl (Auth RedisUnavailableError), w)"
    by (simp add: login_def sbind_apply on_redis_def redis_call_def increment_ip_attempts_def Let_def)
  then show thesis by (intro refused) simp_all
next
  case up: True
  define c where "c = increment (en_now env) IP_ATTEMPT_WINDOW (rd_login_attempts_ip (w_redis w) ip)"
  define w1 where "w1 = w\<lparr>w_redis := (w_redis w)\<lparr>rd_login_attempts_ip := (rd_login_attempts_ip (w_redis w))(ip := Some c)\<rparr>\<rparr>"
  have first: "on_redis (increment_ip_attempts (en_now env) ip) w = (Inr (fst c), w1)"
    using up by (simp add: on_redis_def redis_call_def increment_ip_attempts_def Let_def c_def w1_def)
  have same: "session_part (w_redis w1) = session_part (w_redis w)" by (simp add: w1_def session_part_def)
  have tables: "w_tables w1 = w_tables w" by (simp add: w1_def)
  define k where "k = (case live (en_now env) (rd_login_failures (w_redis w) (email_hash email)) of None \<Rightarrow> 0 | Some n \<Rightarrow> n)"
  have failures: "get_login_failures (en_now env) (email_hash email) (w_redis w1) = Inr k"
    using up by (simp add: get_login_failures_def w1_def k_def)
  note step = login_def sbind_apply first query_def tables raise_def log_event_def modify_tables_def
    ask_redis_def failures
  show thesis
  proof (cases "IP_AUTH_THRESHOLD < fst c")
    case True
    then show thesis by (intro refused) (simp_all add: step same)
  next
    case within: False
    show thesis
    proof (cases "find_by_email email (w_tables w)")
      case (Inl e)
      with within show thesis by (intro refused [of e]) (simp_all add: step same)
    next
      case (Inr found)
      show thesis
      proof (cases found)
        case None
        with within Inr show thesis by (intro refused) (simp_all add: step same)
      next
        case (Some user)
        note here = within Inr [unfolded Some]
        show thesis
        proof (cases "LOGIN_FAILURE_THRESHOLD \<le> k \<or> u_is_locked user")
          case True
          with here show thesis by (intro refused) (simp_all add: step same)
        next
          case False
          note here = here False
          show thesis
          proof (cases "en_verify env (u_password_hash user) pw")
            case Verified
            show thesis
            proof (cases "u_is_email_verified user")
              case True
              have "admitted env email pw w user"
                using here True Verified by (auto simp: admitted_def k_def split: option.splits)
              moreover have "login env email pw ip ua w = open_session env email pw ip ua user w1"
                using here True Verified by (simp add: step)
              ultimately show thesis using up by (intro opened) (simp_all add: w1_def)
            next
              case False
              with here Verified show thesis by (intro refused) (simp_all add: step same)
            qed
          next
            case VerifyMismatch
            with here have l: "login env email pw ip ua w = password_mismatch env email ip user w1" by (simp add: step)
            have "session_part (w_redis (snd (login env email pw ip ua w))) = session_part (w_redis w1)"
              unfolding l by (rule sp.same_mismatch [unfolded sp.same_def, THEN spec])
            moreover obtain e where "fst (login env email pw ip ua w) = Inl e"
              unfolding l using mismatch_refused by blast
            ultimately show thesis using same by (intro refused [of e]) simp_all
          next
            case BrokenHash
            with here show thesis by (intro refused) (simp_all add: step same)
          qed
        qed
      qed
    qed
  qed
qed

lemma confirm_cases:
  obtains (refused) e where "fst (confirm_password_reset env token pw ip w) = Inl e"
      and "session_part (w_redis (snd (confirm_password_reset env token pw ip w))) = session_part (w_redis w)"
  | (completed) row user w1 where "rd_up (w_redis w)" and "session_part (w_redis w1) = session_part (w_redis w)"
      and "w_redis w1 = (w_redis w)\<lparr>rd_reset_attempts_ip := rd_reset_attempts_ip (w_redis w1)\<rparr>"
      and "at_users (w_tables w1) = at_users (w_tables w)" and "at_resets (w_tables w1) = at_resets (w_tables w)"
      and "find_by_token_hash (sha256_hex token) (at_resets (w_tables w)) = Inr (Some row)"
      and "en_now env \<le> pt_expires_at row" and "validate_password_policy pw = None"
      and "find_by_email (pt_email row) (w_tables w) = Inr (Some user)"
      and "confirm_password_reset env token pw ip w = complete_reset env pw ip row user w1"
proof (cases "rd_up (w_redis w)")
  case False
  then have "confirm_password_reset env token pw ip w = (Inl (Auth RedisUnavailableError), w)"
    by (simp add: confirm_password_reset_def sbind_apply on_redis_def redis_call_def increment_reset_attempts_ip_def Let_def)
  then show thesis by (intro refused) simp_all
next
  case up: True
  define c where "c = increment (en_now env) IP_ATTEMPT_WINDOW (rd_reset_attempts_ip (w_redis w) ip)"
  define w1 where "w1 = w\<lparr>w_redis := (w_redis w)\<lparr>rd_reset_attempts_ip := (rd_reset_attempts_ip (w_redis w))(ip := Some c)\<rparr>\<rparr>"
  have first: "on_redis (increment_reset_attempts_ip (en_now env) ip) w = (Inr (fst c), w1)"
    using up by (simp add: on_redis_def redis_call_def increment_reset_attempts_ip_def Let_def c_def w1_def)
  have same: "session_part (w_redis w1) = session_part (w_redis w)" by (simp add: w1_def session_part_def)
  have tables: "w_tables w1 = w_tables w" by (simp add: w1_def)
  note step = confirm_password_reset_def sbind_apply first query_def tables raise_def
  have users: "find_by_email m (w_tables w2) = find_by_email m (w_tables w)"
    if "at_users (w_tables w2) = at_users (w_tables w)" for m w2 using that by (simp add: find_by_email_def)
  show thesis
  proof (cases "IP_RESET_THRESHOLD < fst c")
    case True
    then show thesis by (intro refused) (simp_all add: step same)
  next
    case within: False
    show thesis
    proof (cases "find_by_token_hash (sha256_hex token) (at_resets (w_tables w))")
      case (Inl e)
      with within show thesis by (intro refused [of e]) (simp_all add: step same)
    next
      case (Inr found)
      show thesis
      proof (cases found)
        case None
        with within Inr show thesis by (intro refused) (simp_all add: step same)
      next
        case (Some row)
        note here = within Inr [unfolded Some]
        show thesis
        proof (cases "pt_expires_at row < en_now env")
          case True
          with here show thesis by (intro refused) (simp_all add: step same)
        next
          case valid: False
          show thesis
          proof (cases "validate_password_policy pw")
            case (Some message)
            with here valid show thesis by (intro refused) (simp_all add: step same check_policy_def)
          next
            case None
            obtain b w2 where b: "check_breach env (pt_email row) pw ip w1 = (b, w2)" by fastforce
            have b_same: "w_redis w2 = w_redis w1 \<and> at_users (w_tables w2) = at_users (w_tables w1) \<and>
                at_resets (w_tables w2) = at_resets (w_tables w1)"
              using b by (auto simp: check_breach_def sbind_apply sret_def raise_def log_event_def
                  modify_tables_def split: option.splits if_splits)
            note here = here valid None b
            show thesis
            proof (cases b)
              case (Inl e)
              with here show thesis using b_same same by (intro refused [of e]) (simp_all add: step check_policy_def sret_def)
            next
              case (Inr x)
              note here = here [unfolded Inr]
              have find: "find_by_email (pt_email row) (w_tables w2) = find_by_email (pt_email row) (w_tables w)"
                using b_same tables by (intro users) simp
              show thesis
              proof (cases "find_by_email (pt_email row) (w_tables w)")
                case (Inl e)
                with here find show thesis using b_same same
                  by (intro refused [of e]) (simp_all add: step check_policy_def sret_def)
              next
                case (Inr found_user)
                show thesis
                proof (cases found_user)
                  case None
                  with here find Inr show thesis using b_same same
                    by (intro refused) (simp_all add: step check_policy_def sret_def)
                next
                  case (Some user)
                  have "confirm_password_reset env token pw ip w = complete_reset env pw ip row user w2"
                    using here find Inr Some by (simp add: step check_policy_def sret_def)
                  then show thesis using here Inr Some b_same same tables up
                    by (intro completed [of w2]) (simp_all add: w1_def not_less)
                qed
              qed
            qed
          qed
        qed
      qed
    qed
  qed
qed

lemma complete_reset_up:
  assumes "rd_up (w_redis w)"
  shows "fst (complete_reset env pw ip row user w) = Inr () \<and>
    w_redis (snd (complete_reset env pw ip row user w)) =
      (w_redis w)\<lparr>rd_sessions := (\<lambda>token. if token \<in> rd_user_sessions (w_redis w) (u_id user) then None
                                    else rd_sessions (w_redis w) token),
        rd_user_sessions := (rd_user_sessions (w_redis w))(u_id user := {}),
        rd_forced_reauth := (rd_forced_reauth (w_redis w))(u_id user := Some ((), en_now env + FORCED_REAUTH_TTL))\<rparr> \<and>
    at_users (w_tables (snd (complete_reset env pw ip row user w))) =
      update_by u_id (u_id user) (\<lambda>u. u\<lparr>u_password_hash := en_hash env pw\<rparr>) (at_users (w_tables w)) \<and>
    at_resets (w_tables (snd (complete_reset env pw ip row user w))) =
      filter (\<lambda>r. pt_id r \<noteq> pt_id row) (at_resets (w_tables w))"
  using assms
  by (simp add: complete_reset_def sbind_apply modify_tables_def update_password_def delete_reset_def on_redis_def
      redis_call_def revoke_all_user_sessions_def log_event_def Let_def cong: if_cong)

section \<open>The state machine\<close>

datatype auth_call =
    CallRegister string string string
  | CallVerifyEmail string string
  | CallLogin string string string "string option"
  | CallLogout "string option" string
  | CallResetRequest string string
  | CallResetConfirm string string string

fun serve :: "auth_env \<Rightarrow> auth_call \<Rightarrow> world \<Rightarrow> world" where
  "serve env (CallRegister email pw ip) w = snd (register_route env email pw ip w)"
| "serve env (CallVerifyEmail token ip) w = snd (verify_email_route env token ip w)"
| "serve env (CallLogin email pw ip ua) w = snd (login_route env email pw ip ua w)"
| "serve env (CallLogout tf_session ip) w = snd (logout_route env tf_session ip w)"
| "serve env (CallResetRequest email ip) w = snd (password_reset_request_route env email ip w)"
| "serve env (CallResetConfirm token pw ip) w = snd (password_reset_confirm_route env token pw ip w)"

text \<open>
  The tokens are random: one that is drawn for a login was never drawn before. The Redis server may
  go down and come back between the requests.
\<close>

definition fresh_token :: "auth_env \<Rightarrow> world \<Rightarrow> bool" where
  "fresh_token env w \<longleftrightarrow> (\<forall>u. en_token env \<notin> rd_user_sessions (w_redis w) u)"

inductive auth_steps :: "world \<Rightarrow> world \<Rightarrow> bool" for w0 :: world where
  start: "auth_steps w0 w0"
| served: "auth_steps w0 w \<Longrightarrow> fresh_token env w \<Longrightarrow> auth_steps w0 (serve env call w)"
| outage: "auth_steps w0 w \<Longrightarrow> auth_steps w0 (w\<lparr>w_redis := (w_redis w)\<lparr>rd_up := b\<rparr>\<rparr>)"

definition no_sessions :: "redis \<Rightarrow> bool" where
  "no_sessions rd \<longleftrightarrow> rd_sessions rd = (\<lambda>_. None) \<and> rd_user_sessions rd = (\<lambda>_. {}) \<and> rd_forced_reauth rd = (\<lambda>_. None)"

text \<open>
  The set of a user's tokens has all of the user's sessions and none of another user, and a user who
  has to authenticate again has no session.
\<close>

definition sessions_ok :: "redis \<Rightarrow> bool" where
  "sessions_ok rd \<longleftrightarrow>
     (\<forall>token s t. rd_sessions rd token = Some (s, t) \<longrightarrow>
        (\<forall>u. token \<in> rd_user_sessions rd u \<longleftrightarrow> u = sd_user_id s) \<and> rd_forced_reauth rd (sd_user_id s) = None)"

lemma sessions_ok_part: "session_part rd = session_part rd' \<Longrightarrow> sessions_ok rd = sessions_ok rd'"
  by (simp add: session_part_def sessions_ok_def)

lemma route_redis: "w_redis (snd (auth_route errors m out w)) = w_redis (snd (m w))"
  by (simp add: auth_route_def rolled_back_def split: prod.split sum.split)

lemma login_route_redis: "w_redis (snd (login_route env email pw ip ua w)) = w_redis (snd (login env (lower email) pw ip ua w))"
  by (simp add: login_route_def rolled_back_def split: prod.split sum.split option.split)

lemma part_trans:
  "session_part (w_redis (snd (register env email pw ip w))) = session_part (w_redis w)"
  "session_part (w_redis (snd (verify_email env token ip w))) = session_part (w_redis w)"
  "session_part (w_redis (snd (request_password_reset env email ip w))) = session_part (w_redis w)"
  using sp.same_register sp.same_verify_email sp.same_request_reset by (simp_all add: sp.same_def)

lemma logout_redis:
  "w_redis (snd (logout env token u ip w)) =
    (if rd_up (w_redis w)
     then (w_redis w)\<lparr>rd_sessions := (rd_sessions (w_redis w))(token := None),
            rd_user_sessions := (rd_user_sessions (w_redis w))(u := rd_user_sessions (w_redis w) u - {token})\<rparr>
     else w_redis w)"
  by (simp add: logout_def sbind_apply on_redis_def redis_call_def delete_session_def log_event_def modify_tables_def)

lemma sessions_okD:
  "sessions_ok rd \<Longrightarrow> rd_sessions rd token = Some (s, t) \<Longrightarrow>
     (\<forall>u. token \<in> rd_user_sessions rd u \<longleftrightarrow> u = sd_user_id s) \<and> rd_forced_reauth rd (sd_user_id s) = None"
  unfolding sessions_ok_def by blast

lemma sessions_ok_open:
  assumes "sessions_ok rd" and "sd_user_id s = u" and "\<And>u. token \<notin> rd_user_sessions rd u"
  shows "sessions_ok (rd\<lparr>rd_login_failures := f, rd_sessions := (rd_sessions rd)(token := Some (s, t)),
    rd_user_sessions := (rd_user_sessions rd)(u := insert token (rd_user_sessions rd u)),
    rd_forced_reauth := (rd_forced_reauth rd)(u := None)\<rparr>)"
  unfolding sessions_ok_def
proof (intro allI impI, goal_cases)
  case (1 token' s' t')
  then show ?case using assms(2,3) sessions_okD [OF assms(1), of token' s' t'] by (cases "token' = token") auto
qed

lemma sessions_ok_open_session:
  "rd_up (w_redis w) \<Longrightarrow> sessions_ok (w_redis w) \<Longrightarrow> fresh_token env w \<Longrightarrow>
     sessions_ok (w_redis (snd (open_session env email pw ip ua user w)))"
  using open_session_up [of w env email pw ip ua user] by (simp add: sessions_ok_open fresh_token_def)

lemma sessions_ok_revoke:
  assumes "sessions_ok rd"
  shows "sessions_ok (rd\<lparr>rd_sessions := (\<lambda>token. if token \<in> rd_user_sessions rd u then None else rd_sessions rd token),
    rd_user_sessions := (rd_user_sessions rd)(u := {}), rd_forced_reauth := (rd_forced_reauth rd)(u := Some x)\<rparr>)"
  unfolding sessions_ok_def
proof (intro allI impI, goal_cases)
  case (1 token s t)
  then have "rd_sessions rd token = Some (s, t)" "token \<notin> rd_user_sessions rd u" by (auto split: if_splits)
  then show ?case using sessions_okD [OF assms, of token s t] by (cases "sd_user_id s = u") auto
qed

lemma sessions_ok_login:
  assumes "sessions_ok (w_redis w)" and "fresh_token env w"
  shows "sessions_ok (w_redis (snd (login env email pw ip ua w)))"
proof (cases rule: login_cases [of env email pw ip ua w])
  case (refused e)
  then show ?thesis using assms(1) sessions_ok_part by blast
next
  case (opened user c)
  let ?w1 = "w\<lparr>w_redis := (w_redis w)\<lparr>rd_login_attempts_ip := c\<rparr>\<rparr>"
  have "rd_up (w_redis ?w1)" using opened(1) by simp
  moreover have "sessions_ok (w_redis ?w1)"
    by (rule sessions_ok_part [THEN iffD1, OF _ assms(1)]) (simp add: session_part_def)
  moreover have "fresh_token env ?w1" using assms(2) by (simp add: fresh_token_def)
  ultimately show ?thesis unfolding opened(3) by (rule sessions_ok_open_session)
qed

lemma sessions_ok_confirm:
  assumes "sessions_ok (w_redis w)"
  shows "sessions_ok (w_redis (snd (confirm_password_reset env token pw ip w)))"
proof (cases rule: confirm_cases [of env token pw ip w])
  case (refused e)
  then show ?thesis using assms sessions_ok_part by blast
next
  case (completed row user w1)
  have up: "rd_up (w_redis w1)" using completed(1,2) by (simp add: session_part_def)
  have "sessions_ok (w_redis w1)" using assms completed(2) sessions_ok_part by blast
  then show ?thesis
    unfolding completed(10) using complete_reset_up [OF up, of env pw ip row user] by (simp add: sessions_ok_revoke)
qed

lemma sessions_ok_serve: "sessions_ok (w_redis w) \<Longrightarrow> fresh_token env w \<Longrightarrow> sessions_ok (w_redis (serve env call w))"
proof (cases call)
  case (CallLogout tf_session ip)
  assume ok: "sessions_ok (w_redis w)"
  then show ?thesis
    by (auto simp: CallLogout logout_route_def route_redis logout_redis sessions_ok_def
        split: response.splits if_splits)
qed (auto simp: password_reset_confirm_route_def login_route_redis register_route_def verify_email_route_def
       password_reset_request_route_def route_redis sessions_ok_login sessions_ok_confirm
       intro: sessions_ok_part [THEN iffD1, rotated] part_trans [symmetric])

lemma reachable_sessions_ok:
  assumes "auth_steps w0 w" and "no_sessions (w_redis w0)"
  shows "sessions_ok (w_redis w)"
  using assms(1)
proof (induction rule: auth_steps.induct)
  case start
  show ?case using assms(2) by (simp add: no_sessions_def sessions_ok_def)
next
  case (served w env call)
  then show ?case by (intro sessions_ok_serve)
next
  case (outage w b)
  then show ?case by (simp add: sessions_ok_def)
qed

end
