(* ===== verification/Auth_Properties.thy ===== *)
theory Auth_Properties
  imports Auth_Facts Recon_Properties
begin

text \<open>
  Sessions and passwords: only a login opens a session, a password reset ends every session of its
  user and is worth one use, guessing a password stops after five attempts, and registering does
  not tell which addresses have an account.
\<close>

section \<open>Sessions\<close>

lemma current_user_Answer:
  "get_current_user_id now tf_session rd = Answer u \<longleftrightarrow>
   (\<exists>token s t. tf_session = Some token \<and> token \<noteq> [] \<and> rd_up rd \<and> rd_sessions rd token = Some (s, t) \<and>
      now < t \<and> now \<le> sd_expires_at s \<and> live now (rd_forced_reauth rd (sd_user_id s)) = None \<and> sd_user_id s = u)"
  by (auto simp: get_current_user_id_def get_session_def check_forced_reauth_def live_def not_less
      split: option.splits if_splits bool.splits sum.splits)

lemma current_user_part:
  assumes "session_part rd = session_part rd'"
  shows "get_current_user_id now s rd = get_current_user_id now s rd'"
proof -
  have session: "get_session now token rd = get_session now token rd'" for token
    using assms by (simp add: get_session_def session_part_def)
  have forced: "check_forced_reauth now u rd = check_forced_reauth now u rd'" for u
    using assms by (simp add: check_forced_reauth_def session_part_def)
  show ?thesis unfolding get_current_user_id_def session forced by (rule refl)
qed

lemma current_user_cong:
  assumes "rd_up rd' = rd_up rd" and "rd_forced_reauth rd' v = rd_forced_reauth rd v"
    and "\<And>token d t. sd_user_id d = v \<Longrightarrow> rd_sessions rd' token = Some (d, t) \<longleftrightarrow> rd_sessions rd token = Some (d, t)"
  shows "get_current_user_id now s rd' = Answer v \<longleftrightarrow> get_current_user_id now s rd = Answer v"
  unfolding current_user_Answer
proof (intro iff_exI)
  fix token d t
  show "(s = Some token \<and> token \<noteq> [] \<and> rd_up rd' \<and> rd_sessions rd' token = Some (d, t) \<and> now < t \<and>
      now \<le> sd_expires_at d \<and> live now (rd_forced_reauth rd' (sd_user_id d)) = None \<and> sd_user_id d = v) =
    (s = Some token \<and> token \<noteq> [] \<and> rd_up rd \<and> rd_sessions rd token = Some (d, t) \<and> now < t \<and>
      now \<le> sd_expires_at d \<and> live now (rd_forced_reauth rd (sd_user_id d)) = None \<and> sd_user_id d = v)"
    using assms(3) [of d token t] by (cases "sd_user_id d = v") (simp_all add: assms(1,2))
qed

lemma find_by_email_Some:
  "find_by_email email t = Inr (Some user) \<Longrightarrow> user \<in> set (at_users t) \<and> u_email user = lower email"
  unfolding find_by_email_def by (auto simp: scalar_one_or_none_Some filter_eq_Cons_iff)

lemma known_before:
  assumes "sessions_ok rd" and "rd_sessions rd token = Some (s, t')" and "t < t'" and "t \<le> sd_expires_at s"
    and "token \<noteq> []" and "rd_up rd"
  shows "get_current_user_id t (Some token) rd = Answer (sd_user_id s)"
  using assms sessions_okD [OF assms(1,2)] by (auto simp: current_user_Answer live_def)

lemma login_opens_one:
  assumes "sessions_ok (w_redis w)"
    and "get_current_user_id t (Some token) (w_redis (snd (login env email pw ip ua w))) = Answer u"
    and "get_current_user_id t (Some token) (w_redis w) \<noteq> Answer u"
  shows "\<exists>user. user \<in> set (at_users (w_tables w)) \<and> u_id user = u \<and> admitted env email pw w user \<and>
    token = en_token env \<and> t < en_now env + SESSION_TTL"
proof (cases rule: login_cases [of env email pw ip ua w])
  case (refused e)
  with assms(2,3) current_user_part show ?thesis by metis
next
  case (opened user c)
  let ?w1 = "w\<lparr>w_redis := (w_redis w)\<lparr>rd_login_attempts_ip := c\<rparr>\<rparr>"
  have r: "login env email pw ip ua w = open_session env email pw ip ua user ?w1" by (rule opened(3))
  have "rd_up (w_redis ?w1)" using opened(1) by simp
  note o = open_session_up [OF this, of env email pw ip ua user]
  have token: "token = en_token env"
  proof (rule ccontr)
    assume "token \<noteq> en_token env"
    with assms(2) o obtain s t' where "rd_sessions (w_redis w) token = Some (s, t')" "t < t'" "t \<le> sd_expires_at s"
      "sd_user_id s = u" "token \<noteq> []" unfolding r current_user_Answer by auto
    with known_before [OF assms(1) this(1,2,3,5) opened(1)] assms(3) show False by simp
  qed
  with assms(2) o have "u_id user = u \<and> t < en_now env + SESSION_TTL" unfolding r current_user_Answer by auto
  with token opened(2) find_by_email_Some show ?thesis by (auto simp: admitted_def)
qed

lemma reset_opens_none:
  assumes "sessions_ok (w_redis w)"
    and "get_current_user_id t (Some token) (w_redis (snd (confirm_password_reset env tok pw ip w))) = Answer u"
  shows "get_current_user_id t (Some token) (w_redis w) = Answer u"
proof (cases rule: confirm_cases [of env tok pw ip w])
  case (refused e)
  with assms(2) current_user_part show ?thesis by metis
next
  case (completed row user w1)
  have "rd_up (w_redis w1)" using completed(1,2) by (simp add: session_part_def)
  note c = complete_reset_up [OF this, of env pw ip row user]
  obtain s t' where s: "token \<noteq> []" "rd_sessions (w_redis w) token = Some (s, t')" "t < t'" "t \<le> sd_expires_at s"
    "sd_user_id s = u"
    using assms(2) c completed(2) unfolding completed(10) current_user_Answer
    by (auto simp: session_part_def split: if_splits)
  from known_before [OF assms(1) s(2,3,4,1) completed(1)] s(5) show ?thesis by simp
qed

text \<open>
  C36: where a session comes from. In a state that the routes can reach, let a token identify a user
  after a request that it did not identify before it. Then the request is a login that was given the
  address and, by the verdict of the password hasher, the password of this user, whose address is
  verified and whose account is not locked; the token is the one drawn for it; and it is good for
  at most thirty days.
\<close>

theorem only_a_login_opens_a_session:
  assumes "auth_steps w0 w" and "no_sessions (w_redis w0)"
    and "get_current_user_id t (Some token) (w_redis (serve env call w)) = Answer u"
    and "get_current_user_id t (Some token) (w_redis w) \<noteq> Answer u"
  shows "\<exists>email pw ip ua user. call = CallLogin email pw ip ua \<and> user \<in> set (at_users (w_tables w)) \<and>
    u_id user = u \<and> admitted env (lower email) pw w user \<and> token = en_token env \<and>
    t < en_now env + SESSION_TTL"
proof -
  have ok: "sessions_ok (w_redis w)" by (rule reachable_sessions_ok [OF assms(1,2)])
  have changed: "session_part (w_redis (serve env call w)) \<noteq> session_part (w_redis w)"
    using assms(3,4) current_user_part by metis
  show ?thesis
  proof (cases call)
    case (CallLogin email pw ip ua)
    then have "w_redis (serve env call w) = w_redis (snd (login env (lower email) pw ip ua w))"
      by (simp add: login_route_redis)
    from login_opens_one [OF ok assms(3) [unfolded this] assms(4)] show ?thesis unfolding CallLogin by blast
  next
    case (CallLogout tf_session ip)
    then show ?thesis using assms(3,4)
      by (auto simp: logout_route_def route_redis logout_redis current_user_Answer split: response.splits if_splits)
  next
    case (CallResetConfirm tok pw ip)
    then have "w_redis (serve env call w) = w_redis (snd (confirm_password_reset env tok pw ip w))"
      by (simp add: password_reset_confirm_route_def route_redis)
    from reset_opens_none [OF ok assms(3) [unfolded this]] assms(4) show ?thesis by contradiction
  qed (use changed part_trans in \<open>simp_all add: register_route_def verify_email_route_def
       password_reset_request_route_def route_redis\<close>)
qed

lemma reset_confirm_Answer:
  "fst (password_reset_confirm_route env token pw ip w) = Answer () \<longleftrightarrow>
     (\<exists>x. fst (confirm_password_reset env token pw ip w) = Inr x)"
  "password_reset_confirm_route env token pw ip w = (Answer (), w') \<Longrightarrow> confirm_password_reset env token pw ip w = (Inr (), w')"
  by (auto simp: password_reset_confirm_route_def auth_route_def reset_confirm_errors_def token_errors_def
      auth_errors_def split: prod.splits sum.splits exn.splits auth_error.splits)

lemma spent_token:
  assumes "filter (\<lambda>r. pt_token_hash r = sha256_hex token) (at_resets (w_tables w)) = []"
  shows "fst (password_reset_confirm_route env token pw ip w) \<noteq> Answer ()"
proof (cases rule: confirm_cases [of env token pw ip w])
  case (refused e)
  then show ?thesis by (simp add: reset_confirm_Answer)
next
  case (completed row user w1)
  with assms show ?thesis by (simp add: find_by_token_hash_def)
qed

text \<open>What a revocation over the same sessions makes of the tokens.\<close>

lemma revoked_user:
  assumes ok: "sessions_ok rd" and same: "session_part rd1 = session_part rd"
    and rd': "rd' = rd1\<lparr>rd_sessions := (\<lambda>token. if token \<in> rd_user_sessions rd1 u then None else rd_sessions rd1 token),
      rd_user_sessions := (rd_user_sessions rd1)(u := {}), rd_forced_reauth := (rd_forced_reauth rd1)(u := f)\<rparr>"
  shows "get_current_user_id t s rd' \<noteq> Answer u"
    and "v \<noteq> u \<Longrightarrow> get_current_user_id t s rd' = Answer v \<longleftrightarrow> get_current_user_id t s rd = Answer v"
proof -
  show "get_current_user_id t s rd' \<noteq> Answer u"
  proof
    assume "get_current_user_id t s rd' = Answer u"
    then obtain tok d t' where "tok \<notin> rd_user_sessions rd1 u" "rd_sessions rd1 tok = Some (d, t')" "sd_user_id d = u"
      unfolding current_user_Answer rd' by (auto split: if_splits)
    with same sessions_okD [OF ok, of tok d t'] show False by (simp add: session_part_def)
  qed
  assume v: "v \<noteq> u"
  show "get_current_user_id t s rd' = Answer v \<longleftrightarrow> get_current_user_id t s rd = Answer v"
  proof (rule current_user_cong)
    show "rd_up rd' = rd_up rd" "rd_forced_reauth rd' v = rd_forced_reauth rd v"
      using same v unfolding rd' by (simp_all add: session_part_def)
    fix tok t' and d :: session_data
    assume "sd_user_id d = v"
    then show "rd_sessions rd' tok = Some (d, t') \<longleftrightarrow> rd_sessions rd tok = Some (d, t')"
      using same sessions_okD [OF ok, of tok d t'] v unfolding rd' by (auto simp: session_part_def)
  qed
qed

lemma password_updated:
  "x \<in> set (update_by u_id k (\<lambda>u. u\<lparr>u_password_hash := h\<rparr>) us) \<Longrightarrow> u_id x = k \<Longrightarrow> u_password_hash x = h"
  unfolding in_update_by by (elim bexE) (simp split: if_splits)

text \<open>
  C37: a password reset. In a state that the routes can reach, an answered confirmation was given a
  token that is on record, in time, and a password within the policy. Afterwards the user's password
  is the new one, no token whatever identifies the user at any time (until the next login), every
  other user's tokens are worth what they were worth before, and the same token confirms nothing more.
\<close>

theorem password_reset_ends_sessions:
  assumes "auth_steps w0 w" and "no_sessions (w_redis w0)"
    and "password_reset_confirm_route env token pw ip w = (Answer (), w')"
  shows "\<exists>row user. row \<in> set (at_resets (w_tables w)) \<and> pt_token_hash row = sha256_hex token \<and>
    en_now env \<le> pt_expires_at row \<and> 12 \<le> length pw \<and> length pw \<le> 128 \<and>
    user \<in> set (at_users (w_tables w)) \<and> u_email user = lower (pt_email row) \<and>
    (\<forall>x. x \<in> set (at_users (w_tables w')) \<and> u_id x = u_id user \<longrightarrow> u_password_hash x = en_hash env pw) \<and>
    (\<forall>t s. get_current_user_id t s (w_redis w') \<noteq> Answer (u_id user)) \<and>
    (\<forall>t s v. v \<noteq> u_id user \<longrightarrow>
       (get_current_user_id t s (w_redis w') = Answer v \<longleftrightarrow> get_current_user_id t s (w_redis w) = Answer v)) \<and>
    (\<forall>env' pw' ip'. fst (password_reset_confirm_route env' token pw' ip' w') \<noteq> Answer ())"
proof (cases rule: confirm_cases [of env token pw ip w])
  case (refused e)
  with reset_confirm_Answer(2) [OF assms(3)] show ?thesis by simp
next
  case (completed row user w1)
  have ok: "sessions_ok (w_redis w)" by (rule reachable_sessions_ok [OF assms(1,2)])
  have up: "rd_up (w_redis w1)" using completed(1,2) by (simp add: session_part_def)
  have w': "w' = snd (complete_reset env pw ip row user w1)"
    using reset_confirm_Answer(2) [OF assms(3)] completed(10) by simp
  note c = complete_reset_up [OF up, of env pw ip row user, folded w']
  note revoked = revoked_user [OF ok completed(2) c [THEN conjunct2, THEN conjunct1]]
  let ?ours = "\<lambda>r. pt_token_hash r = sha256_hex token"
  have row: "filter ?ours (at_resets (w_tables w)) = [row]"
    using completed(6) by (simp add: find_by_token_hash_def scalar_one_or_none_Some)
  have "filter ?ours (at_resets (w_tables w')) =
      filter (\<lambda>r. pt_id r \<noteq> pt_id row) (filter ?ours (at_resets (w_tables w)))"
    using c completed(5) by (simp add: conj_commute)
  then have again: "fst (password_reset_confirm_route env' token pw' ip' w') \<noteq> Answer ()" for env' pw' ip'
    using row by (intro spent_token) simp
  have "row \<in> set (at_resets (w_tables w)) \<and> pt_token_hash row = sha256_hex token"
    using row by (auto simp: filter_eq_Cons_iff)
  moreover have "user \<in> set (at_users (w_tables w)) \<and> u_email user = lower (pt_email row)"
    by (rule find_by_email_Some [OF completed(9)])
  moreover have "12 \<le> length pw \<and> length pw \<le> 128"
    using completed(8) by (auto simp: validate_password_policy_def MIN_PASSWORD_LENGTH_def
        MAX_PASSWORD_LENGTH_def split: if_splits)
  moreover have "\<forall>x. x \<in> set (at_users (w_tables w')) \<and> u_id x = u_id user \<longrightarrow> u_password_hash x = en_hash env pw"
    using c password_updated by metis
  ultimately show ?thesis using completed(7) revoked again by blast
qed

section \<open>Guessing a password\<close>

text \<open>The failure counter of an account, and what an attempt with a wrong password does to it.\<close>

definition failures :: "string \<Rightarrow> world \<Rightarrow> nat expiring" where
  "failures email w = rd_login_failures (w_redis w) (email_hash email)"

definition failure_count :: "timestamp \<Rightarrow> string \<Rightarrow> world \<Rightarrow> nat" where
  "failure_count now email w = (case live now (failures email w) of None \<Rightarrow> 0 | Some n \<Rightarrow> n)"

definition wrong_password :: "string \<Rightarrow> world \<Rightarrow> auth_env \<Rightarrow> string \<Rightarrow> bool" where
  "wrong_password email w env pw \<longleftrightarrow>
     (\<exists>user. find_by_email email (w_tables w) = Inr (Some user) \<and> en_verify env (u_password_hash user) pw = VerifyMismatch)"

lemma mismatch_run:
  assumes "password_mismatch env email ip user w = (r, w')" and "rd_up (w_redis w)"
  shows "r = Inl (Auth InvalidCredentialsError)"
    and "failures email w' = Some (increment (en_now env) LOGIN_FAILURE_WINDOW (failures email w))"
  using assms
  by (auto simp: password_mismatch_def sbind_apply on_redis_def redis_call_def increment_login_failures_def Let_def
      log_event_def modify_tables_def sret_def raise_def failures_def split: if_splits)

lemma wrong_attempt:
  assumes "wrong_password (lower email) w env pw"
  obtains (stopped) r w' where "login_route env email pw ip ua w = (r, w')" and "r \<noteq> HttpError 401 ''INVALID_CREDENTIALS''"
      and "\<And>x. r \<noteq> Answer x" and "w_tables w' = w_tables w" and "failures (lower email) w' = failures (lower email) w"
  | (counted) w' where "login_route env email pw ip ua w = (HttpError 401 ''INVALID_CREDENTIALS'', w')"
      and "failure_count (en_now env) (lower email) w < LOGIN_FAILURE_THRESHOLD" and "w_tables w' = w_tables w"
      and "failures (lower email) w' = Some (increment (en_now env) LOGIN_FAILURE_WINDOW (failures (lower email) w))"
proof (cases "rd_up (w_redis w)")
  case False
  then have "login env (lower email) pw ip ua w = (Inl (Auth RedisUnavailableError), w)"
    by (simp add: login_def sbind_apply on_redis_def redis_call_def increment_ip_attempts_def Let_def)
  then show thesis
    by (intro stopped [of "HttpError 503 ''SERVICE_UNAVAILABLE''" w])
      (simp_all add: login_route_def login_errors_def auth_errors_def rolled_back_def failures_def)
next
  case up: True
  define c where "c = increment (en_now env) IP_ATTEMPT_WINDOW (rd_login_attempts_ip (w_redis w) ip)"
  define w1 where "w1 = w\<lparr>w_redis := (w_redis w)\<lparr>rd_login_attempts_ip := (rd_login_attempts_ip (w_redis w))(ip := Some c)\<rparr>\<rparr>"
  have first: "on_redis (increment_ip_attempts (en_now env) ip) w = (Inr (fst c), w1)"
    using up by (simp add: on_redis_def redis_call_def increment_ip_attempts_def Let_def c_def w1_def)
  have w1: "w_tables w1 = w_tables w" "rd_up (w_redis w1)" "failures (lower email) w1 = failures (lower email) w"
    using up by (simp_all add: w1_def failures_def)
  obtain user where user: "find_by_email (lower email) (w_tables w) = Inr (Some user)"
    "en_verify env (u_password_hash user) pw = VerifyMismatch" using assms by (auto simp: wrong_password_def)
  let ?k = "failure_count (en_now env) (lower email) w"
  have count: "get_login_failures (en_now env) (email_hash (lower email)) (w_redis w1) = Inr ?k"
    using w1 up by (simp add: get_login_failures_def failure_count_def failures_def)
  note step = login_route_def login_def sbind_apply first query_def w1(1) raise_def log_event_def modify_tables_def
    ask_redis_def count user login_errors_def auth_errors_def rolled_back_def
  show thesis
  proof (cases "IP_AUTH_THRESHOLD < fst c")
    case True
    then show thesis using w1
      by (intro stopped [of "HttpError 429 ''RATE_LIMITED''" w1]) (simp_all add: step)
  next
    case within: False
    show thesis
    proof (cases "LOGIN_FAILURE_THRESHOLD \<le> ?k \<or> u_is_locked user")
      case True
      let ?w2 = "w1\<lparr>w_tables := w_tables w\<rparr>"
      have "login_route env email pw ip ua w = (HttpError 423 ''ACCOUNT_LOCKED'', ?w2)"
        using True within by (simp add: step)
      then show thesis using w1 by (intro stopped [of "HttpError 423 ''ACCOUNT_LOCKED''" ?w2]) (simp_all add: failures_def)
    next
      case False
      have l: "login env (lower email) pw ip ua w = password_mismatch env (lower email) ip user w1"
        using within False by (simp add: step)
      obtain r2 w2 where m: "login env (lower email) pw ip ua w = (r2, w2)" by fastforce
      note run = mismatch_run [OF m [unfolded l] w1(2), unfolded w1(3)]
      have "login_route env email pw ip ua w = (HttpError 401 ''INVALID_CREDENTIALS'', w2\<lparr>w_tables := w_tables w\<rparr>)"
        using m run(1) by (simp add: login_route_def login_errors_def rolled_back_def)
      then show thesis using run(2) m False
        by (intro counted [of "w2\<lparr>w_tables := w_tables w\<rparr>"]) (simp_all add: failures_def)
    qed
  qed
qed

text \<open>A series of attempts on one address: the environment of each, its password, address and browser.\<close>

type_synonym attempt = "auth_env \<times> string \<times> string \<times> string option"

fun login_series ::
  "string \<Rightarrow> attempt list \<Rightarrow> world \<Rightarrow> (user_response \<times> string) response list \<times> world" where
  "login_series email [] w = ([], w)"
| "login_series email ((env, pw, ip, ua) # as) w =
     (case login_route env email pw ip ua w of (r, w1) \<Rightarrow>
        case login_series email as w1 of (rs, w2) \<Rightarrow> (r # rs, w2))"

definition guesses :: "'a response list \<Rightarrow> nat" where
  "guesses rs = length (filter (\<lambda>r. r = HttpError 401 ''INVALID_CREDENTIALS'') rs)"

text \<open>\<open>k\<close> failures are counted, in a window that ends no earlier than \<open>e\<close>.\<close>

definition window_open :: "timestamp \<Rightarrow> timestamp \<Rightarrow> nat \<Rightarrow> nat expiring \<Rightarrow> bool" where
  "window_open b e k c \<longleftrightarrow>
     (case c of None \<Rightarrow> k = 0
      | Some (n, deadline) \<Rightarrow> k = 0 \<and> deadline \<le> b \<or> k = n \<and> e \<le> deadline)"

lemma window_count:
  assumes "window_open b e k (failures email w)" and "b \<le> now" and "now < e"
  shows "failure_count now email w = k"
  using assms by (auto simp: window_open_def failure_count_def live_def split: option.splits)

lemma window_increment:
  assumes "window_open b e k c" and "b \<le> now" and "now < e" and "e \<le> b + LOGIN_FAILURE_WINDOW"
  shows "window_open b e (Suc k) (Some (increment now LOGIN_FAILURE_WINDOW c))"
  using assms by (auto simp: window_open_def increment_def split: option.splits)

lemma login_series_bounded:
  assumes "window_open b e k (failures (lower email) w)" and "e \<le> b + LOGIN_FAILURE_WINDOW"
    and "\<And>env pw ip ua. (env, pw, ip, ua) \<in> set as \<Longrightarrow>
      b \<le> en_now env \<and> en_now env < e \<and> wrong_password (lower email) w env pw"
    and "login_series email as w = (rs, w')" and "k \<le> LOGIN_FAILURE_THRESHOLD"
  shows "guesses rs + k \<le> LOGIN_FAILURE_THRESHOLD \<and> (\<forall>x. Answer x \<notin> set rs) \<and> w_tables w' = w_tables w \<and>
    window_open b e (guesses rs + k) (failures (lower email) w')"
  using assms
proof (induction as arbitrary: w k rs)
  case Nil
  then show ?case by (simp add: guesses_def)
next
  case (Cons a as)
  obtain env pw ip ua where a: "a = (env, pw, ip, ua)" by (cases a) auto
  have now: "b \<le> en_now env" "en_now env < e" "wrong_password (lower email) w env pw" using Cons.prems(3) a by auto
  obtain r w1 rs1 where first: "login_route env email pw ip ua w = (r, w1)" and
    rest: "login_series email as w1 = (rs1, w')" and rs: "rs = r # rs1"
    using Cons.prems(4) unfolding a by (auto split: prod.splits)
  have later: "b \<le> en_now env' \<and> en_now env' < e \<and> wrong_password (lower email) w1 env' pw'"
    if "w_tables w1 = w_tables w" and "(env', pw', ip', ua') \<in> set as" for env' pw' ip' ua'
    using that Cons.prems(3) [of env' pw' ip' ua'] by (simp add: wrong_password_def)
  from now(3) show ?case
  proof (cases rule: wrong_attempt [where ip = ip and ua = ua])
    case (stopped r' w'')
    with first have e: "r' = r" "w'' = w1" by auto
    have "guesses rs1 + k \<le> LOGIN_FAILURE_THRESHOLD \<and> (\<forall>x. Answer x \<notin> set rs1) \<and> w_tables w' = w_tables w1 \<and>
        window_open b e (guesses rs1 + k) (failures (lower email) w')"
      by (rule Cons.IH [OF _ Cons.prems(2) later rest Cons.prems(5)])
        (use stopped e Cons.prems(1) in simp_all)
    moreover have "guesses rs = guesses rs1" using stopped(2) e by (simp add: rs guesses_def)
    ultimately show ?thesis using stopped e by (auto simp: rs)
  next
    case (counted w'')
    with first have e: "r = HttpError 401 ''INVALID_CREDENTIALS''" "w'' = w1" by auto
    have k: "k < LOGIN_FAILURE_THRESHOLD" using counted(2) window_count [OF Cons.prems(1) now(1,2)] by simp
    have "guesses rs1 + Suc k \<le> LOGIN_FAILURE_THRESHOLD \<and> (\<forall>x. Answer x \<notin> set rs1) \<and> w_tables w' = w_tables w1 \<and>
        window_open b e (guesses rs1 + Suc k) (failures (lower email) w')"
    proof (rule Cons.IH [OF _ Cons.prems(2) later rest])
      show "window_open b e (Suc k) (failures (lower email) w1)"
        using window_increment [OF Cons.prems(1) now(1,2) Cons.prems(2)] counted(4) e by simp
    qed (use counted e k in simp_all)
    moreover have "guesses rs = Suc (guesses rs1)" by (simp add: rs e guesses_def)
    ultimately show ?thesis using counted e by (auto simp: rs)
  qed
qed

text \<open>
  Failures counted before the series end with their own window: the counter may start again once in
  the fifteen minutes, and counts to the threshold a second time.
\<close>

lemma login_series_two_windows:
  assumes "failures (lower email) w = Some (n, deadline)"
    and "\<And>env pw ip ua. (env, pw, ip, ua) \<in> set as \<Longrightarrow>
      b \<le> en_now env \<and> en_now env < b + LOGIN_FAILURE_WINDOW \<and> wrong_password (lower email) w env pw"
    and "login_series email as w = (rs, w')"
  shows "guesses rs \<le> (LOGIN_FAILURE_THRESHOLD - n) + LOGIN_FAILURE_THRESHOLD \<and>
    (\<forall>x. Answer x \<notin> set rs) \<and> w_tables w' = w_tables w"
  using assms
proof (induction as arbitrary: w n rs)
  case Nil
  then show ?case by (simp add: guesses_def)
next
  case (Cons a as)
  obtain env pw ip ua where a: "a = (env, pw, ip, ua)" by (cases a) auto
  have now: "b \<le> en_now env" "en_now env < b + LOGIN_FAILURE_WINDOW" "wrong_password (lower email) w env pw"
    using Cons.prems(2) a by auto
  obtain r w1 rs1 where first: "login_route env email pw ip ua w = (r, w1)" and
    rest: "login_series email as w1 = (rs1, w')" and rs: "rs = r # rs1"
    using Cons.prems(3) unfolding a by (auto split: prod.splits)
  have later: "b \<le> en_now env' \<and> en_now env' < b + LOGIN_FAILURE_WINDOW \<and> wrong_password (lower email) w1 env' pw'"
    if "w_tables w1 = w_tables w" and "(env', pw', ip', ua') \<in> set as" for env' pw' ip' ua'
    using that Cons.prems(2) [of env' pw' ip' ua'] by (simp add: wrong_password_def)
  from now(3) show ?case
  proof (cases rule: wrong_attempt [where ip = ip and ua = ua])
    case (stopped r' w'')
    with first have e: "r' = r" "w'' = w1" by auto
    have "guesses rs1 \<le> (LOGIN_FAILURE_THRESHOLD - n) + LOGIN_FAILURE_THRESHOLD \<and>
        (\<forall>x. Answer x \<notin> set rs1) \<and> w_tables w' = w_tables w1"
      by (rule Cons.IH [OF _ later rest]) (use stopped e Cons.prems(1) in simp_all)
    moreover have "guesses rs = guesses rs1" using stopped(2) e by (simp add: rs guesses_def)
    ultimately show ?thesis using stopped e by (auto simp: rs)
  next
    case (counted w'')
    with first have e: "r = HttpError 401 ''INVALID_CREDENTIALS''" "w'' = w1" by auto
    have g: "guesses rs = Suc (guesses rs1)" by (simp add: rs e guesses_def)
    have f: "failures (lower email) w1 = Some (increment (en_now env) LOGIN_FAILURE_WINDOW (Some (n, deadline)))"
      using counted(4) e Cons.prems(1) by simp
    show ?thesis
    proof (cases "en_now env < deadline")
      case True
      have n: "n < LOGIN_FAILURE_THRESHOLD"
        using counted(2) True Cons.prems(1) by (simp add: failure_count_def live_def)
      have "guesses rs1 \<le> (LOGIN_FAILURE_THRESHOLD - Suc n) + LOGIN_FAILURE_THRESHOLD \<and>
          (\<forall>x. Answer x \<notin> set rs1) \<and> w_tables w' = w_tables w1"
        by (rule Cons.IH [OF _ later rest]) (use f True counted(3) e in \<open>simp_all add: increment_def\<close>)
      with g n counted(3) e show ?thesis by (auto simp: rs)
    next
      case False
      have "guesses rs1 + 1 \<le> LOGIN_FAILURE_THRESHOLD \<and> (\<forall>x. Answer x \<notin> set rs1) \<and> w_tables w' = w_tables w1 \<and>
          window_open b (b + LOGIN_FAILURE_WINDOW) (guesses rs1 + 1) (failures (lower email) w')"
      proof (rule login_series_bounded [OF _ order_refl later rest])
        show "window_open b (b + LOGIN_FAILURE_WINDOW) 1 (failures (lower email) w1)"
          using f False now(1) by (simp add: window_open_def increment_def)
      qed (use counted(3) e in \<open>simp_all add: LOGIN_FAILURE_THRESHOLD_def\<close>)
      with g counted(3) e show ?thesis by (auto simp: rs)
    qed
  qed
qed

text \<open>
  C38: guessing a password. Let any number of logins with a wrong password be tried on an address
  within fifteen minutes, from whatever client addresses. None is answered, and the tables stay as
  they are. If no failure is counted for the address at the start, at most five of them get as far as
  the comparison of the password, and after the fifth no login to the account is answered for the rest of
  the fifteen minutes, whatever its password. If \<open>n\<close> failures are counted at the start, in a window
  that ends in the meantime, the bound is what they leave of five, and five more.
\<close>

theorem guessing_stops_after_five:
  assumes "\<forall>(env, pw, ip, ua)\<in>set as. b \<le> en_now env \<and> en_now env < b + LOGIN_FAILURE_WINDOW \<and>
      wrong_password (lower email) w env pw"
    and "login_series email as w = (rs, w')"
  shows "(\<forall>x. Answer x \<notin> set rs) \<and> w_tables w' = w_tables w \<and>
    guesses rs \<le> (case live b (failures (lower email) w) of None \<Rightarrow> 5 | Some n \<Rightarrow> (5 - n) + 5) \<and>
    (live b (failures (lower email) w) = None \<and> guesses rs = 5 \<longrightarrow>
       (\<forall>env pw ip ua x. b \<le> en_now env \<and> en_now env < b + LOGIN_FAILURE_WINDOW \<longrightarrow>
          fst (login_route env email pw ip ua w') \<noteq> Answer x))"
proof -
  let ?e = "b + LOGIN_FAILURE_WINDOW"
  have attempts: "b \<le> en_now env \<and> en_now env < ?e \<and> wrong_password (lower email) w env pw"
    if "(env, pw, ip, ua) \<in> set as" for env pw ip ua using that assms(1) by auto
  show ?thesis
  proof (cases "live b (failures (lower email) w)")
    case None
    then have first: "window_open b ?e 0 (failures (lower email) w)"
      by (auto simp: window_open_def live_def split: option.splits if_splits)
    have all: "guesses rs \<le> LOGIN_FAILURE_THRESHOLD" "\<forall>x. Answer x \<notin> set rs" "w_tables w' = w_tables w"
      "window_open b ?e (guesses rs) (failures (lower email) w')"
      using login_series_bounded [OF first order_refl attempts assms(2)] by simp_all
    have "fst (login_route env email pw ip ua w') \<noteq> Answer x"
      if "guesses rs = 5" "b \<le> en_now env" "en_now env < ?e" for env pw ip ua x
    proof (cases rule: login_cases [of env "lower email" pw ip ua w'])
      case (refused e)
      then show ?thesis
        by (auto simp: login_route_def login_errors_def auth_errors_def split: prod.splits sum.splits exn.splits auth_error.splits)
    next
      case (opened user c)
      have "failure_count (en_now env) (lower email) w' = 5" using window_count [OF all(4) that(2,3)] that(1) by simp
      with opened(2) show ?thesis
        by (auto simp: admitted_def failure_count_def failures_def LOGIN_FAILURE_THRESHOLD_def split: option.splits)
    qed
    with all None show ?thesis by (simp add: LOGIN_FAILURE_THRESHOLD_def)
  next
    case (Some n)
    then obtain deadline where f: "failures (lower email) w = Some (n, deadline)"
      by (auto simp: live_def split: option.splits if_splits)
    from login_series_two_windows [OF this attempts assms(2)] Some show ?thesis
      by (simp add: LOGIN_FAILURE_THRESHOLD_def)
  qed
qed

text \<open>The bound is reached: an attempt that is counted, exactly, and a burst of them at one time.\<close>

lemma counted_attempt:
  assumes up: "rd_up (w_redis w)" and user: "find_by_email (lower email) (w_tables w) = Inr (Some user)"
    and "en_verify env (u_password_hash user) pw = VerifyMismatch" and "\<not> u_is_locked user"
    and "failure_count (en_now env) (lower email) w < LOGIN_FAILURE_THRESHOLD"
    and "rd_login_attempts_ip (w_redis w) ip = None"
  obtains w' where "login_route env email pw ip ua w = (HttpError 401 ''INVALID_CREDENTIALS'', w')"
    and "w_tables w' = w_tables w" and "rd_up (w_redis w')"
    and "failures (lower email) w' = Some (increment (en_now env) LOGIN_FAILURE_WINDOW (failures (lower email) w))"
    and "\<And>ip'. ip' \<noteq> ip \<Longrightarrow> rd_login_attempts_ip (w_redis w') ip' = rd_login_attempts_ip (w_redis w) ip'"
proof -
  define c where "c = increment (en_now env) IP_ATTEMPT_WINDOW (rd_login_attempts_ip (w_redis w) ip)"
  define w1 where "w1 = w\<lparr>w_redis := (w_redis w)\<lparr>rd_login_attempts_ip := (rd_login_attempts_ip (w_redis w))(ip := Some c)\<rparr>\<rparr>"
  have within: "fst c \<le> IP_AUTH_THRESHOLD" by (simp add: c_def assms(6) increment_def IP_AUTH_THRESHOLD_def)
  have first: "on_redis (increment_ip_attempts (en_now env) ip) w = (Inr (fst c), w1)"
    using up by (simp add: on_redis_def redis_call_def increment_ip_attempts_def Let_def c_def w1_def)
  have w1: "w_tables w1 = w_tables w" "rd_up (w_redis w1)" "failures (lower email) w1 = failures (lower email) w"
    using up by (simp_all add: w1_def failures_def)
  let ?k = "failure_count (en_now env) (lower email) w"
  have count: "get_login_failures (en_now env) (email_hash (lower email)) (w_redis w1) = Inr ?k"
    using w1 up by (simp add: get_login_failures_def failure_count_def failures_def)
  have l: "login env (lower email) pw ip ua w = password_mismatch env (lower email) ip user w1"
    using within assms(3-5)
    by (simp add: login_def sbind_apply first query_def w1(1) ask_redis_def count user not_le not_less)
  obtain r2 w2 where login: "login env (lower email) pw ip ua w = (r2, w2)" by fastforce
  note m = login [unfolded l]
  note run = mismatch_run [OF m w1(2), unfolded w1(3)]
  have "w_redis w2 = (w_redis w1)\<lparr>rd_login_failures := rd_login_failures (w_redis w2)\<rparr>"
    using m w1(2) by (auto simp: password_mismatch_def sbind_apply on_redis_def redis_call_def
        increment_login_failures_def Let_def log_event_def modify_tables_def sret_def raise_def split: if_splits)
  then have rd: "rd_up (w_redis w2)" "rd_login_attempts_ip (w_redis w2) = rd_login_attempts_ip (w_redis w1)"
    using w1(2) by (metis redis.select_convs redis.surjective redis.update_convs)+
  show thesis
  proof (rule that [of "w2\<lparr>w_tables := w_tables w\<rparr>"])
    show "login_route env email pw ip ua w = (HttpError 401 ''INVALID_CREDENTIALS'', w2\<lparr>w_tables := w_tables w\<rparr>)"
      using login run(1) by (simp add: login_route_def login_errors_def rolled_back_def)
  qed (use run(2) rd in \<open>simp_all add: failures_def w1_def\<close>)
qed

lemma counted_burst:
  assumes "rd_up (w_redis w)" and "find_by_email (lower email) (w_tables w) = Inr (Some user)"
    and "\<not> u_is_locked user" and "distinct ips" and "\<forall>ip\<in>set ips. rd_login_attempts_ip (w_redis w) ip = None"
    and "failure_count t (lower email) w + length ips \<le> LOGIN_FAILURE_THRESHOLD"
    and "en_now env = t" and "en_verify env (u_password_hash user) pw = VerifyMismatch"
  shows "\<exists>rs w'. login_series email (map (\<lambda>ip. (env, pw, ip, None)) ips) w = (rs, w') \<and> guesses rs = length ips \<and>
    w_tables w' = w_tables w \<and> rd_up (w_redis w') \<and>
    failures (lower email) w' = fold (\<lambda>_ c. Some (increment t LOGIN_FAILURE_WINDOW c)) ips (failures (lower email) w) \<and>
    (\<forall>ip. ip \<notin> set ips \<longrightarrow> rd_login_attempts_ip (w_redis w') ip = rd_login_attempts_ip (w_redis w) ip)"
  using assms(1-6)
proof (induction ips arbitrary: w)
  case Nil
  then show ?case by (simp add: guesses_def)
next
  case (Cons ip ips)
  obtain w1 where w1: "login_route env email pw ip None w = (HttpError 401 ''INVALID_CREDENTIALS'', w1)"
    "w_tables w1 = w_tables w" "rd_up (w_redis w1)"
    "failures (lower email) w1 = Some (increment t LOGIN_FAILURE_WINDOW (failures (lower email) w))"
    "\<And>ip'. ip' \<noteq> ip \<Longrightarrow> rd_login_attempts_ip (w_redis w1) ip' = rd_login_attempts_ip (w_redis w) ip'"
    using counted_attempt [OF Cons.prems(1,2) assms(8) Cons.prems(3), of ip None] Cons.prems(5,6) assms(7) by auto
  have count: "failure_count t (lower email) w1 = Suc (failure_count t (lower email) w)"
    unfolding failure_count_def w1(4)
    by (auto simp: increment_def live_def LOGIN_FAILURE_WINDOW_def seconds_def split: option.splits)
  have "\<exists>rs w'. login_series email (map (\<lambda>ip. (env, pw, ip, None)) ips) w1 = (rs, w') \<and> guesses rs = length ips \<and>
    w_tables w' = w_tables w1 \<and> rd_up (w_redis w') \<and>
    failures (lower email) w' = fold (\<lambda>_ c. Some (increment t LOGIN_FAILURE_WINDOW c)) ips (failures (lower email) w1) \<and>
    (\<forall>ip. ip \<notin> set ips \<longrightarrow> rd_login_attempts_ip (w_redis w') ip = rd_login_attempts_ip (w_redis w1) ip)"
  proof (rule Cons.IH)
    show "\<forall>ip'\<in>set ips. rd_login_attempts_ip (w_redis w1) ip' = None"
    proof
      fix ip'
      assume "ip' \<in> set ips"
      then have "ip' \<noteq> ip" "rd_login_attempts_ip (w_redis w) ip' = None" using Cons.prems(4,5) by auto
      with w1(5) show "rd_login_attempts_ip (w_redis w1) ip' = None" by simp
    qed
  qed (use Cons.prems w1(2,3) count in simp_all)
  then obtain rs w' where r: "login_series email (map (\<lambda>ip. (env, pw, ip, None)) ips) w1 = (rs, w')" "guesses rs = length ips"
    "w_tables w' = w_tables w1" "rd_up (w_redis w')"
    "failures (lower email) w' = fold (\<lambda>_ c. Some (increment t LOGIN_FAILURE_WINDOW c)) ips (failures (lower email) w1)"
    "\<forall>ip. ip \<notin> set ips \<longrightarrow> rd_login_attempts_ip (w_redis w') ip = rd_login_attempts_ip (w_redis w1) ip" by blast
  show ?case
    by (intro exI [of _ "HttpError 401 ''INVALID_CREDENTIALS'' # rs"] exI [of _ w'])
      (use w1 r in \<open>auto simp: guesses_def\<close>)
qed

lemma login_series_append:
  "login_series email (as @ bs) w =
     (case login_series email as w of (rs, w1) \<Rightarrow> case login_series email bs w1 of (rs', w2) \<Rightarrow> (rs @ rs', w2))"
proof (induction as arbitrary: w)
  case (Cons a as)
  obtain env pw ip ua where "a = (env, pw, ip, ua)" by (cases a) auto
  then show ?case by (simp add: Cons split: prod.splits)
qed (simp split: prod.splits)

section \<open>Which addresses have an account\<close>

lemma find_by_email_total:
  assumes "distinct (map u_email (at_users t))"
  shows "find_by_email email t = Inr (first_row (filter (\<lambda>u. u_email u = lower email) (at_users t)))"
proof -
  have "length (filter (\<lambda>u. u_email u = lower email) us) \<le> 1" if "distinct (map u_email us)" for us
    using that by (induction us) (auto simp: filter_empty_conv image_iff)
  from this [OF assms] show ?thesis
    by (cases "filter (\<lambda>u. u_email u = lower email) (at_users t)" rule: list.exhaust)
      (auto simp: find_by_email_def first_row_def length_Suc_conv)
qed

lemma lower_lower [simp]: "lower (lower s) = lower s"
  by (induction s) (auto simp: lower_def is_upper_def)

definition register_answer :: "auth_env \<Rightarrow> string \<Rightarrow> string \<Rightarrow> redis \<Rightarrow> bool response" where
  "register_answer env pw ip rd =
     (if \<not> rd_up rd then HttpError 503 ''SERVICE_UNAVAILABLE''
      else if IP_AUTH_THRESHOLD < fst (increment (en_now env) IP_ATTEMPT_WINDOW (rd_auth_attempts_ip rd ip))
        then HttpError 429 ''RATE_LIMITED''
      else case validate_password_policy pw of
        Some message \<Rightarrow> HttpError 422 message
      | None \<Rightarrow>
          if en_pwned env pw = Some True then
            HttpError 422 ''This password has appeared in a known data breach. Choose a different password.''
          else Answer (en_skip_email_verification env))"

lemma send_caught: "\<exists>w'. catching (Auth EmailDeliveryError) (send env to subject link) (sret ()) w = (Inr (), w')"
  by (simp add: catching_def send_def sret_def Let_def)

lemma register_new_returns:
  assumes "lower email \<notin> u_email ` set (at_users (w_tables w))"
  shows "\<exists>w'. register_new env email pw w = (Inr (), w')"
  using assms send_caught
  by (auto simp: register_new_def sbind_apply create_user_def modify_tables_def Let_def case_prod_unfold)

lemma breach_run:
  obtains w' where "check_breach env email pw ip w = (if en_pwned env pw = Some True then
      Inl (Auth (PasswordPolicyViolationError
        ''This password has appeared in a known data breach. Choose a different password.'')) else Inr (), w')"
    and "at_users (w_tables w') = at_users (w_tables w)"
proof (cases "en_pwned env pw")
  case None
  show thesis
    by (rule that [of "snd (check_breach env email pw ip w)"])
      (simp_all add: check_breach_def sbind_apply sret_def log_event_def modify_tables_def None)
next
  case (Some p)
  then show thesis by (intro that [of w]) (simp_all add: check_breach_def sbind_apply sret_def raise_def)
qed

lemma log_run:
  obtains w' where "log_event env ty ip u dat w = (Inr (), w')" and "at_users (w_tables w') = at_users (w_tables w)"
  by (simp add: log_event_def modify_tables_def)

lemma register_route_answer:
  assumes "distinct (map u_email (at_users (w_tables w)))"
  shows "fst (register_route env email pw ip w) = register_answer env pw ip (w_redis w)"
proof (cases "rd_up (w_redis w)")
  case False
  then show ?thesis
    by (simp add: register_route_def auth_route_def register_def sbind_apply on_redis_def redis_call_def
        increment_auth_attempts_ip_def Let_def register_errors_def auth_errors_def register_answer_def)
next
  case up: True
  define c where "c = increment (en_now env) IP_ATTEMPT_WINDOW (rd_auth_attempts_ip (w_redis w) ip)"
  define w1 where "w1 = w\<lparr>w_redis := (w_redis w)\<lparr>rd_auth_attempts_ip := (rd_auth_attempts_ip (w_redis w))(ip := Some c)\<rparr>\<rparr>"
  have first: "on_redis (increment_auth_attempts_ip (en_now env) ip) w = (Inr (fst c), w1)"
    using up by (simp add: on_redis_def redis_call_def increment_auth_attempts_ip_def Let_def c_def w1_def)
  obtain w2 where log: "log_event env ''REGISTRATION_ATTEMPTED'' ip None
      [(''email_hash'', JString (email_hash (lower email)))] w1 = (Inr (), w2)"
    and w2: "at_users (w_tables w2) = at_users (w_tables w1)" using log_run .
  obtain w3 where w3: "check_breach env (lower email) pw ip w2 = (if en_pwned env pw = Some True then
      Inl (Auth (PasswordPolicyViolationError
        ''This password has appeared in a known data breach. Choose a different password.'')) else Inr (), w3)"
    "at_users (w_tables w3) = at_users (w_tables w2)" using breach_run .
  have users: "at_users (w_tables w3) = at_users (w_tables w)" by (simp add: w3(2) w2 w1_def)
  have existing: "find_by_email (lower email) (w_tables w3) =
      Inr (first_row (filter (\<lambda>u. u_email u = lower email) (at_users (w_tables w))))"
    using find_by_email_total [of "w_tables w3" "lower email", unfolded users lower_lower, OF assms] .
  note step = register_route_def auth_route_def register_def sbind_apply first log register_answer_def
    register_errors_def auth_errors_def check_policy_def raise_def sret_def query_def
  note up = up c_def [symmetric]
  show ?thesis
  proof (cases "IP_AUTH_THRESHOLD < fst c")
    case True
    with up show ?thesis by (simp add: step)
  next
    case within: False
    show ?thesis
    proof (cases "validate_password_policy pw")
      case (Some message)
      with up within show ?thesis by (simp add: step)
    next
      case policy: None
      show ?thesis
      proof (cases "en_pwned env pw = Some True")
        case True
        with up within policy w3(1) show ?thesis by (simp add: step)
      next
        case False
        have "\<exists>w'. (case first_row (filter (\<lambda>u. u_email u = lower email) (at_users (w_tables w))) of
            Some user \<Rightarrow> catching (Auth EmailDeliveryError) (send env (lower email)
              ''TradeForge: registration attempt on your account'' (en_frontend_url env @ ''/login'')) (sret ())
          | None \<Rightarrow> register_new env (lower email) pw) w3 = (Inr (), w')"
        proof (cases "filter (\<lambda>u. u_email u = lower email) (at_users (w_tables w))")
          case Nil
          then have "lower (lower email) \<notin> u_email ` set (at_users (w_tables w3))"
            unfolding users by (auto simp: filter_empty_conv)
          with register_new_returns Nil show ?thesis by (simp add: first_row_def)
        next
          case (Cons u us)
          with send_caught show ?thesis by (simp add: first_row_def)
        qed
        then obtain w' where "(case first_row (filter (\<lambda>u. u_email u = lower email) (at_users (w_tables w))) of
            Some user \<Rightarrow> catching (Auth EmailDeliveryError) (send env (lower email)
              ''TradeForge: registration attempt on your account'' (en_frontend_url env @ ''/login'')) (sret ())
          | None \<Rightarrow> register_new env (lower email) pw) w3 = (Inr (), w')" by blast
        note finish = this [unfolded sret_def [abs_def]]
        have "register env (lower email) pw ip w = (Inr (), w')"
          using within policy w3(1) False finish existing
          by (simp add: register_def sbind_apply first log check_policy_def sret_def [abs_def] query_def cong: option.case_cong)
        then show ?thesis using up within policy False
          by (simp add: register_route_def auth_route_def register_answer_def)
      qed
    qed
  qed
qed

definition reset_mail :: "auth_env \<Rightarrow> string \<Rightarrow> mail" where
  "reset_mail env email =
     \<lparr>ml_to = email, ml_subject = ''TradeForge: password reset request'',
      ml_link = en_frontend_url env @ ''/reset-password?token='' @ en_token env\<rparr>"

definition reset_limited :: "auth_env \<Rightarrow> string \<Rightarrow> redis \<Rightarrow> bool" where
  "reset_limited env ip rd \<longleftrightarrow>
     IP_RESET_THRESHOLD < fst (increment (en_now env) IP_ATTEMPT_WINDOW (rd_reset_attempts_ip rd ip))"

lemma reset_request_answer:
  assumes "distinct (map u_email (at_users (w_tables w)))"
  shows "fst (password_reset_request_route env email ip w) =
    (if \<not> rd_up (w_redis w) then HttpError 503 ''SERVICE_UNAVAILABLE''
     else if reset_limited env ip (w_redis w) then HttpError 429 ''RATE_LIMITED''
     else if lower email \<in> u_email ` set (at_users (w_tables w)) \<and> \<not> en_deliver env (reset_mail env (lower email))
     then HttpError 503 ''SERVICE_UNAVAILABLE''
     else Answer ())"
proof (cases "rd_up (w_redis w)")
  case False
  then show ?thesis
    by (simp add: password_reset_request_route_def auth_route_def request_password_reset_def sbind_apply on_redis_def
        redis_call_def increment_reset_attempts_ip_def Let_def reset_request_errors_def auth_errors_def)
next
  case up: True
  define c where "c = increment (en_now env) IP_ATTEMPT_WINDOW (rd_reset_attempts_ip (w_redis w) ip)"
  define w1 where "w1 = w\<lparr>w_redis := (w_redis w)\<lparr>rd_reset_attempts_ip := (rd_reset_attempts_ip (w_redis w))(ip := Some c)\<rparr>\<rparr>"
  have first: "on_redis (increment_reset_attempts_ip (en_now env) ip) w = (Inr (fst c), w1)"
    using up by (simp add: on_redis_def redis_call_def increment_reset_attempts_ip_def Let_def c_def w1_def)
  obtain w2 where log: "log_event env ''PASSWORD_RESET_REQUESTED'' ip None
      [(''email_hash'', JString (email_hash (lower email)))] w1 = (Inr (), w2)"
    and w2: "at_users (w_tables w2) = at_users (w_tables w1)" using log_run .
  have users: "at_users (w_tables w2) = at_users (w_tables w)" by (simp add: w2 w1_def)
  have found: "find_by_email (lower email) (w_tables w2) =
      Inr (first_row (filter (\<lambda>u. u_email u = lower email) (at_users (w_tables w))))"
    using find_by_email_total [of "w_tables w2" "lower email", unfolded users lower_lower, OF assms] .
  note step = password_reset_request_route_def auth_route_def request_password_reset_def sbind_apply first log
    reset_request_errors_def auth_errors_def raise_def sret_def query_def found reset_limited_def c_def [symmetric]
  show ?thesis
  proof (cases "IP_RESET_THRESHOLD < fst c")
    case True
    with up show ?thesis by (simp add: step)
  next
    case within: False
    show ?thesis
    proof (cases "filter (\<lambda>u. u_email u = lower email) (at_users (w_tables w))")
      case Nil
      then have "lower email \<notin> u_email ` set (at_users (w_tables w))" by (auto simp: filter_empty_conv)
      with up within Nil show ?thesis by (simp add: step first_row_def)
    next
      case (Cons u us)
      then have "u \<in> set (filter (\<lambda>u. u_email u = lower email) (at_users (w_tables w)))" by simp
      then have "lower email \<in> u_email ` set (at_users (w_tables w))"
        by (auto simp: image_iff intro!: bexI [of _ u])
      with up within Cons show ?thesis
        by (simp add: step first_row_def modify_tables_def send_def Let_def reset_mail_def)
    qed
  qed
qed

text \<open>
  C39: which addresses have an account. The answer to a registration is the same for every content
  of the tables, addresses being unique. So is the answer to a request for a password reset as long as
  the mail is delivered; when the transport fails, within the rate limit, the answer is an error
  exactly for the addresses that have an account.
\<close>

theorem registration_hides_accounts:
  assumes "distinct (map u_email (at_users (w_tables w)))" and "distinct (map u_email (at_users t))"
  shows "fst (register_route env email pw ip (w\<lparr>w_tables := t\<rparr>)) = fst (register_route env email pw ip w) \<and>
    ((\<forall>m. en_deliver env m) \<longrightarrow>
       fst (password_reset_request_route env email ip (w\<lparr>w_tables := t\<rparr>)) =
       fst (password_reset_request_route env email ip w)) \<and>
    ((\<forall>m. \<not> en_deliver env m) \<and> rd_up (w_redis w) \<and> \<not> reset_limited env ip (w_redis w) \<longrightarrow>
       (fst (password_reset_request_route env email ip w) = HttpError 503 ''SERVICE_UNAVAILABLE'' \<longleftrightarrow>
        lower email \<in> u_email ` set (at_users (w_tables w))))"
  using assms by (simp add: register_route_answer reset_request_answer)

section \<open>A sample\<close>

definition sample_env :: auth_env where
  "sample_env = \<lparr>en_now = 0, en_hash = (\<lambda>p. ''h:'' @ p),
     en_verify = (\<lambda>h p. if h = ''h:'' @ p then Verified else VerifyMismatch), en_needs_rehash = (\<lambda>h. False),
     en_pwned = (\<lambda>p. Some False), en_deliver = (\<lambda>m. True), en_token = ''t1'', en_skip_email_verification = False,
     en_frontend_url = ''http://localhost:5173''\<rparr>"

definition sample_user :: user_row where
  "sample_user = \<lparr>u_id = 7, u_email = ''a@b'', u_password_hash = ''h:correct horse'', u_display_name = None,
     u_time_zone = ''Asia/Kolkata'', u_base_currency = ''INR'', u_is_email_verified = True, u_is_admin = False,
     u_is_locked = False, u_created_at = 0\<rparr>"

definition sample_reset :: pending_row where
  "sample_reset = \<lparr>pt_id = 8, pt_email = ''a@b'', pt_token_hash = sha256_hex ''tok'', pt_expires_at = 100\<rparr>"

definition empty_redis :: redis where
  "empty_redis = \<lparr>rd_up = True, rd_sessions = (\<lambda>_. None), rd_user_sessions = (\<lambda>_. {}),
     rd_forced_reauth = (\<lambda>_. None), rd_login_failures = (\<lambda>_. None), rd_login_attempts_ip = (\<lambda>_. None),
     rd_auth_attempts_ip = (\<lambda>_. None), rd_reset_attempts_ip = (\<lambda>_. None)\<rparr>"

definition sample_world :: world where
  "sample_world = \<lparr>w_tables = \<lparr>at_db = empty_db, at_users = [sample_user], at_verifications = [],
       at_resets = [sample_reset]\<rparr>, w_redis = empty_redis, w_sent = []\<rparr>"

lemma lower_sample [simp]: "lower ''a@b'' = ''a@b''"
  by code_simp

lemma sample_find [simp]:
  "at_users t = [sample_user] \<Longrightarrow> find_by_email ''a@b'' t = Inr (Some sample_user)"
  "at_users t = [sample_user] \<Longrightarrow> find_by_id 7 t = Inr (Some sample_user)"
  by (simp_all add: find_by_email_def find_by_id_def sample_user_def)

lemma sample_start: "no_sessions (w_redis sample_world)"
  by (simp add: no_sessions_def sample_world_def empty_redis_def)

lemma sample_login:
  "get_current_user_id 10 (Some ''t1'')
     (w_redis (serve sample_env (CallLogin ''a@b'' ''correct horse'' ''1.1.1.1'' None) sample_world)) = Answer 7"
proof -
  let ?rd = "(w_redis sample_world)\<lparr>rd_login_attempts_ip := (\<lambda>_. None)(''1.1.1.1'' := Some (1, IP_ATTEMPT_WINDOW))\<rparr>"
  let ?w = "sample_world\<lparr>w_redis := ?rd\<rparr>"
  have "login sample_env ''a@b'' ''correct horse'' ''1.1.1.1'' None sample_world =
      open_session sample_env ''a@b'' ''correct horse'' ''1.1.1.1'' None sample_user ?w"
    by (simp add: login_def sbind_apply on_redis_def redis_call_def increment_ip_attempts_def increment_def Let_def
        IP_AUTH_THRESHOLD_def LOGIN_FAILURE_THRESHOLD_def query_def ask_redis_def get_login_failures_def live_def
        sample_world_def empty_redis_def sample_env_def)
      (simp add: sample_user_def)
  then have "w_redis (serve sample_env (CallLogin ''a@b'' ''correct horse'' ''1.1.1.1'' None) sample_world) =
      w_redis (snd (open_session sample_env ''a@b'' ''correct horse'' ''1.1.1.1'' None sample_user ?w))"
    by (simp add: login_route_redis)
  moreover have "rd_up (w_redis ?w)" by (simp add: sample_world_def empty_redis_def)
  note o = open_session_up [OF this, of sample_env "''a@b''" "''correct horse''" "''1.1.1.1''" None sample_user]
  ultimately show ?thesis using o
    by (simp add: current_user_Answer sample_env_def sample_user_def live_def SESSION_TTL_def seconds_def
        sample_world_def empty_redis_def)
qed

theorem only_a_login_opens_a_session_witness:
  "\<exists>user. user \<in> set (at_users (w_tables sample_world)) \<and> u_id user = 7 \<and>
     admitted sample_env ''a@b'' ''correct horse'' sample_world user"
proof -
  have "get_current_user_id 10 (Some ''t1'') (w_redis sample_world) \<noteq> Answer 7"
    by (simp add: current_user_Answer sample_world_def empty_redis_def)
  from only_a_login_opens_a_session [OF auth_steps.start sample_start sample_login this] show ?thesis by auto
qed

theorem password_reset_ends_sessions_witness:
  "\<exists>w'. password_reset_confirm_route sample_env ''tok'' ''staple battery'' ''1.1.1.1'' sample_world = (Answer (), w') \<and>
     (\<forall>t s. get_current_user_id t s (w_redis w') \<noteq> Answer 7)"
proof -
  have policy: "validate_password_policy ''staple battery'' = None"
    by (simp add: validate_password_policy_def MIN_PASSWORD_LENGTH_def MAX_PASSWORD_LENGTH_def)
  have "\<exists>w'. password_reset_confirm_route sample_env ''tok'' ''staple battery'' ''1.1.1.1'' sample_world = (Answer (), w')"
    by (simp add: password_reset_confirm_route_def auth_route_def confirm_password_reset_def sbind_apply on_redis_def
        redis_call_def increment_reset_attempts_ip_def increment_def Let_def IP_RESET_THRESHOLD_def query_def
        find_by_token_hash_def sample_world_def sample_reset_def sample_env_def policy check_policy_def
        check_breach_def sret_def complete_reset_def modify_tables_def empty_redis_def log_event_def
        revoke_all_user_sessions_def)
  then obtain w' where w': "password_reset_confirm_route sample_env ''tok'' ''staple battery'' ''1.1.1.1'' sample_world =
      (Answer (), w')" by blast
  have "at_users (w_tables sample_world) = [sample_user]" by (simp add: sample_world_def)
  with password_reset_ends_sessions [OF auth_steps.start sample_start w'] have
    "\<forall>t s. get_current_user_id t s (w_redis w') \<noteq> Answer 7" by (auto simp: sample_user_def)
  with w' show ?thesis by blast
qed

definition wrong_guess :: "nat \<Rightarrow> attempt" where
  "wrong_guess k = (sample_env, ''wrong'', ''1.1.1.'' @ nat_str k, None)"

theorem guessing_stops_after_five_witness:
  "\<exists>rs w'. login_series ''a@b'' (map wrong_guess [0..<8]) sample_world = (rs, w') \<and> guesses rs \<le> 5"
proof -
  obtain rs w' where run: "login_series ''a@b'' (map wrong_guess [0..<8]) sample_world = (rs, w')" by fastforce
  have fresh: "live 0 (failures (lower ''a@b'') sample_world) = None"
    by (simp add: failures_def live_def sample_world_def empty_redis_def)
  have "\<forall>(env, pw, ip, ua)\<in>set (map wrong_guess [0..<8]). 0 \<le> en_now env \<and>
      en_now env < 0 + LOGIN_FAILURE_WINDOW \<and> wrong_password (lower ''a@b'') sample_world env pw"
    by (auto simp: wrong_guess_def wrong_password_def sample_env_def sample_world_def sample_user_def
        LOGIN_FAILURE_WINDOW_def seconds_def find_by_email_def)
  from guessing_stops_after_five [OF this run] fresh run show ?thesis by simp
qed

text \<open>
  One failure less than a minute before its window ends lets nine passwords be compared within the
  fifteen minutes: four before the end and five after it.
\<close>

definition one_failure_world :: world where
  "one_failure_world = sample_world\<lparr>w_redis :=
     empty_redis\<lparr>rd_login_failures := (\<lambda>_. None)(email_hash ''a@b'' := Some (1, seconds 60))\<rparr>\<rparr>"

theorem nine_guesses_in_fifteen_minutes:
  "\<exists>as. (\<forall>(env, pw, ip, ua)\<in>set as. 0 \<le> en_now env \<and> en_now env < LOGIN_FAILURE_WINDOW \<and>
      wrong_password ''a@b'' one_failure_world env pw) \<and>
    guesses (fst (login_series ''a@b'' as one_failure_world)) = 9"
proof -
  let ?before = "map (\<lambda>ip. (sample_env, ''wrong'', ip, None)) [''1'', ''2'', ''3'', ''4'']"
  let ?late = "sample_env\<lparr>en_now := seconds 60\<rparr>"
  let ?after = "map (\<lambda>ip. (?late, ''wrong'', ip, None)) [''5'', ''6'', ''7'', ''8'', ''9'']"
  note samples = one_failure_world_def sample_world_def empty_redis_def sample_env_def sample_user_def failures_def
    failure_count_def live_def seconds_def LOGIN_FAILURE_THRESHOLD_def LOGIN_FAILURE_WINDOW_def increment_def
  have user: "find_by_email (lower ''a@b'') (w_tables one_failure_world) = Inr (Some sample_user)"
    by (simp add: one_failure_world_def sample_world_def)
  obtain rs1 w1 where b: "login_series ''a@b'' ?before one_failure_world = (rs1, w1)" "guesses rs1 = 4"
    "w_tables w1 = w_tables one_failure_world" "rd_up (w_redis w1)"
    "failures (lower ''a@b'') w1 = Some (5, seconds 60)"
    "\<forall>ip. ip \<notin> {''1'', ''2'', ''3'', ''4''} \<longrightarrow> rd_login_attempts_ip (w_redis w1) ip = None"
    using counted_burst [of one_failure_world "''a@b''" sample_user "[''1'', ''2'', ''3'', ''4'']" 0 sample_env "''wrong''"] user
    by (auto simp: samples)
  have "failure_count (seconds 60) (lower ''a@b'') w1 = 0"
    using b(5) by (simp add: failure_count_def live_def)
  then obtain rs2 w2 where a: "login_series ''a@b'' ?after w1 = (rs2, w2)" "guesses rs2 = 5"
    using counted_burst [of w1 "''a@b''" sample_user "[''5'', ''6'', ''7'', ''8'', ''9'']" "seconds 60" ?late "''wrong''"]
      b(3,4,6) user
    by (auto simp: sample_env_def sample_user_def LOGIN_FAILURE_THRESHOLD_def)
  have "login_series ''a@b'' (?before @ ?after) one_failure_world = (rs1 @ rs2, w2)"
    unfolding login_series_append b(1) prod.case a(1) ..
  then have "guesses (fst (login_series ''a@b'' (?before @ ?after) one_failure_world)) = 9"
    using b(2) a(2) by (simp add: guesses_def)
  moreover have "\<forall>(env, pw, ip, ua)\<in>set (?before @ ?after). 0 \<le> en_now env \<and> en_now env < LOGIN_FAILURE_WINDOW \<and>
      wrong_password ''a@b'' one_failure_world env pw"
    using user by (auto simp: wrong_password_def sample_env_def sample_user_def LOGIN_FAILURE_WINDOW_def seconds_def)
  ultimately show ?thesis by blast
qed

theorem registration_hides_accounts_witness:
  "fst (register_route sample_env ''a@b'' ''staple battery'' ''1.1.1.1''
     (sample_world\<lparr>w_tables := (w_tables sample_world)\<lparr>at_users := []\<rparr>\<rparr>)) =
   fst (register_route sample_env ''a@b'' ''staple battery'' ''1.1.1.1'' sample_world)"
  using registration_hides_accounts [of sample_world "(w_tables sample_world)\<lparr>at_users := []\<rparr>"]
  by (simp add: sample_world_def)

text \<open>
  A defect beside them. The events of a refused login are written in the transaction that its
  error response rolls back: the fifth failure locks the account and the audit log has no trace.
\<close>

theorem failed_login_is_not_audited:
  assumes "wrong_password (lower email) w env pw"
  shows "security_audit_log (at_db (w_tables (snd (login_route env email pw ip ua w)))) =
    security_audit_log (at_db (w_tables w))"
  using assms by (cases rule: wrong_attempt [where ip = ip and ua = ua]) simp_all

end
