(* ===== verification/Accounts_Api.thy ===== *)
theory Accounts_Api
  imports Import_Properties Trades_Api
begin

text \<open>
  \<open>api/v1/accounts.py\<close> and \<open>api/v1/imports.py\<close>: the routes over the accounts of the user and
  the upload of a broker file. The checks of the request models come before a route runs; the
  router commits after the service returned, so an error leaves the database as it was, save
  that the deactivation commits before it answers 404.
\<close>

section \<open>Requests\<close>

record create_account_request =
  ca_broker :: string
  ca_display_name :: string
  ca_account_type :: string
  ca_base_currency :: string
  ca_starting_capital :: "rat option"

record update_account_request =
  ua_display_name :: "string option"
  ua_account_type :: "string option"
  ua_starting_capital :: "rat option"

definition positive_capital :: "rat option \<Rightarrow> bool" where
  "positive_capital c = (case c of None \<Rightarrow> True | Some x \<Rightarrow> 0 < x)"

definition create_account_request_ok :: "create_account_request \<Rightarrow> bool" where
  "create_account_request_ok b \<longleftrightarrow>
     1 \<le> length (ca_display_name b) \<and> length (ca_display_name b) \<le> 100 \<and>
     length (ca_base_currency b) = 3 \<and> positive_capital (ca_starting_capital b)"

definition update_account_request_ok :: "update_account_request \<Rightarrow> bool" where
  "update_account_request_ok b \<longleftrightarrow>
     (case ua_display_name b of None \<Rightarrow> True | Some n \<Rightarrow> 1 \<le> length n \<and> length n \<le> 100) \<and>
     positive_capital (ua_starting_capital b)"

section \<open>The routes over accounts\<close>

definition create_account_route ::
  "timestamp \<Rightarrow> uuid \<Rightarrow> create_account_request \<Rightarrow> db \<Rightarrow> trading_account_row response \<times> db" where
  "create_account_route now user_id body d =
     (case account_service_create now user_id (ca_broker body) (ca_display_name body)
             (ca_account_type body) (ca_base_currency body) (ca_starting_capital body) d of
        Inr (account, d') \<Rightarrow> (Answer account, d')
      | Inl (Py (ValueError exc)) \<Rightarrow> (HttpError 422 exc, d)
      | Inl e \<Rightarrow> (Unhandled e, d))"

definition list_accounts_route :: "uuid \<Rightarrow> db \<Rightarrow> trading_account_row list response" where
  "list_accounts_route user_id d = Answer (account_service_list user_id d)"

definition get_account_route :: "uuid \<Rightarrow> uuid \<Rightarrow> db \<Rightarrow> trading_account_row response" where
  "get_account_route user_id account_id d =
     (case account_service_get user_id account_id d of
        Inr account \<Rightarrow> Answer account
      | Inl (Imp (AccountNotFoundError _)) \<Rightarrow> HttpError 404 ''ACCOUNT_NOT_FOUND''
      | Inl e \<Rightarrow> Unhandled e)"

definition update_account_route ::
  "timestamp \<Rightarrow> uuid \<Rightarrow> uuid \<Rightarrow> update_account_request \<Rightarrow> db \<Rightarrow> trading_account_row response \<times> db" where
  "update_account_route now user_id account_id body d =
     (case account_service_update now user_id account_id (ua_display_name body)
             (ua_account_type body) (ua_starting_capital body) d of
        Inr (account, d') \<Rightarrow> (Answer account, d')
      | Inl (Imp (AccountNotFoundError _)) \<Rightarrow> (HttpError 404 ''ACCOUNT_NOT_FOUND'', d)
      | Inl (Py (ValueError exc)) \<Rightarrow> (HttpError 422 exc, d)
      | Inl e \<Rightarrow> (Unhandled e, d))"

definition deactivate_account_route :: "timestamp \<Rightarrow> uuid \<Rightarrow> uuid \<Rightarrow> db \<Rightarrow> unit response \<times> db" where
  "deactivate_account_route now user_id account_id d =
     (case account_service_deactivate now user_id account_id d of
        (found, d') \<Rightarrow> (if found then Answer () else HttpError 404 ''ACCOUNT_NOT_FOUND'', d'))"

section \<open>POST /v1/accounts/{account_id}/import\<close>

text \<open>The uploaded file: its bytes and the name the client gave it.\<close>

record upload_file =
  up_content :: string
  up_filename :: "string option"

definition MAX_UPLOAD_BYTES :: nat where
  "MAX_UPLOAD_BYTES = 10 * 1024 * 1024"

definition safe_file_name :: "string option \<Rightarrow> string option" where
  "safe_file_name filename =
     (case take 255 (case filename of None \<Rightarrow> [] | Some n \<Rightarrow> n) of [] \<Rightarrow> None | n \<Rightarrow> Some n)"

definition import_fills_route ::
  "broker_adapter_port list \<Rightarrow> timestamp \<Rightarrow> uuid \<Rightarrow> uuid \<Rightarrow> upload_file \<Rightarrow> string option \<Rightarrow> db \<Rightarrow>
   import_summary response \<times> db" where
  "import_fills_route adapters now user_id account_id file product_type_hint d =
     (if MAX_UPLOAD_BYTES < length (up_content file) then (HttpError 413 ''FILE_TOO_LARGE'', d)
      else
        (case import_fills adapters now user_id account_id (up_content file) product_type_hint
                (safe_file_name (up_filename file)) d of
           Inr (summary, d') \<Rightarrow> (Answer summary, d')
         | Inl (Imp (AccountNotFoundError _)) \<Rightarrow> (HttpError 404 ''ACCOUNT_NOT_FOUND'', d)
         | Inl (Imp (AccountInactiveError _)) \<Rightarrow> (HttpError 422 ''ACCOUNT_INACTIVE'', d)
         | Inl (Imp (DuplicateImportError _ _)) \<Rightarrow> (HttpError 409 ''DUPLICATE_IMPORT'', d)
         | Inl (Imp UnrecognizedFileError) \<Rightarrow> (HttpError 422 ''UNRECOGNIZED_FILE_FORMAT'', d)
         | Inl (Imp MissingProductTypeError) \<Rightarrow> (HttpError 422 ''MISSING_PRODUCT_TYPE'', d)
         | Inl (Imp EmptyFileError) \<Rightarrow> (HttpError 422 ''EMPTY_FILE'', d)
         | Inl (Py (ValueError exc)) \<Rightarrow> (HttpError 422 exc, d)
         | Inl e \<Rightarrow> (Unhandled e, d)))"

text \<open>\<open>get_import_service\<close> registers one adapter.\<close>

definition get_import_service :: "broker_adapter_port list" where
  "get_import_service = [zerodha_adapter]"

section \<open>GET /v1/imports\<close>

text \<open>The account may be inactive; the repository's default limit is 20.\<close>

definition list_imports_route :: "uuid \<Rightarrow> uuid \<Rightarrow> db \<Rightarrow> import_record_row list response" where
  "list_imports_route user_id account_id d =
     (case account_service_get user_id account_id d of
        Inl (Imp (AccountNotFoundError _)) \<Rightarrow> HttpError 404 ''ACCOUNT_NOT_FOUND''
      | Inl e \<Rightarrow> Unhandled e
      | Inr _ \<Rightarrow> Answer (list_by_account account_id 20 d))"

section \<open>Facts\<close>

lemma safe_file_name_fits:
  assumes "safe_file_name n = Some s"
  shows "s \<noteq> [] \<and> length s \<le> 255"
proof -
  let ?t = "take 255 (case n of None \<Rightarrow> [] | Some n \<Rightarrow> n)"
  have "?t = s \<and> s \<noteq> []"
    using assms unfolding safe_file_name_def by (cases ?t) auto
  moreover have "length ?t \<le> 255" by simp
  ultimately show ?thesis by metis
qed

lemma import_fills_route_Answer:
  assumes "import_fills_route ads now u a f hint d = (Answer su, d')"
  shows "import_fills ads now u a (up_content f) hint (safe_file_name (up_filename f)) d = Inr (su, d')"
    and "length (up_content f) \<le> MAX_UPLOAD_BYTES"
  using assms unfolding import_fills_route_def
  by (auto split: if_splits sum.splits exn.splits import_error.splits py_error.splits)

lemma refused_upload_keeps_db:
  assumes "import_fills_route ads now u a f hint d = (r, d')" and "\<forall>su. r \<noteq> Answer su"
  shows "d' = d"
  using assms unfolding import_fills_route_def
  by (auto split: if_splits sum.splits exn.splits import_error.splits py_error.splits)

text \<open>
  Sending an accepted upload again, under any name, hint and hour, answers 409 and changes
  nothing: a client may retry.
\<close>

lemma repeated_upload_conflicts:
  assumes "import_fills_route get_import_service now u a f hint d = (Answer su, d')"
    and "up_content g = up_content f"
  shows "import_fills_route ads now' u a g hint' d' = (HttpError 409 ''DUPLICATE_IMPORT'', d')"
proof -
  have f: "import_fills [zerodha_adapter] now u a (up_content f) hint (safe_file_name (up_filename f)) d = Inr (su, d')"
    and "length (up_content f) \<le> MAX_UPLOAD_BYTES"
    using import_fills_route_Answer [OF assms(1)] by (simp_all add: get_import_service_def)
  with zerodha.import_settles [OF f [unfolded zerodha_adapter_def]] assms(2) show ?thesis
    unfolding import_fills_route_def by (auto simp: import_settled_def)
qed

lemma others_unchanged:
  assumes "u' \<noteq> u" and "\<And>x. a_user_id (g x) = a_user_id x"
  shows "filter (\<lambda>x. a_user_id x = u') (update_where (\<lambda>x. a_id x = a \<and> a_user_id x = u) g xs) =
    filter (\<lambda>x. a_user_id x = u') xs"
  using assms by (induction xs) (auto simp: update_where_def)

text \<open>The routes over accounts leave the accounts of every other user as they are.\<close>

lemma account_routes_touch_own_rows:
  assumes "u' \<noteq> u"
  shows "list_accounts_route u' (snd (create_account_route now u b d)) = list_accounts_route u' d"
    and "list_accounts_route u' (snd (update_account_route now u a c d)) = list_accounts_route u' d"
    and "list_accounts_route u' (snd (deactivate_account_route now u a d)) = list_accounts_route u' d"
proof -
  have own: "filter (\<lambda>x. a_user_id x = u') (trading_accounts (update_own_account u a g d)) =
      filter (\<lambda>x. a_user_id x = u') (trading_accounts d)" if "\<And>x. a_user_id (g x) = a_user_id x" for g
    using others_unchanged [OF assms that] by (simp add: update_own_account_def)
  show "list_accounts_route u' (snd (create_account_route now u b d)) = list_accounts_route u' d"
    using assms by (auto simp: create_account_route_def list_accounts_route_def account_service_list_def
        list_accounts_for_user_def account_service_create_def create_account_def uuid4_def append_row_def Let_def)
  show "list_accounts_route u' (snd (update_account_route now u a c d)) = list_accounts_route u' d"
    using own [of "account_values now (map_option strip (ua_display_name c)) (ua_account_type c) (ua_starting_capital c)"]
    by (auto simp: update_account_route_def list_accounts_route_def account_service_list_def
        list_accounts_for_user_def account_service_update_def update_account_def Let_def account_values_def
        split: option.splits)
  show "list_accounts_route u' (snd (deactivate_account_route now u a d)) = list_accounts_route u' d"
    using own by (simp add: deactivate_account_route_def list_accounts_route_def account_service_list_def
        list_accounts_for_user_def account_service_deactivate_def deactivate_account_def)
qed

end
