(* ===== verification/Spec2Isabelle.thy ===== *)
theory Spec2Isabelle
  imports Recon_Properties Pnl_Properties Trade_Service_Properties Trades_Api_Properties Calculators_Properties
    Journal_Properties Import_Properties Risk_Properties Auth_Properties Accounts_Api
begin

text \<open>
  TradeForge: a verification library for the trading journal under \<open>src/backend/src/tradeforge\<close>.

  \<^bold>\<open>The program.\<close> A user's broker exports and manual entries become rows of \<open>execution_fills\<close>; the
  reconstruction engine turns the unprocessed fills of one processing unit (user, account,
  instrument, product type) into trades and tax lots; the P and L service computes gross result,
  charges and R-multiple of closed trades; the analytics queries and calculators, the risk summary
  and the dashboard read those rows; the journal adds notes and attachments. A request is from the
  user of its session, which a login has opened in the Redis store. HTTP routes validate requests,
  call the services, commit, and map exceptions to status codes.

  \<^bold>\<open>State.\<close> The database is the record \<open>db\<close> of \<open>Tables\<close>: a list of rows for each table, in the order
  of insertion, and a counter that stands for \<open>uuid4()\<close>, of which the code uses freshness only.
  A query is a filter of its table and a stable sort; what an \<open>ORDER BY\<close> leaves open comes in the order
  of the table, except for the list of trades and the last exit of a trade, where the database's
  choice is a parameter. A service operation takes the state and
  returns \<open>exn + result\<close>: each raise of the source is an \<open>Inl\<close>, with the exceptions of each error
  module as constructors (\<open>Errors\<close>), and what a raise leaves behind is rolled back, as the routes
  do. CHECK constraints and unique indexes that an insertion can violate are checked where the
  session flushes, after the rounding of the \<open>NUMERIC\<close> columns. Clock readings are arguments. The authentication works on a \<open>world\<close> of three
  states: the tables, which an error response rolls back, and the Redis store with the deadlines of
  its keys and the mail sent, which it does not.

  \<^bold>\<open>Numbers.\<close> \<open>Decimals\<close> models Python's \<open>Decimal\<close> in its default context: rational numbers, every
  operation rounded half even to 28 digits, \<open>quantize\<close> with its error when the result has more
  digits, and the roundings of \<open>domain/decimal_config.py\<close>. Integers are unbounded, as in Python;
  SHA-256 works on 32-bit words. Text is a list of bytes; only ASCII letters, digits and blanks are
  recognised as such.

  \<^bold>\<open>Theories\<close>, lowest first.
  \<^item> \<open>Prelude\<close>, \<open>Errors\<close>, \<open>Decimals\<close>, \<open>Tables\<close>, \<open>Text_Time\<close>: results, keyed tables, exceptions,
    arithmetic, rows (\<open>infrastructure/models\<close>), and the functions of \<open>str\<close>, \<open>date\<close>, \<open>datetime\<close> used.
  \<^item> \<open>Trade_Types\<close> (\<open>domain/trade/types.py\<close>), \<open>Repositories\<close> (trade, fill, lot and exclusion
    repositories), \<open>Reconstruction\<close> (\<open>application/trade/reconstruction.py\<close>: \<open>run\<close> as a fold of
    \<open>process_fill\<close>). \<open>Recon_Steps\<close> rewrites each step to exact arithmetic within the limits of the
    columns, \<open>Recon_Frame\<close> says what a step leaves alone, \<open>Recon_Invariant\<close> and \<open>Recon_Runs\<close> carry
    the invariant through the loop, \<open>Recon_Engine\<close> states the contract of a run, \<open>Recon_Episodes\<close>
    the abstract specification by flat-to-flat episodes with the refinement, and
    \<open>Recon_Properties\<close> the properties with their witnesses.
  \<^item> \<open>Pnl_Calculator\<close> (\<open>domain/pnl\<close>), \<open>Pnl_Service\<close> (\<open>application/pnl_service.py\<close> and its
    repositories), \<open>Pnl_Facts\<close>, \<open>Pnl_Properties\<close>.
  \<^item> \<open>Accounts\<close> (\<open>application/trading_account_service.py\<close>), \<open>Instruments\<close>
    (\<open>infrastructure/repositories/instrument_repo.py\<close>), \<open>Fill_Store\<close> (the insertion of a fill, of
    \<open>fill_repo.py\<close>, with the constraints of its table), \<open>Trade_Service\<close>
    (\<open>application/trade_service.py\<close>) with \<open>Trade_Service_Facts\<close> and \<open>Trade_Service_Properties\<close>;
    \<open>Trades_Api\<close> (\<open>api/v1/trades.py\<close>) with \<open>Trades_Api_Properties\<close>.
  \<^item> \<open>Analytics_Types\<close>, \<open>Calculators\<close> (\<open>domain/analytics\<close>) with \<open>Calculators_Facts\<close> and
    \<open>Calculators_Properties\<close>.
  \<^item> \<open>Analytics_Results\<close>, \<open>Analytics_Repo\<close> (\<open>analytics_repo.py\<close>: every query as a function of the
    tables), \<open>Analytics_Service\<close> (\<open>application/analytics_service.py\<close> and the routes that can fail)
    with \<open>Analytics_Properties\<close>; \<open>Risk\<close> (\<open>application/risk_service.py\<close>, \<open>api/v1/risk.py\<close>,
    \<open>api/v1/dashboard.py\<close>) with \<open>Risk_Properties\<close>. What PostgreSQL computes in \<open>numeric\<close> with a
    scale of its own choice (averages, quotients, percentiles) is a parameter; counts and sums are exact.
  \<^item> \<open>Journal_Types\<close>, \<open>Journal\<close> (\<open>application/journal\<close> and \<open>journal_repo.py\<close>), \<open>Journal_Api\<close>
    (\<open>api/v1/journal.py\<close>), \<open>Journal_Properties\<close>: the journal as a state machine of requests and
    uploads. The object store is a parameter (\<open>storage_port\<close>), with the code's stub as an instance.
  \<^item> \<open>Csv\<close> (the reader of Python's \<open>csv\<close> as its state machine, the UTF-8 codec), \<open>Broker_Adapter\<close>
    (\<open>broker_adapter_port.py\<close>: the contract of an adapter as a locale), \<open>Zerodha_Adapter\<close>
    (\<open>zerodha_adapter.py\<close>) with \<open>Zerodha_Properties\<close>, where the contract is discharged for every
    file; \<open>Sha256\<close>; \<open>Import_Service\<close> (\<open>application/import_service.py\<close>) with \<open>Import_Properties\<close>,
    where the pipeline is proved over any adapter that keeps the contract.
  \<^item> \<open>Auth_Sessions\<close> (\<open>session_repo.py\<close>), \<open>Auth_Service\<close> (\<open>domain/auth\<close>, \<open>user_repo.py\<close>,
    \<open>auth_repo.py\<close>, \<open>application/auth/service.py\<close>), \<open>Auth_Api\<close> (\<open>deps.py\<close>, \<open>auth.py\<close>, \<open>users.py\<close> of
    \<open>api/v1\<close>). \<open>Auth_Facts\<close> says which actions leave a view of the store alone (the locale
    \<open>redis_view\<close>) and carries an invariant of the sessions through sequences of requests;
    \<open>Auth_Properties\<close> has the properties. Argon2, the breach service, the mail transport and the
    random tokens are the record \<open>auth_env\<close>.
  \<^item> \<open>Accounts_Api\<close> (\<open>api/v1/accounts.py\<close>, \<open>api/v1/imports.py\<close>): the routes over accounts and the
    upload of a file, with the retry of an accepted upload.

  \<^bold>\<open>What the lemmas show.\<close> C1 to C9: runs of the engine keep the state of their unit, end in one of
  the listed outcomes, conserve positions, touch nothing else, are idempotent and
  implement the episodes. C10 to C13: the P and L calculation is total within explicit limits, its
  charges add up, storing round-trips, and the backfill and the recalculation write nothing else.
  C14 to C21: manual trades, deletion, accounts, instruments and the routes over them. C22 to C25:
  the calculators against their reference definitions. C26 and C27: attachments. C28 to C30:
  the adapter and the import. C31 to C35: the breakdowns partition the totals, figures depend on the
  user's own rows, the equity curve is the running sum, and which requests fail or tell too much.
  C36 to C39: where sessions come from and what ends them, the limit on guessing, and what the answers
  tell about accounts. Some properties state a defect of the code, with the sample that shows
  it; the theorems that are only a sample of one stand beside them without a number.

  \<^bold>\<open>Bounds and fuel.\<close> No definition has fuel: every loop is a fold over a list or has a termination
  proof (\<open>all_records\<close> of \<open>Csv\<close> by the lines left, \<open>isqrt\<close> by its argument). The exactness of the
  engine assumes quantities and prices with four places, prices up to a billion and a volume of a
  unit below ten billion, which keeps every sum and product below 28 digits; the limits of the
  P and L calculation are those of \<open>sane_closed\<close> and \<open>sane_schedule\<close>.

  \<^bold>\<open>Not modelled.\<close> The identity map of the ORM beyond what a refresh shows (the session keeps an
  inserted object only until its flush, so the engine reads a fill as the table stores it), row
  locks (a run is one transaction), the bookkeeping times \<open>calculated_at\<close> and \<open>updated_at\<close> of trades, log messages, JSON text, the AWS client of the object store, the exponent range and
  signed zero of \<open>Decimal\<close>; a price of infinity is refused in the row instead of at its insertion.
  A mail is its receiver, subject and link; the HTTP client of the breach service, the mail
  transports, the parsing of networks and addresses, the attributes of the cookie, \<open>updated_at\<close> of
  users and the user agent of an audit event are left out, and so are the analytics routes and
  response schemas that copy a result field by field. A Redis server is up or down for a whole
  request, and a request of the authentication reads one clock. \<open>main.py\<close> with its CSRF middleware,
  settings and connections is the wiring of the process; the migrations only create tables; the
  frontend is another language.
\<close>

end
